(* ===== verification/WP_Prelude.thy ===== *)
theory WP_Prelude imports Main "HOL-Library.Word" begin

text \<open>
  Shared vocabulary of the wolfP11 development: the machine types, byte slices, the
  big-endian reading of byte lists, and the generic facts on lists and words that the
  component theories use.  \<open>uint8_t\<close> is \<open>8 word\<close>; \<open>size_t\<close> lengths of buffers that exist
  in memory are \<open>nat\<close> (they are lengths of lists, so they cannot wrap); where the code
  adds a length that an attacker controls, the sum is written out modulo the width.
  A pointer argument that the code compares with \<open>NULL\<close> is an \<open>option\<close>, or one
  boolean that says that all the pointers the function tests are non-\<open>NULL\<close>.
\<close>

unbundle bit_operations_syntax

type_synonym byte = "8 word"
type_synonym u16 = "16 word"
type_synonym u32 = "32 word"

named_theorems byte_simps \<open>arithmetic of bytes read as naturals\<close>
named_theorems err_defs \<open>unfolding of guard-and-error definitions\<close>

section \<open>Slices of byte buffers\<close>

text \<open>\<open>bslice xs i n\<close> is what \<open>memcpy(dst, xs + i, n)\<close> reads.\<close>

definition bslice :: "'a list \<Rightarrow> nat \<Rightarrow> nat \<Rightarrow> 'a list" where
  "bslice xs i n = take n (drop i xs)"

lemma length_bslice [simp]: "i + n \<le> length xs \<Longrightarrow> length (bslice xs i n) = n"
  by (simp add: bslice_def)

lemma length_bslice_le: "length (bslice xs i n) \<le> n"
  by (simp add: bslice_def)

lemma length_bslice_min: "length (bslice xs i n) = min n (length xs - i)"
  by (simp add: bslice_def min.commute)

lemma length_bslice_le_all: "length (bslice xs i n) \<le> length xs"
  by (simp add: bslice_def)

lemma bslice_0 [simp]: "bslice xs i 0 = []"
  by (simp add: bslice_def)

lemma bslice_append_right: "length xs \<le> i \<Longrightarrow> bslice (xs @ ys) i n = bslice ys (i - length xs) n"
  by (simp add: bslice_def)

lemma bslice_append_left: "i + n \<le> length xs \<Longrightarrow> bslice (xs @ ys) i n = bslice xs i n"
  by (simp add: bslice_def)

lemma bslice_middle: "length xs = i \<Longrightarrow> length ys = n \<Longrightarrow> bslice (xs @ ys @ zs) i n = ys"
  by (simp add: bslice_def)

lemma bslice_end: "length xs = i \<Longrightarrow> length ys = n \<Longrightarrow> bslice (xs @ ys) i n = ys"
  by (simp add: bslice_def)

lemma bslice_start: "length xs = n \<Longrightarrow> bslice (xs @ ys) 0 n = xs"
  by (simp add: bslice_def)

lemma nth_append_length_plus: "(xs @ ys) ! (length xs + i) = ys ! i"
  by (simp add: nth_append)

section \<open>Bytes as numbers\<close>

text \<open>The value of a big-endian byte string: \<open>(b0 << 8 | b1) << 8 | \<dots>\<close>.\<close>

fun be_val :: "byte list \<Rightarrow> nat" where
  "be_val [] = 0"
| "be_val (b # bs) = unat b * 256 ^ length bs + be_val bs"

definition byte_of :: "nat \<Rightarrow> byte" where
  "byte_of n = word_of_nat n"

lemma unat_byte_of [byte_simps]: "unat (byte_of n) = n mod 256"
  by (simp add: byte_of_def unat_of_nat)

lemma byte_of_inject: "m < 256 \<Longrightarrow> n < 256 \<Longrightarrow> byte_of m = byte_of n \<longleftrightarrow> m = n"
  by (metis mod_less unat_byte_of)

lemma unat_byte_less [simp]: "unat (b :: byte) < 256"
proof -
  have "unat b < 2 ^ LENGTH(8)" by (rule unsigned_less)
  then show ?thesis by simp
qed

lemma unat_byte_le [simp]: "unat (b :: byte) \<le> 255"
  using unat_byte_less [of b] by linarith

lemma byte_of_unat [simp]: "byte_of (unat b) = b"
  by (simp add: byte_of_def)

lemma be_val_bound: "be_val bs < 256 ^ length bs"
proof (induction bs)
  case Nil
  then show ?case by simp
next
  case (Cons b bs)
  have "unat b \<le> 255" by simp
  then have "unat b * 256 ^ length bs \<le> 255 * 256 ^ length bs"
    by (rule mult_le_mono1)
  moreover have "be_val (b # bs) = unat b * 256 ^ length bs + be_val bs"
    and "(256::nat) ^ length (b # bs) = 255 * 256 ^ length bs + 256 ^ length bs" by simp_all
  ultimately show ?case using Cons.IH by linarith
qed

lemma be_val_1 [simp]: "be_val [a] = unat a"
  by simp

lemma be_val_2: "be_val [a, b] = unat a * 256 + unat b"
  by simp

lemma be_val_4: "be_val [a, b, c, d] = ((unat a * 256 + unat b) * 256 + unat c) * 256 + unat d"
  by simp

lemma be_val_bytes_2: "n < 65536 \<Longrightarrow> be_val [byte_of (n div 256), byte_of n] = n"
  by (simp add: byte_simps)

lemma radix_256: "n = 256 * c + d \<Longrightarrow> c = 256 * b + e \<Longrightarrow> b = 256 * a + f \<Longrightarrow>
    ((a * 256 + f) * 256 + e) * 256 + d = (n :: nat)"
  by simp

lemma be_val_bytes_4:
  assumes "n < 4294967296"
  shows "be_val [byte_of (n div 16777216), byte_of (n div 65536), byte_of (n div 256), byte_of n] = n"
proof -
  let ?a = "n div 16777216" and ?b = "n div 65536" and ?c = "n div 256"
  have a: "?a mod 256 = ?a" using assms by simp
  have "n = 256 * ?c + n mod 256" by simp
  moreover have "?c = 256 * ?b + ?c mod 256"
    using div_mult2_eq [of n 256 256] mult_div_mod_eq [of 256 ?c] by simp
  moreover have "?b = 256 * ?a + ?b mod 256"
    using div_mult2_eq [of n 65536 256] mult_div_mod_eq [of 256 ?b] by simp
  ultimately have "((?a mod 256 * 256 + ?b mod 256) * 256 + ?c mod 256) * 256 + n mod 256 = n"
    unfolding a by (rule radix_256)
  then show ?thesis by (simp only: be_val_4 unat_byte_of)
qed

section \<open>Results\<close>

text \<open>A fallible operation returns \<open>Inl\<close> of its error code or \<open>Inr\<close> of its value.\<close>

abbreviation is_ok :: "'e + 'a \<Rightarrow> bool" where
  "is_ok r \<equiv> (\<exists>x. r = Inr x)"

lemma is_ok_iff: "is_ok r \<longleftrightarrow> (\<forall>e. r \<noteq> Inl e)"
  by (cases r) auto

lemma not_isl_is_ok: "\<not> isl r \<longleftrightarrow> is_ok r"
  by (cases r) auto

lemma snd_case_sum: "snd (case r of Inl e \<Rightarrow> (s, f e) | Inr x \<Rightarrow> (s, g x)) = (case r of Inl e \<Rightarrow> f e | Inr x \<Rightarrow> g x)"
  by (cases r) auto

section \<open>C strings\<close>

text \<open>
  A C string is the bytes before the first NUL.  \<open>strcmp(a, b) == 0\<close> compares these
  prefixes, whatever follows the NUL in the buffer.
\<close>

definition cstr :: "byte list \<Rightarrow> byte list" where
  "cstr bs = takeWhile (\<lambda>b. b \<noteq> 0) bs"

definition str :: "string \<Rightarrow> byte list" where
  "str s = map (\<lambda>c. word_of_nat (of_char c)) s"

lemma cstr_id: "0 \<notin> set bs \<Longrightarrow> cstr bs = bs"
  by (auto simp: cstr_def takeWhile_eq_all_conv)

lemma length_cstr_le: "length (cstr bs) \<le> length bs"
  by (simp add: cstr_def length_takeWhile_le)

lemma cstr_no_nul: "0 \<notin> set (cstr bs)"
  by (auto simp: cstr_def dest: set_takeWhileD)

end
