(* ===== verification/TokenDb.thy ===== *)
theory TokenDb imports WP_Prelude begin

text \<open>
  The USB token database (\<open>wolfp11/wp11_token_db.h\<close>, \<open>src/wp11_token_db.c\<close>): the
  protocol selectors, the quirk and algorithm masks, the static table and its lookup.
\<close>

datatype wp11_proto =
    PROTO_SOFT | PROTO_PIV | PROTO_OPENPGP | PROTO_PKCS15 | PROTO_FLASH | PROTO_WOLFHSM | PROTO_FSDIR

fun proto_code :: "wp11_proto \<Rightarrow> nat" where
  "proto_code PROTO_SOFT = 0"
| "proto_code PROTO_PIV = 1"
| "proto_code PROTO_OPENPGP = 2"
| "proto_code PROTO_PKCS15 = 3"
| "proto_code PROTO_FLASH = 4"
| "proto_code PROTO_WOLFHSM = 5"
| "proto_code PROTO_FSDIR = 6"

definition QUIRK_NONE :: u32 where "QUIRK_NONE = 0x00000000"
definition QUIRK_NO_PSS :: u32 where "QUIRK_NO_PSS = 0x00000001"
definition QUIRK_SHORT_APDU :: u32 where "QUIRK_SHORT_APDU = 0x00000002"
definition QUIRK_EXTENDED_APDU :: u32 where "QUIRK_EXTENDED_APDU = 0x00000004"

definition ALGO_RSA2048 :: u32 where "ALGO_RSA2048 = 0x00000001"
definition ALGO_RSA4096 :: u32 where "ALGO_RSA4096 = 0x00000002"
definition ALGO_EC_P256 :: u32 where "ALGO_EC_P256 = 0x00000010"
definition ALGO_EC_P384 :: u32 where "ALGO_EC_P384 = 0x00000020"
definition ALGO_ED25519 :: u32 where "ALGO_ED25519 = 0x00000100"

record wp11_token_desc =
  usb_vid :: u16
  usb_pid :: u16
  tok_name :: string
  tok_proto :: wp11_proto
  quirks :: u32
  algos :: u32

definition wp11_token_db :: "wp11_token_desc list" where
  "wp11_token_db =
    [\<lparr>usb_vid = 0x1050, usb_pid = 0x0407, tok_name = ''YubiKey 5 NFC'', tok_proto = PROTO_PIV,
      quirks = QUIRK_EXTENDED_APDU, algos = ALGO_RSA2048 OR ALGO_EC_P256 OR ALGO_EC_P384\<rparr>,
     \<lparr>usb_vid = 0x1050, usb_pid = 0x0406, tok_name = ''YubiKey 5C'', tok_proto = PROTO_PIV,
      quirks = QUIRK_EXTENDED_APDU, algos = ALGO_RSA2048 OR ALGO_EC_P256 OR ALGO_EC_P384\<rparr>,
     \<lparr>usb_vid = 0x1050, usb_pid = 0x0410, tok_name = ''YubiKey 5 Nano'', tok_proto = PROTO_PIV,
      quirks = QUIRK_EXTENDED_APDU, algos = ALGO_RSA2048 OR ALGO_EC_P256\<rparr>,
     \<lparr>usb_vid = 0x20A0, usb_pid = 0x4108, tok_name = ''NitroKey HSM 2'', tok_proto = PROTO_PIV,
      quirks = QUIRK_EXTENDED_APDU, algos = ALGO_RSA2048 OR ALGO_EC_P256\<rparr>,
     \<lparr>usb_vid = 0x20A0, usb_pid = 0x4109, tok_name = ''NitroKey Pro 2'', tok_proto = PROTO_OPENPGP,
      quirks = QUIRK_NONE, algos = ALGO_RSA2048 OR ALGO_EC_P256\<rparr>,
     \<lparr>usb_vid = 0x096E, usb_pid = 0x0608, tok_name = ''Feitian ePass3003'', tok_proto = PROTO_PIV,
      quirks = QUIRK_SHORT_APDU, algos = ALGO_RSA2048 OR ALGO_EC_P256\<rparr>,
     \<lparr>usb_vid = 0x096E, usb_pid = 0x0858, tok_name = ''Feitian FIDO K9'', tok_proto = PROTO_PIV,
      quirks = QUIRK_SHORT_APDU, algos = ALGO_RSA2048 OR ALGO_EC_P256\<rparr>]"

definition wp11_token_db_fallback :: wp11_token_desc where
  "wp11_token_db_fallback =
     \<lparr>usb_vid = 0x0000, usb_pid = 0x0000, tok_name = ''Generic PIV Token'', tok_proto = PROTO_PIV,
      quirks = QUIRK_SHORT_APDU, algos = ALGO_RSA2048 OR ALGO_EC_P256\<rparr>"

text \<open>The loop returns the first row that matches; \<open>NULL\<close> is \<open>None\<close>.\<close>

fun db_scan :: "wp11_token_desc list \<Rightarrow> u16 \<Rightarrow> u16 \<Rightarrow> wp11_token_desc option" where
  "db_scan [] vid pid = None"
| "db_scan (d # ds) vid pid =
     (if usb_vid d = vid \<and> usb_pid d = pid then Some d else db_scan ds vid pid)"

definition wp11_token_db_lookup :: "u16 \<Rightarrow> u16 \<Rightarrow> wp11_token_desc option" where
  "wp11_token_db_lookup vid pid = db_scan wp11_token_db vid pid"

definition wp11_token_db_lookup_unknown :: wp11_token_desc where
  "wp11_token_db_lookup_unknown = wp11_token_db_fallback"

definition wp11_token_db_count :: nat where
  "wp11_token_db_count = length wp11_token_db"

lemmas db_masks = QUIRK_NONE_def QUIRK_NO_PSS_def QUIRK_SHORT_APDU_def QUIRK_EXTENDED_APDU_def
  ALGO_RSA2048_def ALGO_RSA4096_def ALGO_EC_P256_def ALGO_EC_P384_def ALGO_ED25519_def

section \<open>Lookup over any table\<close>

lemma db_scan_Some: "db_scan ds vid pid = Some d \<Longrightarrow> d \<in> set ds \<and> usb_vid d = vid \<and> usb_pid d = pid"
  by (induction ds) (auto split: if_splits)

lemma db_scan_None: "db_scan ds vid pid = None \<longleftrightarrow> (\<forall>d \<in> set ds. usb_vid d \<noteq> vid \<or> usb_pid d \<noteq> pid)"
  by (induction ds) auto

lemma db_scan_distinct:
  assumes "distinct (map (\<lambda>d. (usb_vid d, usb_pid d)) ds)" "d \<in> set ds"
  shows "db_scan ds (usb_vid d) (usb_pid d) = Some d"
  using assms by (induction ds) force+

lemma token_db_distinct: "distinct (map (\<lambda>d. (usb_vid d, usb_pid d)) wp11_token_db)"
  by (simp add: wp11_token_db_def)

section \<open>What the rest of the library relies on\<close>

lemma db_rows:
  "d \<in> set wp11_token_db \<Longrightarrow> usb_vid d \<noteq> 0 \<and> tok_proto d \<in> {PROTO_PIV, PROTO_OPENPGP}
     \<and> length (tok_name d) \<le> 32 \<and> quirks d AND (QUIRK_SHORT_APDU OR QUIRK_EXTENDED_APDU) \<noteq> QUIRK_SHORT_APDU OR QUIRK_EXTENDED_APDU"
  by (auto simp: wp11_token_db_def db_masks)

section \<open>Properties\<close>

text \<open>Token lookup is exact: \<open>wp11_token_db_lookup\<close> returns a row exactly when that row of
  the table carries the vendor and product id asked for, the answer is unique, and \<open>NULL\<close> means that no
  row has them.\<close>
theorem token_db_lookup_exact:
  "(wp11_token_db_lookup vid pid = Some d \<longleftrightarrow> d \<in> set wp11_token_db \<and> usb_vid d = vid \<and> usb_pid d = pid)
   \<and> (wp11_token_db_lookup vid pid = None \<longleftrightarrow> (vid, pid) \<notin> set (map (\<lambda>d. (usb_vid d, usb_pid d)) wp11_token_db))"
proof -
  have "wp11_token_db_lookup vid pid = Some d \<longleftrightarrow> d \<in> set wp11_token_db \<and> usb_vid d = vid \<and> usb_pid d = pid"
    using db_scan_Some db_scan_distinct [OF token_db_distinct] unfolding wp11_token_db_lookup_def by blast
  moreover have "wp11_token_db_lookup vid pid = None \<longleftrightarrow> (vid, pid) \<notin> set (map (\<lambda>d. (usb_vid d, usb_pid d)) wp11_token_db)"
    unfolding wp11_token_db_lookup_def db_scan_None by force
  ultimately show ?thesis by blast
qed

end
