(* ===== verification/BerTlv.thy ===== *)
theory BerTlv imports WP_Prelude begin

text \<open>
  The BER-TLV helpers of the PIV protocol (\<open>src/wp11_proto_piv.c\<close>): decoding and encoding a
  length field, and matching one element with a one-byte tag inside a bounded window.
  The pointers of these static functions are always addresses of local buffers, so their
  \<open>NULL\<close> tests have no counterpart; \<open>None\<close> is the code's -1 and 0.
\<close>

definition ber_len_decode :: "byte list \<Rightarrow> (nat \<times> nat) option" where
  "ber_len_decode buf =
     (if length buf = 0 then None
      else if buf ! 0 \<le> 0x7F then Some (unat (buf ! 0), 1)
      else if buf ! 0 = 0x81 then
        (if length buf < 2 then None else Some (unat (buf ! 1), 2))
      else if buf ! 0 = 0x82 then
        (if length buf < 3 then None else Some (be_val [buf ! 1, buf ! 2], 3))
      else None)"

definition ber_len_encode :: "nat \<Rightarrow> byte list option" where
  "ber_len_encode val =
     (if val > 0xFFFF then None
      else if val \<le> 0x7F then Some [byte_of val]
      else if val \<le> 0xFF then Some [0x81, byte_of val]
      else Some [0x82, byte_of (val div 256), byte_of val])"

datatype tlv_err = TLV_ERR_TAG | TLV_ERR_ENC

text \<open>
  \<open>tlv_expect buf pos end tag\<close> returns the position of the value and its length.  The
  window \<open>[pos, end)\<close> lies inside the buffer at every call.
\<close>

definition tlv_expect :: "byte list \<Rightarrow> nat \<Rightarrow> nat \<Rightarrow> byte \<Rightarrow> tlv_err + nat \<times> nat" where
  "tlv_expect buf pos win_end expected_tag =
     (if pos \<ge> win_end then Inl TLV_ERR_ENC
      else if buf ! pos \<noteq> expected_tag then Inl TLV_ERR_TAG
      else case ber_len_decode (bslice buf (pos + 1) (win_end - (pos + 1))) of
        None \<Rightarrow> Inl TLV_ERR_ENC
      | Some (vlen, consumed) \<Rightarrow>
          (let pos' = pos + 1 + consumed in
           if vlen > win_end - pos' then Inl TLV_ERR_ENC else Inr (pos', vlen)))"

section \<open>Length fields\<close>

lemma ber_len_encode_Some: "ber_len_encode v = Some bs \<Longrightarrow> v \<le> 0xFFFF \<and> 1 \<le> length bs \<and> length bs \<le> 3"
  by (auto simp: ber_len_encode_def split: if_splits)

lemma ber_len_encode_defined: "v \<le> 0xFFFF \<Longrightarrow> \<exists>bs. ber_len_encode v = Some bs"
  by (simp add: ber_len_encode_def)

lemma length_ber_len_encode:
  "ber_len_encode v = Some bs \<Longrightarrow> length bs = (if v \<le> 0x7F then 1 else if v \<le> 0xFF then 2 else 3)"
  by (auto simp: ber_len_encode_def split: if_splits)

lemma ber_len_decode_encode:
  assumes "ber_len_encode v = Some bs"
  shows "ber_len_decode (bs @ rest) = Some (v, length bs)"
proof -
  have "byte_of v \<le> 0x7F" if "v \<le> 0x7F"
    using that by (simp add: word_le_nat_alt byte_simps)
  with assms show ?thesis
    by (auto simp: ber_len_encode_def ber_len_decode_def byte_simps split: if_splits)
qed

lemma ber_len_decode_Some:
  "ber_len_decode buf = Some (v, c) \<Longrightarrow> 1 \<le> c \<and> c \<le> 3 \<and> c \<le> length buf \<and> v \<le> 0xFFFF"
proof -
  assume d: "ber_len_decode buf = Some (v, c)"
  have "unat a * 256 + unat b \<le> 65535" for a b :: byte
    using unat_byte_le [of a] unat_byte_le [of b] by linarith
  moreover have "unat a \<le> 65535" for a :: byte
    using unat_byte_le [of a] by linarith
  ultimately show ?thesis using d
    by (auto simp: ber_len_decode_def Suc_le_eq split: if_splits)
qed

section \<open>One element\<close>

definition tlv :: "byte \<Rightarrow> byte list \<Rightarrow> byte list" where
  "tlv tag body = (case ber_len_encode (length body) of None \<Rightarrow> [] | Some l \<Rightarrow> tag # l @ body)"

lemma length_tlv:
  "length body \<le> 0xFFFF \<Longrightarrow> length (tlv tag body)
     = 1 + (if length body \<le> 0x7F then 1 else if length body \<le> 0xFF then 2 else 3) + length body"
  by (auto simp: tlv_def ber_len_encode_def)

lemma tlv_expect_bounds:
  "tlv_expect buf pos e tag = Inr (p, n) \<Longrightarrow> pos + 2 \<le> p \<and> p + n \<le> e \<and> buf ! pos = tag"
  by (auto simp: tlv_expect_def Let_def bslice_def dest: ber_len_decode_Some split: if_splits option.splits)

lemma tlv_expect_tlv:
  assumes "length body \<le> 0xFFFF" "pos = length pre" "buf = pre @ tlv tag body @ post"
    and "length pre + length (tlv tag body) \<le> e" "e \<le> length buf"
  shows "tlv_expect buf pos e tag = Inr (pos + length (tlv tag body) - length body, length body)"
proof -
  from assms(1) obtain l where l: "ber_len_encode (length body) = Some l"
    using ber_len_encode_defined by blast
  then have t: "tlv tag body = tag # l @ body" by (simp add: tlv_def)
  have "bslice buf (pos + 1) (e - (pos + 1)) = l @ body @ take (e - (pos + 1 + length l + length body)) post"
    using assms t by (simp add: bslice_def)
  then have "ber_len_decode (bslice buf (pos + 1) (e - (pos + 1))) = Some (length body, length l)"
    using ber_len_decode_encode [OF l] by simp
  then show ?thesis using assms(2-5) t
    by (simp add: tlv_expect_def Let_def nth_append)
qed

lemma bslice_tlv:
  assumes "length body \<le> 0xFFFF" "buf = pre @ tlv tag body @ post"
  shows "bslice buf (length pre + length (tlv tag body) - length body) (length body) = body"
proof -
  from assms(1) obtain l where "ber_len_encode (length body) = Some l"
    using ber_len_encode_defined by blast
  then show ?thesis using assms(2) by (simp add: tlv_def bslice_def)
qed

section \<open>Properties\<close>

text \<open>The BER length codec round-trips: every length the encoder accepts, up to the
  two-byte long form's maximum 65535, is decoded from its encoding, with exactly the
  encoded bytes consumed, whatever follows; and the encoder refuses exactly the others.\<close>
theorem ber_len_roundtrip:
  "(case ber_len_encode v of
      Some bs \<Rightarrow> v \<le> 65535 \<and> ber_len_decode (bs @ rest) = Some (v, length bs)
    | None \<Rightarrow> v > 65535)"
proof (cases "ber_len_encode v")
  case None
  then have "\<not> v \<le> 65535" using ber_len_encode_defined [of v] by auto
  with None show ?thesis by simp
next
  case (Some bs)
  then show ?thesis using ber_len_decode_encode [OF Some] ber_len_encode_Some [OF Some] by simp
qed

text \<open>Matching an element is exact and never leaves its window: on a well-formed element
  that fits the window, between any bytes before and after it, \<open>tlv_expect\<close> succeeds with the
  position and length of precisely the element's value, inside \<open>[pos, end)\<close>.\<close>
theorem tlv_expect_exact:
  assumes "length body \<le> 65535" "length pre + length (tlv tag body) \<le> e"
    and "e \<le> length (pre @ tlv tag body @ post)"
  shows "\<exists>p. tlv_expect (pre @ tlv tag body @ post) (length pre) e tag = Inr (p, length body)
      \<and> bslice (pre @ tlv tag body @ post) p (length body) = body
      \<and> length pre + 2 \<le> p \<and> p + length body \<le> e"
  using tlv_expect_tlv [OF assms(1) refl refl assms(2,3)] bslice_tlv [OF assms(1) refl]
    tlv_expect_bounds by blast

theorem tlv_expect_exact_witness:
  "\<exists>p. tlv_expect ([9] @ tlv 0x7C [1, 2] @ [7]) 1 5 0x7C = Inr (p, 2)
      \<and> bslice ([9] @ tlv 0x7C [1, 2] @ [7]) p 2 = [1, 2] \<and> 1 + 2 \<le> p \<and> p + 2 \<le> 5"
proof -
  have "length (tlv 0x7C [1, 2 :: byte]) = 4" by (simp add: length_tlv)
  then show ?thesis using tlv_expect_exact [of "[1, 2]" "[9]" "0x7C" 5 "[7]"] by (simp add: numeral_2_eq_2)
qed

end
