(* ===== verification/ApduChannel.thy ===== *)
theory ApduChannel imports WP_Prelude begin

text \<open>
  What the protocol layers (PIV, OpenPGP) use of the transport: one operation that sends a
  command and returns the response bytes.  The exchanges that every protocol function
  repeats are written once over that operation: send and split off the status word, and
  send with the single retry on \<open>SW 6C xx\<close>.  The locale \<open>apdu_channel\<close> states what the
  transport promises; \<open>Piv\<close> and \<open>OpenPgp\<close> prove their bounds from it and the CCID
  transport interprets it.
\<close>

datatype xfer_fail = XF_TRANSPORT | XF_TRUNCATED

text \<open>\<open>piv_get_sw\<close> and \<open>extract_sw\<close>: the last two bytes, or 0 0 when there are fewer.\<close>

definition get_sw :: "byte list \<Rightarrow> byte \<times> byte" where
  "get_sw resp = (if length resp < 2 then (0, 0) else (resp ! (length resp - 2), resp ! (length resp - 1)))"

definition exchange ::
  "('s \<Rightarrow> byte list \<Rightarrow> nat \<Rightarrow> 's \<times> ('e + byte list)) \<Rightarrow> 's \<Rightarrow> byte list \<Rightarrow> nat
     \<Rightarrow> 's \<times> (xfer_fail + byte list \<times> byte \<times> byte)" where
  "exchange xfer s cmd cap =
     (let (s1, r) = xfer s cmd cap in
      case r of Inl e \<Rightarrow> (s1, Inl XF_TRANSPORT)
      | Inr resp \<Rightarrow> (s1, if length resp < 2 then Inl XF_TRUNCATED else Inr (resp, get_sw resp)))"

text \<open>\<open>SW 6C xx\<close>: patch the last command byte (Le) with \<open>xx\<close> and send once more.\<close>

definition exchange_6c ::
  "('s \<Rightarrow> byte list \<Rightarrow> nat \<Rightarrow> 's \<times> ('e + byte list)) \<Rightarrow> 's \<Rightarrow> byte list \<Rightarrow> nat
     \<Rightarrow> 's \<times> (xfer_fail + byte list \<times> byte \<times> byte)" where
  "exchange_6c xfer s cmd cap =
     (let (s1, r) = exchange xfer s cmd cap in
      case r of Inl e \<Rightarrow> (s1, Inl e)
      | Inr (resp, sw1, sw2) \<Rightarrow>
          if sw1 = 0x6C then exchange xfer s1 (cmd[length cmd - 1 := sw2]) cap
          else (s1, Inr (resp, sw1, sw2)))"

lemma get_sw_append [simp]: "get_sw (d @ [a, b]) = (a, b)"
  by (simp add: get_sw_def nth_append)

lemma exchange_answer: "xfer s cmd cap = (s', Inr (d @ [a, b])) \<Longrightarrow> exchange xfer s cmd cap = (s', Inr (d @ [a, b], a, b))"
  by (simp add: exchange_def)

lemma exchange_6c_answer:
  "xfer s cmd cap = (s', Inr (d @ [a, b])) \<Longrightarrow> a \<noteq> 0x6C \<Longrightarrow>
     exchange_6c xfer s cmd cap = (s', Inr (d @ [a, b], a, b))"
  by (simp add: exchange_6c_def exchange_answer)

lemma exchange_6c_retry:
  "xfer s cmd cap = (s', Inr (d @ [0x6C, b])) \<Longrightarrow>
     exchange_6c xfer s cmd cap = exchange xfer s' (cmd[length cmd - 1 := b]) cap"
  by (simp add: exchange_6c_def exchange_answer)

locale apdu_channel =
  fixes xfer :: "'s \<Rightarrow> byte list \<Rightarrow> nat \<Rightarrow> 's \<times> ('e + byte list)"
    and dead :: "'s \<Rightarrow> bool"
  assumes xfer_cap: "xfer s cmd cap = (s', Inr r) \<Longrightarrow> length r \<le> cap"
    and xfer_limit: "xfer s cmd cap = (s', Inr r) \<Longrightarrow> length cmd \<le> 512"
    and xfer_dead: "dead s \<Longrightarrow> fst (xfer s cmd cap) = s \<and> \<not> is_ok (snd (xfer s cmd cap))"
begin

lemma exchange_ok:
  "exchange xfer s cmd cap = (s', Inr (resp, sw1, sw2)) \<Longrightarrow>
     length cmd \<le> 512 \<and> length resp \<le> cap \<and> 2 \<le> length resp \<and> (sw1, sw2) = get_sw resp"
  by (auto simp: exchange_def dest: xfer_cap xfer_limit split: prod.splits sum.splits if_splits)

lemma exchange_6c_ok:
  "exchange_6c xfer s cmd cap = (s', Inr (resp, sw1, sw2)) \<Longrightarrow>
     length resp \<le> cap \<and> 2 \<le> length resp \<and> (sw1, sw2) = get_sw resp"
  by (auto simp: exchange_6c_def dest: exchange_ok split: prod.splits sum.splits if_splits)

lemma exchange_dead: "dead s \<Longrightarrow> exchange xfer s cmd cap = (s, Inl XF_TRANSPORT)"
  using xfer_dead [of s cmd cap] by (auto simp: exchange_def split: prod.splits sum.splits)

lemma exchange_6c_dead: "dead s \<Longrightarrow> exchange_6c xfer s cmd cap = (s, Inl XF_TRANSPORT)"
  by (simp add: exchange_6c_def exchange_dead)

end

end
