(* ===== verification/Ccid.thy ===== *)
theory Ccid imports ApduChannel begin

text \<open>
  The CCID transport (\<open>wolfp11/wp11_ccid.h\<close>, \<open>src/wp11_ccid.c\<close>): opening a reader,
  framing an APDU as \<open>PC_to_RDR_XfrBlock\<close>, validating the \<open>RDR_to_PC_DataBlock\<close> answer,
  the sequence counter and the sticky desynchronisation flag.  libusb and the mock
  transport are not code of the repository: they are the fields of the record
  \<open>usb_env\<close>, over a device state of any type, and every definition takes them as an
  argument.
\<close>

section \<open>Error codes and constants\<close>

datatype ccid_err =
    CCID_ERR_PARAM | CCID_ERR_USB | CCID_ERR_STATUS | CCID_ERR_SEQ | CCID_ERR_BUFSIZE
  | CCID_ERR_NOMEM | CCID_ERR_NOTFOUND | CCID_ERR_TIMEOUT | CCID_ERR_NO_CARD

fun ccid_code :: "ccid_err \<Rightarrow> int" where
  "ccid_code CCID_ERR_PARAM = -1"
| "ccid_code CCID_ERR_USB = -2"
| "ccid_code CCID_ERR_STATUS = -3"
| "ccid_code CCID_ERR_SEQ = -4"
| "ccid_code CCID_ERR_BUFSIZE = -5"
| "ccid_code CCID_ERR_NOMEM = -6"
| "ccid_code CCID_ERR_NOTFOUND = -7"
| "ccid_code CCID_ERR_TIMEOUT = -8"
| "ccid_code CCID_ERR_NO_CARD = -9"

definition CCID_HEADER_LEN :: nat where "CCID_HEADER_LEN = 10"
definition CCID_MSG_PC_TO_RDR_XFRBLOCK :: byte where "CCID_MSG_PC_TO_RDR_XFRBLOCK = 0x6F"
definition CCID_MSG_RDR_TO_PC_DATABLOCK :: byte where "CCID_MSG_RDR_TO_PC_DATABLOCK = 0x80"
definition USB_CLASS_CCID :: byte where "USB_CLASS_CCID = 0x0B"
definition USB_EP_DIR_IN :: byte where "USB_EP_DIR_IN = 0x80"

text \<open>\<open>(uint32_t)(SIZE_MAX - CCID_HEADER_LEN)\<close>: the same on 32-bit and 64-bit targets.\<close>

definition DW_LENGTH_MAX :: u32 where "DW_LENGTH_MAX = - 1 - 10"

lemmas ccid_consts = CCID_HEADER_LEN_def CCID_MSG_PC_TO_RDR_XFRBLOCK_def
  CCID_MSG_RDR_TO_PC_DATABLOCK_def USB_CLASS_CCID_def USB_EP_DIR_IN_def DW_LENGTH_MAX_def

section \<open>Little-endian helpers\<close>

definition put_u32le :: "u32 \<Rightarrow> byte list" where
  "put_u32le v = [ucast (v AND 0xFF), ucast (drop_bit 8 v AND 0xFF),
                  ucast (drop_bit 16 v AND 0xFF), ucast (drop_bit 24 v AND 0xFF)]"

definition get_u32le :: "byte list \<Rightarrow> u32" where
  "get_u32le src = ucast (src ! 0) OR push_bit 8 (ucast (src ! 1))
                 OR push_bit 16 (ucast (src ! 2)) OR push_bit 24 (ucast (src ! 3))"

lemma length_put_u32le [simp]: "length (put_u32le v) = 4"
  by (simp add: put_u32le_def)

lemma ucast_and_FF: "(ucast (w AND 0xFF) :: byte) = ucast (w :: u32)"
proof -
  have m: "(0xFF :: u32) = mask 8" by (simp add: mask_eq_exp_minus_1)
  show ?thesis unfolding m
    by (rule bit_word_eqI) (simp add: bit_and_iff bit_mask_iff bit_unsigned_iff)
qed

lemma quarters: "i < 32 \<Longrightarrow> i < 8 \<or> 8 \<le> i \<and> i < 16 \<or> 16 \<le> i \<and> i < 24 \<or> 24 \<le> i \<and> (i::nat) < 32"
  by linarith

lemma get_put_u32le [simp]: "get_u32le (put_u32le v) = v"
proof (rule bit_word_eqI)
  fix i assume "i < LENGTH(32)"
  then have i: "i < 32" by simp
  show "bit (get_u32le (put_u32le v)) i = bit v i"
    using quarters [OF i] i
    by (auto simp: get_u32le_def put_u32le_def ucast_and_FF bit_or_iff bit_push_bit_iff bit_unsigned_iff bit_drop_bit_eq)
qed

section \<open>The context and its environment\<close>

datatype usb_ret =
    LIBUSB_SUCCESS | LIBUSB_ERROR_NO_DEVICE | LIBUSB_ERROR_TIMEOUT | LIBUSB_ERROR_PIPE | LIBUSB_ERROR_OTHER

text \<open>
  \<open>bulk_out dev ep frame\<close> and \<open>bulk_in dev ep capacity\<close> are \<open>libusb_bulk_transfer\<close>,
  \<open>clear_halt dev ep\<close> is \<open>libusb_clear_halt\<close>, and \<open>mock_fn dev frame capacity\<close> is the
  injected transport, with its return code and the bytes it left in the buffer.
\<close>

record 'd usb_env =
  bulk_out :: "'d \<Rightarrow> byte \<Rightarrow> byte list \<Rightarrow> 'd \<times> usb_ret"
  bulk_in :: "'d \<Rightarrow> byte \<Rightarrow> nat \<Rightarrow> 'd \<times> usb_ret \<times> byte list"
  clear_halt :: "'d \<Rightarrow> byte \<Rightarrow> 'd"
  mock_fn :: "'d \<Rightarrow> byte list \<Rightarrow> nat \<Rightarrow> 'd \<times> int \<times> byte list"

record 'd wp11_ccid_ctx =
  is_mock :: bool
  seqno :: byte
  desync :: bool
  ep_out :: byte
  ep_in :: byte
  claimed_iface :: int
  dev :: 'd

definition wp11_ccid_open_mock :: "bool \<Rightarrow> bool \<Rightarrow> 'd \<Rightarrow> ccid_err + 'd wp11_ccid_ctx" where
  "wp11_ccid_open_mock ptrs_ok malloc_ok userdata =
     (if \<not> ptrs_ok then Inl CCID_ERR_PARAM
      else if \<not> malloc_ok then Inl CCID_ERR_NOMEM
      else Inr \<lparr>is_mock = True, seqno = 0, desync = False, ep_out = 0, ep_in = 0,
                claimed_iface = -1, dev = userdata\<rparr>)"

section \<open>Opening and closing a reader\<close>

text \<open>
  What libusb reports of the bus is a parameter: for each device its descriptor (\<open>None\<close>
  when it cannot be read), whether it opens, its interfaces with their altsettings
  (\<open>None\<close> when the configuration cannot be read) and whether the interface can be
  claimed.  The function also returns the set of libusb resources that it holds at its end.
\<close>

record usb_altsetting =
  bInterfaceClass :: byte
  bInterfaceNumber :: byte
  endpoints :: "byte list"

record usb_device =
  dev_desc :: "(u16 \<times> u16) option"
  open_ok :: bool
  dev_config :: "usb_altsetting list list option"
  claim_ok :: "byte \<Rightarrow> bool"

record usb_bus =
  init_ok :: bool
  device_list :: "usb_device list option"
  ctx_malloc_ok :: bool

datatype usb_res = RES_CTX | RES_LIST | RES_DEV | RES_CFG | RES_IFACE int

text \<open>The endpoint loop keeps the last IN and the last OUT address; 0 means none.\<close>

fun scan_endpoints :: "byte list \<Rightarrow> byte \<Rightarrow> byte \<Rightarrow> byte \<times> byte" where
  "scan_endpoints [] i out = (i, out)"
| "scan_endpoints (e # es) i out =
     (if e AND USB_EP_DIR_IN \<noteq> 0 then scan_endpoints es e out else scan_endpoints es i e)"

definition find_device :: "usb_device list \<Rightarrow> u16 \<Rightarrow> u16 \<Rightarrow> usb_device option" where
  "find_device ds vid pid = find (\<lambda>d. dev_desc d = Some (vid, pid)) ds"

definition find_ccid_iface :: "usb_altsetting list list \<Rightarrow> (int \<times> byte \<times> byte) option" where
  "find_ccid_iface cfg =
     (case find (\<lambda>a. bInterfaceClass a = USB_CLASS_CCID) (concat cfg) of
        None \<Rightarrow> None
      | Some a \<Rightarrow> (let (i, out) = scan_endpoints (endpoints a) 0 0 in Some (uint (bInterfaceNumber a), i, out)))"

definition wp11_ccid_open ::
  "bool \<Rightarrow> usb_bus \<Rightarrow> u16 \<Rightarrow> u16 \<Rightarrow> 'd \<Rightarrow> usb_res set \<times> (ccid_err + 'd wp11_ccid_ctx)" where
  "wp11_ccid_open ptrs_ok bus vid pid d0 =
    (if \<not> ptrs_ok then ({}, Inl CCID_ERR_PARAM)
     else if \<not> init_ok bus then ({}, Inl CCID_ERR_USB)
     else let h1 = {RES_CTX} in
     case device_list bus of
       None \<Rightarrow> (h1 - {RES_CTX}, Inl CCID_ERR_USB)
     | Some ds \<Rightarrow>
       let h2 = insert RES_LIST h1 in
       case find_device ds vid pid of
         None \<Rightarrow> (h2 - {RES_LIST} - {RES_CTX}, Inl CCID_ERR_NOTFOUND)
       | Some d \<Rightarrow>
         if \<not> open_ok d then (h2 - {RES_LIST} - {RES_CTX}, Inl CCID_ERR_USB)
         else let h3 = insert RES_DEV h2 - {RES_LIST} in
         case dev_config d of
           None \<Rightarrow> (h3 - {RES_DEV} - {RES_CTX}, Inl CCID_ERR_USB)
         | Some cfg \<Rightarrow>
           let found = find_ccid_iface cfg;
               h4 = insert RES_CFG h3 - {RES_CFG} in
           case found of
             None \<Rightarrow> (h4 - {RES_DEV} - {RES_CTX}, Inl CCID_ERR_NOTFOUND)
           | Some (iface, i, out) \<Rightarrow>
             if i = 0 \<or> out = 0 then (h4 - {RES_DEV} - {RES_CTX}, Inl CCID_ERR_NOTFOUND)
             else if \<not> claim_ok d (word_of_int iface) then (h4 - {RES_DEV} - {RES_CTX}, Inl CCID_ERR_USB)
             else let h5 = insert (RES_IFACE iface) h4 in
             if \<not> ctx_malloc_ok bus then (h5 - {RES_IFACE iface} - {RES_DEV} - {RES_CTX}, Inl CCID_ERR_NOMEM)
             else (h5, Inr \<lparr>is_mock = False, seqno = 0, desync = False, ep_out = out, ep_in = i,
                             claimed_iface = iface, dev = d0\<rparr>))"

text \<open>Closing a context, given the libusb resources held for it.\<close>

definition wp11_ccid_close :: "'d wp11_ccid_ctx option \<Rightarrow> usb_res set \<Rightarrow> usb_res set" where
  "wp11_ccid_close ctx h =
     (case ctx of None \<Rightarrow> h
      | Some c \<Rightarrow>
          if is_mock c then h
          else (if claimed_iface c \<ge> 0 then h - {RES_IFACE (claimed_iface c)} else h) - {RES_DEV} - {RES_CTX})"

section \<open>One APDU exchange\<close>

definition xfr_block :: "byte \<Rightarrow> byte list \<Rightarrow> byte list" where
  "xfr_block sq cmd =
     [CCID_MSG_PC_TO_RDR_XFRBLOCK] @ put_u32le (word_of_nat (length cmd)) @ [0x00, sq, 0x00, 0x00, 0x00] @ cmd"

text \<open>Validation of the answer, in the order of the code's tests.\<close>

definition check_data_block :: "byte \<Rightarrow> byte list \<Rightarrow> nat \<Rightarrow> ccid_err + byte list" where
  "check_data_block seq_sent frame_in resplen =
     (if length frame_in < CCID_HEADER_LEN then Inl CCID_ERR_USB
      else if frame_in ! 0 \<noteq> CCID_MSG_RDR_TO_PC_DATABLOCK then Inl CCID_ERR_USB
      else if frame_in ! 6 \<noteq> seq_sent then Inl CCID_ERR_SEQ
      else let icc_status = frame_in ! 7 AND 0x03;
               cmd_status = drop_bit 6 (frame_in ! 7) AND 0x03 in
        if icc_status = 1 \<or> icc_status = 2 then Inl CCID_ERR_NO_CARD
        else if cmd_status \<noteq> 0 then Inl CCID_ERR_STATUS
        else let resp_dw_length = get_u32le (bslice frame_in 1 4) in
          if unat resp_dw_length > resplen then Inl CCID_ERR_BUFSIZE
          else if resp_dw_length > DW_LENGTH_MAX
                  \<or> length frame_in < CCID_HEADER_LEN + unat resp_dw_length then Inl CCID_ERR_USB
          else Inr (bslice frame_in CCID_HEADER_LEN (unat resp_dw_length)))"

fun usb_ret_err :: "usb_ret \<Rightarrow> ccid_err" where
  "usb_ret_err LIBUSB_ERROR_NO_DEVICE = CCID_ERR_NO_CARD"
| "usb_ret_err LIBUSB_ERROR_TIMEOUT = CCID_ERR_TIMEOUT"
| "usb_ret_err _ = CCID_ERR_USB"

text \<open>
  The two bulk transfers.  A stalled endpoint is cleared; a failed IN after a successful
  OUT sets the desynchronisation flag.
\<close>

definition usb_dispatch :: "'d usb_env \<Rightarrow> 'd wp11_ccid_ctx \<Rightarrow> byte list \<Rightarrow> 'd wp11_ccid_ctx \<times> (ccid_err + byte list)" where
  "usb_dispatch env ctx frame_out =
     (let (d1, r1) = bulk_out env (dev ctx) (ep_out ctx) frame_out in
      if r1 \<noteq> LIBUSB_SUCCESS then
        (ctx\<lparr>dev := (if r1 = LIBUSB_ERROR_PIPE then clear_halt env d1 (ep_out ctx) else d1)\<rparr>, Inl (usb_ret_err r1))
      else let (d2, r2, frame_in) = bulk_in env d1 (ep_in ctx) (CCID_HEADER_LEN + 512) in
        if r2 \<noteq> LIBUSB_SUCCESS then
          (ctx\<lparr>desync := True, dev := (if r2 = LIBUSB_ERROR_PIPE then clear_halt env d2 (ep_in ctx) else d2)\<rparr>,
           Inl (usb_ret_err r2))
        else (ctx\<lparr>dev := d2\<rparr>, Inr frame_in))"

definition mock_dispatch :: "'d usb_env \<Rightarrow> 'd wp11_ccid_ctx \<Rightarrow> byte list \<Rightarrow> 'd wp11_ccid_ctx \<times> (ccid_err + byte list)" where
  "mock_dispatch env ctx frame_out =
     (let (d1, rc, frame_in) = mock_fn env (dev ctx) frame_out (CCID_HEADER_LEN + 512) in
      (ctx\<lparr>dev := d1\<rparr>, if rc \<noteq> 0 then Inl CCID_ERR_USB else Inr frame_in))"

text \<open>
  \<open>wp11_ccid_apdu\<close> on a context that is not \<open>NULL\<close>.  \<open>cmd\<close> is \<open>None\<close> for a \<open>NULL\<close>
  command; \<open>resplen\<close> is \<open>None\<close> when \<open>resp\<close> or \<open>resplen\<close> is \<open>NULL\<close>, and the value of
  \<open>*resplen\<close> on entry otherwise.  The bytes of \<open>Inr\<close> are those copied to \<open>resp\<close>, and their
  number is the new \<open>*resplen\<close>.
\<close>

definition wp11_ccid_apdu ::
  "'d usb_env \<Rightarrow> 'd wp11_ccid_ctx \<Rightarrow> byte list option \<Rightarrow> nat option \<Rightarrow> 'd wp11_ccid_ctx \<times> (ccid_err + byte list)" where
  "wp11_ccid_apdu env ctx cmd resplen =
     (case (cmd, resplen) of
        (Some c, Some cap) \<Rightarrow>
          if length c > 512 then (ctx, Inl CCID_ERR_PARAM)
          else if desync ctx then (ctx, Inl CCID_ERR_USB)
          else
            let frame_out = xfr_block (seqno ctx) c;
                seq_sent = seqno ctx;
                ctx1 = ctx\<lparr>seqno := seqno ctx + 1\<rparr>;
                (ctx2, r) = (if is_mock ctx then mock_dispatch env ctx1 frame_out
                             else usb_dispatch env ctx1 frame_out)
            in (case r of Inl e \<Rightarrow> (ctx2, Inl e)
                | Inr frame_in \<Rightarrow> (ctx2, check_data_block seq_sent frame_in cap))
      | _ \<Rightarrow> (ctx, Inl CCID_ERR_PARAM))"

text \<open>The call as the protocol layers make it: no pointer is \<open>NULL\<close>.\<close>

definition ccid_xfer :: "'d usb_env \<Rightarrow> 'd wp11_ccid_ctx \<Rightarrow> byte list \<Rightarrow> nat \<Rightarrow> 'd wp11_ccid_ctx \<times> (ccid_err + byte list)" where
  "ccid_xfer env ctx cmd cap = wp11_ccid_apdu env ctx (Some cmd) (Some cap)"

section \<open>Framing\<close>

lemma length_xfr_block [simp]: "length (xfr_block sq cmd) = CCID_HEADER_LEN + length cmd"
  by (simp add: xfr_block_def ccid_consts)

lemma xfr_block_seq: "xfr_block sq cmd ! 6 = sq"
  by (simp add: xfr_block_def put_u32le_def)

lemma xfr_block_payload: "drop CCID_HEADER_LEN (xfr_block sq cmd) = cmd"
  by (simp add: xfr_block_def put_u32le_def ccid_consts)

lemma xfr_block_length_field:
  assumes "length cmd \<le> 512"
  shows "unat (get_u32le (bslice (xfr_block sq cmd) 1 4)) = length cmd"
proof -
  have "bslice (xfr_block sq cmd) 1 4 = put_u32le (word_of_nat (length cmd))"
    by (simp add: xfr_block_def put_u32le_def bslice_def numeral_eq_Suc)
  with assms show ?thesis by (simp add: unat_of_nat)
qed

text \<open>The answer a well-behaved reader builds for sequence number \<open>sq\<close>.\<close>

definition data_block :: "byte \<Rightarrow> byte \<Rightarrow> byte list \<Rightarrow> byte list" where
  "data_block sq status payload =
     [CCID_MSG_RDR_TO_PC_DATABLOCK] @ put_u32le (word_of_nat (length payload)) @ [0x00, sq, status, 0x00, 0x00] @ payload"

lemma data_block_fields:
  "length (data_block sq st p) = CCID_HEADER_LEN + length p"
  "data_block sq st p ! 0 = CCID_MSG_RDR_TO_PC_DATABLOCK"
  "data_block sq st p ! 6 = sq" "data_block sq st p ! 7 = st"
  "bslice (data_block sq st p) 1 4 = put_u32le (word_of_nat (length p))"
  "bslice (data_block sq st p) CCID_HEADER_LEN (length p) = p"
  by (simp_all add: data_block_def ccid_consts put_u32le_def bslice_def numeral_eq_Suc)

lemma check_data_block_ok:
  assumes "length p \<le> 512" "length p \<le> cap"
  shows "check_data_block sq (data_block sq 0 p) cap = Inr p"
proof -
  have "\<not> (word_of_nat (length p) :: u32) > DW_LENGTH_MAX"
    using assms(1) by (simp add: DW_LENGTH_MAX_def word_less_nat_alt unat_of_nat)
  with assms show ?thesis
    by (simp add: check_data_block_def data_block_fields unat_of_nat Let_def del: One_nat_def)
qed

lemma check_data_block_bound:
  "check_data_block sq f cap = Inr r \<Longrightarrow>
     length r \<le> cap \<and> f ! 6 = sq \<and> CCID_HEADER_LEN + length r \<le> length f
     \<and> r = bslice f CCID_HEADER_LEN (length r)"
  by (auto simp: check_data_block_def Let_def split: if_splits)

section \<open>The exchange\<close>

lemma ccid_xfer_cases:
  "ccid_xfer env ctx cmd cap =
     (if length cmd > 512 then (ctx, Inl CCID_ERR_PARAM)
      else if desync ctx then (ctx, Inl CCID_ERR_USB)
      else case (if is_mock ctx then mock_dispatch env (ctx\<lparr>seqno := seqno ctx + 1\<rparr>) (xfr_block (seqno ctx) cmd)
                 else usb_dispatch env (ctx\<lparr>seqno := seqno ctx + 1\<rparr>) (xfr_block (seqno ctx) cmd)) of
        (c, Inl e) \<Rightarrow> (c, Inl e)
      | (c, Inr f) \<Rightarrow> (c, check_data_block (seqno ctx) f cap))"
  by (simp add: ccid_xfer_def wp11_ccid_apdu_def Let_def split: prod.splits sum.splits)

lemma dispatch_frame:
  "usb_dispatch env ctx f = (c, r) \<Longrightarrow> seqno c = seqno ctx \<and> is_mock c = is_mock ctx
     \<and> claimed_iface c = claimed_iface ctx \<and> ep_in c = ep_in ctx \<and> ep_out c = ep_out ctx"
  "mock_dispatch env ctx f = (c, r) \<Longrightarrow> seqno c = seqno ctx \<and> is_mock c = is_mock ctx
     \<and> claimed_iface c = claimed_iface ctx \<and> ep_in c = ep_in ctx \<and> ep_out c = ep_out ctx \<and> desync c = desync ctx"
  by (auto simp: usb_dispatch_def mock_dispatch_def split: prod.splits if_splits)

lemma ccid_xfer_ok:
  assumes "ccid_xfer env ctx cmd cap = (ctx', Inr r)"
  shows "length cmd \<le> 512" "length r \<le> cap" "\<not> desync ctx" "seqno ctx' = seqno ctx + 1"
  using assms
  by (auto simp: ccid_xfer_cases dest: check_data_block_bound dispatch_frame
      split: if_splits prod.splits sum.splits)

lemma ccid_xfer_desync: "desync ctx \<Longrightarrow> fst (ccid_xfer env ctx cmd cap) = ctx \<and> \<not> is_ok (snd (ccid_xfer env ctx cmd cap))"
  by (simp add: ccid_xfer_cases)

lemma ccid_xfer_keeps:
  assumes "ccid_xfer env ctx cmd cap = (ctx', r)"
  shows "is_mock ctx' = is_mock ctx" "claimed_iface ctx' = claimed_iface ctx"
    "ep_in ctx' = ep_in ctx" "ep_out ctx' = ep_out ctx" "desync ctx \<Longrightarrow> desync ctx'"
  using assms
  by (auto simp: ccid_xfer_cases dest: dispatch_frame split: if_splits prod.splits sum.splits)

text \<open>The CCID transport keeps the promises of the channel interface.\<close>

interpretation ccid: apdu_channel "ccid_xfer env" desync for env
  by unfold_locales (auto dest: ccid_xfer_ok simp: ccid_xfer_desync)

text \<open>A run of commands on one context, each with the same response capacity.\<close>

fun ccid_run :: "'d usb_env \<Rightarrow> 'd wp11_ccid_ctx \<Rightarrow> nat \<Rightarrow> byte list list \<Rightarrow> 'd wp11_ccid_ctx \<times> (ccid_err + byte list) list" where
  "ccid_run env ctx cap [] = (ctx, [])"
| "ccid_run env ctx cap (c # cs) =
     (let (ctx1, r) = ccid_xfer env ctx c cap; (ctx2, rs) = ccid_run env ctx1 cap cs in (ctx2, r # rs))"

section \<open>Properties\<close>

text \<open>C32. Round trip of one APDU over the bulk endpoints: when the reader takes the
  framed command and answers with a data block for the same sequence number, good status
  and a payload that fits the caller's buffer, \<open>wp11_ccid_apdu\<close> returns exactly the payload,
  advances the sequence counter by one (modulo 256) and leaves the context in sync.\<close>
theorem ccid_apdu_roundtrip:
  assumes "\<not> is_mock ctx" "\<not> desync ctx" "length cmd \<le> 512" "length p \<le> 512" "length p \<le> cap"
    and "bulk_out env (dev ctx) (ep_out ctx) (xfr_block (seqno ctx) cmd) = (d1, LIBUSB_SUCCESS)"
    and "bulk_in env d1 (ep_in ctx) 522 = (d2, LIBUSB_SUCCESS, data_block (seqno ctx) 0 p)"
  shows "wp11_ccid_apdu env ctx (Some cmd) (Some cap)
           = (ctx\<lparr>seqno := seqno ctx + 1, dev := d2\<rparr>, Inr p)"
proof -
  have "usb_dispatch env (ctx\<lparr>seqno := seqno ctx + 1\<rparr>) (xfr_block (seqno ctx) cmd)
     = (ctx\<lparr>seqno := seqno ctx + 1, dev := d2\<rparr>, Inr (data_block (seqno ctx) 0 p))"
    using assms(6,7) by (simp add: usb_dispatch_def CCID_HEADER_LEN_def)
  then have "ccid_xfer env ctx cmd cap = (ctx\<lparr>seqno := seqno ctx + 1, dev := d2\<rparr>, Inr p)"
    using assms(1-5) by (simp add: ccid_xfer_cases check_data_block_ok)
  then show ?thesis by (simp add: ccid_xfer_def)
qed

definition echo_env :: "byte list usb_env" where
  "echo_env = \<lparr>bulk_out = (\<lambda>d e f. (f, LIBUSB_SUCCESS)),
     bulk_in = (\<lambda>d e n. (d, LIBUSB_SUCCESS, data_block (d ! 6) 0 [0x90, 0x00])),
     clear_halt = (\<lambda>d e. d), mock_fn = (\<lambda>d f n. (d, 0, data_block (f ! 6) 0 [0x90, 0x00]))\<rparr>"

definition echo_ctx :: "byte list wp11_ccid_ctx" where
  "echo_ctx = \<lparr>is_mock = False, seqno = 255, desync = False, ep_out = 0x02, ep_in = 0x81,
     claimed_iface = 1, dev = []\<rparr>"

theorem ccid_apdu_roundtrip_witness:
  "wp11_ccid_apdu echo_env echo_ctx (Some [0x00, 0xA4]) (Some 512)
     = (echo_ctx\<lparr>seqno := 0, dev := xfr_block 255 [0x00, 0xA4]\<rparr>, Inr [0x90, 0x00])"
  using ccid_apdu_roundtrip [of echo_ctx "[0x00, 0xA4]" "[0x90, 0x00]" 512 echo_env
      "xfr_block 255 [0x00, 0xA4]" "xfr_block 255 [0x00, 0xA4]"]
  by (simp add: echo_env_def echo_ctx_def xfr_block_seq)

text \<open>C24. A response is accepted only from a frame that really carries it: an accepted
  response over USB comes from the frame the IN endpoint delivered, whose sequence byte is
  the one of the request just sent (a stale answer is never taken for the current one);
  the copied bytes lie inside the frame behind its 10-byte header and fit the caller's buffer.\<close>
theorem ccid_apdu_accepts_matching_frame:
  assumes "wp11_ccid_apdu env ctx (Some cmd) (Some cap) = (ctx', Inr r)" "\<not> is_mock ctx"
  shows "\<exists>d1 d2 frame. bulk_out env (dev ctx) (ep_out ctx) (xfr_block (seqno ctx) cmd) = (d1, LIBUSB_SUCCESS)
     \<and> bulk_in env d1 (ep_in ctx) 522 = (d2, LIBUSB_SUCCESS, frame) \<and> frame ! 6 = seqno ctx
     \<and> 10 + length r \<le> length frame \<and> r = bslice frame 10 (length r) \<and> length r \<le> cap"
proof -
  let ?c = "ctx\<lparr>seqno := seqno ctx + 1\<rparr>"
  have "ccid_xfer env ctx cmd cap = (ctx', Inr r)" using assms(1) by (simp add: ccid_xfer_def)
  with assms(2) obtain frame where u: "usb_dispatch env ?c (xfr_block (seqno ctx) cmd) = (ctx', Inr frame)"
    and c: "check_data_block (seqno ctx) frame cap = Inr r"
    by (auto simp: ccid_xfer_cases split: if_splits prod.splits sum.splits)
  from u have "\<exists>d1 d2. bulk_out env (dev ctx) (ep_out ctx) (xfr_block (seqno ctx) cmd) = (d1, LIBUSB_SUCCESS)
     \<and> bulk_in env d1 (ep_in ctx) 522 = (d2, LIBUSB_SUCCESS, frame)"
    by (auto simp: usb_dispatch_def CCID_HEADER_LEN_def split: prod.splits if_splits)
  then show ?thesis using check_data_block_bound [OF c] by (auto simp: CCID_HEADER_LEN_def)
qed

theorem ccid_apdu_accepts_matching_frame_witness:
  "\<exists>d1 d2 frame. bulk_out echo_env [] 0x02 (xfr_block 255 [0x00, 0xA4]) = (d1, LIBUSB_SUCCESS)
     \<and> bulk_in echo_env d1 0x81 522 = (d2, LIBUSB_SUCCESS, frame) \<and> frame ! 6 = 255
     \<and> 10 + length [0x90 :: byte, 0x00] \<le> length frame"
proof -
  have "wp11_ccid_apdu echo_env echo_ctx (Some [0x00, 0xA4]) (Some 512)
     = (echo_ctx\<lparr>seqno := 0, dev := xfr_block 255 [0x00, 0xA4]\<rparr>, Inr [0x90, 0x00])"
    by (code_simp)
  from ccid_apdu_accepts_matching_frame [OF this] show ?thesis
    by (auto simp: echo_ctx_def)
qed

text \<open>C33. Desynchronisation is permanent: after an IN transfer that fails behind a
  successful OUT the context is marked, and from a marked context every later command of
  any run fails without touching the device, the counter or the flag.\<close>
theorem ccid_desync_permanent:
  assumes "\<not> is_mock ctx" "length cmd \<le> 512"
    and "bulk_out env (dev ctx) (ep_out ctx) (xfr_block (seqno ctx) cmd) = (d1, LIBUSB_SUCCESS)"
    and "fst (snd (bulk_in env d1 (ep_in ctx) 522)) \<noteq> LIBUSB_SUCCESS"
  shows "desync (fst (wp11_ccid_apdu env ctx (Some cmd) (Some cap)))
     \<and> ccid_run env (fst (wp11_ccid_apdu env ctx (Some cmd) (Some cap))) cap' cs
         = (fst (wp11_ccid_apdu env ctx (Some cmd) (Some cap)),
            map (\<lambda>c. Inl (if length c > 512 then CCID_ERR_PARAM else CCID_ERR_USB)) cs)"
proof -
  have d: "desync (fst (ccid_xfer env ctx cmd cap))"
    using assms
    by (auto simp: ccid_xfer_cases usb_dispatch_def CCID_HEADER_LEN_def split: prod.splits if_splits)
  have "desync c \<Longrightarrow> ccid_run env c cap' cs
      = (c, map (\<lambda>c. Inl (if length c > 512 then CCID_ERR_PARAM else CCID_ERR_USB)) cs)" for c
    by (induction cs) (auto simp: ccid_xfer_cases Let_def)
  with d show ?thesis by (simp add: ccid_xfer_def)
qed

definition dead_in_env :: "byte list usb_env" where
  "dead_in_env = echo_env\<lparr>bulk_in := (\<lambda>d e n. (d, LIBUSB_ERROR_TIMEOUT, []))\<rparr>"

theorem ccid_desync_permanent_witness:
  "desync (fst (wp11_ccid_apdu dead_in_env echo_ctx (Some [0x00]) (Some 512)))"
  using ccid_desync_permanent [of echo_ctx "[0x00]" dead_in_env "xfr_block 255 [0x00]" 512]
  by (simp add: echo_env_def dead_in_env_def echo_ctx_def)

text \<open>C36. No libusb resource leaks while a reader is opened: on every error path
  \<open>wp11_ccid_open\<close> holds nothing at its end, and on success exactly the library context,
  the device handle and the claimed interface, which \<open>wp11_ccid_close\<close> gives back.\<close>
theorem ccid_open_no_leak:
  "case wp11_ccid_open ptrs_ok bus vid pid d0 of
     (h, Inl e) \<Rightarrow> h = {}
   | (h, Inr ctx) \<Rightarrow> h = {RES_CTX, RES_DEV, RES_IFACE (claimed_iface ctx)} \<and> claimed_iface ctx \<ge> 0
       \<and> ep_in ctx \<noteq> 0 \<and> ep_out ctx \<noteq> 0 \<and> wp11_ccid_close (Some ctx) h = {}"
  by (auto simp: wp11_ccid_open_def wp11_ccid_close_def find_ccid_iface_def Let_def
      split: option.splits prod.splits)

text \<open>The sequence counter counts the exchanges: after a run of commands that were
  all answered, the counter has advanced by their number modulo 256, and the transport
  configuration of the context is unchanged.\<close>
theorem ccid_run_counts:
  assumes "ccid_run env ctx cap cs = (ctx', rs)" "\<forall>r \<in> set rs. is_ok r"
  shows "seqno ctx' = seqno ctx + word_of_nat (length cs) \<and> length rs = length cs
     \<and> is_mock ctx' = is_mock ctx \<and> claimed_iface ctx' = claimed_iface ctx"
  using assms
proof (induction cs arbitrary: ctx ctx' rs)
  case Nil
  then show ?case by simp
next
  case (Cons c cs)
  from Cons.prems obtain ctx1 x rs' where x: "ccid_xfer env ctx c cap = (ctx1, Inr x)"
    and r: "ccid_run env ctx1 cap cs = (ctx', rs')" and rs: "rs = Inr x # rs'"
    by (auto simp: Let_def split: prod.splits)
  with Cons.IH [OF r] Cons.prems(2) ccid_xfer_ok(4) [OF x] ccid_xfer_keeps [OF x] show ?case
    by (simp add: algebra_simps)
qed

theorem ccid_run_counts_witness:
  "seqno (fst (ccid_run echo_env echo_ctx 512 [[0x00], [0x01], [0x02]])) = 2"
proof -
  obtain ctx' rs where r: "ccid_run echo_env echo_ctx 512 [[0x00], [0x01], [0x02]] = (ctx', rs)" by force
  have "list_all (\<lambda>r. \<not> isl r) (snd (ccid_run echo_env echo_ctx 512 [[0x00], [0x01], [0x02]]))" by code_simp
  then have "\<forall>r \<in> set rs. is_ok r" by (simp add: r list_all_iff not_isl_is_ok del: ccid_run.simps)
  from ccid_run_counts [OF r this] r show ?thesis by (simp add: echo_ctx_def)
qed

end
