(* ===== verification/Piv.thy ===== *)
theory Piv imports BerTlv Ccid begin

text \<open>
  The PIV protocol (\<open>wolfp11/wp11_proto_piv.h\<close>, \<open>src/wp11_proto_piv.c\<close>): SELECT with the
  check of the returned FCI, VERIFY, GENERAL AUTHENTICATE for signing and ECDH, GET DATA and
  attestation with GET RESPONSE chaining, and key-pair generation.  Every operation takes
  the transport \<open>xfer\<close> and its state; \<open>ptrs_ok\<close> says that none of the pointers the function
  tests is \<open>NULL\<close>; output buffers are given by their capacity and the bytes of \<open>Inr\<close> are
  what the function writes, their number the new length.
\<close>

section \<open>Error codes, constants, status words\<close>

datatype piv_err =
    PIV_ERR_PARAM | PIV_ERR_TRANSPORT | PIV_ERR_SW | PIV_ERR_BUFSIZE | PIV_ERR_PIN_BAD
  | PIV_ERR_PIN_LOCKED | PIV_ERR_TRUNCATED | PIV_ERR_ENCODING | PIV_ERR_NOT_FOUND
  | PIV_ERR_USER_PRESENCE | PIV_ERR_SECURITY_STATUS | PIV_ERR_NOT_SUPPORTED | PIV_ERR_NOMEM

fun piv_code :: "piv_err \<Rightarrow> int" where
  "piv_code PIV_ERR_PARAM = -1"
| "piv_code PIV_ERR_TRANSPORT = -2"
| "piv_code PIV_ERR_SW = -3"
| "piv_code PIV_ERR_BUFSIZE = -4"
| "piv_code PIV_ERR_PIN_BAD = -5"
| "piv_code PIV_ERR_PIN_LOCKED = -6"
| "piv_code PIV_ERR_TRUNCATED = -7"
| "piv_code PIV_ERR_ENCODING = -8"
| "piv_code PIV_ERR_NOT_FOUND = -9"
| "piv_code PIV_ERR_USER_PRESENCE = -10"
| "piv_code PIV_ERR_SECURITY_STATUS = -11"
| "piv_code PIV_ERR_NOT_SUPPORTED = -12"
| "piv_code PIV_ERR_NOMEM = -13"

fun piv_fail :: "xfer_fail \<Rightarrow> piv_err" where
  "piv_fail XF_TRANSPORT = PIV_ERR_TRANSPORT"
| "piv_fail XF_TRUNCATED = PIV_ERR_TRUNCATED"

definition PIV_APDU_MAX_CMD :: nat where "PIV_APDU_MAX_CMD = 261"
definition PIV_APDU_MAX_RESP :: nat where "PIV_APDU_MAX_RESP = 512"
definition PIV_CERT_MAX_LEN :: nat where "PIV_CERT_MAX_LEN = 4096"

definition PIV_AID :: "byte list" where
  "PIV_AID = [0xA0, 0x00, 0x00, 0x03, 0x08, 0x00, 0x00, 0x10, 0x00, 0x01, 0x00]"

definition piv_sw_to_err :: "byte \<Rightarrow> byte \<Rightarrow> piv_err" where
  "piv_sw_to_err sw1 sw2 =
     (if sw1 = 0x69 \<and> sw2 = 0x85 then PIV_ERR_USER_PRESENCE
      else if sw1 = 0x69 \<and> sw2 = 0x82 then PIV_ERR_SECURITY_STATUS
      else if sw1 = 0x6A \<and> sw2 = 0x81 then PIV_ERR_NOT_SUPPORTED
      else if sw1 = 0x6A \<and> sw2 = 0x88 then PIV_ERR_NOT_FOUND
      else PIV_ERR_SW)"

section \<open>SELECT\<close>

definition piv_select_cmd :: "byte list" where
  "piv_select_cmd = [0x00, 0xA4, 0x04, 0x00, byte_of (length PIV_AID)] @ PIV_AID"

datatype fci_scan = FCI_WRONG_AID | FCI_AID_FOUND | FCI_NO_AID

text \<open>The linear scan for the DF name, from \<open>pos\<close> in the response body.\<close>

function piv_scan_df :: "byte list \<Rightarrow> nat \<Rightarrow> fci_scan" where
  "piv_scan_df body pos =
     (if pos + 1 \<le> length body then
        let tag = body ! pos; pos1 = pos + 1 in
        if pos1 \<ge> length body then FCI_NO_AID
        else case ber_len_decode (drop pos1 body) of
          None \<Rightarrow> FCI_NO_AID
        | Some (tlen, tconsumed) \<Rightarrow>
            let pos2 = pos1 + tconsumed in
            if pos2 + tlen > length body then FCI_NO_AID
            else if tag = 0x84 then
              (if tlen \<noteq> length PIV_AID \<or> bslice body pos2 (length PIV_AID) \<noteq> PIV_AID
               then FCI_WRONG_AID else FCI_AID_FOUND)
            else piv_scan_df body (pos2 + tlen)
      else FCI_NO_AID)"
  by pat_completeness auto
termination
  by (relation "measure (\<lambda>(body, pos). length body - pos)") auto

declare piv_scan_df.simps [simp del]

text \<open>Whether the body opens with an FCI template, and where the scan starts.\<close>

definition piv_fci_start :: "byte list \<Rightarrow> bool \<times> nat" where
  "piv_fci_start body =
     (if 0 < length body \<and> (body ! 0 = 0x6F \<or> body ! 0 = 0x61) then
        (True, if 1 < length body then
                 (case ber_len_decode (drop 1 body) of
                    None \<Rightarrow> 1
                  | Some (skip_len, skip_consumed) \<Rightarrow> min (1 + skip_consumed) (length body))
               else 1)
      else (False, 0))"

definition piv_check_fci :: "byte list \<Rightarrow> piv_err + unit" where
  "piv_check_fci body =
     (let (fci_present, pos) = piv_fci_start body in
      case piv_scan_df body pos of
        FCI_WRONG_AID \<Rightarrow> Inl PIV_ERR_SW
      | FCI_AID_FOUND \<Rightarrow> Inr ()
      | FCI_NO_AID \<Rightarrow> if fci_present then Inl PIV_ERR_ENCODING else Inr ())"

definition wp11_piv_select ::
  "('s \<Rightarrow> byte list \<Rightarrow> nat \<Rightarrow> 's \<times> ('e + byte list)) \<Rightarrow> bool \<Rightarrow> 's \<Rightarrow> 's \<times> (piv_err + unit)" where
  "wp11_piv_select xfer ptrs_ok s =
     (if \<not> ptrs_ok then (s, Inl PIV_ERR_PARAM)
      else let (s1, r) = exchange xfer s piv_select_cmd PIV_APDU_MAX_RESP in
        case r of
          Inl f \<Rightarrow> (s1, Inl (piv_fail f))
        | Inr (resp, sw1, sw2) \<Rightarrow>
            (s1, if sw1 \<noteq> 0x90 \<or> sw2 \<noteq> 0x00 then Inl PIV_ERR_SW
                 else if length resp > 2 then piv_check_fci (take (length resp - 2) resp)
                 else Inr ()))"

section \<open>VERIFY\<close>

definition piv_verify_cmd :: "byte list \<Rightarrow> byte list" where
  "piv_verify_cmd pin = [0x00, 0x20, 0x00, 0x80, 8] @ pin @ replicate (8 - length pin) 0xFF"

definition wp11_piv_verify_pin ::
  "('s \<Rightarrow> byte list \<Rightarrow> nat \<Rightarrow> 's \<times> ('e + byte list)) \<Rightarrow> bool \<Rightarrow> 's \<Rightarrow> byte list \<Rightarrow> 's \<times> (piv_err + unit)" where
  "wp11_piv_verify_pin xfer ptrs_ok s pin =
     (if \<not> ptrs_ok \<or> length pin < 4 \<or> length pin > 8 then (s, Inl PIV_ERR_PARAM)
      else let (s1, r) = exchange xfer s (piv_verify_cmd pin) PIV_APDU_MAX_RESP in
        case r of
          Inl f \<Rightarrow> (s1, Inl (piv_fail f))
        | Inr (resp, sw1, sw2) \<Rightarrow>
            (s1, if sw1 = 0x90 \<and> sw2 = 0x00 then Inr ()
                 else if sw1 = 0x63 \<and> sw2 AND 0xF0 = 0xC0 then Inl PIV_ERR_PIN_BAD
                 else if sw1 = 0x69 \<and> sw2 = 0x83 then Inl PIV_ERR_PIN_LOCKED
                 else Inl PIV_ERR_SW))"

section \<open>GENERAL AUTHENTICATE\<close>

text \<open>
  The command of \<open>wp11_piv_sign\<close> (tag 0x81) and \<open>wp11_piv_ecdh\<close> (tag 0x85), with its size
  computation and its guards.
\<close>

definition general_auth_cmd :: "byte \<Rightarrow> byte \<Rightarrow> byte \<Rightarrow> byte list \<Rightarrow> piv_err + byte list" where
  "general_auth_cmd tag slot alg payload =
     (let clen_bw = (if length payload \<le> 0x7F then 1 else 2);
          dat_content_len = 2 + 1 + clen_bw + length payload;
          dlen_bw = (if dat_content_len \<le> 0x7F then 1 else 2);
          apdu_data_size = 1 + dlen_bw + dat_content_len in
      if apdu_data_size > 0xFF \<or> 5 + apdu_data_size + 1 > PIV_APDU_MAX_CMD then Inl PIV_ERR_BUFSIZE
      else case ber_len_encode dat_content_len of
        None \<Rightarrow> Inl PIV_ERR_BUFSIZE
      | Some l1 \<Rightarrow>
          (case ber_len_encode (length payload) of
             None \<Rightarrow> Inl PIV_ERR_BUFSIZE
           | Some l2 \<Rightarrow>
               Inr ([0x00, 0x87, alg, slot, byte_of apdu_data_size] @ [0x7C] @ l1 @ [0x82, 0x00]
                    @ [tag] @ l2 @ payload @ [0x00])))"

text \<open>The 7C/82 template of the answer; signing and ECDH differ in the code for a wrong outer tag.\<close>

definition general_auth_parse :: "piv_err \<Rightarrow> byte list \<Rightarrow> nat \<Rightarrow> piv_err + byte list" where
  "general_auth_parse outer_tag_err resp cap =
     (let data_end = length resp - 2 in
      if data_end = 0 then Inl PIV_ERR_ENCODING
      else case tlv_expect resp 0 data_end 0x7C of
        Inl TLV_ERR_TAG \<Rightarrow> Inl outer_tag_err
      | Inl TLV_ERR_ENC \<Rightarrow> Inl PIV_ERR_ENCODING
      | Inr (i, dat_len) \<Rightarrow>
          (case tlv_expect resp i (i + dat_len) 0x82 of
             Inl TLV_ERR_TAG \<Rightarrow> Inl PIV_ERR_SW
           | Inl TLV_ERR_ENC \<Rightarrow> Inl PIV_ERR_ENCODING
           | Inr (j, n) \<Rightarrow> if n > cap then Inl PIV_ERR_BUFSIZE else Inr (bslice resp j n)))"

definition general_auth ::
  "('s \<Rightarrow> byte list \<Rightarrow> nat \<Rightarrow> 's \<times> ('e + byte list)) \<Rightarrow> byte \<Rightarrow> piv_err \<Rightarrow> bool \<Rightarrow> 's \<Rightarrow> byte \<Rightarrow> byte \<Rightarrow> byte list
     \<Rightarrow> nat \<Rightarrow> 's \<times> (piv_err + byte list)" where
  "general_auth xfer tag outer_tag_err ptrs_ok s slot alg payload cap =
     (if \<not> ptrs_ok then (s, Inl PIV_ERR_PARAM)
      else if length payload > 247 then (s, Inl PIV_ERR_PARAM)
      else case general_auth_cmd tag slot alg payload of
        Inl e \<Rightarrow> (s, Inl e)
      | Inr cmd \<Rightarrow>
          let (s1, r) = exchange_6c xfer s cmd PIV_APDU_MAX_RESP in
          case r of
            Inl f \<Rightarrow> (s1, Inl (piv_fail f))
          | Inr (resp, sw1, sw2) \<Rightarrow>
              (s1, if sw1 \<noteq> 0x90 \<or> sw2 \<noteq> 0x00 then Inl (piv_sw_to_err sw1 sw2)
                   else general_auth_parse outer_tag_err resp cap))"

definition wp11_piv_sign ::
  "('s \<Rightarrow> byte list \<Rightarrow> nat \<Rightarrow> 's \<times> ('e + byte list)) \<Rightarrow> bool \<Rightarrow> 's \<Rightarrow> byte \<Rightarrow> byte \<Rightarrow> byte list
     \<Rightarrow> nat \<Rightarrow> 's \<times> (piv_err + byte list)" where
  "wp11_piv_sign xfer ptrs_ok s slot alg challenge siglen =
     general_auth xfer 0x81 PIV_ERR_ENCODING ptrs_ok s slot alg challenge siglen"

definition wp11_piv_ecdh ::
  "('s \<Rightarrow> byte list \<Rightarrow> nat \<Rightarrow> 's \<times> ('e + byte list)) \<Rightarrow> bool \<Rightarrow> 's \<Rightarrow> byte \<Rightarrow> byte \<Rightarrow> byte list
     \<Rightarrow> nat \<Rightarrow> 's \<times> (piv_err + byte list)" where
  "wp11_piv_ecdh xfer ptrs_ok s slot alg peer_pub sharedlen =
     general_auth xfer 0x85 PIV_ERR_SW ptrs_ok s slot alg peer_pub sharedlen"

section \<open>Chained reads: certificates and attestation\<close>

definition cert_tag :: "byte \<Rightarrow> byte list option" where
  "cert_tag slot =
     (if slot = 0x9A then Some [0x5F, 0xC1, 0x05]
      else if slot = 0x9C then Some [0x5F, 0xC1, 0x0A]
      else if slot = 0x9D then Some [0x5F, 0xC1, 0x0B]
      else if slot = 0x9E then Some [0x5F, 0xC1, 0x01]
      else None)"

definition get_response_cmd :: "byte list" where
  "get_response_cmd = [0x00, 0xC0, 0x00, 0x00, 0x00]"

text \<open>
  The GET RESPONSE loop.  It ends because an iteration that asks for another one has added
  at least one byte to an accumulator that may not exceed 4096.
\<close>

function get_response_loop ::
  "('s \<Rightarrow> byte list \<Rightarrow> nat \<Rightarrow> 's \<times> ('e + byte list)) \<Rightarrow> 's \<Rightarrow> byte list \<Rightarrow> byte \<Rightarrow> byte
     \<Rightarrow> 's \<times> (piv_err + byte list \<times> byte \<times> byte)" where
  "get_response_loop xfer s accum sw1 sw2 =
     (if sw1 \<noteq> 0x61 then (s, Inr (accum, sw1, sw2))
      else case exchange xfer s get_response_cmd PIV_APDU_MAX_RESP of
        (s1, Inl f) \<Rightarrow> (s1, Inl (piv_fail f))
      | (s1, Inr (chunk, sw1', sw2')) \<Rightarrow>
          if sw1' \<noteq> 0x90 \<and> sw1' \<noteq> 0x61 then (s1, Inl PIV_ERR_SW)
          else if length chunk - 2 = 0 \<and> sw1' = 0x61 then (s1, Inl PIV_ERR_SW)
          else if length accum + (length chunk - 2) > PIV_CERT_MAX_LEN then (s1, Inl PIV_ERR_BUFSIZE)
          else get_response_loop xfer s1 (accum @ take (length chunk - 2) chunk) sw1' sw2')"
  by pat_completeness auto
termination
  by (relation "measure (\<lambda>(xfer, s, accum, sw1, sw2). (4096 - length accum) + (if sw1 = 0x61 then 1 else 0))")
    (auto simp: PIV_CERT_MAX_LEN_def)

declare get_response_loop.simps [simp del]

text \<open>The first command, its status, the loop and the final status, shared by both reads.\<close>

definition piv_chained_read ::
  "('s \<Rightarrow> byte list \<Rightarrow> nat \<Rightarrow> 's \<times> ('e + byte list)) \<Rightarrow> 's \<Rightarrow> byte list \<Rightarrow> 's \<times> (piv_err + byte list)" where
  "piv_chained_read xfer s cmd =
     (case exchange xfer s cmd PIV_APDU_MAX_RESP of
        (s1, Inl f) \<Rightarrow> (s1, Inl (piv_fail f))
      | (s1, Inr (chunk, sw1, sw2)) \<Rightarrow>
          if sw1 = 0x6A \<and> sw2 = 0x82 then (s1, Inl PIV_ERR_NOT_FOUND)
          else if length chunk - 2 > PIV_CERT_MAX_LEN then (s1, Inl PIV_ERR_BUFSIZE)
          else (case get_response_loop xfer s1 (take (length chunk - 2) chunk) sw1 sw2 of
             (s2, Inl e) \<Rightarrow> (s2, Inl e)
           | (s2, Inr (accum, sw1', sw2')) \<Rightarrow>
               (s2, if sw1' \<noteq> 0x90 \<or> sw2' \<noteq> 0x00 then Inl PIV_ERR_SW else Inr accum)))"

definition get_cert_cmd :: "byte list \<Rightarrow> byte list" where
  "get_cert_cmd tag_bytes = [0x00, 0xCB, 0x3F, 0xFF, 0x05, 0x5C, 0x03] @ tag_bytes @ [0x00]"

definition parse_cert_object :: "byte list \<Rightarrow> nat \<Rightarrow> piv_err + byte list" where
  "parse_cert_object accum certlen =
     (case tlv_expect accum 0 (length accum) 0x53 of
        Inl e \<Rightarrow> Inl PIV_ERR_ENCODING
      | Inr (pos, outer_len) \<Rightarrow>
          (case tlv_expect accum pos (pos + outer_len) 0x70 of
             Inl e \<Rightarrow> Inl PIV_ERR_ENCODING
           | Inr (p, inner_len) \<Rightarrow>
               if inner_len > certlen then Inl PIV_ERR_BUFSIZE else Inr (bslice accum p inner_len)))"

definition wp11_piv_get_cert ::
  "('s \<Rightarrow> byte list \<Rightarrow> nat \<Rightarrow> 's \<times> ('e + byte list)) \<Rightarrow> bool \<Rightarrow> bool \<Rightarrow> 's \<Rightarrow> byte \<Rightarrow> nat \<Rightarrow> 's \<times> (piv_err + byte list)" where
  "wp11_piv_get_cert xfer malloc_ok ptrs_ok s slot certlen =
     (if \<not> ptrs_ok then (s, Inl PIV_ERR_PARAM)
      else case cert_tag slot of
        None \<Rightarrow> (s, Inl PIV_ERR_PARAM)
      | Some tag_bytes \<Rightarrow>
          if \<not> malloc_ok then (s, Inl PIV_ERR_NOMEM)
          else case piv_chained_read xfer s (get_cert_cmd tag_bytes) of
            (s1, Inl e) \<Rightarrow> (s1, Inl e)
          | (s1, Inr accum) \<Rightarrow> (s1, parse_cert_object accum certlen))"

definition wp11_piv_attest ::
  "('s \<Rightarrow> byte list \<Rightarrow> nat \<Rightarrow> 's \<times> ('e + byte list)) \<Rightarrow> bool \<Rightarrow> bool \<Rightarrow> 's \<Rightarrow> byte \<Rightarrow> nat \<Rightarrow> 's \<times> (piv_err + byte list)" where
  "wp11_piv_attest xfer malloc_ok ptrs_ok s slot derlen =
     (if \<not> ptrs_ok then (s, Inl PIV_ERR_PARAM)
      else if \<not> malloc_ok then (s, Inl PIV_ERR_NOMEM)
      else case piv_chained_read xfer s [0x00, 0xF9, 0x00, slot, 0x00] of
        (s1, Inl e) \<Rightarrow> (s1, Inl e)
      | (s1, Inr accum) \<Rightarrow> (s1, if length accum > derlen then Inl PIV_ERR_BUFSIZE else Inr accum))"

section \<open>GENERATE ASYMMETRIC KEY PAIR\<close>

text \<open>
  The public key object \<open>7F 49 [len] { tag [len] value \<dots> }\<close>.  \<open>pubkey_out\<close> says whether
  the output buffer is given, \<open>pubkey_len\<close> is its capacity or \<open>None\<close> for a \<open>NULL\<close> pointer.
\<close>

definition parse_pubkey_object :: "byte list \<Rightarrow> bool \<Rightarrow> nat option \<Rightarrow> piv_err + byte list option" where
  "parse_pubkey_object resp pubkey_out pubkey_len =
     (let data_end = length resp - 2 in
      if 2 > data_end \<or> resp ! 0 \<noteq> 0x7F \<or> resp ! 1 \<noteq> 0x49 then Inl PIV_ERR_ENCODING
      else case ber_len_decode (bslice resp 2 (data_end - 2)) of
        None \<Rightarrow> Inl PIV_ERR_ENCODING
      | Some (outer_len, n1) \<Rightarrow>
          let i = 2 + n1 in
          if outer_len > data_end - i then Inl PIV_ERR_ENCODING
          else if i \<ge> data_end then Inl PIV_ERR_ENCODING
          else case ber_len_decode (bslice resp (i + 1) (data_end - (i + 1))) of
            None \<Rightarrow> Inl PIV_ERR_ENCODING
          | Some (inner_len, n2) \<Rightarrow>
              let j = i + 1 + n2 in
              if inner_len > data_end - j then Inl PIV_ERR_ENCODING
              else if pubkey_out then
                (case pubkey_len of
                   None \<Rightarrow> Inl PIV_ERR_BUFSIZE
                 | Some cap \<Rightarrow> if inner_len > cap then Inl PIV_ERR_BUFSIZE
                              else Inr (Some (bslice resp j inner_len)))
              else Inr None)"

definition wp11_piv_generate_key ::
  "('s \<Rightarrow> byte list \<Rightarrow> nat \<Rightarrow> 's \<times> ('e + byte list)) \<Rightarrow> bool \<Rightarrow> 's \<Rightarrow> byte \<Rightarrow> byte \<Rightarrow> bool \<Rightarrow> nat option
     \<Rightarrow> 's \<times> (piv_err + byte list option)" where
  "wp11_piv_generate_key xfer ptrs_ok s slot alg pubkey_out pubkey_len =
     (if \<not> ptrs_ok then (s, Inl PIV_ERR_PARAM)
      else case exchange_6c xfer s [0x00, 0x47, 0x00, slot, 0x05, 0xAC, 0x03, 0x80, 0x01, alg, 0x00] PIV_APDU_MAX_RESP of
        (s1, Inl f) \<Rightarrow> (s1, Inl (piv_fail f))
      | (s1, Inr (resp, sw1, sw2)) \<Rightarrow>
          (s1, if sw1 \<noteq> 0x90 \<or> sw2 \<noteq> 0x00 then Inl (piv_sw_to_err sw1 sw2)
               else parse_pubkey_object resp pubkey_out pubkey_len))"

section \<open>Commands\<close>

lemma general_auth_cmd_form:
  assumes "length payload \<le> 247"
  shows "general_auth_cmd tag slot alg payload =
     Inr ([0x00, 0x87, alg, slot, byte_of (length (tlv 0x7C ([0x82, 0x00] @ tlv tag payload)))]
          @ tlv 0x7C ([0x82, 0x00] @ tlv tag payload) @ [0x00])"
    and "length (tlv 0x7C ([0x82, 0x00] @ tlv tag payload)) \<le> 255"
proof -
  obtain l2 where l2: "ber_len_encode (length payload) = Some l2"
    using ber_len_encode_defined [of "length payload"] assms by auto
  have t2: "tlv tag payload = tag # l2 @ payload" by (simp add: tlv_def l2)
  have n2: "length l2 = (if length payload \<le> 0x7F then 1 else 2)"
    using length_ber_len_encode [OF l2] assms by simp
  let ?d = "length ([0x82, 0x00] @ tlv tag payload)"
  have d: "?d = 2 + 1 + (if length payload \<le> 0x7F then 1 else 2) + length payload"
    using n2 by (simp add: t2)
  have dle: "?d \<le> 252" unfolding d using assms by simp
  then obtain l1 where l1: "ber_len_encode ?d = Some l1"
    using ber_len_encode_defined [of ?d] by auto
  have t1: "tlv 0x7C ([0x82, 0x00] @ tlv tag payload) = 0x7C # l1 @ [0x82, 0x00] @ tag # l2 @ payload"
    using l1 by (simp add: tlv_def [of "0x7C"] t2)
  have len: "length (tlv 0x7C ([0x82, 0x00] @ tlv tag payload)) = 1 + (if ?d \<le> 0x7F then 1 else 2) + ?d"
    using length_tlv [of "[0x82, 0x00] @ tlv tag payload" "0x7C"] dle by (simp split: if_splits)
  show "length (tlv 0x7C ([0x82, 0x00] @ tlv tag payload)) \<le> 255"
    using len dle by (simp split: if_splits)
  then show "general_auth_cmd tag slot alg payload =
     Inr ([0x00, 0x87, alg, slot, byte_of (length (tlv 0x7C ([0x82, 0x00] @ tlv tag payload)))]
          @ tlv 0x7C ([0x82, 0x00] @ tlv tag payload) @ [0x00])"
    using l1 l2 t1 len unfolding general_auth_cmd_def Let_def d [symmetric]
    by (simp add: PIV_APDU_MAX_CMD_def)
qed

section \<open>Answers\<close>

lemma general_auth_parse_bound:
  "general_auth_parse e resp cap = Inr r \<Longrightarrow>
     length r \<le> cap \<and> (\<exists>p. p + length r \<le> length resp - 2 \<and> r = bslice resp p (length r))"
proof -
  assume "general_auth_parse e resp cap = Inr r"
  then obtain i d j n where o: "tlv_expect resp 0 (length resp - 2) 0x7C = Inr (i, d)"
    and j: "tlv_expect resp i (i + d) 0x82 = Inr (j, n)" and n: "n \<le> cap" and r: "r = bslice resp j n"
    by (auto simp: general_auth_parse_def Let_def split: if_splits sum.splits tlv_err.splits)
  from tlv_expect_bounds [OF o] tlv_expect_bounds [OF j] have jn: "j + n \<le> length resp - 2" by linarith
  then have "length r = n" unfolding r by (intro length_bslice) linarith
  with r n jn show ?thesis by auto
qed

lemma general_auth_parse_ok:
  assumes "length (tlv 0x82 v) \<le> 0xFFFF" "length v \<le> 0xFFFF" "length v \<le> cap"
  shows "general_auth_parse e (tlv 0x7C (tlv 0x82 v) @ [a, b]) cap = Inr v"
proof -
  let ?in = "tlv 0x82 v" and ?out = "tlv 0x7C (tlv 0x82 v)"
  let ?k = "length ?out - length ?in"
  have out: "tlv_expect (?out @ [a, b]) 0 (length ?out) 0x7C = Inr (?k, length ?in)"
    using tlv_expect_tlv [OF assms(1) refl refl, where pre = "[]" and tag = "0x7C" and e = "length ?out" and post = "[a, b]"] by simp
  have split: "take ?k ?out @ ?in = ?out" and k: "length (take ?k ?out) = ?k" "?k + length ?in = length ?out"
    using ber_len_encode_defined [OF assms(1)] by (auto simp: tlv_def)
  have buf: "?out @ [a, b] = take ?k ?out @ tlv 0x82 v @ [a, b]"
    using split by (metis append.assoc)
  have inn: "tlv_expect (?out @ [a, b]) ?k (?k + length ?in) 0x82
      = Inr (?k + length ?in - length v, length v)"
    using tlv_expect_tlv [OF assms(2) k(1) [symmetric] buf, where e = "?k + length ?in"] k by simp
  have val: "bslice (?out @ [a, b]) (?k + length ?in - length v) (length v) = v"
    using bslice_tlv [OF assms(2) buf] by (simp add: k)
  have "length ?out \<noteq> 0" using ber_len_encode_defined [OF assms(1)] by (auto simp: tlv_def)
  with out inn val assms(3) show ?thesis by (simp add: general_auth_parse_def)
qed

lemma parse_cert_bound:
  "parse_cert_object accum cap = Inr r \<Longrightarrow> length r \<le> cap \<and> length r \<le> length accum"
proof -
  assume "parse_cert_object accum cap = Inr r"
  then obtain i d j n where o: "tlv_expect accum 0 (length accum) 0x53 = Inr (i, d)"
    and j: "tlv_expect accum i (i + d) 0x70 = Inr (j, n)" and n: "n \<le> cap" and r: "r = bslice accum j n"
    by (auto simp: parse_cert_object_def split: if_splits sum.splits)
  from tlv_expect_bounds [OF o] tlv_expect_bounds [OF j] have "j + n \<le> length accum" by linarith
  with r n length_bslice_le [of accum j n] show ?thesis by simp
qed

lemma parse_cert_ok:
  assumes "length (tlv 0x70 cert @ rest) \<le> 0xFFFF" "length cert \<le> 0xFFFF" "length cert \<le> cap"
  shows "parse_cert_object (tlv 0x53 (tlv 0x70 cert @ rest)) cap = Inr cert"
proof -
  let ?body = "tlv 0x70 cert @ rest" and ?out = "tlv 0x53 (tlv 0x70 cert @ rest)"
  let ?k = "length ?out - length ?body"
  have out: "tlv_expect ?out 0 (length ?out) 0x53 = Inr (?k, length ?body)"
    using tlv_expect_tlv [OF assms(1) refl refl, where pre = "[]" and tag = "0x53" and e = "length ?out" and post = "[]"] by simp
  have split: "take ?k ?out @ ?body = ?out" and k: "length (take ?k ?out) = ?k" "?k + length ?body = length ?out"
    using ber_len_encode_defined [OF assms(1)] by (auto simp: tlv_def)
  have buf: "?out = take ?k ?out @ tlv 0x70 cert @ rest" using split by simp
  have inn: "tlv_expect ?out ?k (?k + length ?body) 0x70
      = Inr (?k + length (tlv 0x70 cert) - length cert, length cert)"
    using tlv_expect_tlv [OF assms(2) k(1) [symmetric] buf, where e = "?k + length ?body"] k by simp
  have val: "bslice ?out (?k + length (tlv 0x70 cert) - length cert) (length cert) = cert"
    using bslice_tlv [OF assms(2) buf] by (simp add: k)
  from out inn val assms(3) show ?thesis by (simp add: parse_cert_object_def)
qed

lemma parse_pubkey_bound:
  assumes "parse_pubkey_object resp out cap = Inr (Some r)"
  shows "\<exists>c. cap = Some c \<and> length r \<le> c \<and> length r \<le> length resp"
proof -
  from assms obtain j n c where "r = bslice resp j n" "cap = Some c" "n \<le> c"
    by (auto simp: parse_pubkey_object_def Let_def split: if_splits option.splits)
  then show ?thesis
    using length_bslice_le [of resp j n] length_bslice_le_all [of resp j n] by auto
qed

end
