(* ===== verification/PivCorrect.thy ===== *)
theory PivCorrect imports Piv begin

text \<open>
  Correctness of the PIV operations: what they return for a card that answers properly,
  that a certificate split over any number of GET RESPONSE chunks is put together again,
  bounds on every output for any card, the number of exchanges a hostile card can cause,
  and the meaning of the PIN and SELECT outcomes.
\<close>

section \<open>Bounds, for every transport that keeps the channel's promises\<close>

context apdu_channel
begin

lemma general_auth_bound:
  "general_auth xfer tag e ptrs s slot alg payload cap = (s', Inr r) \<Longrightarrow>
     length r \<le> cap \<and> length r \<le> PIV_APDU_MAX_RESP - 2 \<and> length payload \<le> 247"
proof -
  assume a: "general_auth xfer tag e ptrs s slot alg payload cap = (s', Inr r)"
  then obtain cmd resp sw1 sw2 where c: "exchange_6c xfer s cmd PIV_APDU_MAX_RESP = (s', Inr (resp, sw1, sw2))"
    and p: "general_auth_parse e resp cap = Inr r" and l: "length payload \<le> 247"
    by (auto simp: general_auth_def Let_def split: if_splits sum.splits prod.splits)
  from exchange_6c_ok [OF c] have "length resp \<le> PIV_APDU_MAX_RESP" by blast
  with general_auth_parse_bound [OF p] l show ?thesis by fastforce
qed

lemma get_response_loop_bound:
  assumes "length accum \<le> PIV_CERT_MAX_LEN"
  shows "get_response_loop xfer s accum sw1 sw2 = (s', Inr (a, x, y)) \<Longrightarrow>
     length a \<le> PIV_CERT_MAX_LEN \<and> x \<noteq> 0x61 \<and> take (length accum) a = accum"
  using assms
proof (induction xfer s accum sw1 sw2 rule: get_response_loop.induct)
  case (1 xfer s accum sw1 sw2)
  show ?case
  proof (cases "sw1 = 0x61")
    case False
    with "1.prems" show ?thesis by (simp add: get_response_loop.simps [of xfer s])
  next
    case True
    with "1.prems" obtain s1 chunk w1 w2
      where e: "exchange xfer s get_response_cmd PIV_APDU_MAX_RESP = (s1, Inr (chunk, w1, w2))"
        and g: "\<not> (w1 \<noteq> 0x90 \<and> w1 \<noteq> 0x61)" "\<not> (length chunk - 2 = 0 \<and> w1 = 0x61)"
          "\<not> length accum + (length chunk - 2) > PIV_CERT_MAX_LEN"
        and l: "get_response_loop xfer s1 (accum @ take (length chunk - 2) chunk) w1 w2 = (s', Inr (a, x, y))"
      by (auto simp: get_response_loop.simps [of xfer s] split: prod.splits sum.splits if_splits)
    let ?acc = "accum @ take (length chunk - 2) chunk"
    have "length ?acc \<le> PIV_CERT_MAX_LEN" using g(3) by simp
    with "1.IH" [OF _ e [symmetric] refl refl refl g l] True
    have a: "length a \<le> PIV_CERT_MAX_LEN \<and> x \<noteq> 0x61 \<and> take (length ?acc) a = ?acc"
      by auto
    from a have "take (length accum) (take (length ?acc) a) = take (length accum) ?acc" by presburger
    moreover have "take (length accum) (take (length ?acc) a) = take (length accum) a"
      by (simp add: take_take min_absorb1 del: take_append append_take_drop_id)
    ultimately show ?thesis using a by simp
  qed
qed

lemma chained_read_bound:
  "piv_chained_read xfer s cmd = (s', Inr r) \<Longrightarrow> length r \<le> PIV_CERT_MAX_LEN \<and> \<not> dead s"
proof -
  assume a: "piv_chained_read xfer s cmd = (s', Inr r)"
  then have "\<not> dead s" by (auto simp: piv_chained_read_def exchange_dead)
  moreover from a obtain s1 chunk sw1 sw2 x y where "length chunk - 2 \<le> PIV_CERT_MAX_LEN"
    and "get_response_loop xfer s1 (take (length chunk - 2) chunk) sw1 sw2 = (s', Inr (r, x, y))"
    by (auto simp: piv_chained_read_def not_less split: prod.splits sum.splits if_splits)
  then have "length r \<le> PIV_CERT_MAX_LEN"
    using get_response_loop_bound [of "take (length chunk - 2) chunk"] by fastforce
  ultimately show ?thesis by simp
qed

end

text \<open>How many exchanges a card can cause: the transport with a counter.\<close>

definition counted ::
  "('s \<Rightarrow> byte list \<Rightarrow> nat \<Rightarrow> 's \<times> ('e + byte list)) \<Rightarrow> 's \<times> nat \<Rightarrow> byte list \<Rightarrow> nat \<Rightarrow> ('s \<times> nat) \<times> ('e + byte list)" where
  "counted xfer sn cmd cap = (let (s', r) = xfer (fst sn) cmd cap in ((s', Suc (snd sn)), r))"

lemma counted_step: "snd (fst (counted xfer sn cmd cap)) = Suc (snd sn)"
  by (simp add: counted_def Let_def split: prod.splits)

lemma counted_exchange: "snd (fst (exchange (counted xfer) sn cmd cap)) = Suc (snd sn)"
  using counted_step [of xfer sn cmd cap] by (auto simp: exchange_def split: prod.splits sum.splits)

lemma counted_exchange_6c: "snd (fst (exchange_6c (counted xfer) sn cmd cap)) \<le> snd sn + 2"
proof -
  obtain s1 r where e: "exchange (counted xfer) sn cmd cap = (s1, r)" by (cases "exchange (counted xfer) sn cmd cap")
  then have n: "snd s1 = Suc (snd sn)" using counted_exchange [of xfer sn cmd cap] by simp
  have "snd (fst (exchange (counted xfer) s1 c cap)) = snd sn + 2" for c
    using counted_exchange [of xfer s1 c cap] n by simp
  then show ?thesis by (auto simp: exchange_6c_def e n split: sum.splits prod.splits)
qed

lemma counted_loop:
  "snd (fst (get_response_loop (counted xfer) sn accum sw1 sw2))
     \<le> snd sn + (PIV_CERT_MAX_LEN - length accum) + (if sw1 = 0x61 then 1 else 0)"
proof (induction "counted xfer" sn accum sw1 sw2 rule: get_response_loop.induct)
  case (1 sn accum sw1 sw2)
  obtain s1 r where e: "exchange (counted xfer) sn get_response_cmd PIV_APDU_MAX_RESP = (s1, r)"
    by (cases "exchange (counted xfer) sn get_response_cmd PIV_APDU_MAX_RESP")
  then have n: "snd s1 = Suc (snd sn)" using counted_exchange [of xfer sn get_response_cmd] by (metis fst_conv)
  show ?case
  proof (cases "\<exists>chunk w1 w2. r = Inr (chunk, w1, w2) \<and> sw1 = 0x61 \<and> \<not> (w1 \<noteq> 0x90 \<and> w1 \<noteq> 0x61)
      \<and> \<not> (length chunk - 2 = 0 \<and> w1 = 0x61) \<and> \<not> length accum + (length chunk - 2) > PIV_CERT_MAX_LEN")
    case False
    then show ?thesis using n
      by (auto simp: get_response_loop.simps [of _ sn] e split: sum.splits)
  next
    case True
    then obtain chunk w1 w2 where r: "r = Inr (chunk, w1, w2)" and w: "sw1 = 0x61" "\<not> (w1 \<noteq> 0x90 \<and> w1 \<noteq> 0x61)"
      and g: "\<not> (length chunk - 2 = 0 \<and> w1 = 0x61)" "\<not> length accum + (length chunk - 2) > PIV_CERT_MAX_LEN"
      by blast
    have "get_response_loop (counted xfer) sn accum sw1 sw2
        = get_response_loop (counted xfer) s1 (accum @ take (length chunk - 2) chunk) w1 w2"
      using w g by (subst get_response_loop.simps) (simp add: e r; blast)
    moreover have "snd (fst (get_response_loop (counted xfer) s1 (accum @ take (length chunk - 2) chunk) w1 w2))
        \<le> snd s1 + (PIV_CERT_MAX_LEN - length (accum @ take (length chunk - 2) chunk)) + (if w1 = 0x61 then 1 else 0)"
      using "1.hyps" [OF _ e [symmetric] r refl refl w(2) g] w(1) by simp
    ultimately show ?thesis using n w g by (auto split: if_splits)
  qed
qed

lemma counted_chained_read:
  "snd (fst (piv_chained_read (counted xfer) sn cmd)) \<le> snd sn + 4098"
proof -
  obtain s1 r where e: "exchange (counted xfer) sn cmd PIV_APDU_MAX_RESP = (s1, r)"
    by (cases "exchange (counted xfer) sn cmd PIV_APDU_MAX_RESP")
  then have n: "snd s1 = Suc (snd sn)" using counted_exchange [of xfer sn cmd PIV_APDU_MAX_RESP] by simp
  have l: "snd (fst (case get_response_loop (counted xfer) s1 accum sw1 sw2 of
      (s2, Inl e) \<Rightarrow> (s2, Inl e)
    | (s2, Inr (a, x, y)) \<Rightarrow> (s2, if x = 0x90 \<longrightarrow> y \<noteq> 0 then Inl PIV_ERR_SW else Inr a))) \<le> snd sn + 4098"
    for accum sw1 sw2
    using counted_loop [of xfer s1 accum sw1 sw2] n
    by (auto simp: PIV_CERT_MAX_LEN_def split: if_splits prod.splits sum.splits)
  show ?thesis
  proof (cases r)
    case (Inr q)
    then show ?thesis using n l by (cases q) (simp add: piv_chained_read_def e)
  qed (simp add: piv_chained_read_def e n)
qed

lemma fst_get_cert:
  "fst (wp11_piv_get_cert xfer m p s slot cap) =
     (case cert_tag slot of
        Some t \<Rightarrow> if p \<and> m then fst (piv_chained_read xfer s (get_cert_cmd t)) else s
      | None \<Rightarrow> s)"
  by (simp add: wp11_piv_get_cert_def split: option.splits prod.splits sum.splits)

lemma fst_attest:
  "fst (wp11_piv_attest xfer m p s slot cap) =
     (if p \<and> m then fst (piv_chained_read xfer s [0x00, 0xF9, 0x00, slot, 0x00]) else s)"
  by (simp add: wp11_piv_attest_def split: prod.splits sum.splits)

lemma high_nibble: "sw AND 0xF0 = 0xC0 \<longleftrightarrow> unat (sw :: byte) div 16 = 12"
proof -
  have u: "unat sw div 16 = unat (drop_bit 4 sw)" by (simp add: drop_bit_eq_div unat_div)
  have "unat (drop_bit 4 sw) = 12 \<longleftrightarrow> drop_bit 4 sw = 12"
    using word_unat_eq_iff [of "drop_bit 4 sw" 12] by simp
  also have "\<dots> \<longleftrightarrow> push_bit 4 (drop_bit 4 sw) = 0xC0"
  proof
    assume "push_bit 4 (drop_bit 4 sw) = 0xC0"
    then have "drop_bit 4 (push_bit 4 (drop_bit 4 sw)) = drop_bit 4 (0xC0 :: byte)" by simp
    moreover have "drop_bit 4 (push_bit 4 (drop_bit 4 sw)) = drop_bit 4 sw"
      by (rule bit_word_eqI) (auto simp: bit_simps dest: bit_imp_le_length)
    ultimately show "drop_bit 4 sw = 12" by simp
  qed simp
  also have "push_bit 4 (drop_bit 4 sw) = sw AND NOT (mask 4)"
    by (rule bit_word_eqI) (auto simp: bit_simps)
  also have "NOT (mask 4) = (0xF0 :: byte)" by (simp add: mask_eq_exp_minus_1 not_eq_complement)
  finally show ?thesis by (simp add: u)
qed

section \<open>The answer to SELECT\<close>

lemma piv_scan_df_hit:
  assumes "length name \<le> 65535" "body = pre @ tlv 0x84 name @ post"
  shows "piv_scan_df body (length pre) = (if name = PIV_AID then FCI_AID_FOUND else FCI_WRONG_AID)"
proof -
  from assms(1) obtain l where l: "ber_len_encode (length name) = Some l" using ber_len_encode_defined by blast
  have b: "body = pre @ 0x84 # l @ name @ post" using assms(2) l by (simp add: tlv_def)
  then have "drop (Suc (length pre)) body = l @ name @ post" by simp
  moreover have "l \<noteq> []" using ber_len_encode_Some [OF l] by auto
  moreover have "bslice body (Suc (length pre + length l)) (length name) = name" by (simp add: b bslice_def)
  ultimately show ?thesis
    by (subst piv_scan_df.simps) (auto simp: b nth_append ber_len_decode_encode [OF l] Let_def)
qed

lemma piv_scan_df_skip:
  assumes "length v \<le> 65535" "tag \<noteq> 0x84" "body = pre @ tlv tag v @ post"
  shows "piv_scan_df body (length pre) = piv_scan_df body (length (pre @ tlv tag v))"
proof -
  from assms(1) obtain l where l: "ber_len_encode (length v) = Some l" using ber_len_encode_defined by blast
  have b: "body = pre @ tag # l @ v @ post" and t: "tlv tag v = tag # l @ v" using assms(3) l by (simp_all add: tlv_def)
  then have "drop (Suc (length pre)) body = l @ v @ post" by simp
  moreover have "l \<noteq> []" using ber_len_encode_Some [OF l] by auto
  ultimately show ?thesis using assms(2)
    by (subst piv_scan_df.simps) (simp add: b t nth_append ber_len_decode_encode [OF l] Let_def algebra_simps)
qed

lemma piv_fci_start_tlv:
  assumes "outer = 0x6F \<or> outer = 0x61" "length v \<le> 65535"
  shows "\<exists>pre. tlv outer v = pre @ v \<and> piv_fci_start (tlv outer v) = (True, length pre)"
proof -
  from assms(2) obtain l where l: "ber_len_encode (length v) = Some l" using ber_len_encode_defined by blast
  then have t: "tlv outer v = outer # l @ v" by (simp add: tlv_def)
  have "l \<noteq> []" using ber_len_encode_Some [OF l] by auto
  then have "piv_fci_start (tlv outer v) = (True, length (outer # l))"
    using assms(1) ber_len_decode_encode [OF l, of v] by (auto simp: piv_fci_start_def t)
  then show ?thesis using t by (intro exI [of _ "outer # l"]) simp
qed

lemma piv_check_fci_df:
  assumes "outer = 0x6F \<or> outer = 0x61" "length name \<le> 65530" "length (tlv 0x84 name @ rest) \<le> 65535"
  shows "piv_check_fci (tlv outer (tlv 0x84 name @ rest)) = (if name = PIV_AID then Inr () else Inl PIV_ERR_SW)"
proof -
  obtain pre where p: "tlv outer (tlv 0x84 name @ rest) = pre @ tlv 0x84 name @ rest"
    "piv_fci_start (tlv outer (tlv 0x84 name @ rest)) = (True, length pre)"
    using piv_fci_start_tlv [OF assms(1,3)] by auto
  have "piv_scan_df (tlv outer (tlv 0x84 name @ rest)) (length pre)
      = (if name = PIV_AID then FCI_AID_FOUND else FCI_WRONG_AID)"
    using piv_scan_df_hit [OF _ p(1)] assms(2) by simp
  then show ?thesis by (simp add: piv_check_fci_def p(2))
qed

lemma piv_check_fci_apt:
  assumes "length aid \<le> 100" "length authority \<le> 100"
  shows "piv_check_fci (tlv 0x61 (tlv 0x4F aid @ tlv 0x79 authority)) = Inl PIV_ERR_ENCODING"
proof -
  let ?v = "tlv 0x4F aid @ tlv 0x79 authority" and ?body = "tlv 0x61 (tlv 0x4F aid @ tlv 0x79 authority)"
  have "length ?v \<le> 65535" using assms by (simp add: length_tlv)
  then obtain pre where p: "?body = pre @ tlv 0x4F aid @ tlv 0x79 authority" "piv_fci_start ?body = (True, length pre)"
    using piv_fci_start_tlv [of "0x61" ?v] by auto
  have "piv_scan_df ?body (length pre) = piv_scan_df ?body (length (pre @ tlv 0x4F aid))"
    using piv_scan_df_skip [OF _ _ p(1)] assms by simp
  also have "\<dots> = piv_scan_df ?body (length ((pre @ tlv 0x4F aid) @ tlv 0x79 authority))"
    using piv_scan_df_skip [where body = ?body and pre = "pre @ tlv 0x4F aid" and tag = "0x79" and v = authority and post = "[]"]
      p(1) assms by simp
  also have "\<dots> = FCI_NO_AID" by (subst piv_scan_df.simps) (simp add: p(1))
  finally show ?thesis by (simp add: piv_check_fci_def p(2))
qed

section \<open>A card that answers\<close>

text \<open>
  \<open>card_chunks xfer s cs t\<close>: from state \<open>s\<close> the card answers successive GET RESPONSE commands with
  the chunks \<open>cs\<close>, each but the last followed by \<open>SW 61 xx\<close>, the last by \<open>SW 90 00\<close>, ending in \<open>t\<close>.
\<close>

fun card_chunks ::
  "('s \<Rightarrow> byte list \<Rightarrow> nat \<Rightarrow> 's \<times> ('e + byte list)) \<Rightarrow> 's \<Rightarrow> byte list list \<Rightarrow> 's \<Rightarrow> bool" where
  "card_chunks xfer s [] t = False"
| "card_chunks xfer s (c # cs) t =
     (case xfer s get_response_cmd PIV_APDU_MAX_RESP of
        (s1, Inl e) \<Rightarrow> False
      | (s1, Inr r) \<Rightarrow>
          if cs = [] then r = c @ [0x90, 0x00] \<and> s1 = t
          else c \<noteq> [] \<and> r = c @ [0x61, last r] \<and> card_chunks xfer s1 cs t)"

lemma loop_chunks:
  assumes "card_chunks xfer s cs t" "length accum + length (concat cs) \<le> PIV_CERT_MAX_LEN"
  shows "get_response_loop xfer s accum 0x61 x = (t, Inr (accum @ concat cs, 0x90, 0x00))"
  using assms
proof (induction cs arbitrary: s accum x)
  case Nil
  then show ?case by simp
next
  case (Cons c cs)
  from Cons.prems(1) obtain s1 r where r: "xfer s get_response_cmd PIV_APDU_MAX_RESP = (s1, Inr r)"
    by (auto split: prod.splits sum.splits)
  show ?case
  proof (cases "cs = []")
    case True
    with Cons.prems r have "exchange xfer s get_response_cmd PIV_APDU_MAX_RESP = (t, Inr (c @ [0x90, 0x00], 0x90, 0x00))"
      by (auto intro: exchange_answer)
    with True Cons.prems(2) show ?thesis
      by (simp add: get_response_loop.simps [of xfer s] get_response_loop.simps [of xfer t])
  next
    case False
    with Cons.prems(1) r have c: "c \<noteq> []" "r = c @ [0x61, last r]" "card_chunks xfer s1 cs t" by auto
    have "exchange xfer s get_response_cmd PIV_APDU_MAX_RESP = (s1, Inr (c @ [0x61, last r], 0x61, last r))"
      using r c(2) exchange_answer [where a = "0x61" and b = "last r" and d = c] by metis
    moreover have "get_response_loop xfer s1 (accum @ c) 0x61 (last r) = (t, Inr ((accum @ c) @ concat cs, 0x90, 0x00))"
      using Cons.IH [OF c(3)] Cons.prems(2) by simp
    ultimately show ?thesis using c(1) Cons.prems(2)
      by (simp add: get_response_loop.simps [of xfer s])
  qed
qed

text \<open>The transport's final answer to a command, at once or after one \<open>SW 6C xx\<close>.\<close>

definition answers ::
  "('s \<Rightarrow> byte list \<Rightarrow> nat \<Rightarrow> 's \<times> ('e + byte list)) \<Rightarrow> 's \<Rightarrow> byte list \<Rightarrow> byte list \<Rightarrow> 's \<Rightarrow> bool" where
  "answers xfer s cmd ans t =
     (case xfer s cmd PIV_APDU_MAX_RESP of
        (s1, Inl e) \<Rightarrow> False
      | (s1, Inr r) \<Rightarrow>
          (r = ans \<and> s1 = t) \<or>
          (2 \<le> length r \<and> r ! (length r - 2) = 0x6C \<and>
           xfer s1 (cmd[length cmd - 1 := last r]) PIV_APDU_MAX_RESP = (t, Inr ans)))"

lemma answers_exchange_6c:
  assumes "answers xfer s cmd (d @ [a, b]) t" "a \<noteq> 0x6C"
  shows "exchange_6c xfer s cmd PIV_APDU_MAX_RESP = (t, Inr (d @ [a, b], a, b))"
proof -
  from assms(1) obtain s1 r where x: "xfer s cmd PIV_APDU_MAX_RESP = (s1, Inr r)"
    and c: "(r = d @ [a, b] \<and> s1 = t) \<or> (2 \<le> length r \<and> r ! (length r - 2) = 0x6C \<and>
       xfer s1 (cmd[length cmd - 1 := last r]) PIV_APDU_MAX_RESP = (t, Inr (d @ [a, b])))"
    by (auto simp: answers_def split: prod.splits sum.splits)
  from c show ?thesis
  proof
    assume "r = d @ [a, b] \<and> s1 = t"
    with x assms(2) show ?thesis by (auto intro: exchange_6c_answer)
  next
    assume r: "2 \<le> length r \<and> r ! (length r - 2) = 0x6C \<and>
       xfer s1 (cmd[length cmd - 1 := last r]) PIV_APDU_MAX_RESP = (t, Inr (d @ [a, b]))"
    then have "get_sw r = (0x6C, last r)" by (cases r rule: rev_cases) (auto simp: get_sw_def last_conv_nth)
    with r x show ?thesis
      by (simp add: exchange_6c_def exchange_def not_less)
  qed
qed

definition auth_apdu :: "byte \<Rightarrow> byte \<Rightarrow> byte \<Rightarrow> byte list \<Rightarrow> byte list" where
  "auth_apdu tag slot alg payload =
     (let template = tlv 0x7C ([0x82, 0x00] @ tlv tag payload) in
      [0x00, 0x87, alg, slot, byte_of (length template)] @ template @ [0x00])"

lemma general_auth_answer:
  assumes "length payload \<le> 247" "answers xfer s (auth_apdu tag slot alg payload) (d @ [a, b]) t" "a \<noteq> 0x6C"
  shows "general_auth xfer tag e True s slot alg payload cap =
     (t, if a \<noteq> 0x90 \<or> b \<noteq> 0x00 then Inl (piv_sw_to_err a b) else general_auth_parse e (d @ [a, b]) cap)"
  using general_auth_cmd_form(1) [OF assms(1), of tag slot alg]
    answers_exchange_6c [OF assms(2,3)] assms(1)
  by (simp add: general_auth_def auth_apdu_def Let_def)

section \<open>Properties\<close>

text \<open>C7. Signing end to end: when the card answers the GENERAL AUTHENTICATE command for the
  challenge, at once or after one Le correction \<open>6C xx\<close>, with \<open>7C { 82 signature } 90 00\<close>,
  \<open>wp11_piv_sign\<close> returns exactly the signature, and the command it sent is the ISO 7816
  case-4 APDU whose Lc is the true length of its data, at most 255.\<close>
theorem piv_sign_correct:
  assumes "length challenge \<le> 247" "length sig \<le> siglen" "length sig \<le> 65530"
    and "answers xfer s (auth_apdu 0x81 slot alg challenge) (tlv 0x7C (tlv 0x82 sig) @ [0x90, 0x00]) t"
  shows "wp11_piv_sign xfer True s slot alg challenge siglen = (t, Inr sig)
     \<and> unat (auth_apdu 0x81 slot alg challenge ! 4) + 6 = length (auth_apdu 0x81 slot alg challenge)"
proof -
  have v: "length (tlv 0x82 sig) \<le> 65535" "length sig \<le> 65535" using assms(3) by (simp_all add: length_tlv)
  have "wp11_piv_sign xfer True s slot alg challenge siglen = (t, Inr sig)"
    using general_auth_answer [OF assms(1,4)] general_auth_parse_ok [OF v assms(2)]
    by (simp add: wp11_piv_sign_def)
  then show ?thesis using general_auth_cmd_form(2) [OF assms(1), of "0x81"]
    by (simp add: auth_apdu_def Let_def byte_simps)
qed

text \<open>A card for the witnesses: it answers every command with the bytes it is given.\<close>

definition fixed_card :: "byte list \<Rightarrow> unit \<Rightarrow> byte list \<Rightarrow> nat \<Rightarrow> unit \<times> (unit + byte list)" where
  "fixed_card ans s cmd cap = ((), Inr ans)"

theorem piv_sign_correct_witness:
  "wp11_piv_sign (fixed_card (tlv 0x7C (tlv 0x82 [7, 8, 9]) @ [0x90, 0x00])) True () 0x9A 0x11 [1, 2] 64 = ((), Inr [7, 8, 9])"
  using piv_sign_correct [of "[1, 2]" "[7, 8, 9]" 64 "fixed_card (tlv 0x7C (tlv 0x82 [7, 8, 9]) @ [0x90, 0x00])" "()" "0x9A" "0x11" "()"]
  by (simp add: length_tlv answers_def fixed_card_def)

text \<open>Key agreement end to end: the shared secret of \<open>7C { 82 z } 90 00\<close> is returned
  unchanged for a peer point sent under tag 0x85, and any other status word, in particular
  \<open>69 82\<close> (PIN not verified) and \<open>69 85\<close> (no touch), yields its own error and no bytes.\<close>
theorem piv_ecdh_correct:
  assumes "length peer \<le> 247" "length z \<le> cap" "length z \<le> 65530" "sw1 \<noteq> 0x6C"
    and "answers xfer s (auth_apdu 0x85 slot alg peer) (tlv 0x7C (tlv 0x82 z) @ [sw1, sw2]) t"
  shows "wp11_piv_ecdh xfer True s slot alg peer cap =
     (t, if sw1 = 0x90 \<and> sw2 = 0x00 then Inr z
         else Inl (if sw1 = 0x69 \<and> sw2 = 0x85 then PIV_ERR_USER_PRESENCE
                   else if sw1 = 0x69 \<and> sw2 = 0x82 then PIV_ERR_SECURITY_STATUS
                   else if sw1 = 0x6A \<and> sw2 = 0x81 then PIV_ERR_NOT_SUPPORTED
                   else if sw1 = 0x6A \<and> sw2 = 0x88 then PIV_ERR_NOT_FOUND else PIV_ERR_SW))"
proof -
  have v: "length (tlv 0x82 z) \<le> 65535" "length z \<le> 65535" using assms(3) by (simp_all add: length_tlv)
  show ?thesis
    using general_auth_answer [OF assms(1,5,4)] general_auth_parse_ok [OF v assms(2)]
    by (simp add: wp11_piv_ecdh_def piv_sw_to_err_def)
qed

theorem piv_ecdh_correct_witness:
  "wp11_piv_ecdh (fixed_card (tlv 0x7C (tlv 0x82 [7]) @ [0x69, 0x82])) True () 0x9D 0x11 [4] 32 = ((), Inl PIV_ERR_SECURITY_STATUS)"
  using piv_ecdh_correct [of "[4]" "[7]" 32 "0x69" "fixed_card (tlv 0x7C (tlv 0x82 [7]) @ [0x69, 0x82])" "()" "0x9D" "0x11" "0x82" "()"]
  by (simp add: length_tlv answers_def fixed_card_def)

text \<open>The first chunk and the ones behind it, as the card sends them for one read command.\<close>

definition card_sends ::
  "('s \<Rightarrow> byte list \<Rightarrow> nat \<Rightarrow> 's \<times> ('e + byte list)) \<Rightarrow> 's \<Rightarrow> byte list \<Rightarrow> byte list list \<Rightarrow> 's \<Rightarrow> bool" where
  "card_sends xfer s cmd cs t =
     (case (cs, xfer s cmd PIV_APDU_MAX_RESP) of
        (c # cs', (s1, Inr r)) \<Rightarrow>
          if cs' = [] then r = c @ [0x90, 0x00] \<and> s1 = t
          else r = c @ [0x61, last r] \<and> card_chunks xfer s1 cs' t
      | _ \<Rightarrow> False)"

lemma chained_read_chunks:
  assumes "card_sends xfer s cmd cs t" "length (concat cs) \<le> PIV_CERT_MAX_LEN"
  shows "piv_chained_read xfer s cmd = (t, Inr (concat cs))"
proof -
  from assms(1) obtain c cs' s1 r where cs: "cs = c # cs'" and x: "xfer s cmd PIV_APDU_MAX_RESP = (s1, Inr r)"
    and r: "if cs' = [] then r = c @ [0x90, 0x00] \<and> s1 = t else r = c @ [0x61, last r] \<and> card_chunks xfer s1 cs' t"
    by (auto simp: card_sends_def split: list.splits prod.splits sum.splits)
  show ?thesis
  proof (cases "cs' = []")
    case True
    with x r have "exchange xfer s cmd PIV_APDU_MAX_RESP = (t, Inr (c @ [0x90, 0x00], 0x90, 0x00))"
      by (auto intro: exchange_answer)
    with True assms(2) cs show ?thesis
      by (simp add: piv_chained_read_def get_response_loop.simps [of xfer t])
  next
    case False
    with r have r1: "r = c @ [0x61, last r]" and k: "card_chunks xfer s1 cs' t" by auto
    have "exchange xfer s cmd PIV_APDU_MAX_RESP = (s1, Inr (c @ [0x61, last r], 0x61, last r))"
      using x r1 exchange_answer [where a = "0x61" and b = "last r" and d = c] by metis
    with loop_chunks [OF k, of c "last r"] assms(2) cs show ?thesis
      by (simp add: piv_chained_read_def)
  qed
qed

text \<open>C9. Certificate retrieval puts the chunks together: when the card delivers the object
  \<open>53 { 70 cert, rest }\<close> cut into any number of non-empty chunks, the first behind the GET
  DATA command of the slot and the others behind GET RESPONSE, and the whole is at most 4096
  bytes, \<open>wp11_piv_get_cert\<close> returns exactly the certificate, without the card's other
  data objects and wherever the cuts fall.\<close>
theorem piv_get_cert_reassembles:
  assumes "cert_tag slot = Some tag_bytes" "card_sends xfer s (get_cert_cmd tag_bytes) cs t"
    and "concat cs = tlv 0x53 (tlv 0x70 cert @ rest)" "length (concat cs) \<le> 4096"
    and "length (tlv 0x70 cert @ rest) \<le> 65535" "length cert \<le> 65530" "length cert \<le> certlen"
  shows "wp11_piv_get_cert xfer True True s slot certlen = (t, Inr cert)"
proof -
  have "piv_chained_read xfer s (get_cert_cmd tag_bytes) = (t, Inr (concat cs))"
    using chained_read_chunks [OF assms(2)] assms(4) by (simp add: PIV_CERT_MAX_LEN_def)
  moreover have "parse_cert_object (concat cs) certlen = Inr cert"
    using parse_cert_ok [OF assms(5) _ assms(7)] assms(3,6) by simp
  ultimately show ?thesis using assms(1) by (simp add: wp11_piv_get_cert_def)
qed

text \<open>A card for the witness: its state is the list of answers still to come.\<close>

definition script_card :: "byte list list \<Rightarrow> byte list \<Rightarrow> nat \<Rightarrow> byte list list \<times> (unit + byte list)" where
  "script_card s cmd cap = (case s of [] \<Rightarrow> ([], Inl ()) | r # rs \<Rightarrow> (rs, Inr r))"

theorem piv_get_cert_reassembles_witness:
  "wp11_piv_get_cert script_card True True
     [[0x53, 0x05, 0x70, 0x61, 0x02], [0x02, 0xAA, 0x61, 0x02], [0xBB, 0x01, 0x90, 0x00]] 0x9A 100 = ([], Inr [0xAA, 0xBB])"
proof -
  have "tlv 0x53 (tlv 0x70 [0xAA, 0xBB] @ [0x01]) = concat [[0x53, 0x05, 0x70], [0x02, 0xAA], [0xBB, 0x01 :: byte]]"
    by (simp add: tlv_def ber_len_encode_def byte_of_def)
  moreover have "card_sends script_card
      [[0x53, 0x05, 0x70, 0x61, 0x02], [0x02, 0xAA, 0x61, 0x02], [0xBB, 0x01, 0x90, 0x00]] (get_cert_cmd [0x5F, 0xC1, 0x05])
      [[0x53, 0x05, 0x70], [0x02, 0xAA], [0xBB, 0x01]] []"
    by (simp add: card_sends_def script_card_def)
  ultimately show ?thesis
    using piv_get_cert_reassembles [of "0x9A" "[0x5F, 0xC1, 0x05]" script_card _ "[[0x53, 0x05, 0x70], [0x02, 0xAA], [0xBB, 0x01]]" "[]"
        "[0xAA, 0xBB]" "[0x01]" 100]
    by (simp add: cert_tag_def length_tlv)
qed

text \<open>C25. No answer of any card overruns a caller's buffer: over the CCID transport, with any
  USB device behind it, a signature or shared secret is at most the caller's capacity and 510 bytes, a
  certificate or attestation at most the capacity and 4096 bytes, and nothing is returned from a
  context that was out of sync.\<close>
theorem piv_outputs_bounded:
  "(case wp11_piv_sign (ccid_xfer env) p s slot alg inp cap of (s', Inl e) \<Rightarrow> True
      | (s', Inr r) \<Rightarrow> length r \<le> cap \<and> length r \<le> 510 \<and> \<not> desync s)
   \<and> (case wp11_piv_ecdh (ccid_xfer env) p s slot alg inp cap of (s', Inl e) \<Rightarrow> True
      | (s', Inr r) \<Rightarrow> length r \<le> cap \<and> length r \<le> 510 \<and> \<not> desync s)
   \<and> (case wp11_piv_get_cert (ccid_xfer env) m p s slot cap of (s', Inl e) \<Rightarrow> True
      | (s', Inr r) \<Rightarrow> length r \<le> cap \<and> length r \<le> 4096 \<and> \<not> desync s)
   \<and> (case wp11_piv_attest (ccid_xfer env) m p s slot cap of (s', Inl e) \<Rightarrow> True
      | (s', Inr r) \<Rightarrow> length r \<le> cap \<and> length r \<le> 4096 \<and> \<not> desync s)"
proof -
  have ga: "length r \<le> cap \<and> length r \<le> 510 \<and> \<not> desync s"
    if "general_auth (ccid_xfer env) tag e p s slot alg inp cap = (s', Inr r)" for tag e s' r
  proof -
    have "\<not> desync s" using that
      by (auto simp: general_auth_def ccid.exchange_6c_dead Let_def split: if_splits sum.splits)
    with ccid.general_auth_bound [OF that] show ?thesis by (simp add: PIV_APDU_MAX_RESP_def)
  qed
  have cr: "length r \<le> 4096 \<and> \<not> desync s" if "piv_chained_read (ccid_xfer env) s cmd = (s', Inr r)" for cmd s' r
    using ccid.chained_read_bound [OF that] by (simp add: PIV_CERT_MAX_LEN_def)
  have gc: "length r \<le> cap \<and> length r \<le> 4096 \<and> \<not> desync s"
    if g: "wp11_piv_get_cert (ccid_xfer env) m p s slot cap = (s', Inr r)" for s' r
  proof -
    from g obtain cmd accum where "piv_chained_read (ccid_xfer env) s cmd = (s', Inr accum)"
      and "parse_cert_object accum cap = Inr r"
      by (auto simp: wp11_piv_get_cert_def split: prod.splits sum.splits if_splits option.splits)
    with cr parse_cert_bound show ?thesis by (meson le_trans)
  qed
  have at: "length r \<le> cap \<and> length r \<le> 4096 \<and> \<not> desync s"
    if g: "wp11_piv_attest (ccid_xfer env) m p s slot cap = (s', Inr r)" for s' r
  proof -
    from g have "piv_chained_read (ccid_xfer env) s [0x00, 0xF9, 0x00, slot, 0x00] = (s', Inr r)" "length r \<le> cap"
      by (auto simp: wp11_piv_attest_def split: prod.splits sum.splits if_splits)
    with cr show ?thesis by blast
  qed
  show ?thesis
    using ga [folded wp11_piv_sign_def] ga [folded wp11_piv_ecdh_def] gc at
    by (simp add: wp11_piv_sign_def wp11_piv_ecdh_def split: prod.splits sum.splits)
qed

text \<open>C26. A hostile card cannot keep the library busy: whatever it answers, a signature or a
  key agreement makes at most two exchanges, and reading a certificate or an attestation at
  most 4098, after which the operation has returned a result or an error.\<close>
theorem piv_exchanges_bounded:
  "snd (fst (wp11_piv_sign (counted xfer) p (s, n) slot alg inp cap)) \<le> n + 2
   \<and> snd (fst (wp11_piv_ecdh (counted xfer) p (s, n) slot alg inp cap)) \<le> n + 2
   \<and> snd (fst (wp11_piv_generate_key (counted xfer) p (s, n) slot alg out plen)) \<le> n + 2
   \<and> snd (fst (wp11_piv_get_cert (counted xfer) m p (s, n) slot cap)) \<le> n + 4098
   \<and> snd (fst (wp11_piv_attest (counted xfer) m p (s, n) slot cap)) \<le> n + 4098"
proof -
  note two = counted_exchange_6c [of xfer "(s, n)", simplified]
  have ga: "snd (fst (general_auth (counted xfer) tag e p (s, n) slot alg inp cap)) \<le> n + 2" for tag e
  proof (cases "general_auth_cmd tag slot alg inp")
    case (Inr cmd)
    with two [of cmd PIV_APDU_MAX_RESP] show ?thesis
      by (auto simp: general_auth_def Let_def split: prod.splits sum.splits)
  qed (auto simp: general_auth_def)
  have gen: "snd (fst (wp11_piv_generate_key (counted xfer) p (s, n) slot alg out plen)) \<le> n + 2"
    using two [of "[0x00, 0x47, 0x00, slot, 0x05, 0xAC, 0x03, 0x80, 0x01, alg, 0x00]" PIV_APDU_MAX_RESP]
    by (auto simp: wp11_piv_generate_key_def split: prod.splits sum.splits)
  note cr = counted_chained_read [of xfer "(s, n)", simplified]
  show ?thesis
    using ga gen cr
    by (auto simp: wp11_piv_sign_def wp11_piv_ecdh_def fst_get_cert fst_attest split: option.splits)
qed

text \<open>C34. The PIN check reports what the card said and nothing else: a PIN of 4 to 8 bytes is
  sent padded with FF to eight, and the call succeeds exactly on \<open>90 00\<close>, reports a bad PIN
  exactly on \<open>63 Cx\<close> and a blocked one exactly on \<open>69 83\<close>; any other length is refused
  before anything reaches the card, so it can never consume a retry.\<close>
theorem piv_verify_pin_meaning:
  assumes "xfer s ([0x00, 0x20, 0x00, 0x80, 0x08] @ pin @ replicate (8 - length pin) 0xFF) 512 = (t, Inr (d @ [sw1, sw2]))"
  shows "(4 \<le> length pin \<and> length pin \<le> 8 \<longrightarrow>
       fst (wp11_piv_verify_pin xfer True s pin) = t
     \<and> (snd (wp11_piv_verify_pin xfer True s pin) = Inr () \<longleftrightarrow> sw1 = 0x90 \<and> sw2 = 0x00)
     \<and> (snd (wp11_piv_verify_pin xfer True s pin) = Inl PIV_ERR_PIN_BAD \<longleftrightarrow> sw1 = 0x63 \<and> unat sw2 div 16 = 12)
     \<and> (snd (wp11_piv_verify_pin xfer True s pin) = Inl PIV_ERR_PIN_LOCKED \<longleftrightarrow> sw1 = 0x69 \<and> sw2 = 0x83))
   \<and> (length pin < 4 \<or> 8 < length pin \<longrightarrow> wp11_piv_verify_pin xfer ptrs s pin = (s, Inl PIV_ERR_PARAM))"
proof -
  have "exchange xfer s (piv_verify_cmd pin) PIV_APDU_MAX_RESP = (t, Inr (d @ [sw1, sw2], sw1, sw2))"
    using assms by (intro exchange_answer) (simp add: piv_verify_cmd_def PIV_APDU_MAX_RESP_def)
  then show ?thesis
    by (auto simp: wp11_piv_verify_pin_def high_nibble split: if_splits)
qed

theorem piv_verify_pin_meaning_witness:
  "snd (wp11_piv_verify_pin (fixed_card [0x63, 0xC2]) True () [1, 2, 3, 4, 5, 6]) = Inl PIV_ERR_PIN_BAD"
  using piv_verify_pin_meaning [of "fixed_card [0x63, 0xC2]" "()" "[1, 2, 3, 4, 5, 6]" "()" "[]" "0x63" "0xC2"]
  by (simp add: fixed_card_def)

text \<open>C35. No applet confusion: when a card accepts SELECT with a file control template whose
  first element is a DF name, the selection succeeds exactly when that name is the full PIV
  AID; a truncated, longer or different name is refused.\<close>
theorem piv_select_checks_df_name:
  assumes "xfer s ([0x00, 0xA4, 0x04, 0x00, 0x0B] @ PIV_AID) 512
      = (t, Inr (tlv outer (tlv 0x84 name @ rest) @ [0x90, 0x00]))"
    and "outer = 0x6F \<or> outer = 0x61" "length name \<le> 65530" "length (tlv 0x84 name @ rest) \<le> 65535"
  shows "wp11_piv_select xfer True s = (t, if name = PIV_AID then Inr () else Inl PIV_ERR_SW)"
proof -
  let ?body = "tlv outer (tlv 0x84 name @ rest)"
  have x: "exchange xfer s piv_select_cmd PIV_APDU_MAX_RESP = (t, Inr (?body @ [0x90, 0x00], 0x90, 0x00))"
    using assms(1) by (intro exchange_answer)
      (simp add: piv_select_cmd_def PIV_APDU_MAX_RESP_def PIV_AID_def byte_of_def)
  have "0 < length ?body" using assms(4) by (simp add: length_tlv)
  with x show ?thesis
    by (simp add: wp11_piv_select_def piv_check_fci_df [OF assms(2-4)])
qed

theorem piv_select_checks_df_name_witness:
  "wp11_piv_select (fixed_card (tlv 0x6F (tlv 0x84 [0xA0, 0x00, 0x00, 0x03, 0x08] @ []) @ [0x90, 0x00])) True () = ((), Inl PIV_ERR_SW)"
  using piv_select_checks_df_name [of "fixed_card (tlv 0x6F (tlv 0x84 [0xA0, 0x00, 0x00, 0x03, 0x08] @ []) @ [0x90, 0x00])"
      "()" "()" "0x6F" "[0xA0, 0x00, 0x00, 0x03, 0x08]" "[]"]
  by (simp add: fixed_card_def length_tlv PIV_AID_def)

text \<open>The check accepts only tag 84, so the answer that SP 800-73-4 prescribes for a PIV card,
  an application property template \<open>61 { 4F aid, 79 { .. }, .. }\<close> that carries the AID under
  tag 4F, is refused with an encoding error, whatever AID it names.\<close>
theorem piv_select_refuses_property_template:
  assumes "xfer s ([0x00, 0xA4, 0x04, 0x00, 0x0B] @ PIV_AID) 512
      = (t, Inr (tlv 0x61 (tlv 0x4F aid @ tlv 0x79 authority) @ [0x90, 0x00]))"
    and "length aid \<le> 100" "length authority \<le> 100"
  shows "wp11_piv_select xfer True s = (t, Inl PIV_ERR_ENCODING)"
proof -
  let ?body = "tlv 0x61 (tlv 0x4F aid @ tlv 0x79 authority)"
  have x: "exchange xfer s piv_select_cmd PIV_APDU_MAX_RESP = (t, Inr (?body @ [0x90, 0x00], 0x90, 0x00))"
    using assms(1) by (intro exchange_answer)
      (simp add: piv_select_cmd_def PIV_APDU_MAX_RESP_def PIV_AID_def byte_of_def)
  have "0 < length ?body" using assms(2,3) by (simp add: length_tlv)
  with x show ?thesis
    by (simp add: wp11_piv_select_def piv_check_fci_apt [OF assms(2,3)])
qed

theorem piv_select_refuses_property_template_witness:
  "wp11_piv_select (fixed_card (tlv 0x61 (tlv 0x4F PIV_AID @ tlv 0x79 [0x4F, 0x05, 0xA0, 0x00, 0x00, 0x03, 0x08]) @ [0x90, 0x00])) True ()
     = ((), Inl PIV_ERR_ENCODING)"
  using piv_select_refuses_property_template
    [of "fixed_card (tlv 0x61 (tlv 0x4F PIV_AID @ tlv 0x79 [0x4F, 0x05, 0xA0, 0x00, 0x00, 0x03, 0x08]) @ [0x90, 0x00])"
      "()" "()" PIV_AID "[0x4F, 0x05, 0xA0, 0x00, 0x00, 0x03, 0x08]"]
  by (simp add: fixed_card_def PIV_AID_def)

end
