(* ===== verification/OpenPgp.thy ===== *)
theory OpenPgp imports PivCorrect begin

text \<open>
  The OpenPGP card protocol (\<open>wolfp11/wp11_proto_openpgp.h\<close>, \<open>src/wp11_proto_openpgp.c\<close>):
  SELECT, VERIFY PW1, COMPUTE DIGITAL SIGNATURE, INTERNAL AUTHENTICATE and GET DATA 006E over
  the same transport interface as PIV.  The conventions are those of \<open>Piv\<close>: \<open>ptrs_ok\<close> says that
  no tested pointer is \<open>NULL\<close>, and the bytes of \<open>Inr\<close> are what the function writes.
\<close>

datatype openpgp_err =
    OPENPGP_ERR_PARAM | OPENPGP_ERR_TRANSPORT | OPENPGP_ERR_SW | OPENPGP_ERR_BUFSIZE
  | OPENPGP_ERR_PW_BAD | OPENPGP_ERR_PW_LOCKED | OPENPGP_ERR_TRUNCATED

fun openpgp_code :: "openpgp_err \<Rightarrow> int" where
  "openpgp_code OPENPGP_ERR_PARAM = -1"
| "openpgp_code OPENPGP_ERR_TRANSPORT = -2"
| "openpgp_code OPENPGP_ERR_SW = -3"
| "openpgp_code OPENPGP_ERR_BUFSIZE = -4"
| "openpgp_code OPENPGP_ERR_PW_BAD = -5"
| "openpgp_code OPENPGP_ERR_PW_LOCKED = -6"
| "openpgp_code OPENPGP_ERR_TRUNCATED = -7"

fun openpgp_fail :: "xfer_fail \<Rightarrow> openpgp_err" where
  "openpgp_fail XF_TRANSPORT = OPENPGP_ERR_TRANSPORT"
| "openpgp_fail XF_TRUNCATED = OPENPGP_ERR_TRUNCATED"

definition OPENPGP_RESP_MAX :: nat where "OPENPGP_RESP_MAX = 514"
definition PW1_MODE_SIGN :: int where "PW1_MODE_SIGN = 0x81"
definition PW1_MODE_OTHER :: int where "PW1_MODE_OTHER = 0x82"

section \<open>SELECT and VERIFY\<close>

definition wp11_openpgp_select ::
  "('s \<Rightarrow> byte list \<Rightarrow> nat \<Rightarrow> 's \<times> ('e + byte list)) \<Rightarrow> bool \<Rightarrow> 's \<Rightarrow> 's \<times> (openpgp_err + unit)" where
  "wp11_openpgp_select xfer ptrs_ok s =
     (if \<not> ptrs_ok then (s, Inl OPENPGP_ERR_PARAM)
      else case exchange xfer s [0x00, 0xA4, 0x04, 0x00, 0x06, 0xD2, 0x76, 0x00, 0x01, 0x24, 0x01] OPENPGP_RESP_MAX of
        (s1, Inl f) \<Rightarrow> (s1, Inl (openpgp_fail f))
      | (s1, Inr (resp, sw1, sw2)) \<Rightarrow>
          (s1, if sw1 = 0x90 \<and> sw2 = 0x00 then Inr () else Inl OPENPGP_ERR_SW))"

definition wp11_openpgp_verify_pw1 ::
  "('s \<Rightarrow> byte list \<Rightarrow> nat \<Rightarrow> 's \<times> ('e + byte list)) \<Rightarrow> bool \<Rightarrow> 's \<Rightarrow> byte list \<Rightarrow> int
     \<Rightarrow> 's \<times> (openpgp_err + unit)" where
  "wp11_openpgp_verify_pw1 xfer ptrs_ok s pw mode =
     (if \<not> ptrs_ok \<or> length pw = 0 \<or> length pw > 255 then (s, Inl OPENPGP_ERR_PARAM)
      else if mode \<noteq> PW1_MODE_SIGN \<and> mode \<noteq> PW1_MODE_OTHER then (s, Inl OPENPGP_ERR_PARAM)
      else case exchange xfer s ([0x00, 0x20, 0x00, word_of_int mode, byte_of (length pw)] @ pw) OPENPGP_RESP_MAX of
        (s1, Inl f) \<Rightarrow> (s1, Inl (openpgp_fail f))
      | (s1, Inr (resp, sw1, sw2)) \<Rightarrow>
          (s1, if sw1 = 0x90 \<and> sw2 = 0x00 then Inr ()
               else if sw1 = 0x63 then Inl OPENPGP_ERR_PW_BAD
               else if sw1 = 0x69 \<and> sw2 = 0x83 then Inl OPENPGP_ERR_PW_LOCKED
               else Inl OPENPGP_ERR_SW))"

section \<open>Signing, authentication, application related data\<close>

text \<open>The common tail of the three: one exchange with the Le retry, status, capacity, copy.\<close>

definition openpgp_read ::
  "('s \<Rightarrow> byte list \<Rightarrow> nat \<Rightarrow> 's \<times> ('e + byte list)) \<Rightarrow> 's \<Rightarrow> byte list \<Rightarrow> nat
     \<Rightarrow> 's \<times> (openpgp_err + byte list)" where
  "openpgp_read xfer s cmd cap =
     (case exchange_6c xfer s cmd OPENPGP_RESP_MAX of
        (s1, Inl f) \<Rightarrow> (s1, Inl (openpgp_fail f))
      | (s1, Inr (resp, sw1, sw2)) \<Rightarrow>
          (s1, if sw1 \<noteq> 0x90 \<or> sw2 \<noteq> 0x00 then Inl OPENPGP_ERR_SW
               else if length resp - 2 > cap then Inl OPENPGP_ERR_BUFSIZE
               else Inr (take (length resp - 2) resp)))"

definition wp11_openpgp_sign ::
  "('s \<Rightarrow> byte list \<Rightarrow> nat \<Rightarrow> 's \<times> ('e + byte list)) \<Rightarrow> bool \<Rightarrow> 's \<Rightarrow> byte list \<Rightarrow> nat
     \<Rightarrow> 's \<times> (openpgp_err + byte list)" where
  "wp11_openpgp_sign xfer ptrs_ok s hash siglen =
     (if \<not> ptrs_ok then (s, Inl OPENPGP_ERR_PARAM)
      else if length hash = 0 \<or> length hash > 255 then (s, Inl OPENPGP_ERR_PARAM)
      else openpgp_read xfer s ([0x00, 0x2A, 0x9E, 0x9A, byte_of (length hash)] @ hash @ [0x00]) siglen)"

definition wp11_openpgp_authenticate ::
  "('s \<Rightarrow> byte list \<Rightarrow> nat \<Rightarrow> 's \<times> ('e + byte list)) \<Rightarrow> bool \<Rightarrow> 's \<Rightarrow> byte list \<Rightarrow> nat
     \<Rightarrow> 's \<times> (openpgp_err + byte list)" where
  "wp11_openpgp_authenticate xfer ptrs_ok s data resplen_out =
     (if \<not> ptrs_ok then (s, Inl OPENPGP_ERR_PARAM)
      else if length data = 0 \<or> length data > 255 then (s, Inl OPENPGP_ERR_PARAM)
      else openpgp_read xfer s ([0x00, 0x88, 0x00, 0x00, byte_of (length data)] @ data @ [0x00]) resplen_out)"

definition wp11_openpgp_get_ard ::
  "('s \<Rightarrow> byte list \<Rightarrow> nat \<Rightarrow> 's \<times> ('e + byte list)) \<Rightarrow> bool \<Rightarrow> 's \<Rightarrow> nat \<Rightarrow> 's \<times> (openpgp_err + byte list)" where
  "wp11_openpgp_get_ard xfer ptrs_ok s buflen =
     (if \<not> ptrs_ok then (s, Inl OPENPGP_ERR_PARAM)
      else openpgp_read xfer s [0x00, 0xCA, 0x00, 0x6E, 0x00] buflen)"

context apdu_channel
begin

lemma openpgp_read_bound:
  "openpgp_read xfer s cmd cap = (s', Inr r) \<Longrightarrow> length r \<le> cap \<and> \<not> dead s"
  using exchange_6c_dead [of s cmd OPENPGP_RESP_MAX]
  by (auto simp: openpgp_read_def split: prod.splits sum.splits if_splits)

end

text \<open>
  The CCID layer reads into a buffer of 522 bytes.  libusb and the mock never report more
  bytes than the buffer they were given holds; then at most 512 bytes reach a protocol.
\<close>

definition usb_fits :: "'d usb_env \<Rightarrow> bool" where
  "usb_fits env \<longleftrightarrow> (\<forall>d e. length (snd (snd (bulk_in env d e 522))) \<le> 522)
     \<and> (\<forall>d f. length (snd (snd (mock_fn env d f 522))) \<le> 522)"

lemma usb_fitsD:
  assumes "usb_fits env"
  shows "usb_dispatch env c f = (c', Inr frame) \<Longrightarrow> length frame \<le> 522"
    and "mock_dispatch env c f = (c', Inr frame) \<Longrightarrow> length frame \<le> 522"
proof -
  have "length frame \<le> 522" if "bulk_in env d e 522 = (d', r, frame)" for d e d' r frame
    using assms that unfolding usb_fits_def by (metis snd_conv)
  then show "usb_dispatch env c f = (c', Inr frame) \<Longrightarrow> length frame \<le> 522"
    by (auto simp: usb_dispatch_def CCID_HEADER_LEN_def split: prod.splits if_splits)
  have "length frame \<le> 522" if "mock_fn env d f 522 = (d', r, frame)" for d f d' r frame
    using assms that unfolding usb_fits_def by (metis snd_conv)
  then show "mock_dispatch env c f = (c', Inr frame) \<Longrightarrow> length frame \<le> 522"
    by (auto simp: mock_dispatch_def CCID_HEADER_LEN_def split: prod.splits if_splits)
qed

lemma ccid_xfer_512:
  assumes "usb_fits env" "ccid_xfer env ctx cmd cap = (ctx', Inr r)"
  shows "length r \<le> 512"
proof -
  from assms(2) obtain f c where "check_data_block (seqno ctx) f cap = Inr r"
    and "usb_dispatch env c (xfr_block (seqno ctx) cmd) = (ctx', Inr f)
       \<or> mock_dispatch env c (xfr_block (seqno ctx) cmd) = (ctx', Inr f)"
    by (auto simp: ccid_xfer_cases split: if_splits prod.splits sum.splits)
  with usb_fitsD [OF assms(1)] have "length f \<le> 522" "CCID_HEADER_LEN + length r \<le> length f"
    using check_data_block_bound by blast+
  then show ?thesis by (simp add: CCID_HEADER_LEN_def)
qed

lemma ccid_exchange_6c_512:
  "usb_fits env \<Longrightarrow> exchange_6c (ccid_xfer env) s cmd cap = (s', Inr (r, a, b)) \<Longrightarrow> length r \<le> 512"
  by (auto simp: exchange_6c_def exchange_def dest: ccid_xfer_512 split: prod.splits sum.splits if_splits)

section \<open>Properties\<close>

text \<open>An OpenPGP card signs what it is given: the APDU for a hash of 1 to 255 bytes carries the
  hash and its exact length, and the card's data, after at most one Le correction, is
  returned without its status word when it fits; a status other than \<open>90 00\<close> yields
  an error and no bytes.\<close>
theorem openpgp_sign_correct:
  assumes "0 < length hash" "length hash \<le> 255" "sw1 \<noteq> 0x6C"
    and "xfer s ([0x00, 0x2A, 0x9E, 0x9A, byte_of (length hash)] @ hash @ [0x00]) 514 = (s1, Inr (d @ [0x6C, le]))"
    and "xfer s1 ([0x00, 0x2A, 0x9E, 0x9A, byte_of (length hash)] @ hash @ [le]) 514 = (t, Inr (sig @ [sw1, sw2]))"
  shows "wp11_openpgp_sign xfer True s hash siglen =
     (t, if sw1 \<noteq> 0x90 \<or> sw2 \<noteq> 0x00 then Inl OPENPGP_ERR_SW
         else if length sig > siglen then Inl OPENPGP_ERR_BUFSIZE else Inr sig)"
proof -
  have "([0x00, 0x2A, 0x9E, 0x9A, byte_of (length hash)] @ hash @ [0x00])[length hash + 5 := le]
      = [0x00, 0x2A, 0x9E, 0x9A, byte_of (length hash)] @ hash @ [le]"
    by (simp add: list_update_append numeral_eq_Suc)
  then have "exchange_6c xfer s ([0x00, 0x2A, 0x9E, 0x9A, byte_of (length hash)] @ hash @ [0x00]) 514
      = (t, Inr (sig @ [sw1, sw2], sw1, sw2))"
    using exchange_6c_retry [where xfer = xfer and d = d and b = le, OF assms(4)]
      exchange_answer [where xfer = xfer, OF assms(5)] by simp
  then show ?thesis using assms(1,2)
    by (simp add: wp11_openpgp_sign_def openpgp_read_def OPENPGP_RESP_MAX_def)
qed

theorem openpgp_sign_correct_witness:
  "wp11_openpgp_sign script_card True [[0x6C, 0x40], [0xAA, 0xBB, 0x90, 0x00]] [1, 2, 3] 64 = ([], Inr [0xAA, 0xBB])"
  using openpgp_sign_correct [of "[1, 2, 3]" "0x90" script_card "[[0x6C, 0x40], [0xAA, 0xBB, 0x90, 0x00]]"
      "[[0xAA, 0xBB, 0x90, 0x00]]" "[]" "0x40" "[]" "[0xAA, 0xBB]" "0x00" 64]
  by (simp add: script_card_def)

text \<open>Over USB no OpenPGP result exceeds the caller's capacity or 510 bytes: the CCID
  layer's receive buffer holds 512 bytes of data although the OpenPGP response buffer is 514 long, so a 512-byte (RSA-4096) signature with its status word can never be returned.\<close>
theorem openpgp_outputs_bounded:
  assumes "usb_fits env"
  shows "(case wp11_openpgp_sign (ccid_xfer env) p s inp cap of (s', Inl e) \<Rightarrow> True
      | (s', Inr r) \<Rightarrow> length r \<le> cap \<and> length r \<le> 510 \<and> \<not> desync s)
   \<and> (case wp11_openpgp_authenticate (ccid_xfer env) p s inp cap of (s', Inl e) \<Rightarrow> True
      | (s', Inr r) \<Rightarrow> length r \<le> cap \<and> length r \<le> 510 \<and> \<not> desync s)
   \<and> (case wp11_openpgp_get_ard (ccid_xfer env) p s cap of (s', Inl e) \<Rightarrow> True
      | (s', Inr r) \<Rightarrow> length r \<le> cap \<and> length r \<le> 510 \<and> \<not> desync s)"
proof -
  have rd: "length r \<le> cap \<and> length r \<le> 510 \<and> \<not> desync s"
    if x: "openpgp_read (ccid_xfer env) s cmd cap = (s', Inr r)" for cmd s' r
  proof -
    from x have "length r + 2 \<le> 512 \<or> length r = 0"
      by (auto simp: openpgp_read_def dest!: ccid_exchange_6c_512 [OF assms] split: prod.splits sum.splits if_splits)
    with ccid.openpgp_read_bound [OF x] show ?thesis by auto
  qed
  then show ?thesis
    by (auto simp: wp11_openpgp_sign_def wp11_openpgp_authenticate_def wp11_openpgp_get_ard_def
        split: prod.splits sum.splits if_splits)
qed

theorem openpgp_outputs_bounded_witness:
  "case wp11_openpgp_sign (ccid_xfer echo_env) True echo_ctx [1] 64 of (s', Inl e) \<Rightarrow> True
     | (s', Inr r) \<Rightarrow> length r \<le> 64 \<and> length r \<le> 510 \<and> \<not> desync echo_ctx"
proof -
  have "usb_fits echo_env" by (simp add: usb_fits_def echo_env_def data_block_def put_u32le_def)
  from openpgp_outputs_bounded [OF this, where p = True and s = echo_ctx and inp = "[1]" and cap = 64] show ?thesis by (rule conjunct1)
qed

text \<open>Password verification reports the card's verdict: with a valid mode and a password of
  1 to 255 bytes, success is exactly \<open>90 00\<close>, a wrong password exactly \<open>63 xx\<close> and a blocked
  one exactly \<open>69 83\<close>; an empty or oversized password or another mode never reaches the card.\<close>
theorem openpgp_verify_meaning:
  assumes "xfer s ([0x00, 0x20, 0x00, word_of_int mode, byte_of (length pw)] @ pw) 514 = (t, Inr (d @ [sw1, sw2]))"
  shows "(pw \<noteq> [] \<and> length pw \<le> 255 \<and> mode \<in> {0x81, 0x82} \<longrightarrow>
       wp11_openpgp_verify_pw1 xfer True s pw mode =
         (t, if sw1 = 0x90 \<and> sw2 = 0x00 then Inr () else if sw1 = 0x63 then Inl OPENPGP_ERR_PW_BAD
             else if sw1 = 0x69 \<and> sw2 = 0x83 then Inl OPENPGP_ERR_PW_LOCKED else Inl OPENPGP_ERR_SW))
   \<and> (pw = [] \<or> length pw > 255 \<or> mode \<notin> {0x81, 0x82} \<longrightarrow>
       wp11_openpgp_verify_pw1 xfer ptrs s pw mode = (s, Inl OPENPGP_ERR_PARAM))"
  using exchange_answer [where xfer = xfer, OF assms]
  by (auto simp: wp11_openpgp_verify_pw1_def PW1_MODE_SIGN_def PW1_MODE_OTHER_def OPENPGP_RESP_MAX_def)

theorem openpgp_verify_meaning_witness:
  "wp11_openpgp_verify_pw1 (fixed_card [0x69, 0x83]) True () [0x31, 0x32] 0x81 = ((), Inl OPENPGP_ERR_PW_LOCKED)"
  using openpgp_verify_meaning [of "fixed_card [0x69, 0x83]" "()" "0x81" "[0x31, 0x32]" "()" "[]" "0x69" "0x83"]
  by (simp add: fixed_card_def)

end
