(* ===== verification/Cbor.thy ===== *)
theory Cbor imports WP_Prelude begin

text \<open>
  The CBOR reader and writer of the keystore (\<open>src/wp11_keystore.c\<close>, \<open>cbor_read_head\<close> to
  \<open>cbor_write_bytes\<close>).  A reader takes the whole buffer and a position and returns the bytes it
  consumed; a writer takes the capacity of the buffer and the position and returns the bytes it
  writes there, \<open>None\<close> standing for -1.  Values of a head are at most \<open>2^32 - 1\<close>.  The width
  of \<open>size_t\<close> matters in one place, the addition \<open>head + val\<close> of \<open>cbor_skip\<close>, so that function takes the
  modulus \<open>m = SIZE_MAX + 1\<close>; everywhere else the value has been compared with a small bound
  before it is added.
\<close>

datatype ks_err =
    KS_ERR_PARAM | KS_ERR_IO | KS_ERR_NOMEM | KS_ERR_BAD_MAGIC | KS_ERR_BAD_VERSION
  | KS_ERR_BAD_PIN | KS_ERR_KDF_WEAK | KS_ERR_TRUNCATED | KS_ERR_CBOR | KS_ERR_MLOCK
  | KS_ERR_CRYPTO | KS_ERR_UNSUPPORTED | KS_ERR_BAD_ITER | KS_ERR_INVALID_DER | KS_ERR_RAW int

fun ks_code :: "ks_err \<Rightarrow> int" where
  "ks_code KS_ERR_PARAM = -1"
| "ks_code KS_ERR_IO = -2"
| "ks_code KS_ERR_NOMEM = -3"
| "ks_code KS_ERR_BAD_MAGIC = -4"
| "ks_code KS_ERR_BAD_VERSION = -5"
| "ks_code KS_ERR_BAD_PIN = -6"
| "ks_code KS_ERR_KDF_WEAK = -7"
| "ks_code KS_ERR_TRUNCATED = -8"
| "ks_code KS_ERR_CBOR = -9"
| "ks_code KS_ERR_MLOCK = -10"
| "ks_code KS_ERR_CRYPTO = -11"
| "ks_code KS_ERR_UNSUPPORTED = -12"
| "ks_code KS_ERR_BAD_ITER = -13"
| "ks_code KS_ERR_INVALID_DER = -14"
| "ks_code (KS_ERR_RAW i) = i"

definition CBOR_MAJOR_UINT :: nat where "CBOR_MAJOR_UINT = 0"
definition CBOR_MAJOR_BYTES :: nat where "CBOR_MAJOR_BYTES = 2"
definition CBOR_MAJOR_TEXT :: nat where "CBOR_MAJOR_TEXT = 3"
definition CBOR_MAJOR_ARRAY :: nat where "CBOR_MAJOR_ARRAY = 4"
definition CBOR_MAJOR_MAP :: nat where "CBOR_MAJOR_MAP = 5"
definition CBOR_SKIP_MAX_DEPTH :: nat where "CBOR_SKIP_MAX_DEPTH = 8"
definition KS_MAX_CT_LEN :: nat where "KS_MAX_CT_LEN = 524288"
definition KS_DER_MAX :: nat where "KS_DER_MAX = 4096"
definition KS_CERT_MAX :: nat where "KS_CERT_MAX = 4096"
definition KS_LABEL_MAX :: nat where "KS_LABEL_MAX = 64"
definition KS_MAX_ENTRIES :: nat where "KS_MAX_ENTRIES = 64"

lemmas cbor_consts = CBOR_MAJOR_UINT_def CBOR_MAJOR_BYTES_def CBOR_MAJOR_TEXT_def CBOR_MAJOR_ARRAY_def
  CBOR_MAJOR_MAP_def CBOR_SKIP_MAX_DEPTH_def KS_MAX_CT_LEN_def KS_DER_MAX_def KS_CERT_MAX_def
  KS_LABEL_MAX_def KS_MAX_ENTRIES_def

section \<open>Readers\<close>

text \<open>The consumed bytes, the major type and the value.\<close>

definition cbor_read_head :: "byte list \<Rightarrow> nat \<Rightarrow> ks_err + nat \<times> nat \<times> nat" where
  "cbor_read_head buf pos =
     (if pos \<ge> length buf then Inl KS_ERR_CBOR
      else let major = unat (buf ! pos) div 32; info = unat (buf ! pos) mod 32 in
        if info \<le> 23 then Inr (1, major, info)
        else if info = 24 then
          (if pos + 1 \<ge> length buf then Inl KS_ERR_CBOR else Inr (2, major, unat (buf ! (pos + 1))))
        else if info = 25 then
          (if pos + 2 \<ge> length buf then Inl KS_ERR_CBOR else Inr (3, major, be_val (bslice buf (pos + 1) 2)))
        else if info = 26 then
          (if pos + 4 \<ge> length buf then Inl KS_ERR_CBOR else Inr (5, major, be_val (bslice buf (pos + 1) 4)))
        else Inl KS_ERR_CBOR)"

text \<open>A text string for a buffer of \<open>dst_len\<close> bytes; the bytes of \<open>dst\<close> before the NUL written behind them.\<close>

definition cbor_read_text :: "byte list \<Rightarrow> nat \<Rightarrow> nat \<Rightarrow> ks_err + nat \<times> byte list" where
  "cbor_read_text buf pos dst_len =
     (case cbor_read_head buf pos of
        Inl e \<Rightarrow> Inl e
      | Inr (head, major, slen) \<Rightarrow>
          if major \<noteq> CBOR_MAJOR_TEXT then Inl KS_ERR_CBOR
          else if slen \<ge> dst_len then Inl KS_ERR_CBOR
          else if head + slen > length buf - pos then Inl KS_ERR_CBOR
          else Inr (head + slen, bslice buf (pos + head) slen))"

definition cbor_read_bytes_fixed :: "byte list \<Rightarrow> nat \<Rightarrow> nat \<Rightarrow> ks_err + nat \<times> byte list" where
  "cbor_read_bytes_fixed buf pos expected_len =
     (case cbor_read_head buf pos of
        Inl e \<Rightarrow> Inl e
      | Inr (head, major, blen) \<Rightarrow>
          if major \<noteq> CBOR_MAJOR_BYTES then Inl KS_ERR_CBOR
          else if blen \<noteq> expected_len then Inl KS_ERR_CBOR
          else if head + expected_len > length buf - pos then Inl KS_ERR_CBOR
          else Inr (head + expected_len, bslice buf (pos + head) expected_len))"

text \<open>A byte string of at most \<open>max\<close> bytes: the checks shared by \<open>der_bytes\<close> and \<open>cert_bytes\<close>.\<close>

definition cbor_bytes_at :: "byte list \<Rightarrow> nat \<Rightarrow> nat \<Rightarrow> ks_err + nat \<times> byte list" where
  "cbor_bytes_at buf pos max_len =
     (case cbor_read_head buf pos of
        Inl e \<Rightarrow> Inl e
      | Inr (head, major, blen) \<Rightarrow>
          if major \<noteq> CBOR_MAJOR_BYTES then Inl KS_ERR_CBOR
          else if blen > max_len then Inl KS_ERR_CBOR
          else if head + blen > length buf - pos then Inl KS_ERR_CBOR
          else Inr (head + blen, bslice buf (pos + head) blen))"

text \<open>
  \<open>cbor_skip\<close> and its two loops.  The loops of arrays and maps are the same recursion over the
  number of items still to skip; it returns the final \<open>cur\<close>.
\<close>

text \<open>The conversion of a size to the \<open>int\<close> that is returned: from \<open>2^31\<close> on it may be negative, which callers take for an error.\<close>

definition int_ret :: "nat \<Rightarrow> ks_err + nat" where
  "int_ret n = (let i = sint (word_of_nat n :: 32 word) in if i < 0 then Inl (KS_ERR_RAW i) else Inr (nat i))"

function cbor_skip :: "nat \<Rightarrow> byte list \<Rightarrow> nat \<Rightarrow> nat \<Rightarrow> ks_err + nat"
  and cbor_skip_items :: "nat \<Rightarrow> byte list \<Rightarrow> nat \<Rightarrow> nat \<Rightarrow> nat \<Rightarrow> ks_err + nat" where
  "cbor_skip m buf pos depth =
     (if depth > CBOR_SKIP_MAX_DEPTH then Inl KS_ERR_CBOR
      else case cbor_read_head buf pos of
        Inl e \<Rightarrow> Inl e
      | Inr (head, major, val) \<Rightarrow>
          if major = CBOR_MAJOR_BYTES \<or> major = CBOR_MAJOR_TEXT then
            (if (head + val) mod m > length buf - pos then Inl KS_ERR_CBOR else int_ret ((head + val) mod m))
          else if major = CBOR_MAJOR_UINT then Inr head
          else if major = CBOR_MAJOR_ARRAY then
            (case cbor_skip_items m buf (pos + head) (depth + 1) val of
               Inl e \<Rightarrow> Inl e | Inr cur \<Rightarrow> int_ret (cur - pos))
          else if major = CBOR_MAJOR_MAP then
            (if val > (m - 1) div 2 then Inl KS_ERR_CBOR
             else if val > KS_MAX_CT_LEN div 2 then Inl KS_ERR_CBOR
             else case cbor_skip_items m buf (pos + head) (depth + 1) (val * 2) of
               Inl e \<Rightarrow> Inl e | Inr cur \<Rightarrow> int_ret (cur - pos))
          else Inl KS_ERR_CBOR)"
| "cbor_skip_items m buf cur depth n =
     (if n = 0 then Inr cur
      else case cbor_skip m buf cur depth of
        Inl e \<Rightarrow> Inl e
      | Inr k \<Rightarrow> cbor_skip_items m buf (cur + k) depth (n - 1))"
  by pat_completeness auto
termination
  by (relation "(\<lambda>x. case x of Inl (m, buf, pos, depth) \<Rightarrow> 10 - depth | Inr (m, buf, cur, depth, n) \<Rightarrow> 10 - depth)
      <*mlex*> measure (\<lambda>x. case x of Inl (m, buf, pos, depth) \<Rightarrow> 0 | Inr (m, buf, cur, depth, n) \<Rightarrow> Suc n)")
    (auto simp: CBOR_SKIP_MAX_DEPTH_def mlex_prod_def)

declare cbor_skip.simps [simp del] cbor_skip_items.simps [simp del]

section \<open>Writers\<close>

definition cbor_write_head :: "nat \<Rightarrow> nat \<Rightarrow> nat \<Rightarrow> nat \<Rightarrow> byte list option" where
  "cbor_write_head buflen pos major value =
     (let prefix = major mod 8 * 32 in
      if value \<le> 23 then
        (if pos \<ge> buflen then None else Some [byte_of (prefix + value)])
      else if value \<le> 0xFF then
        (if pos + 1 \<ge> buflen then None else Some [byte_of (prefix + 24), byte_of value])
      else if value \<le> 0xFFFF then
        (if pos + 2 \<ge> buflen then None
         else Some [byte_of (prefix + 25), byte_of (value div 256), byte_of value])
      else if value \<le> 0xFFFFFFFF then
        (if pos + 4 \<ge> buflen then None
         else Some [byte_of (prefix + 26), byte_of (value div 16777216), byte_of (value div 65536),
                    byte_of (value div 256), byte_of value])
      else None)"

definition cbor_write_payload :: "nat \<Rightarrow> nat \<Rightarrow> nat \<Rightarrow> byte list \<Rightarrow> byte list option" where
  "cbor_write_payload buflen pos major bs =
     (case cbor_write_head buflen pos major (length bs) of
        None \<Rightarrow> None
      | Some h \<Rightarrow> if pos + length h + length bs > buflen then None else Some (h @ bs))"

definition cbor_write_text :: "nat \<Rightarrow> nat \<Rightarrow> byte list \<Rightarrow> byte list option" where
  "cbor_write_text buflen pos s = cbor_write_payload buflen pos CBOR_MAJOR_TEXT (cstr s)"

definition cbor_write_bytes :: "nat \<Rightarrow> nat \<Rightarrow> byte list \<Rightarrow> byte list option" where
  "cbor_write_bytes buflen pos data = cbor_write_payload buflen pos CBOR_MAJOR_BYTES data"

section \<open>Heads\<close>

text \<open>The encoding of a head as such, without a buffer.\<close>

definition cbor_head :: "nat \<Rightarrow> nat \<Rightarrow> byte list" where
  "cbor_head major value =
     (if value \<le> 23 then [byte_of (major * 32 + value)]
      else if value \<le> 0xFF then [byte_of (major * 32 + 24), byte_of value]
      else if value \<le> 0xFFFF then [byte_of (major * 32 + 25), byte_of (value div 256), byte_of value]
      else [byte_of (major * 32 + 26), byte_of (value div 16777216), byte_of (value div 65536),
            byte_of (value div 256), byte_of value])"

lemma length_cbor_head:
  "length (cbor_head major v) = (if v \<le> 23 then 1 else if v \<le> 255 then 2 else if v \<le> 65535 then 3 else 5)"
  by (simp add: cbor_head_def)

lemma length_cbor_head_bounds: "1 \<le> length (cbor_head major v)" "length (cbor_head major v) \<le> 5"
  by (simp_all add: length_cbor_head)

lemma cbor_write_head_eq:
  "major \<le> 7 \<Longrightarrow> cbor_write_head buflen pos major v =
     (if v \<le> 0xFFFFFFFF \<and> pos + length (cbor_head major v) \<le> buflen then Some (cbor_head major v) else None)"
  by (auto simp: cbor_write_head_def cbor_head_def Let_def)

lemma cbor_read_head_Inr:
  "cbor_read_head buf pos = Inr (h, major, v) \<Longrightarrow>
     1 \<le> h \<and> h \<le> 5 \<and> pos + h \<le> length buf \<and> major \<le> 7 \<and> v < 4294967296"
proof -
  assume a: "cbor_read_head buf pos = Inr (h, major, v)"
  have be: "be_val (bslice buf i n) < 256 ^ n" for i n
    using be_val_bound [of "bslice buf i n"] power_increasing [OF length_bslice_le [of buf i n], of "256 :: nat"]
    by linarith
  have "unat (buf ! i) < 4294967296" for i using unat_byte_less [of "buf ! i"] by linarith
  moreover have "be_val (bslice buf i 2) < 4294967296" "be_val (bslice buf i 4) < 4294967296" for i
    using be [of i 2] be [of i 4] by simp_all
  moreover have "unat (buf ! pos) div 32 \<le> 7" using unat_byte_less [of "buf ! pos"] by linarith
  moreover have "unat (buf ! pos) mod 32 < 4294967296" using mod_less_divisor [of 32 "unat (buf ! pos)"] by linarith
  ultimately show ?thesis using a
    by (auto simp: cbor_read_head_def Let_def split: if_splits)
qed

lemma cbor_read_head_enc:
  assumes "major \<le> 7" "v \<le> 0xFFFFFFFF"
  shows "cbor_read_head (pre @ cbor_head major v @ post) (length pre) = Inr (length (cbor_head major v), major, v)"
proof -
  have m: "major * 32 + k < 256" if "k < 32" for k using assms(1) that by simp
  have d: "(major * 32 + k) mod 256 div 32 = major" "(major * 32 + k) mod 256 mod 32 = k" if "k < 32" for k
    using m [OF that] that by simp_all
  consider "v \<le> 23" | "23 < v" "v \<le> 255" | "255 < v" "v \<le> 65535" | "65535 < v" by linarith
  then show ?thesis
  proof cases
    case 1
    with d [of v] show ?thesis
      by (simp add: cbor_head_def cbor_read_head_def Let_def byte_simps)
  next
    case 2
    with d [of 24] show ?thesis
      by (simp add: cbor_head_def cbor_read_head_def Let_def byte_simps nth_append)
  next
    case 3
    then have "be_val [byte_of (v div 256), byte_of v] = v" by (intro be_val_bytes_2) simp
    with 3 d [of 25] show ?thesis
      by (simp add: cbor_head_def cbor_read_head_def Let_def unat_byte_of [of "major * 32 + 25"] bslice_def nth_append del: be_val.simps)
  next
    case 4
    then have "be_val [byte_of (v div 16777216), byte_of (v div 65536), byte_of (v div 256), byte_of v] = v"
      using assms(2) by (intro be_val_bytes_4) simp
    with 4 d [of 26] show ?thesis
      by (simp add: cbor_head_def cbor_read_head_def Let_def unat_byte_of [of "major * 32 + 26"] bslice_def nth_append del: be_val.simps)
  qed
qed

section \<open>Strings\<close>

definition cbor_str :: "nat \<Rightarrow> byte list \<Rightarrow> byte list" where
  "cbor_str major bs = cbor_head major (length bs) @ bs"

lemma cbor_write_payload_eq:
  "major \<le> 7 \<Longrightarrow> cbor_write_payload buflen pos major bs =
     (if length bs \<le> 0xFFFFFFFF \<and> pos + length (cbor_str major bs) \<le> buflen then Some (cbor_str major bs) else None)"
  by (simp add: cbor_write_payload_def cbor_write_head_eq cbor_str_def)

lemma cbor_head_str:
  assumes "buf = pre @ cbor_str major bs @ post" "major \<le> 7" "length bs \<le> 0xFFFFFFFF"
  shows "cbor_read_head buf (length pre) = Inr (length (cbor_str major bs) - length bs, major, length bs)"
    and "bslice buf (length pre + (length (cbor_str major bs) - length bs)) (length bs) = bs"
    and "length (cbor_str major bs) \<le> length buf - length pre"
    and "length (cbor_str major bs) - length bs + length bs = length (cbor_str major bs)"
  using assms cbor_read_head_enc [OF assms(2,3), of pre "bs @ post"]
  by (simp_all add: cbor_str_def bslice_def)

lemma cbor_read_text_str:
  assumes "buf = pre @ cbor_str CBOR_MAJOR_TEXT bs @ post" "length bs \<le> 0xFFFFFFFF"
  shows "cbor_read_text buf (length pre) n =
     (if length bs < n then Inr (length (cbor_str CBOR_MAJOR_TEXT bs), bs) else Inl KS_ERR_CBOR)"
  using cbor_head_str [OF assms(1) _ assms(2)]
  by (simp add: cbor_read_text_def CBOR_MAJOR_TEXT_def)

lemma cbor_read_fixed_str:
  assumes "buf = pre @ cbor_str CBOR_MAJOR_BYTES bs @ post" "length bs \<le> 0xFFFFFFFF"
  shows "cbor_read_bytes_fixed buf (length pre) n =
     (if length bs = n then Inr (length (cbor_str CBOR_MAJOR_BYTES bs), bs) else Inl KS_ERR_CBOR)"
  using cbor_head_str [OF assms(1) _ assms(2)]
  by (auto simp: cbor_read_bytes_fixed_def CBOR_MAJOR_BYTES_def)

lemma cbor_bytes_at_str:
  assumes "buf = pre @ cbor_str CBOR_MAJOR_BYTES bs @ post" "length bs \<le> 0xFFFFFFFF"
  shows "cbor_bytes_at buf (length pre) n =
     (if length bs \<le> n then Inr (length (cbor_str CBOR_MAJOR_BYTES bs), bs) else Inl KS_ERR_CBOR)"
  using cbor_head_str [OF assms(1) _ assms(2)]
  by (simp add: cbor_bytes_at_def CBOR_MAJOR_BYTES_def)

lemma cbor_reader_bounds:
  "cbor_read_text buf pos n = Inr (k, bs) \<Longrightarrow> 1 \<le> k \<and> pos + k \<le> length buf \<and> length bs < n"
  "cbor_read_bytes_fixed buf pos n = Inr (k, bs) \<Longrightarrow> 1 \<le> k \<and> pos + k \<le> length buf \<and> length bs = n"
  "cbor_bytes_at buf pos n = Inr (k, bs) \<Longrightarrow> 1 \<le> k \<and> pos + k \<le> length buf \<and> length bs \<le> n"
  by (auto simp: cbor_read_text_def cbor_read_bytes_fixed_def cbor_bytes_at_def bslice_def
      dest!: cbor_read_head_Inr split: sum.splits if_splits)

section \<open>Skipping\<close>

lemma sint_small: "n < 2147483648 \<Longrightarrow> sint (word_of_nat n :: 32 word) = int n"
  by (subst signed_of_nat) (simp add: signed_take_bit_int_eq_self)

lemma int_ret_small: "n < 2147483648 \<Longrightarrow> int_ret n = Inr n"
  by (simp add: int_ret_def sint_small)

text \<open>With a \<open>size_t\<close> wider than 32 bits a skip of a buffer below 2 GiB consumes at least one byte and stays inside the buffer.\<close>

lemma cbor_skip_sound:
  shows "cbor_skip m buf pos depth = Inr n \<Longrightarrow> 4294967301 \<le> m \<and> length buf < 2147483648 \<Longrightarrow> 1 \<le> n \<and> pos + n \<le> length buf"
    and "cbor_skip_items m buf cur depth k = Inr c \<Longrightarrow> 4294967301 \<le> m \<and> length buf < 2147483648 \<Longrightarrow>
           cur + k \<le> c \<and> (cur \<le> length buf \<longrightarrow> c \<le> length buf)"
proof (induction m buf pos depth and m buf cur depth k arbitrary: n and c rule: cbor_skip_cbor_skip_items.induct)
  case (1 m buf pos depth)
  from "1.prems"(1) obtain head major val where h: "cbor_read_head buf pos = Inr (head, major, val)"
    and d: "\<not> depth > CBOR_SKIP_MAX_DEPTH"
    by (auto simp: cbor_skip.simps [of m buf pos depth] split: if_splits sum.splits)
  from cbor_read_head_Inr [OF h] have b: "1 \<le> head" "head \<le> 5" "pos + head \<le> length buf" "val < 4294967296" by auto
  then have w: "(head + val) mod m = head + val" using "1.prems"(2) by (intro mod_less) linarith
  consider "major = CBOR_MAJOR_BYTES \<or> major = CBOR_MAJOR_TEXT" | "major = CBOR_MAJOR_UINT"
    | "major = CBOR_MAJOR_ARRAY" | "major = CBOR_MAJOR_MAP"
    using "1.prems"(1) h by (auto simp: cbor_skip.simps [of m buf pos depth] split: if_splits)
  then show ?case
  proof cases
    case 1
    with "1.prems"(1) h d w b have f: "head + val \<le> length buf - pos" "int_ret (head + val) = Inr n"
      by (auto simp: cbor_skip.simps [of m buf pos depth] split: if_splits)
    with "1.prems"(2) int_ret_small [of "head + val"] b show ?thesis by auto
  next
    case 2
    with "1.prems"(1) h d b show ?thesis
      by (auto simp: cbor_skip.simps [of m buf pos depth] cbor_consts split: if_splits)
  next
    case 3
    with "1.prems"(1) h d obtain c where i: "cbor_skip_items m buf (pos + head) (depth + 1) val = Inr c" and n: "int_ret (c - pos) = Inr n"
      by (auto simp: cbor_skip.simps [of m buf pos depth] cbor_consts split: if_splits sum.splits)
    from "1.IH"(1) [OF d h refl refl _ _ 3 i "1.prems"(2)] 3 b have c: "pos + head \<le> c" "c \<le> length buf" by (auto simp: cbor_consts)
    then have "int_ret (c - pos) = Inr (c - pos)" using "1.prems"(2) by (intro int_ret_small) linarith
    with n have "n = c - pos" by simp
    with b c show ?thesis by linarith
  next
    case 4
    with "1.prems"(1) h d obtain c where i: "cbor_skip_items m buf (pos + head) (depth + 1) (val * 2) = Inr c" and n: "int_ret (c - pos) = Inr n"
      and g: "\<not> val > (m - 1) div 2" "\<not> val > KS_MAX_CT_LEN div 2"
      by (auto simp: cbor_skip.simps [of m buf pos depth] cbor_consts split: if_splits sum.splits)
    from "1.IH"(2) [OF d h refl refl _ _ _ 4 g i "1.prems"(2)] 4 b have c: "pos + head \<le> c" "c \<le> length buf" by (auto simp: cbor_consts)
    then have "int_ret (c - pos) = Inr (c - pos)" using "1.prems"(2) by (intro int_ret_small) linarith
    with n have "n = c - pos" by simp
    with b c show ?thesis by linarith
  qed
next
  case (2 m buf cur depth k)
  show ?case
  proof (cases "k = 0")
    case True
    with "2.prems" show ?thesis by (simp add: cbor_skip_items.simps [of m buf cur])
  next
    case False
    with "2.prems"(1) obtain j where s: "cbor_skip m buf cur depth = Inr j"
      and i: "cbor_skip_items m buf (cur + j) depth (k - 1) = Inr c"
      by (auto simp: cbor_skip_items.simps [of m buf cur] split: sum.splits)
    from "2.IH"(1) [OF False s "2.prems"(2)] "2.IH"(2) [OF False s i "2.prems"(2)] False show ?thesis by auto
  qed
qed

text \<open>
  CBOR items and their encoding, the specification of what is skipped.  A map is given by its
  alternating keys and values.  \<open>cbor_ok d\<close> bounds the nesting by \<open>d\<close> levels.
\<close>

datatype cbor_item =
    CB_Uint nat
  | CB_Bytes "byte list"
  | CB_Text "byte list"
  | CB_Array "cbor_item list"
  | CB_Map "cbor_item list"

fun cbor_enc :: "cbor_item \<Rightarrow> byte list" where
  "cbor_enc (CB_Uint v) = cbor_head CBOR_MAJOR_UINT v"
| "cbor_enc (CB_Bytes bs) = cbor_str CBOR_MAJOR_BYTES bs"
| "cbor_enc (CB_Text bs) = cbor_str CBOR_MAJOR_TEXT bs"
| "cbor_enc (CB_Array xs) = cbor_head CBOR_MAJOR_ARRAY (length xs) @ concat (map cbor_enc xs)"
| "cbor_enc (CB_Map xs) = cbor_head CBOR_MAJOR_MAP (length xs div 2) @ concat (map cbor_enc xs)"

fun cbor_ok :: "nat \<Rightarrow> cbor_item \<Rightarrow> bool" where
  "cbor_ok d (CB_Uint v) = (v \<le> 0xFFFFFFFF)"
| "cbor_ok d (CB_Bytes bs) = (length bs \<le> 0xFFFFFFFF)"
| "cbor_ok d (CB_Text bs) = (length bs \<le> 0xFFFFFFFF)"
| "cbor_ok d (CB_Array xs) =
     (length xs \<le> 0xFFFFFFFF \<and> (case d of 0 \<Rightarrow> xs = [] | Suc d' \<Rightarrow> \<forall>x \<in> set xs. cbor_ok d' x))"
| "cbor_ok d (CB_Map xs) =
     (even (length xs) \<and> length xs div 2 \<le> KS_MAX_CT_LEN div 2 \<and>
      (case d of 0 \<Rightarrow> xs = [] | Suc d' \<Rightarrow> \<forall>x \<in> set xs. cbor_ok d' x))"

lemma cbor_skip_items_enc:
  assumes "\<And>x pre post. x \<in> set xs \<Longrightarrow> buf = pre @ cbor_enc x @ post \<Longrightarrow>
      cbor_skip m buf (length pre) depth = Inr (length (cbor_enc x))"
    and "buf = pre @ concat (map cbor_enc xs) @ post"
  shows "cbor_skip_items m buf (length pre) depth (length xs) = Inr (length pre + length (concat (map cbor_enc xs)))"
  using assms
proof (induction xs arbitrary: pre)
  case Nil
  then show ?case by (simp add: cbor_skip_items.simps [of m _ _ _ 0])
next
  case (Cons x xs)
  have "cbor_skip m buf (length pre) depth = Inr (length (cbor_enc x))"
    using Cons.prems(1) [of x pre "concat (map cbor_enc xs) @ post"] Cons.prems(2) by simp
  moreover have "cbor_skip_items m buf (length (pre @ cbor_enc x)) depth (length xs)
      = Inr (length (pre @ cbor_enc x) + length (concat (map cbor_enc xs)))"
  proof (rule Cons.IH)
    show "cbor_skip m buf (length p) depth = Inr (length (cbor_enc y))"
      if "y \<in> set xs" "buf = p @ cbor_enc y @ q" for y p q
      using Cons.prems(1) [of y p q] that by simp
    show "buf = (pre @ cbor_enc x) @ concat (map cbor_enc xs) @ post" using Cons.prems(2) by simp
  qed
  ultimately show ?case by (simp add: cbor_skip_items.simps [of m buf "length pre"])
qed

lemma cbor_skip_head:
  assumes "buf = pre @ cbor_head major v @ rest" "major \<le> 7" "v \<le> 0xFFFFFFFF"
  shows "cbor_read_head buf (length pre) = Inr (length (cbor_head major v), major, v)"
  using assms cbor_read_head_enc by simp

lemma cbor_skip_str:
  assumes "buf = pre @ cbor_str major bs @ post" "major = CBOR_MAJOR_BYTES \<or> major = CBOR_MAJOR_TEXT"
    and "length bs \<le> 0xFFFFFFFF" "length buf < m" "depth \<le> CBOR_SKIP_MAX_DEPTH" "length buf < 2147483648"
  shows "cbor_skip m buf (length pre) depth = Inr (length (cbor_str major bs))"
proof -
  have m: "major \<le> 7" using assms(2) by (auto simp: cbor_consts)
  note h = cbor_head_str [OF assms(1) m assms(3)]
  have "length (cbor_str major bs) < m" "length (cbor_str major bs) < 2147483648" using h(3) assms(4,6) by linarith+
  with h assms(2,5) show ?thesis by (simp add: cbor_skip.simps [of m buf] not_less int_ret_small)
qed

lemma cbor_skip_enc:
  assumes "cbor_ok (8 - depth) it" "depth \<le> 8" "buf = pre @ cbor_enc it @ post"
    and "length buf < m" "1048576 \<le> m" "length buf < 2147483648"
  shows "cbor_skip m buf (length pre) depth = Inr (length (cbor_enc it))"
  using assms(1-3)
proof (induction it arbitrary: pre post depth)
  case (CB_Uint v)
  with cbor_skip_head [of buf pre CBOR_MAJOR_UINT v post] show ?case
    by (simp add: cbor_skip.simps [of m _ "length pre"] cbor_consts)
next
  case (CB_Bytes bs)
  with assms(4,6) cbor_skip_str [of buf pre CBOR_MAJOR_BYTES bs post m depth] show ?case
    by (simp add: CBOR_SKIP_MAX_DEPTH_def)
next
  case (CB_Text bs)
  with assms(4,6) cbor_skip_str [of buf pre CBOR_MAJOR_TEXT bs post m depth] show ?case
    by (simp add: CBOR_SKIP_MAX_DEPTH_def)
next
  case (CB_Array xs)
  let ?h = "cbor_head CBOR_MAJOR_ARRAY (length xs)"
  have b: "buf = pre @ ?h @ concat (map cbor_enc xs) @ post" using CB_Array.prems(3) by simp
  have "cbor_skip_items m buf (length (pre @ ?h)) (depth + 1) (length xs)
      = Inr (length (pre @ ?h) + length (concat (map cbor_enc xs)))"
  proof (rule cbor_skip_items_enc)
    fix x pre' post' assume x: "x \<in> set xs" "buf = pre' @ cbor_enc x @ post'"
    from x(1) CB_Array.prems(1) obtain d where "8 - depth = Suc d" "cbor_ok d x"
      by (auto split: nat.splits)
    then have "cbor_ok (8 - (depth + 1)) x" "depth + 1 \<le> 8" by (metis diff_Suc_1 diff_diff_left, linarith)
    then show "cbor_skip m buf (length pre') (depth + 1) = Inr (length (cbor_enc x))"
      using CB_Array.IH [OF x(1) _ _ x(2)] by blast
  qed (use b in simp)
  moreover have "length (?h @ concat (map cbor_enc xs)) < 2147483648" using assms(6) unfolding b by simp
  ultimately show ?case using cbor_skip_head [OF b] CB_Array.prems(1,2)
    by (simp add: cbor_skip.simps [of m buf "length pre"] cbor_consts int_ret_small)
next
  case (CB_Map xs)
  let ?h = "cbor_head CBOR_MAJOR_MAP (length xs div 2)"
  have b: "buf = pre @ ?h @ concat (map cbor_enc xs) @ post" using CB_Map.prems(3) by simp
  have "cbor_skip_items m buf (length (pre @ ?h)) (depth + 1) (length xs)
      = Inr (length (pre @ ?h) + length (concat (map cbor_enc xs)))"
  proof (rule cbor_skip_items_enc)
    fix x pre' post' assume x: "x \<in> set xs" "buf = pre' @ cbor_enc x @ post'"
    from x(1) CB_Map.prems(1) obtain d where "8 - depth = Suc d" "cbor_ok d x"
      by (auto split: nat.splits)
    then have "cbor_ok (8 - (depth + 1)) x" "depth + 1 \<le> 8" by (metis diff_Suc_1 diff_diff_left, linarith)
    then show "cbor_skip m buf (length pre') (depth + 1) = Inr (length (cbor_enc x))"
      using CB_Map.IH [OF x(1) _ _ x(2)] by blast
  qed (use b in simp)
  moreover have "length xs div 2 * 2 = length xs" "length xs div 2 \<le> 262144"
    using CB_Map.prems(1) by (simp_all add: KS_MAX_CT_LEN_def)
  moreover from this(2) assms(5) have "\<not> length xs div 2 > (m - 1) div 2" by linarith
  moreover have "length (?h @ concat (map cbor_enc xs)) < 2147483648" using assms(6) unfolding b by simp
  ultimately show ?case using cbor_skip_head [OF b] CB_Map.prems(2)
    by (simp add: cbor_skip.simps [of m buf "length pre"] cbor_consts int_ret_small)
qed

section \<open>Properties\<close>

text \<open>C31. Skipping an unknown value is exact: for every CBOR item of the supported kinds nested at
  most eight levels below the top, encoded anywhere in a buffer smaller than 2 GiB (the payload has at most
  512 KiB), \<open>cbor_skip\<close> consumes precisely the item's encoding, on 32-bit and 64-bit targets.\<close>
theorem cbor_skip_exact:
  assumes "cbor_ok 8 it" "length (pre @ cbor_enc it @ post) < 2147483648" "m = 2 ^ 32 \<or> m = 2 ^ 64"
  shows "cbor_skip m (pre @ cbor_enc it @ post) (length pre) 0 = Inr (length (cbor_enc it))"
proof -
  have m: "1048576 \<le> m" "2147483648 \<le> m" using assms(3) by auto
  show ?thesis by (rule cbor_skip_enc [of 0, OF _ _ refl _ m(1) assms(2)]) (use assms(1,2) m(2) in simp_all)
qed

theorem cbor_skip_exact_witness:
  "cbor_skip (2 ^ 64) ([0x61] @ cbor_enc (CB_Map [CB_Uint 500, CB_Array [CB_Text [0x61]]]) @ [0x00]) 1 0 = Inr 7"
  using cbor_skip_exact [of "CB_Map [CB_Uint 500, CB_Array [CB_Text [0x61]]]" "[0x61]" "[0x00]" "2 ^ 64"]
  by (simp add: cbor_consts cbor_head_def cbor_str_def)

text \<open>The bound is needed: a string of \<open>2^31\<close> bytes or more is skipped with a negative result.\<close>

lemma int_ret_negative: "int_ret 2147483653 = Inl (KS_ERR_RAW (- 2147483643))"
  by (simp add: int_ret_def)

text \<open>Skipping arbitrary, possibly hostile bytes is safe on 64-bit targets: a successful skip in a buffer smaller than 2 GiB
  has consumed at least one byte and ends inside the buffer, whatever the bytes and the
  nesting, so the decoder always advances and never reads past the payload.\<close>
theorem cbor_skip_in_bounds:
  assumes "cbor_skip (2 ^ 64) buf pos depth = Inr n" "length buf < 2147483648"
  shows "1 \<le> n \<and> pos + n \<le> length buf"
  by (rule cbor_skip_sound(1) [OF assms(1)]) (use assms(2) in simp)

theorem cbor_skip_in_bounds_witness:
  "cbor_skip (2 ^ 64) [0x82, 0x01, 0x41, 0x07] 0 0 = Inr 4 \<and> (1 :: nat) \<le> 4 \<and> 0 + 4 \<le> length [0x82, 0x01, 0x41, 0x07 :: byte]"
proof -
  have "cbor_skip (2 ^ 64) [0x82, 0x01, 0x41, 0x07] 0 0 = Inr 4"
    by (simp add: cbor_skip.simps cbor_skip_items.simps cbor_consts cbor_read_head_def int_ret_small)
  from this cbor_skip_in_bounds [OF this] show ?thesis by simp
qed

text \<open>On a 32-bit target the bound is lost: the sum of head and length wraps, and a
  byte string that claims \<open>2^32 - 5\<close> bytes is skipped as zero bytes although the buffer ends
  behind its head, while the 64-bit build rejects it.\<close>
theorem cbor_skip_wraps_32bit:
  "cbor_skip (2 ^ 32) [0x5A, 0xFF, 0xFF, 0xFF, 0xFB] 0 0 = Inr 0
   \<and> cbor_skip (2 ^ 64) [0x5A, 0xFF, 0xFF, 0xFF, 0xFB] 0 0 = Inl KS_ERR_CBOR"
  by (simp add: cbor_skip.simps cbor_consts cbor_read_head_def bslice_def int_ret_small)

text \<open>A head written is the head read back: whenever \<open>cbor_write_head\<close> accepts a value, it
  writes at most five bytes that fit the buffer, and reading them at that position returns the
  same major type and value and consumes exactly those bytes; it refuses exactly what does not
  fit or needs more than 32 bits.\<close>
theorem cbor_head_roundtrip:
  assumes "major \<le> 7"
  shows "case cbor_write_head buflen (length pre) major v of
     Some h \<Rightarrow> v < 2 ^ 32 \<and> length pre + length h \<le> buflen \<and> length h \<le> 5
         \<and> cbor_read_head (pre @ h @ post) (length pre) = Inr (length h, major, v)
   | None \<Rightarrow> v \<ge> 2 ^ 32 \<or> buflen < length pre + 5"
  using cbor_read_head_enc [OF assms, of v pre post] length_cbor_head_bounds(2) [of major v]
  by (auto simp: cbor_write_head_eq [OF assms])

theorem cbor_head_roundtrip_witness:
  "cbor_read_head ([0xA1] @ [0x19, 0x01, 0xF4] @ [0xFF]) 1 = Inr (3, 0, 500)"
proof -
  have "cbor_write_head 100 1 0 500 = Some [0x19, 0x01, 0xF4]" by (simp add: cbor_write_head_def byte_of_def)
  with cbor_head_roundtrip [where major = 0 and buflen = 100 and pre = "[0xA1]" and v = 500 and post = "[0xFF]"] show ?thesis by simp
qed

end
