(* ===== verification/KeystorePayload.thy ===== *)
theory KeystorePayload imports Cbor begin

text \<open>
  The keystore payload (\<open>decode_cbor_payload\<close>, \<open>encode_cbor_payload\<close> and
  \<open>cbor_read_bytes_alloc\<close> of \<open>src/wp11_keystore.c\<close>): a CBOR array of maps.  Decoding allocates and locks memory, and what the
  code does to these blocks on its error paths is part of what it promises, so every
  allocation is a numbered block of an explicit memory state.
\<close>

section \<open>Memory\<close>

text \<open>
  The blocks that are allocated, the pages each block lies on (any placement: the allocator decides, and
  small blocks usually share a page), the locked pages, the blocks that hold key material that has not been wiped.
  \<open>mlock\<close> locks every page of its block, \<open>munlock\<close> unlocks every page of its block, whoever else locked it: locks do not nest.
  Three sets only record what happened: \<open>exposed\<close> the blocks to which key material was written while they were not locked, or
  which were unlocked or freed before they were wiped; \<open>bared\<close> the blocks that held key material when \<open>munlock\<close> of another block unlocked
  a page of theirs; \<open>lost\<close> the blocks whose last pointer was overwritten.
\<close>

record ks_mem =
  next_blk :: nat
  live :: "nat set"
  pages :: "nat \<Rightarrow> nat set"
  locked_pages :: "nat set"
  dirty :: "nat set"
  exposed :: "nat set"
  bared :: "nat set"
  lost :: "nat set"

text \<open>A block is locked when all its pages are.\<close>

definition locked :: "ks_mem \<Rightarrow> nat set" where
  "locked mem = {b. pages mem b \<subseteq> locked_pages mem}"

lemma locked_upd [simp]:
  "locked (mem\<lparr>next_blk := n\<rparr>) = locked mem" "locked (mem\<lparr>live := l\<rparr>) = locked mem" "locked (mem\<lparr>dirty := l\<rparr>) = locked mem"
  "locked (mem\<lparr>lost := l\<rparr>) = locked mem" "locked (mem\<lparr>exposed := l\<rparr>) = locked mem" "locked (mem\<lparr>bared := l\<rparr>) = locked mem"
  by (simp_all add: locked_def)

text \<open>Whether the n-th allocation, of the given size, and the locking of that block succeed.\<close>

record mem_env =
  malloc_ok :: "nat \<Rightarrow> nat \<Rightarrow> bool"
  mlock_ok :: "nat \<Rightarrow> nat \<Rightarrow> bool"

definition mem_malloc :: "mem_env \<Rightarrow> ks_mem \<Rightarrow> nat \<Rightarrow> ks_mem \<times> nat option" where
  "mem_malloc env mem n =
     (let b = next_blk mem in
      if malloc_ok env b n then (mem\<lparr>next_blk := b + 1, live := insert b (live mem)\<rparr>, Some b)
      else (mem\<lparr>next_blk := b + 1\<rparr>, None))"

definition mem_mlock :: "mem_env \<Rightarrow> ks_mem \<Rightarrow> nat \<Rightarrow> nat \<Rightarrow> ks_mem \<times> bool" where
  "mem_mlock env mem b n =
     (if mlock_ok env b n then (mem\<lparr>locked_pages := locked_pages mem \<union> pages mem b\<rparr>, True) else (mem, False))"

definition mem_write :: "ks_mem \<Rightarrow> nat \<Rightarrow> ks_mem" where
  "mem_write mem b =
     mem\<lparr>dirty := insert b (dirty mem),
         exposed := (if b \<in> locked mem then exposed mem else insert b (exposed mem))\<rparr>"

definition wp11_zero_blk :: "ks_mem \<Rightarrow> nat \<Rightarrow> ks_mem" where
  "wp11_zero_blk mem b = mem\<lparr>dirty := dirty mem - {b}\<rparr>"

definition mem_munlock :: "ks_mem \<Rightarrow> nat \<Rightarrow> ks_mem" where
  "mem_munlock mem b =
     mem\<lparr>locked_pages := locked_pages mem - pages mem b,
         exposed := (if b \<in> dirty mem then insert b (exposed mem) else exposed mem),
         bared := bared mem \<union> {x \<in> dirty mem. x \<noteq> b \<and> pages mem x \<inter> pages mem b \<noteq> {}}\<rparr>"

definition mem_free :: "ks_mem \<Rightarrow> nat \<Rightarrow> ks_mem" where
  "mem_free mem b =
     mem\<lparr>live := live mem - {b}, dirty := dirty mem - {b},
         exposed := (if b \<in> dirty mem then insert b (exposed mem) else exposed mem)\<rparr>"

text \<open>A pointer is overwritten.\<close>

definition mem_lose :: "ks_mem \<Rightarrow> (nat \<times> byte list) option \<Rightarrow> ks_mem" where
  "mem_lose mem old = (case old of None \<Rightarrow> mem | Some (b, bs) \<Rightarrow> mem\<lparr>lost := insert b (lost mem)\<rparr>)"

lemmas mem_defs = mem_lose_def mem_malloc_def mem_mlock_def mem_write_def wp11_zero_blk_def mem_munlock_def mem_free_def Let_def

section \<open>Entries\<close>

text \<open>
  \<open>wp11_key_entry_t\<close>.  A pointer to an allocated byte string is \<open>None\<close> for \<open>NULL\<close> or the
  block with its contents, whose length is the length field beside the pointer.  \<open>label\<close> is the
  bytes before the NUL that the reader appends.
\<close>

record wp11_key_entry =
  key_id :: "byte list"
  label :: "byte list"
  key_type :: int
  der_bytes :: "(nat \<times> byte list) option"
  cert_bytes :: "(nat \<times> byte list) option"

definition KEY_TYPE_RSA :: int where "KEY_TYPE_RSA = 0"
definition KEY_TYPE_EC :: int where "KEY_TYPE_EC = 1"

definition zero_entry :: wp11_key_entry where
  "zero_entry = \<lparr>key_id = replicate 16 0, label = [], key_type = 0, der_bytes = None, cert_bytes = None\<rparr>"

section \<open>Decoding\<close>

text \<open>\<open>malloc\<close>, then \<open>mlock\<close>, then the copy.\<close>

definition cbor_read_bytes_alloc ::
  "mem_env \<Rightarrow> ks_mem \<Rightarrow> byte list \<Rightarrow> nat \<Rightarrow> ks_mem \<times> (ks_err + nat \<times> nat \<times> byte list)" where
  "cbor_read_bytes_alloc env mem buf pos =
     (case cbor_bytes_at buf pos KS_DER_MAX of
        Inl e \<Rightarrow> (mem, Inl e)
      | Inr (n, bs) \<Rightarrow>
          (case mem_malloc env mem (length bs) of
             (mem1, None) \<Rightarrow> (mem1, Inl KS_ERR_NOMEM)
           | (mem1, Some b) \<Rightarrow>
               (case mem_mlock env mem1 b (length bs) of
                  (mem2, False) \<Rightarrow> (mem_free mem2 b, Inl KS_ERR_MLOCK)
                | (mem2, True) \<Rightarrow> (mem_write mem2 b, Inr (n, b, bs)))))"

record dec_state =
  ds_mem :: ks_mem
  ds_entry :: wp11_key_entry
  has_id :: bool
  has_label :: bool
  has_key_type :: bool
  has_der :: bool

text \<open>The value behind a map key; the result is the bytes it consumed.\<close>

definition decode_value ::
  "mem_env \<Rightarrow> nat \<Rightarrow> byte list \<Rightarrow> nat \<Rightarrow> byte list \<Rightarrow> dec_state \<Rightarrow> dec_state \<times> (ks_err + nat)" where
  "decode_value env m buf pos key st =
     (if cstr key = str ''id'' then
        (case cbor_read_bytes_fixed buf pos 16 of
           Inl e \<Rightarrow> (st, Inl e)
         | Inr (n, bs) \<Rightarrow> (st\<lparr>ds_entry := (ds_entry st)\<lparr>key_id := bs\<rparr>, has_id := True\<rparr>, Inr n))
      else if cstr key = str ''label'' then
        (case cbor_read_text buf pos (KS_LABEL_MAX + 1) of
           Inl e \<Rightarrow> (st, Inl e)
         | Inr (n, bs) \<Rightarrow> (st\<lparr>ds_entry := (ds_entry st)\<lparr>label := bs\<rparr>, has_label := True\<rparr>, Inr n))
      else if cstr key = str ''key_type'' then
        (case cbor_read_head buf pos of
           Inl e \<Rightarrow> (st, Inl e)
         | Inr (n, kt_major, kt_val) \<Rightarrow>
             if kt_major \<noteq> CBOR_MAJOR_UINT then (st, Inl KS_ERR_CBOR)
             else if int kt_val \<noteq> KEY_TYPE_RSA \<and> int kt_val \<noteq> KEY_TYPE_EC then (st, Inl KS_ERR_CBOR)
             else (st\<lparr>ds_entry := (ds_entry st)\<lparr>key_type := int kt_val\<rparr>, has_key_type := True\<rparr>, Inr n))
      else if cstr key = str ''der_bytes'' then
        (case cbor_read_bytes_alloc env (ds_mem st) buf pos of
           (mem, Inl e) \<Rightarrow> (st\<lparr>ds_mem := mem\<rparr>, Inl e)
         | (mem, Inr (n, b, bs)) \<Rightarrow>
             (st\<lparr>ds_mem := mem_lose mem (der_bytes (ds_entry st)),
                 ds_entry := (ds_entry st)\<lparr>der_bytes := Some (b, bs)\<rparr>, has_der := True\<rparr>, Inr n))
      else if cstr key = str ''cert_bytes'' then
        (case cbor_bytes_at buf pos KS_CERT_MAX of
           Inl e \<Rightarrow> (st, Inl e)
         | Inr (n, bs) \<Rightarrow>
             (case mem_malloc env (ds_mem st) (length bs) of
                (mem, None) \<Rightarrow>
                  (st\<lparr>ds_mem := mem_lose mem (cert_bytes (ds_entry st)),
                      ds_entry := (ds_entry st)\<lparr>cert_bytes := None\<rparr>\<rparr>, Inl KS_ERR_NOMEM)
              | (mem, Some b) \<Rightarrow>
                  (st\<lparr>ds_mem := mem_lose mem (cert_bytes (ds_entry st)),
                      ds_entry := (ds_entry st)\<lparr>cert_bytes := Some (b, bs)\<rparr>\<rparr>, Inr n)))
      else (case cbor_skip m buf pos 0 of
           Inl e \<Rightarrow> (st, Inl e)
         | Inr n \<Rightarrow> (st, Inr n)))"

text \<open>The \<open>npairs\<close> pairs of one map; the result is the position behind them.\<close>

fun decode_pairs :: "mem_env \<Rightarrow> nat \<Rightarrow> byte list \<Rightarrow> nat \<Rightarrow> nat \<Rightarrow> dec_state \<Rightarrow> dec_state \<times> (ks_err + nat)" where
  "decode_pairs env m buf 0 pos st = (st, Inr pos)"
| "decode_pairs env m buf (Suc n) pos st =
     (case cbor_read_text buf pos 32 of
        Inl e \<Rightarrow> (st, Inl e)
      | Inr (k, key) \<Rightarrow>
          (case decode_value env m buf (pos + k) key st of
             (st', Inl e) \<Rightarrow> (st', Inl e)
           | (st', Inr v) \<Rightarrow> decode_pairs env m buf n (pos + k + v) st'))"

definition dec_init :: "ks_mem \<Rightarrow> dec_state" where
  "dec_init mem = \<lparr>ds_mem = mem, ds_entry = zero_entry, has_id = False, has_label = False,
     has_key_type = False, has_der = False\<rparr>"

text \<open>
  The entries of the array.  The list returned holds the entries that were touched, the last one
  perhaps half filled when there is an error; the rest of \<open>entries[]\<close> is zero.
\<close>

fun decode_entries ::
  "mem_env \<Rightarrow> nat \<Rightarrow> byte list \<Rightarrow> nat \<Rightarrow> nat \<Rightarrow> ks_mem \<Rightarrow> ks_mem \<times> wp11_key_entry list \<times> (ks_err + unit)" where
  "decode_entries env m buf 0 pos mem = (mem, [], Inr ())"
| "decode_entries env m buf (Suc n) pos mem =
     (case cbor_read_head buf pos of
        Inl e \<Rightarrow> (mem, [], Inl e)
      | Inr (k, map_major, npairs) \<Rightarrow>
          if map_major \<noteq> CBOR_MAJOR_MAP then (mem, [], Inl KS_ERR_CBOR)
          else (case decode_pairs env m buf npairs (pos + k) (dec_init mem) of
             (st, Inl e) \<Rightarrow> (ds_mem st, [ds_entry st], Inl e)
           | (st, Inr pos') \<Rightarrow>
               if \<not> has_id st \<or> \<not> has_label st \<or> \<not> has_key_type st \<or> \<not> has_der st
               then (ds_mem st, [ds_entry st], Inl KS_ERR_CBOR)
               else (case decode_entries env m buf n pos' (ds_mem st) of
                  (mem', es, r) \<Rightarrow> (mem', ds_entry st # es, r))))"

definition decode_cbor_payload ::
  "mem_env \<Rightarrow> nat \<Rightarrow> byte list \<Rightarrow> ks_mem \<Rightarrow> ks_mem \<times> wp11_key_entry list \<times> (ks_err + nat)" where
  "decode_cbor_payload env m plain mem =
     (case cbor_read_head plain 0 of
        Inl e \<Rightarrow> (mem, [], Inl e)
      | Inr (n, major, nentries) \<Rightarrow>
          if major \<noteq> CBOR_MAJOR_ARRAY then (mem, [], Inl KS_ERR_CBOR)
          else if nentries > KS_MAX_ENTRIES then (mem, [], Inl KS_ERR_CBOR)
          else (case decode_entries env m plain nentries n mem of
             (mem', es, Inl e) \<Rightarrow> (mem', es, Inl e)
           | (mem', es, Inr u) \<Rightarrow> (mem', es, Inr nentries)))"

section \<open>Encoding\<close>

text \<open>A sequence of writers, each at the position behind the one before; the first failure ends it.\<close>

fun write_seq :: "(nat \<Rightarrow> nat \<Rightarrow> byte list option) list \<Rightarrow> nat \<Rightarrow> nat \<Rightarrow> byte list option" where
  "write_seq [] buflen pos = Some []"
| "write_seq (w # ws) buflen pos =
     (case w buflen pos of
        None \<Rightarrow> None
      | Some bs \<Rightarrow>
          (case write_seq ws buflen (pos + length bs) of
             None \<Rightarrow> None
           | Some rest \<Rightarrow> Some (bs @ rest)))"

definition entry_writers :: "wp11_key_entry \<Rightarrow> (nat \<Rightarrow> nat \<Rightarrow> byte list option) list" where
  "entry_writers k =
     [\<lambda>l p. cbor_write_head l p CBOR_MAJOR_MAP (if cert_bytes k \<noteq> None then 5 else 4),
      \<lambda>l p. cbor_write_text l p (str ''id''),
      \<lambda>l p. cbor_write_bytes l p (key_id k),
      \<lambda>l p. cbor_write_text l p (str ''label''),
      \<lambda>l p. cbor_write_text l p (label k),
      \<lambda>l p. cbor_write_text l p (str ''key_type''),
      \<lambda>l p. cbor_write_head l p CBOR_MAJOR_UINT (nat (key_type k mod 2 ^ 64)),
      \<lambda>l p. cbor_write_text l p (str ''der_bytes''),
      \<lambda>l p. cbor_write_bytes l p (case der_bytes k of None \<Rightarrow> [] | Some (b, d) \<Rightarrow> d)]
     @ (case cert_bytes k of
          None \<Rightarrow> []
        | Some (b, c) \<Rightarrow>
            [\<lambda>l p. cbor_write_text l p (str ''cert_bytes''),
             \<lambda>l p. cbor_write_bytes l p c])"

definition encode_cbor_payload :: "nat \<Rightarrow> wp11_key_entry list \<Rightarrow> ks_err + byte list" where
  "encode_cbor_payload buflen keys =
     (case write_seq ((\<lambda>l p. cbor_write_head l p CBOR_MAJOR_ARRAY (length keys))
                      # concat (map entry_writers keys)) buflen 0 of
        None \<Rightarrow> Inl KS_ERR_CBOR
      | Some bs \<Rightarrow> Inr bs)"

section \<open>The encoding as a value\<close>

lemma key_names [simp]:
  "str ''id'' = [0x69, 0x64]" "str ''label'' = [0x6C, 0x61, 0x62, 0x65, 0x6C]"
  "str ''key_type'' = [0x6B, 0x65, 0x79, 0x5F, 0x74, 0x79, 0x70, 0x65]"
  "str ''der_bytes'' = [0x64, 0x65, 0x72, 0x5F, 0x62, 0x79, 0x74, 0x65, 0x73]"
  "str ''cert_bytes'' = [0x63, 0x65, 0x72, 0x74, 0x5F, 0x62, 0x79, 0x74, 0x65, 0x73]"
  by (simp_all add: str_def)

lemma cstr_names [simp]:
  "cstr [0x69, 0x64] = [0x69, 0x64 :: byte]" "cstr [0x6C, 0x61, 0x62, 0x65, 0x6C] = [0x6C, 0x61, 0x62, 0x65, 0x6C :: byte]"
  "cstr [0x6B, 0x65, 0x79, 0x5F, 0x74, 0x79, 0x70, 0x65] = [0x6B, 0x65, 0x79, 0x5F, 0x74, 0x79, 0x70, 0x65 :: byte]"
  "cstr [0x64, 0x65, 0x72, 0x5F, 0x62, 0x79, 0x74, 0x65, 0x73] = [0x64, 0x65, 0x72, 0x5F, 0x62, 0x79, 0x74, 0x65, 0x73 :: byte]"
  "cstr [0x63, 0x65, 0x72, 0x74, 0x5F, 0x62, 0x79, 0x74, 0x65, 0x73] = [0x63, 0x65, 0x72, 0x74, 0x5F, 0x62, 0x79, 0x74, 0x65, 0x73 :: byte]"
  by (simp_all add: cstr_def)

text \<open>The pairs of the map of one entry: key and encoded value.\<close>

definition entry_pairs :: "wp11_key_entry \<Rightarrow> (byte list \<times> byte list) list" where
  "entry_pairs k =
     [(str ''id'', cbor_str CBOR_MAJOR_BYTES (key_id k)),
      (str ''label'', cbor_str CBOR_MAJOR_TEXT (cstr (label k))),
      (str ''key_type'', cbor_head CBOR_MAJOR_UINT (nat (key_type k))),
      (str ''der_bytes'', cbor_str CBOR_MAJOR_BYTES (case der_bytes k of None \<Rightarrow> [] | Some (b, d) \<Rightarrow> d))]
     @ (case cert_bytes k of None \<Rightarrow> []
        | Some (b, c) \<Rightarrow> [(str ''cert_bytes'', cbor_str CBOR_MAJOR_BYTES c)])"

definition pairs_bytes :: "(byte list \<times> byte list) list \<Rightarrow> byte list" where
  "pairs_bytes ps = concat (map (\<lambda>(a, v). cbor_str CBOR_MAJOR_TEXT a @ v) ps)"

definition entry_bytes :: "wp11_key_entry \<Rightarrow> byte list" where
  "entry_bytes k = cbor_head CBOR_MAJOR_MAP (length (entry_pairs k)) @ pairs_bytes (entry_pairs k)"

definition payload_bytes :: "wp11_key_entry list \<Rightarrow> byte list" where
  "payload_bytes keys = cbor_head CBOR_MAJOR_ARRAY (length keys) @ concat (map entry_bytes keys)"

text \<open>The entries that the reader accepts.\<close>

definition entry_ok :: "wp11_key_entry \<Rightarrow> bool" where
  "entry_ok k \<longleftrightarrow> length (key_id k) = 16 \<and> length (cstr (label k)) \<le> KS_LABEL_MAX
     \<and> (key_type k = KEY_TYPE_RSA \<or> key_type k = KEY_TYPE_EC)
     \<and> (case der_bytes k of None \<Rightarrow> False | Some (b, d) \<Rightarrow> length d \<le> KS_DER_MAX)
     \<and> (case cert_bytes k of None \<Rightarrow> True | Some (b, c) \<Rightarrow> length c \<le> KS_CERT_MAX)"

lemma length_entry_pairs: "length (entry_pairs k) = (if cert_bytes k \<noteq> None then 5 else 4)"
  by (auto simp: entry_pairs_def split: option.splits)

lemma entry_bytes_eq:
  "entry_bytes k = cbor_head CBOR_MAJOR_MAP (if cert_bytes k \<noteq> None then 5 else 4) @ pairs_bytes (entry_pairs k)"
  by (simp add: entry_bytes_def length_entry_pairs)

text \<open>The entries that the writer accepts: no limit on the private key but that of a 32-bit length.\<close>

definition entry_enc :: "wp11_key_entry \<Rightarrow> bool" where
  "entry_enc k \<longleftrightarrow> length (key_id k) = 16 \<and> length (cstr (label k)) \<le> KS_LABEL_MAX
     \<and> (key_type k = KEY_TYPE_RSA \<or> key_type k = KEY_TYPE_EC)
     \<and> (case der_bytes k of None \<Rightarrow> False | Some (b, d) \<Rightarrow> length d \<le> 0xFFFFFFFF)
     \<and> (case cert_bytes k of None \<Rightarrow> True | Some (b, c) \<Rightarrow> length c \<le> 0xFFFFFFFF)"

lemma entry_ok_enc: "entry_ok k \<Longrightarrow> entry_enc k"
  by (auto simp: entry_ok_def entry_enc_def KS_DER_MAX_def KS_CERT_MAX_def split: option.splits)

definition fixed_writer :: "(nat \<Rightarrow> nat \<Rightarrow> byte list option) \<Rightarrow> byte list \<Rightarrow> bool" where
  "fixed_writer w bs \<longleftrightarrow> (\<forall>l p. w l p = (if p + length bs \<le> l then Some bs else None))"

lemma write_seq_fixed:
  assumes "list_all2 fixed_writer ws bss" "pos \<le> buflen"
  shows "write_seq ws buflen pos =
     (if pos + length (concat bss) \<le> buflen then Some (concat bss) else None)"
  using assms by (induction arbitrary: pos rule: list_all2_induct) (auto simp: fixed_writer_def)

lemma fixed_writer_head: "major \<le> 7 \<Longrightarrow> v \<le> 0xFFFFFFFF \<Longrightarrow> fixed_writer (\<lambda>l p. cbor_write_head l p major v) (cbor_head major v)"
  by (simp add: fixed_writer_def cbor_write_head_eq)

lemma fixed_writer_text: "length (cstr s) \<le> 0xFFFFFFFF \<Longrightarrow> fixed_writer (\<lambda>l p. cbor_write_text l p s) (cbor_str CBOR_MAJOR_TEXT (cstr s))"
  by (simp add: fixed_writer_def cbor_write_text_def cbor_write_payload_eq CBOR_MAJOR_TEXT_def)

lemma fixed_writer_bytes: "length s \<le> 0xFFFFFFFF \<Longrightarrow> fixed_writer (\<lambda>l p. cbor_write_bytes l p s) (cbor_str CBOR_MAJOR_BYTES s)"
  by (simp add: fixed_writer_def cbor_write_bytes_def cbor_write_payload_eq CBOR_MAJOR_BYTES_def)

lemmas fixed_writers = fixed_writer_head fixed_writer_text fixed_writer_bytes

lemma entry_writers_fixed:
  assumes "entry_enc k"
  shows "\<exists>bss. list_all2 fixed_writer (entry_writers k) bss \<and> concat bss = entry_bytes k"
proof -
  have kt: "nat (key_type k mod 18446744073709551616) = nat (key_type k)" "nat (key_type k) \<le> 0xFFFFFFFF"
    using assms by (auto simp: entry_enc_def KEY_TYPE_RSA_def KEY_TYPE_EC_def)
  obtain b d where d: "der_bytes k = Some (b, d)" "length d \<le> 0xFFFFFFFF"
    using assms by (auto simp: entry_enc_def split: option.splits)
  have i: "length (key_id k) = 16" "length (cstr (label k)) \<le> 64"
    using assms by (auto simp: entry_enc_def KS_LABEL_MAX_def)
  have hd: "fixed_writer (\<lambda>l p. cbor_write_head l p 5 n) (cbor_head 5 n)" if "n \<le> 5" for n
    using that by (simp add: fixed_writer_head)
  let ?base = "[cbor_head CBOR_MAJOR_MAP (if cert_bytes k \<noteq> None then 5 else 4), cbor_str CBOR_MAJOR_TEXT (str ''id''), cbor_str CBOR_MAJOR_BYTES (key_id k),
      cbor_str CBOR_MAJOR_TEXT (str ''label''), cbor_str CBOR_MAJOR_TEXT (cstr (label k)), cbor_str CBOR_MAJOR_TEXT (str ''key_type''),
      cbor_head CBOR_MAJOR_UINT (nat (key_type k)), cbor_str CBOR_MAJOR_TEXT (str ''der_bytes''), cbor_str CBOR_MAJOR_BYTES d]"
  show ?thesis
  proof (cases "cert_bytes k")
    case None
    have "list_all2 fixed_writer (entry_writers k) ?base"
      using fixed_writers i d(2) hd fixed_writer_head [OF _ kt(2), of 0]
        fixed_writer_text [of "str ''id''"] fixed_writer_text [of "str ''label''"] fixed_writer_text [of "str ''key_type''"]
        fixed_writer_text [of "str ''der_bytes''"]
      by (simp add: entry_writers_def None d(1) kt(1) cbor_consts)
    then show ?thesis
      by (intro exI [of _ ?base]) (simp add: None d(1) entry_bytes_eq pairs_bytes_def entry_pairs_def)
  next
    case (Some q)
    obtain cb cc where q: "q = (cb, cc)" by (cases q)
    have lc: "length cc \<le> 0xFFFFFFFF" using assms by (simp add: entry_enc_def Some q)
    let ?all = "?base @ [cbor_str CBOR_MAJOR_TEXT (str ''cert_bytes''), cbor_str CBOR_MAJOR_BYTES cc]"
    have "list_all2 fixed_writer (entry_writers k) ?all"
      using fixed_writers i d(2) hd fixed_writer_head [OF _ kt(2), of 0] lc
        fixed_writer_text [of "str ''id''"] fixed_writer_text [of "str ''label''"] fixed_writer_text [of "str ''key_type''"]
        fixed_writer_text [of "str ''der_bytes''"] fixed_writer_text [of "str ''cert_bytes''"]
      by (simp add: entry_writers_def Some q d(1) kt(1) cbor_consts)
    then show ?thesis
      by (intro exI [of _ ?all]) (simp add: Some q d(1) entry_bytes_eq pairs_bytes_def entry_pairs_def)
  qed
qed

lemma entries_writers_fixed:
  "\<forall>k \<in> set keys. entry_enc k \<Longrightarrow>
     \<exists>bss. list_all2 fixed_writer (concat (map entry_writers keys)) bss \<and> concat bss = concat (map entry_bytes keys)"
proof (induction keys)
  case Nil
  show ?case by (intro exI [of _ "[]"]) simp
next
  case (Cons k keys)
  then obtain bss where b: "list_all2 fixed_writer (concat (map entry_writers keys)) bss" "concat bss = concat (map entry_bytes keys)"
    by auto
  obtain as where a: "list_all2 fixed_writer (entry_writers k) as" "concat as = entry_bytes k"
    using entry_writers_fixed Cons.prems by auto
  from a b show ?case by (intro exI [of _ "as @ bss"]) (simp add: list_all2_appendI)
qed

lemma encode_payload_enc:
  assumes "\<forall>k \<in> set keys. entry_enc k" "length keys \<le> KS_MAX_ENTRIES"
  shows "encode_cbor_payload buflen keys =
     (if length (payload_bytes keys) \<le> buflen then Inr (payload_bytes keys) else Inl KS_ERR_CBOR)"
proof -
  obtain bss where b: "list_all2 fixed_writer (concat (map entry_writers keys)) bss" "concat bss = concat (map entry_bytes keys)"
    using entries_writers_fixed [OF assms(1)] by blast
  have "fixed_writer (\<lambda>l p. cbor_write_head l p CBOR_MAJOR_ARRAY (length keys)) (cbor_head CBOR_MAJOR_ARRAY (length keys))"
    using assms(2) by (intro fixed_writer_head) (simp_all add: cbor_consts)
  with b have "list_all2 fixed_writer ((\<lambda>l p. cbor_write_head l p CBOR_MAJOR_ARRAY (length keys)) # concat (map entry_writers keys))
      (cbor_head CBOR_MAJOR_ARRAY (length keys) # bss)" by simp
  from write_seq_fixed [OF this, of 0 buflen] b(2) show ?thesis
    by (simp add: encode_cbor_payload_def payload_bytes_def)
qed

lemma encode_payload_eq:
  assumes "\<forall>k \<in> set keys. entry_ok k" "length keys \<le> KS_MAX_ENTRIES"
  shows "encode_cbor_payload buflen keys =
     (if length (payload_bytes keys) \<le> buflen then Inr (payload_bytes keys) else Inl KS_ERR_CBOR)"
  using encode_payload_enc [OF _ assms(2)] assms(1) entry_ok_enc by blast

lemma length_cbor_str: "length (cbor_str major bs) \<le> 5 + length bs"
  using length_cbor_head_bounds(2) [of major "length bs"] by (simp add: cbor_str_def)

lemma length_entry_bytes:
  assumes "entry_ok k"
  shows "length (entry_bytes k) \<le> 8412"
proof -
  have i: "length (key_id k) = 16" "length (cstr (label k)) \<le> 64" using assms by (auto simp: entry_ok_def KS_LABEL_MAX_def)
  obtain b d where d: "der_bytes k = Some (b, d)" "length d \<le> 4096"
    using assms by (auto simp: entry_ok_def KS_DER_MAX_def split: option.splits)
  note l = length_cbor_str length_cbor_head_bounds(2)
  show ?thesis
  proof (cases "cert_bytes k")
    case None
    then show ?thesis
      using i d(2) l(1) [of 2 "key_id k"] l(1) [of 3 "cstr (label k)"] l(1) [of 2 d] l(2) [of 0 "nat (key_type k)"] l(2) [of 5 4]
        l(1) [of 3 "str ''id''"] l(1) [of 3 "str ''label''"] l(1) [of 3 "str ''key_type''"] l(1) [of 3 "str ''der_bytes''"]
      by (simp add: entry_bytes_eq pairs_bytes_def entry_pairs_def d(1) cbor_consts)
  next
    case (Some q)
    obtain cb cc where q: "q = (cb, cc)" by (cases q)
    have lc: "length cc \<le> 4096" using assms by (simp add: entry_ok_def Some q KS_CERT_MAX_def)
    then show ?thesis
      using i d(2) l(1) [of 2 "key_id k"] l(1) [of 3 "cstr (label k)"] l(1) [of 2 d] l(2) [of 0 "nat (key_type k)"] l(2) [of 5 5] l(1) [of 2 cc]
        l(1) [of 3 "str ''id''"] l(1) [of 3 "str ''label''"] l(1) [of 3 "str ''key_type''"] l(1) [of 3 "str ''der_bytes''"] l(1) [of 3 "str ''cert_bytes''"]
      by (simp add: entry_bytes_eq pairs_bytes_def entry_pairs_def d(1) cbor_consts Some q)
  qed
qed

lemma length_payload_bytes:
  assumes "\<forall>k \<in> set keys. entry_ok k"
  shows "length (payload_bytes keys) \<le> 5 + length keys * 8412"
proof -
  have "length (concat (map entry_bytes keys)) \<le> length keys * 8412"
    using assms by (induction keys) (auto dest: length_entry_bytes)
  then show ?thesis using length_cbor_head_bounds(2) [of CBOR_MAJOR_ARRAY "length keys"]
    by (simp add: payload_bytes_def)
qed

section \<open>Decoding what was encoded\<close>

text \<open>What a caller sees of an entry: id, label as a C string, type, private key, certificate.\<close>

definition entry_view :: "wp11_key_entry \<Rightarrow> byte list \<times> byte list \<times> int \<times> byte list option \<times> byte list option" where
  "entry_view k = (key_id k, cstr (label k), key_type k, map_option snd (der_bytes k), map_option snd (cert_bytes k))"

definition mem_plenty :: "mem_env \<Rightarrow> bool" where
  "mem_plenty env \<longleftrightarrow> malloc_ok env = (\<lambda>b n. True) \<and> mlock_ok env = (\<lambda>b n. True)"

text \<open>A pair whose value is read whole, with the effect \<open>f\<close>.\<close>

definition pair_reads :: "mem_env \<Rightarrow> nat \<Rightarrow> byte list \<Rightarrow> byte list \<times> byte list \<Rightarrow> (dec_state \<Rightarrow> dec_state) \<Rightarrow> bool" where
  "pair_reads env m buf av f \<longleftrightarrow> length (fst av) < 32 \<and>
     (\<forall>p q st. buf = p @ snd av @ q \<longrightarrow> decode_value env m buf (length p) (fst av) st = (f st, Inr (length (snd av))))"

lemma decode_pairs_prefix:
  assumes "list_all2 (pair_reads env m buf) ps fs" "buf = pre @ pairs_bytes ps @ post"
  shows "decode_pairs env m buf (length ps + n) (length pre) st
     = decode_pairs env m buf n (length pre + length (pairs_bytes ps)) (fold (\<lambda>f. f) fs st)"
  using assms
proof (induction arbitrary: pre st rule: list_all2_induct)
  case Nil
  then show ?case by (simp add: pairs_bytes_def)
next
  case (Cons av ps f fs)
  obtain a v where av: "av = (a, v)" by (cases av)
  have b: "buf = pre @ cbor_str CBOR_MAJOR_TEXT a @ v @ pairs_bytes ps @ post"
    using Cons.prems by (simp add: pairs_bytes_def av)
  have la: "length a < 32" and dv: "\<And>p q st. buf = p @ v @ q \<Longrightarrow> decode_value env m buf (length p) a st = (f st, Inr (length v))"
    using Cons.hyps(1) by (simp_all add: pair_reads_def av)
  have "cbor_read_text buf (length pre) 32 = Inr (length (cbor_str CBOR_MAJOR_TEXT a), a)"
    using cbor_read_text_str [OF b] la by simp
  moreover have "decode_value env m buf (length pre + length (cbor_str CBOR_MAJOR_TEXT a)) a st = (f st, Inr (length v))"
    using dv [of "pre @ cbor_str CBOR_MAJOR_TEXT a"] b by simp
  moreover have "decode_pairs env m buf (length ps + n) (length (pre @ cbor_str CBOR_MAJOR_TEXT a @ v)) (f st)
      = decode_pairs env m buf n (length (pre @ cbor_str CBOR_MAJOR_TEXT a @ v) + length (pairs_bytes ps)) (fold (\<lambda>f. f) fs (f st))"
    using b by (intro Cons.IH) simp
  ultimately show ?case by (simp add: av pairs_bytes_def add.assoc)
qed

lemma decode_pairs_all:
  assumes "list_all2 (pair_reads env m buf) ps fs" "buf = pre @ pairs_bytes ps @ post"
  shows "decode_pairs env m buf (length ps) (length pre) st
     = (fold (\<lambda>f. f) fs st, Inr (length pre + length (pairs_bytes ps)))"
  using decode_pairs_prefix [OF assms, of 0] by simp

definition set_id :: "byte list \<Rightarrow> dec_state \<Rightarrow> dec_state" where
  "set_id v st = st\<lparr>ds_entry := (ds_entry st)\<lparr>key_id := v\<rparr>, has_id := True\<rparr>"
definition set_label :: "byte list \<Rightarrow> dec_state \<Rightarrow> dec_state" where
  "set_label v st = st\<lparr>ds_entry := (ds_entry st)\<lparr>label := v\<rparr>, has_label := True\<rparr>"
definition set_type :: "int \<Rightarrow> dec_state \<Rightarrow> dec_state" where
  "set_type v st = st\<lparr>ds_entry := (ds_entry st)\<lparr>key_type := v\<rparr>, has_key_type := True\<rparr>"
definition set_der :: "byte list \<Rightarrow> dec_state \<Rightarrow> dec_state" where
  "set_der v st =
     (let b = next_blk (ds_mem st);
          mem = (ds_mem st)\<lparr>next_blk := b + 1, live := insert b (live (ds_mem st)), locked_pages := locked_pages (ds_mem st) \<union> pages (ds_mem st) b,
                 dirty := insert b (dirty (ds_mem st))\<rparr> in
      st\<lparr>ds_mem := mem_lose mem (der_bytes (ds_entry st)), ds_entry := (ds_entry st)\<lparr>der_bytes := Some (b, v)\<rparr>, has_der := True\<rparr>)"
definition set_cert :: "byte list \<Rightarrow> dec_state \<Rightarrow> dec_state" where
  "set_cert v st =
     (let b = next_blk (ds_mem st);
          mem = (ds_mem st)\<lparr>next_blk := b + 1, live := insert b (live (ds_mem st))\<rparr> in
      st\<lparr>ds_mem := mem_lose mem (cert_bytes (ds_entry st)), ds_entry := (ds_entry st)\<lparr>cert_bytes := Some (b, v)\<rparr>\<rparr>)"

lemmas dec_setters = set_id_def set_label_def set_type_def set_der_def set_cert_def Let_def

lemma pair_reads_basic:
  "length v = 16 \<Longrightarrow> pair_reads env m buf (str ''id'', cbor_str CBOR_MAJOR_BYTES v) (set_id v)"
  "length v \<le> KS_LABEL_MAX \<Longrightarrow> pair_reads env m buf (str ''label'', cbor_str CBOR_MAJOR_TEXT v) (set_label v)"
  by (auto simp: pair_reads_def decode_value_def cbor_read_fixed_str cbor_read_text_str KS_LABEL_MAX_def dec_setters)

lemma pair_reads_type:
  assumes "t = KEY_TYPE_RSA \<or> t = KEY_TYPE_EC"
  shows "pair_reads env m buf (str ''key_type'', cbor_head CBOR_MAJOR_UINT (nat t)) (set_type t)"
proof -
  have "decode_value env m buf (length p) (str ''key_type'') st = (set_type t st, Inr (length (cbor_head CBOR_MAJOR_UINT (nat t))))"
    if "buf = p @ cbor_head CBOR_MAJOR_UINT (nat t) @ q" for p q st
    using assms cbor_skip_head [OF that]
    by (auto simp: decode_value_def CBOR_MAJOR_UINT_def KEY_TYPE_RSA_def KEY_TYPE_EC_def dec_setters)
  then show ?thesis by (simp add: pair_reads_def)
qed

lemma pair_reads_alloc:
  assumes "mem_plenty env"
  shows "length v \<le> KS_DER_MAX \<Longrightarrow> pair_reads env m buf (str ''der_bytes'', cbor_str CBOR_MAJOR_BYTES v) (set_der v)"
    and "length v \<le> KS_CERT_MAX \<Longrightarrow> pair_reads env m buf (str ''cert_bytes'', cbor_str CBOR_MAJOR_BYTES v) (set_cert v)"
  using assms
  by (auto simp: pair_reads_def decode_value_def cbor_read_bytes_alloc_def cbor_bytes_at_str KS_DER_MAX_def KS_CERT_MAX_def
      mem_plenty_def mem_defs dec_setters locked_def)

lemma decode_entry_enc:
  assumes "mem_plenty env" "entry_ok k" "buf = pre @ pairs_bytes (entry_pairs k) @ post"
  shows "\<exists>st. decode_pairs env m buf (length (entry_pairs k)) (length pre) (dec_init mem)
        = (st, Inr (length pre + length (pairs_bytes (entry_pairs k))))
     \<and> has_id st \<and> has_label st \<and> has_key_type st \<and> has_der st \<and> entry_view (ds_entry st) = entry_view k \<and> lost (ds_mem st) = lost mem"
proof -
  obtain b d where d: "der_bytes k = Some (b, d)" "length d \<le> KS_DER_MAX"
    using assms(2) by (auto simp: entry_ok_def split: option.splits)
  have i: "length (key_id k) = 16" "length (cstr (label k)) \<le> KS_LABEL_MAX" "key_type k = KEY_TYPE_RSA \<or> key_type k = KEY_TYPE_EC"
    using assms(2) by (auto simp: entry_ok_def)
  have cc: "cstr (cstr (label k)) = cstr (label k)" by (simp add: cstr_id cstr_no_nul)
  let ?fs = "[set_id (key_id k), set_label (cstr (label k)), set_type (key_type k), set_der d]"
  show ?thesis
  proof (cases "cert_bytes k")
    case None
    have "list_all2 (pair_reads env m buf) (entry_pairs k) ?fs"
      using i d pair_reads_basic pair_reads_type pair_reads_alloc [OF assms(1)] by (simp add: entry_pairs_def None)
    from decode_pairs_all [OF this assms(3), of "dec_init mem"] d(1) cc None show ?thesis
      by (simp add: dec_init_def zero_entry_def dec_setters entry_view_def mem_lose_def)
  next
    case (Some q)
    obtain cb c where q: "q = (cb, c)" by (cases q)
    have lc: "length c \<le> KS_CERT_MAX" using assms(2) by (simp add: entry_ok_def Some q)
    have "list_all2 (pair_reads env m buf) (entry_pairs k) (?fs @ [set_cert c])"
      using i d lc pair_reads_basic pair_reads_type pair_reads_alloc [OF assms(1)] by (simp add: entry_pairs_def Some q)
    from decode_pairs_all [OF this assms(3), of "dec_init mem"] d(1) cc Some q show ?thesis
      by (simp add: dec_init_def zero_entry_def dec_setters entry_view_def mem_lose_def)
  qed
qed

lemma decode_entries_enc:
  assumes "mem_plenty env" "\<forall>k \<in> set keys. entry_ok k" "buf = pre @ concat (map entry_bytes keys) @ post"
  shows "\<exists>mem' es. decode_entries env m buf (length keys) (length pre) mem = (mem', es, Inr ())
     \<and> map entry_view es = map entry_view keys \<and> lost mem' = lost mem"
  using assms(2,3)
proof (induction keys arbitrary: pre mem)
  case Nil
  then show ?case by simp
next
  case (Cons k keys)
  let ?h = "cbor_head CBOR_MAJOR_MAP (length (entry_pairs k))"
  have b: "buf = pre @ ?h @ pairs_bytes (entry_pairs k) @ concat (map entry_bytes keys) @ post"
    using Cons.prems(2) by (simp add: entry_bytes_def [of k])
  have h: "cbor_read_head buf (length pre) = Inr (length ?h, CBOR_MAJOR_MAP, length (entry_pairs k))"
    by (rule cbor_skip_head [OF b]) (simp_all add: CBOR_MAJOR_MAP_def length_entry_pairs)
  obtain st where st: "decode_pairs env m buf (length (entry_pairs k)) (length (pre @ ?h)) (dec_init mem)
        = (st, Inr (length (pre @ ?h) + length (pairs_bytes (entry_pairs k))))"
     "has_id st" "has_label st" "has_key_type st" "has_der st" "entry_view (ds_entry st) = entry_view k" "lost (ds_mem st) = lost mem"
    using decode_entry_enc [OF assms(1), of k buf "pre @ ?h" "concat (map entry_bytes keys) @ post" m mem] Cons.prems(1) b by auto
  obtain mem' es where r: "decode_entries env m buf (length keys) (length (pre @ entry_bytes k)) (ds_mem st) = (mem', es, Inr ())"
    "map entry_view es = map entry_view keys" "lost mem' = lost (ds_mem st)"
    using Cons.IH [of "pre @ entry_bytes k" "ds_mem st"] Cons.prems by auto
  have p: "length (pre @ ?h) + length (pairs_bytes (entry_pairs k)) = length (pre @ entry_bytes k)"
    by (simp add: entry_bytes_def)
  from h st r show ?case unfolding p
    by (intro exI [of _ mem'] exI [of _ "ds_entry st # es"]) simp
qed

lemma decode_payload_enc:
  assumes "mem_plenty env" "\<forall>k \<in> set keys. entry_ok k" "length keys \<le> KS_MAX_ENTRIES"
  shows "\<exists>mem' es. decode_cbor_payload env m (payload_bytes keys @ post) mem = (mem', es, Inr (length keys))
     \<and> map entry_view es = map entry_view keys \<and> lost mem' = lost mem"
proof -
  let ?h = "cbor_head CBOR_MAJOR_ARRAY (length keys)"
  have b: "payload_bytes keys @ post = [] @ ?h @ concat (map entry_bytes keys) @ post" by (simp add: payload_bytes_def)
  have h: "cbor_read_head (payload_bytes keys @ post) 0 = Inr (length ?h, CBOR_MAJOR_ARRAY, length keys)"
    using cbor_skip_head [OF b] assms(3) by (simp add: cbor_consts)
  obtain mem' es where "decode_entries env m (payload_bytes keys @ post) (length keys) (length ?h) mem = (mem', es, Inr ())"
    "map entry_view es = map entry_view keys" "lost mem' = lost mem"
    using decode_entries_enc [OF assms(1,2), of "payload_bytes keys @ post" ?h post m mem] b by auto
  with h assms(3) show ?thesis by (simp add: decode_cbor_payload_def)
qed

section \<open>What decoding does to memory, for any payload\<close>

definition der_blks :: "wp11_key_entry \<Rightarrow> nat set" where
  "der_blks e = (case der_bytes e of None \<Rightarrow> {} | Some (b, bs) \<Rightarrow> {b})"

definition cert_blks :: "wp11_key_entry \<Rightarrow> nat set" where
  "cert_blks e = (case cert_bytes e of None \<Rightarrow> {} | Some (b, bs) \<Rightarrow> {b})"

text \<open>
  \<open>dec_inv m0 mem B D\<close>: since \<open>m0\<close> exactly the blocks \<open>B\<close> (still reachable) and the lost ones were
  added to the live ones; unwiped key material is only in the blocks \<open>D\<close> of \<open>B\<close>, in lost ones and where
  it was before, always in locked memory; nothing more was exposed.
\<close>

definition dec_inv :: "ks_mem \<Rightarrow> ks_mem \<Rightarrow> nat set \<Rightarrow> nat set \<Rightarrow> bool" where
  "dec_inv m0 mem B D \<longleftrightarrow>
     next_blk m0 \<le> next_blk mem \<and> (\<forall>b \<in> B \<union> lost mem. next_blk m0 \<le> b \<and> b < next_blk mem)
     \<and> B \<inter> lost mem = {} \<and> D \<subseteq> B \<and> live mem = live m0 \<union> B \<union> lost mem
     \<and> dirty mem \<subseteq> dirty m0 \<union> D \<union> lost mem \<and> dirty mem \<subseteq> locked mem
     \<and> pages mem = pages m0 \<and> locked_pages m0 \<subseteq> locked_pages mem \<and> exposed mem = exposed m0 \<and> bared mem = bared m0"

definition fresh_from :: "ks_mem \<Rightarrow> bool" where
  "fresh_from m0 \<longleftrightarrow> (\<forall>b \<in> live m0 \<union> dirty m0. b < next_blk m0)"

lemma dec_invD:
  assumes "dec_inv m0 mem B D"
  shows "next_blk m0 \<le> next_blk mem" "b \<in> B \<Longrightarrow> next_blk m0 \<le> b \<and> b < next_blk mem"
    "b \<in> lost mem \<Longrightarrow> next_blk m0 \<le> b \<and> b < next_blk mem"
    "B \<inter> lost mem = {}" "D \<subseteq> B" "live mem = live m0 \<union> B \<union> lost mem"
    "dirty mem \<subseteq> dirty m0 \<union> D \<union> lost mem" "dirty mem \<subseteq> locked mem" "pages mem = pages m0"
    "locked_pages m0 \<subseteq> locked_pages mem" "exposed mem = exposed m0" "bared mem = bared m0"
  using assms unfolding dec_inv_def by blast+

lemma dec_inv_fresh:
  assumes "dec_inv m0 mem B D" "fresh_from m0"
  shows "next_blk mem \<notin> live mem" "next_blk mem \<notin> dirty mem"
    "next_blk mem \<notin> B" "next_blk mem \<notin> lost mem"
proof -
  note d = dec_invD [OF assms(1)]
  have "b < next_blk mem" if "b \<in> live m0 \<union> dirty m0" for b
    using assms(2) that d(1) unfolding fresh_from_def by (meson less_le_trans)
  then have old: "next_blk mem \<notin> live m0 \<union> dirty m0" by blast
  show new: "next_blk mem \<notin> B" "next_blk mem \<notin> lost mem" using d(2,3) by blast+
  from new have "next_blk mem \<notin> D" using d(5) by blast
  with old new show "next_blk mem \<notin> live mem" "next_blk mem \<notin> dirty mem"
    using d(6,7) by blast+
qed

lemma dec_invI:
  assumes "next_blk m0 \<le> next_blk mem" "\<And>b. b \<in> B \<union> lost mem \<Longrightarrow> next_blk m0 \<le> b \<and> b < next_blk mem"
    "B \<inter> lost mem = {}" "D \<subseteq> B" "live mem = live m0 \<union> B \<union> lost mem"
    "dirty mem \<subseteq> dirty m0 \<union> D \<union> lost mem" "dirty mem \<subseteq> locked mem" "pages mem = pages m0"
    "locked_pages m0 \<subseteq> locked_pages mem" "exposed mem = exposed m0" "bared mem = bared m0"
  shows "dec_inv m0 mem B D"
  using assms unfolding dec_inv_def by blast

lemma dec_inv_skip_block:
  assumes "dec_inv m0 mem B D"
  shows "dec_inv m0 (mem\<lparr>next_blk := Suc (next_blk mem)\<rparr>) B D"
proof -
  note d = dec_invD [OF assms]
  show ?thesis
  proof (rule dec_invI)
    show "next_blk m0 \<le> b \<and> b < next_blk (mem\<lparr>next_blk := Suc (next_blk mem)\<rparr>)"
      if "b \<in> B \<union> lost (mem\<lparr>next_blk := Suc (next_blk mem)\<rparr>)" for b
      using that d(2) [of b] d(3) [of b] by auto
  qed (use d in simp_all)
qed

lemma dec_inv_new_block:
  assumes "dec_inv m0 mem B D" "fresh_from m0"
  shows "dec_inv m0 (mem\<lparr>next_blk := Suc (next_blk mem), live := insert (next_blk mem) (live mem)\<rparr>) (insert (next_blk mem) B) D"
    (is "dec_inv m0 ?m ?B D")
proof -
  note d = dec_invD [OF assms(1)] and fr = dec_inv_fresh [OF assms]
  show ?thesis
  proof (rule dec_invI)
    show "next_blk m0 \<le> b \<and> b < next_blk ?m" if "b \<in> ?B \<union> lost ?m" for b
      using that d(1) d(2) [of b] d(3) [of b] by auto
    show "D \<subseteq> ?B" using d(5) by blast
    show "?B \<inter> lost ?m = {}" using d(4) fr(4) by simp
  qed (use d in simp_all)
qed

lemma dec_inv_lose:
  assumes "dec_inv m0 mem (insert b B) D" "b \<notin> B"
  shows "dec_inv m0 (mem\<lparr>lost := insert b (lost mem)\<rparr>) B (D - {b})" (is "dec_inv m0 ?m B ?D")
proof -
  note d = dec_invD [OF assms(1)]
  show ?thesis
  proof (rule dec_invI)
    show "next_blk m0 \<le> x \<and> x < next_blk ?m" if "x \<in> B \<union> lost ?m" for x
      using that d(2) [of x] d(3) [of x] by auto
    show "B \<inter> lost ?m = {}" using d(4) assms(2) by auto
    show "?D \<subseteq> B" using d(5) by blast
    show "dirty ?m \<subseteq> dirty m0 \<union> ?D \<union> lost ?m" using d(7) by auto
  qed (use d in simp_all)
qed

lemma dec_inv_lock_write:
  assumes "dec_inv m0 mem (insert b B) D"
  shows "dec_inv m0 (mem\<lparr>locked_pages := locked_pages mem \<union> pages mem b, dirty := insert b (dirty mem)\<rparr>) (insert b B) (insert b D)"
    (is "dec_inv m0 ?m ?B ?D")
proof -
  note d = dec_invD [OF assms(1)]
  show ?thesis
  proof (rule dec_invI)
    show "next_blk m0 \<le> x \<and> x < next_blk ?m" if "x \<in> ?B \<union> lost ?m" for x
      using that d(2) [of x] d(3) [of x] by auto
    show "?D \<subseteq> ?B" using d(5) by blast
    show "dirty ?m \<subseteq> dirty m0 \<union> ?D \<union> lost ?m" using d(7) by auto
    show "dirty ?m \<subseteq> locked ?m" using d(8) by (auto simp: locked_def)
    show "locked_pages m0 \<subseteq> locked_pages ?m" using d(10) by auto
  qed (use d in simp_all)
qed

lemma read_alloc_inv:
  assumes "dec_inv m0 mem B D" "fresh_from m0" "cbor_read_bytes_alloc env mem buf pos = (mem', r)"
  shows "case r of
      Inl e \<Rightarrow> dec_inv m0 mem' B D
    | Inr (n, b, bs) \<Rightarrow> b = next_blk mem \<and> dec_inv m0 mem' (insert b B) (insert b D)"
proof (cases "cbor_bytes_at buf pos KS_DER_MAX")
  case (Inl e)
  with assms(1,3) show ?thesis by (auto simp: cbor_read_bytes_alloc_def)
next
  case (Inr y)
  obtain n bs where y: "y = (n, bs)" by (cases y)
  let ?b = "next_blk mem"
  note fr = dec_inv_fresh [OF assms(1,2)]
  have f: "mem_free (mem\<lparr>next_blk := Suc ?b, live := insert ?b (live mem)\<rparr>) ?b = mem\<lparr>next_blk := Suc ?b\<rparr>"
    using fr by (simp add: mem_free_def)
  consider "\<not> malloc_ok env ?b (length bs)" | "malloc_ok env ?b (length bs)" "\<not> mlock_ok env ?b (length bs)"
    | "malloc_ok env ?b (length bs)" "mlock_ok env ?b (length bs)" by blast
  then show ?thesis
  proof cases
    case 1
    with assms(3) Inr y have "mem' = mem\<lparr>next_blk := Suc ?b\<rparr> \<and> r = Inl KS_ERR_NOMEM"
      by (simp add: cbor_read_bytes_alloc_def mem_malloc_def Let_def)
    with dec_inv_skip_block [OF assms(1)] show ?thesis by simp
  next
    case 2
    with assms(3) Inr y f have "mem' = mem\<lparr>next_blk := Suc ?b\<rparr> \<and> r = Inl KS_ERR_MLOCK"
      by (simp add: cbor_read_bytes_alloc_def mem_malloc_def mem_mlock_def Let_def)
    with dec_inv_skip_block [OF assms(1)] show ?thesis by simp
  next
    case 3
    let ?m = "mem\<lparr>next_blk := Suc ?b, live := insert ?b (live mem)\<rparr>"
    from 3 assms(3) Inr y have "mem' = ?m\<lparr>locked_pages := locked_pages ?m \<union> pages ?m ?b, dirty := insert ?b (dirty ?m)\<rparr> \<and> r = Inr (n, ?b, bs)"
      by (simp add: cbor_read_bytes_alloc_def mem_malloc_def mem_mlock_def mem_write_def Let_def locked_def)
    with dec_inv_lock_write [OF dec_inv_new_block [OF assms(1,2)]] show ?thesis by simp
  qed
qed

text \<open>The invariant while one entry is being read; \<open>B\<close> and \<open>D\<close> are the blocks of the entries before it.\<close>

definition pair_inv :: "ks_mem \<Rightarrow> nat set \<Rightarrow> nat set \<Rightarrow> dec_state \<Rightarrow> bool" where
  "pair_inv m0 B D st \<longleftrightarrow>
     dec_inv m0 (ds_mem st) (B \<union> der_blks (ds_entry st) \<union> cert_blks (ds_entry st)) (D \<union> der_blks (ds_entry st))
     \<and> B \<inter> (der_blks (ds_entry st) \<union> cert_blks (ds_entry st)) = {} \<and> der_blks (ds_entry st) \<inter> cert_blks (ds_entry st) = {}
     \<and> D \<subseteq> B"

lemma dec_inv_lose_ptr:
  assumes "dec_inv m0 mem (B \<union> set_option (map_option fst p)) D" "B \<inter> set_option (map_option fst p) = {}"
  shows "dec_inv m0 (mem_lose mem p) B (D - set_option (map_option fst p))"
proof (cases p)
  case (Some q)
  with assms dec_inv_lose [of m0 mem "fst q" B D] show ?thesis by (cases q) (simp add: mem_lose_def)
qed (use assms in \<open>simp add: mem_lose_def\<close>)

lemma blks_set_option:
  "der_blks e = set_option (map_option fst (der_bytes e))" "cert_blks e = set_option (map_option fst (cert_bytes e))"
  by (auto simp: der_blks_def cert_blks_def split: option.splits)

lemma decode_value_other:
  assumes "decode_value env m buf pos key st = (st', r)" "cstr key \<noteq> str ''der_bytes''"
    and "\<not> (cstr key = str ''cert_bytes'' \<and> is_ok (cbor_bytes_at buf pos KS_CERT_MAX))"
  shows "ds_mem st' = ds_mem st \<and> der_bytes (ds_entry st') = der_bytes (ds_entry st) \<and> cert_bytes (ds_entry st') = cert_bytes (ds_entry st)"
proof (cases "cstr key = str ''cert_bytes''")
  case True
  then obtain e where "cbor_bytes_at buf pos KS_CERT_MAX = Inl e" using assms(3) by (cases "cbor_bytes_at buf pos KS_CERT_MAX") auto
  with True assms(1) show ?thesis by (simp add: decode_value_def)
next
  case False
  consider "cstr key = str ''id''" | "cstr key = str ''label''" | "cstr key = str ''key_type''"
    | "cstr key \<noteq> str ''id''" "cstr key \<noteq> str ''label''" "cstr key \<noteq> str ''key_type''" by blast
  then show ?thesis
  proof cases
    case 1
    with assms(1) show ?thesis by (auto simp: decode_value_def split: sum.splits)
  next
    case 2
    with assms(1) show ?thesis by (auto simp: decode_value_def split: sum.splits)
  next
    case 3
    with assms(1) show ?thesis by (auto simp: decode_value_def split: sum.splits if_splits)
  next
    case 4
    with assms(1,2) False show ?thesis by (auto simp: decode_value_def split: sum.splits)
  qed
qed

lemma decode_value_inv:
  assumes "pair_inv m0 B D st" "fresh_from m0" "decode_value env m buf pos key st = (st', r)"
  shows "pair_inv m0 B D st'"
proof -
  let ?e = "ds_entry st" and ?mem = "ds_mem st"
  let ?d = "der_blks ?e" and ?c = "cert_blks ?e"
  from assms(1) have inv: "dec_inv m0 ?mem (B \<union> ?d \<union> ?c) (D \<union> ?d)"
    and dj: "B \<inter> (?d \<union> ?c) = {}" "?d \<inter> ?c = {}" "D \<subseteq> B" by (auto simp: pair_inv_def)
  note fr = dec_inv_fresh [OF inv assms(2)]
  have der: "pair_inv m0 B D st'" if a: "cbor_read_bytes_alloc env ?mem buf pos = (mem', x)"
     and s: "(case x of Inl e \<Rightarrow> st\<lparr>ds_mem := mem'\<rparr>
        | Inr (n, b, bs) \<Rightarrow> st\<lparr>ds_mem := mem_lose mem' (der_bytes ?e), ds_entry := ?e\<lparr>der_bytes := Some (b, bs)\<rparr>, has_der := True\<rparr>) = st'"
    for mem' x
  proof (cases x)
    case (Inl e)
    with read_alloc_inv [OF inv assms(2) a] s dj show ?thesis
      by (auto simp: pair_inv_def)
  next
    case (Inr y)
    obtain n b bs where y: "y = (n, b, bs)" by (metis prod_cases3)
    from read_alloc_inv [OF inv assms(2) a] Inr y have b: "b = next_blk ?mem"
      and i: "dec_inv m0 mem' (insert b (B \<union> ?d \<union> ?c)) (insert b (D \<union> ?d))" by auto
    have e: "insert b (B \<union> ?d \<union> ?c) = (insert b (B \<union> ?c)) \<union> ?d" by auto
    have "insert b (B \<union> ?c) \<inter> ?d = {}" using dj fr b by auto
    with i have "dec_inv m0 (mem_lose mem' (der_bytes ?e)) (insert b (B \<union> ?c)) (insert b (D \<union> ?d) - ?d)"
      unfolding e using dec_inv_lose_ptr by (metis blks_set_option(1))
    moreover have "insert b (D \<union> ?d) - ?d = insert b D" using dj fr b by auto
    ultimately show ?thesis using s Inr y dj fr b
      by (auto simp: pair_inv_def der_blks_def [of "_\<lparr>der_bytes := _\<rparr>"] cert_blks_def [of "_\<lparr>der_bytes := _\<rparr>"] cert_blks_def [of ?e, symmetric])
  qed
  have cert: "pair_inv m0 B D st'" if a: "mem_malloc env ?mem (length bs) = (mem', x)"
     and s: "st\<lparr>ds_mem := mem_lose mem' (cert_bytes ?e), ds_entry := ?e\<lparr>cert_bytes := map_option (\<lambda>b. (b, bs)) x\<rparr>\<rparr> = st'"
    for mem' x bs
  proof (cases x)
    case None
    then have "mem' = ?mem\<lparr>next_blk := Suc (next_blk ?mem)\<rparr>" using a by (simp add: mem_malloc_def Let_def split: if_splits)
    with dec_inv_skip_block [OF inv] have i: "dec_inv m0 mem' (B \<union> ?d \<union> ?c) (D \<union> ?d)" by simp
    have "(B \<union> ?d) \<inter> ?c = {}" using dj by auto
    with i have "dec_inv m0 (mem_lose mem' (cert_bytes ?e)) (B \<union> ?d) (D \<union> ?d - ?c)"
      using dec_inv_lose_ptr by (metis blks_set_option(2))
    moreover have "D \<union> ?d - ?c = D \<union> ?d" using dj by auto
    ultimately show ?thesis using s None dj
      by (auto simp: pair_inv_def cert_blks_def [of "_\<lparr>cert_bytes := _\<rparr>"] der_blks_def [of "_\<lparr>cert_bytes := _\<rparr>"] der_blks_def [of ?e, symmetric])
  next
    case (Some b)
    then have b: "b = next_blk ?mem" and m: "mem' = ?mem\<lparr>next_blk := Suc (next_blk ?mem), live := insert (next_blk ?mem) (live ?mem)\<rparr>"
      using a by (auto simp: mem_malloc_def Let_def split: if_splits)
    have e: "insert b (B \<union> ?d \<union> ?c) = insert b (B \<union> ?d) \<union> ?c" by auto
    have i: "dec_inv m0 mem' (insert b (B \<union> ?d) \<union> ?c) (D \<union> ?d)"
      using dec_inv_new_block [OF inv assms(2)] m b e by simp
    have "insert b (B \<union> ?d) \<inter> ?c = {}" using dj fr b by auto
    with i have "dec_inv m0 (mem_lose mem' (cert_bytes ?e)) (insert b (B \<union> ?d)) (D \<union> ?d - ?c)"
      using dec_inv_lose_ptr by (metis blks_set_option(2))
    moreover have "D \<union> ?d - ?c = D \<union> ?d" using dj by auto
    ultimately show ?thesis using s Some dj fr b
      by (auto simp: pair_inv_def cert_blks_def [of "_\<lparr>cert_bytes := _\<rparr>"] der_blks_def [of "_\<lparr>cert_bytes := _\<rparr>"] der_blks_def [of ?e, symmetric])
  qed
  have same: "pair_inv m0 B D st'" if "ds_mem st' = ?mem" "der_bytes (ds_entry st') = der_bytes ?e" "cert_bytes (ds_entry st') = cert_bytes ?e"
    using assms(1) that by (simp add: pair_inv_def blks_set_option)
  show ?thesis
  proof (cases "cstr key = str ''der_bytes''")
    case True
    obtain mem' x where a: "cbor_read_bytes_alloc env ?mem buf pos = (mem', x)" by (metis surj_pair)
    have "(case x of Inl e \<Rightarrow> st\<lparr>ds_mem := mem'\<rparr>
        | Inr (n, b, bs) \<Rightarrow> st\<lparr>ds_mem := mem_lose mem' (der_bytes ?e), ds_entry := ?e\<lparr>der_bytes := Some (b, bs)\<rparr>, has_der := True\<rparr>) = st'"
      using assms(3) a True by (auto simp: decode_value_def split: sum.splits prod.splits)
    with a show ?thesis by (rule der)
  next
    case False
    note nd = this
    show ?thesis
    proof (cases "cstr key = str ''cert_bytes'' \<and> is_ok (cbor_bytes_at buf pos KS_CERT_MAX)")
      case True
      then obtain n bs where y: "cbor_bytes_at buf pos KS_CERT_MAX = Inr (n, bs)" by fastforce
      obtain mem' x where a: "mem_malloc env ?mem (length bs) = (mem', x)" by (metis surj_pair)
      have "st\<lparr>ds_mem := mem_lose mem' (cert_bytes ?e), ds_entry := ?e\<lparr>cert_bytes := map_option (\<lambda>b. (b, bs)) x\<rparr>\<rparr> = st'"
        using assms(3) True y a by (auto simp: decode_value_def split: option.splits)
      with a show ?thesis by (rule cert)
    next
      case False
      with decode_value_other [OF assms(3) nd] show ?thesis by (intro same) simp_all
    qed
  qed
qed

lemma decode_pairs_inv:
  assumes "pair_inv m0 B D st" "fresh_from m0" "decode_pairs env m buf n pos st = (st', r)"
  shows "pair_inv m0 B D st'"
  using assms(1,3)
proof (induction env m buf n pos st rule: decode_pairs.induct)
  case (1 env m buf pos st)
  then show ?case by simp
next
  case (2 env m buf n pos st)
  show ?case
  proof (cases "cbor_read_text buf pos 32")
    case (Inl e)
    with "2.prems" show ?thesis by simp
  next
    case (Inr y)
    obtain k key where y: "y = (k, key)" by (cases y)
    obtain st1 r1 where d: "decode_value env m buf (pos + k) key st = (st1, r1)" by (metis surj_pair)
    have i: "pair_inv m0 B D st1" by (rule decode_value_inv [OF "2.prems"(1) assms(2) d])
    show ?thesis
    proof (cases r1)
      case (Inl e)
      with "2.prems"(2) Inr y d i show ?thesis by simp
    next
      case (Inr v)
      with "2.prems"(2) \<open>cbor_read_text buf pos 32 = Inr y\<close> y d have "decode_pairs env m buf n (pos + k + v) st1 = (st', r)" by simp
      with "2.IH" [OF \<open>cbor_read_text buf pos 32 = Inr y\<close> y [symmetric] d [symmetric] Inr i] show ?thesis
        by simp
    qed
  qed
qed

definition all_blks :: "wp11_key_entry list \<Rightarrow> nat set" where
  "all_blks es = (\<Union>e \<in> set es. der_blks e \<union> cert_blks e)"

definition all_der_blks :: "wp11_key_entry list \<Rightarrow> nat set" where
  "all_der_blks es = (\<Union>e \<in> set es. der_blks e)"

lemma decode_entries_inv:
  assumes "dec_inv m0 mem B D" "D \<subseteq> B" "fresh_from m0" "decode_entries env m buf n pos mem = (mem', es, r)"
  shows "dec_inv m0 mem' (B \<union> all_blks es) (D \<union> all_der_blks es)"
  using assms(1,2,4)
proof (induction n arbitrary: pos mem mem' es r B D)
  case 0
  then show ?case by (simp add: all_blks_def all_der_blks_def)
next
  case (Suc n)
  have start: "pair_inv m0 B D (dec_init mem)"
    using Suc.prems(1,2) by (simp add: pair_inv_def dec_init_def zero_entry_def der_blks_def cert_blks_def)
  show ?case
  proof (cases "\<exists>k npairs. cbor_read_head buf pos = Inr (k, CBOR_MAJOR_MAP, npairs)")
    case False
    with Suc.prems show ?thesis
      by (auto simp: all_blks_def all_der_blks_def split: sum.splits prod.splits if_splits)
  next
    case True
    then obtain k npairs where h: "cbor_read_head buf pos = Inr (k, CBOR_MAJOR_MAP, npairs)" by blast
    obtain st r1 where p: "decode_pairs env m buf npairs (pos + k) (dec_init mem) = (st, r1)" by (metis surj_pair)
    have pi: "pair_inv m0 B D st" by (rule decode_pairs_inv [OF start assms(3) p])
    let ?e = "ds_entry st"
    show ?thesis
    proof (cases "\<exists>pos'. r1 = Inr pos' \<and> has_id st \<and> has_label st \<and> has_key_type st \<and> has_der st")
      case False
      with Suc.prems(3) h p have "mem' = ds_mem st" "es = [?e]" by (auto split: sum.splits if_splits)
      with pi show ?thesis by (simp add: pair_inv_def all_blks_def all_der_blks_def Un_assoc)
    next
      case True
      then obtain pos' where r1: "r1 = Inr pos'" and hs: "has_id st" "has_label st" "has_key_type st" "has_der st" by blast
      obtain mem2 es2 r2 where d: "decode_entries env m buf n pos' (ds_mem st) = (mem2, es2, r2)" by (metis prod_cases3)
      have o: "mem' = mem2" "es = ?e # es2" using Suc.prems(3) h p r1 hs d by auto
      have "dec_inv m0 (ds_mem st) (B \<union> (der_blks ?e \<union> cert_blks ?e)) (D \<union> der_blks ?e)"
        using pi by (simp add: pair_inv_def Un_assoc)
      from Suc.IH [OF this _ d] pi have "dec_inv m0 mem2 (B \<union> (der_blks ?e \<union> cert_blks ?e) \<union> all_blks es2) (D \<union> der_blks ?e \<union> all_der_blks es2)"
        by (auto simp: pair_inv_def)
      then show ?thesis unfolding o by (simp add: all_blks_def all_der_blks_def Un_assoc)
    qed
  qed
qed

lemma decode_payload_inv:
  assumes "fresh_from m0" "lost m0 = {}" "dirty m0 \<subseteq> locked m0" "decode_cbor_payload env m plain m0 = (mem', es, r)"
  shows "dec_inv m0 mem' (all_blks es) (all_der_blks es)"
proof -
  have i: "dec_inv m0 m0 {} {}" using assms(2,3) by (intro dec_invI) auto
  have e: "dec_inv m0 mem' (all_blks es) (all_der_blks es)" if "decode_entries env m plain n pos m0 = (mem', es, r')" for n pos r'
    using decode_entries_inv [OF i _ assms(1) that] by simp
  have "all_blks [] = {}" "all_der_blks [] = {}" by (simp_all add: all_blks_def all_der_blks_def)
  with assms(4) i e show ?thesis
    by (auto simp: decode_cbor_payload_def split: sum.splits prod.splits if_splits)
qed

section \<open>What a successful decoding has accepted\<close>

definition part_ok :: "dec_state \<Rightarrow> bool" where
  "part_ok st \<longleftrightarrow> length (key_id (ds_entry st)) = 16 \<and> length (label (ds_entry st)) \<le> KS_LABEL_MAX
     \<and> (key_type (ds_entry st) = KEY_TYPE_RSA \<or> key_type (ds_entry st) = KEY_TYPE_EC)
     \<and> (case der_bytes (ds_entry st) of None \<Rightarrow> \<not> has_der st | Some (b, d) \<Rightarrow> length d \<le> KS_DER_MAX)
     \<and> (case cert_bytes (ds_entry st) of None \<Rightarrow> True | Some (b, c) \<Rightarrow> length c \<le> KS_CERT_MAX)"

lemma part_ok_setters:
  assumes "part_ok st"
  shows "length v = 16 \<Longrightarrow> part_ok (st\<lparr>ds_entry := (ds_entry st)\<lparr>key_id := v\<rparr>, has_id := True\<rparr>)"
    "length v \<le> KS_LABEL_MAX \<Longrightarrow> part_ok (st\<lparr>ds_entry := (ds_entry st)\<lparr>label := v\<rparr>, has_label := True\<rparr>)"
    "t = KEY_TYPE_RSA \<or> t = KEY_TYPE_EC \<Longrightarrow> part_ok (st\<lparr>ds_entry := (ds_entry st)\<lparr>key_type := t\<rparr>, has_key_type := True\<rparr>)"
    "length v \<le> KS_DER_MAX \<Longrightarrow> part_ok (st\<lparr>ds_mem := mem, ds_entry := (ds_entry st)\<lparr>der_bytes := Some (b, v)\<rparr>, has_der := True\<rparr>)"
    "length v \<le> KS_CERT_MAX \<Longrightarrow> part_ok (st\<lparr>ds_mem := mem, ds_entry := (ds_entry st)\<lparr>cert_bytes := Some (b, v)\<rparr>\<rparr>)"
  using assms by (auto simp: part_ok_def split: option.splits)

lemma read_alloc_len:
  "cbor_read_bytes_alloc env mem buf pos = (mem', Inr (n, b, bs)) \<Longrightarrow> length bs \<le> KS_DER_MAX"
  by (auto simp: cbor_read_bytes_alloc_def dest: cbor_reader_bounds(3) split: sum.splits prod.splits option.splits bool.splits)

lemma decode_value_part_ok:
  assumes "decode_value env m buf pos key st = (st', Inr n)" "part_ok st"
  shows "part_ok st'"
proof -
  note ok = part_ok_setters [OF assms(2)]
  consider "cstr key = str ''id''" | "cstr key = str ''label''" | "cstr key = str ''key_type''"
    | "cstr key = str ''der_bytes''" | "cstr key = str ''cert_bytes''"
    | "cstr key \<noteq> str ''id''" "cstr key \<noteq> str ''label''" "cstr key \<noteq> str ''key_type''"
      "cstr key \<noteq> str ''der_bytes''" "cstr key \<noteq> str ''cert_bytes''" by blast
  then show ?thesis
  proof cases
    case 1
    with assms(1) obtain v where "length v = 16" "st' = st\<lparr>ds_entry := (ds_entry st)\<lparr>key_id := v\<rparr>, has_id := True\<rparr>"
      by (auto simp: decode_value_def dest: cbor_reader_bounds(2) split: sum.splits)
    with ok(1) show ?thesis by simp
  next
    case 2
    with assms(1) obtain v where "length v \<le> KS_LABEL_MAX" "st' = st\<lparr>ds_entry := (ds_entry st)\<lparr>label := v\<rparr>, has_label := True\<rparr>"
      by (auto simp: decode_value_def less_Suc_eq_le dest!: cbor_reader_bounds(1) split: sum.splits)
    with ok(2) show ?thesis by simp
  next
    case 3
    with assms(1) obtain t where "t = KEY_TYPE_RSA \<or> t = KEY_TYPE_EC" "st' = st\<lparr>ds_entry := (ds_entry st)\<lparr>key_type := t\<rparr>, has_key_type := True\<rparr>"
      by (auto simp: decode_value_def split: sum.splits if_splits)
    with ok(3) show ?thesis by blast
  next
    case 4
    with assms(1) obtain mem b v where "length v \<le> KS_DER_MAX"
      "st' = st\<lparr>ds_mem := mem, ds_entry := (ds_entry st)\<lparr>der_bytes := Some (b, v)\<rparr>, has_der := True\<rparr>"
      by (auto simp: decode_value_def dest!: read_alloc_len split: sum.splits prod.splits)
    with ok(4) show ?thesis by simp
  next
    case 5
    with assms(1) obtain mem b v where "length v \<le> KS_CERT_MAX"
      "st' = st\<lparr>ds_mem := mem, ds_entry := (ds_entry st)\<lparr>cert_bytes := Some (b, v)\<rparr>\<rparr>"
      by (auto simp: decode_value_def dest!: cbor_reader_bounds(3) split: sum.splits prod.splits option.splits)
    with ok(5) show ?thesis by simp
  next
    case 6
    with assms show ?thesis by (auto simp: decode_value_def split: sum.splits)
  qed
qed

lemma decode_pairs_part_ok:
  assumes "decode_pairs env m buf n pos st = (st', Inr p)" "part_ok st"
  shows "part_ok st'"
  using assms
  by (induction env m buf n pos st rule: decode_pairs.induct)
    (fastforce dest: decode_value_part_ok split: sum.splits prod.splits)+

lemma part_ok_entry_ok: "part_ok st \<Longrightarrow> has_der st \<Longrightarrow> entry_ok (ds_entry st)"
  using length_cstr_le [of "label (ds_entry st)"]
  by (auto simp: part_ok_def entry_ok_def split: option.splits)

lemma decode_entries_ok:
  "decode_entries env m buf n pos mem = (mem', es, Inr u) \<Longrightarrow> length es = n \<and> (\<forall>e \<in> set es. entry_ok e)"
proof (induction n arbitrary: pos mem es mem')
  case 0
  then show ?case by simp
next
  case (Suc n)
  from Suc.prems obtain k npairs st pos' es2
    where p: "decode_pairs env m buf npairs (pos + k) (dec_init mem) = (st, Inr pos')" and h: "has_der st"
      and r: "decode_entries env m buf n pos' (ds_mem st) = (mem', es2, Inr u)" and es: "es = ds_entry st # es2"
    by (auto split: sum.splits prod.splits if_splits)
  have "part_ok (dec_init mem)" by (simp add: part_ok_def dec_init_def zero_entry_def KEY_TYPE_RSA_def)
  with decode_pairs_part_ok [OF p] part_ok_entry_ok h Suc.IH [OF r] es show ?case by auto
qed

section \<open>Properties\<close>

text \<open>C28. The payload round-trips: for at most 64 entries that respect the field limits, encoding
  into the buffer size the creator computes always succeeds, and decoding the bytes (with
  memory available) yields entries with the same ids, labels, key types, private keys and
  optional certificates, in order.\<close>
theorem payload_roundtrip:
  assumes "\<forall>k \<in> set keys. entry_ok k" "length keys \<le> 64" "malloc_ok env = (\<lambda>b n. True)" "mlock_ok env = (\<lambda>b n. True)"
  shows "\<exists>bs mem' es. encode_cbor_payload (5 + length keys * (4300 + 4096 + 16)) keys = Inr bs
     \<and> decode_cbor_payload env m bs mem = (mem', es, Inr (length keys))
     \<and> map entry_view es = map entry_view keys"
proof -
  have "encode_cbor_payload (5 + length keys * (4300 + 4096 + 16)) keys = Inr (payload_bytes keys)"
    using encode_payload_eq [OF assms(1)] assms(2) length_payload_bytes [OF assms(1)] by (simp add: KS_MAX_ENTRIES_def)
  moreover have "\<exists>mem' es. decode_cbor_payload env m (payload_bytes keys @ []) mem = (mem', es, Inr (length keys))
     \<and> map entry_view es = map entry_view keys \<and> lost mem' = lost mem"
    using assms by (intro decode_payload_enc) (simp_all add: mem_plenty_def KS_MAX_ENTRIES_def)
  ultimately show ?thesis by auto
qed

definition sample_entry :: wp11_key_entry where
  "sample_entry = \<lparr>key_id = replicate 16 7, label = [0x6B, 0x31], key_type = 1, der_bytes = Some (0, [0x30, 0x01]), cert_bytes = None\<rparr>"

definition sample_env :: mem_env where
  "sample_env = \<lparr>malloc_ok = (\<lambda>b n. True), mlock_ok = (\<lambda>b n. True)\<rparr>"

definition mem0 :: ks_mem where
  "mem0 = \<lparr>next_blk = 0, live = {}, pages = (\<lambda>b. {b}), locked_pages = {}, dirty = {}, exposed = {}, bared = {}, lost = {}\<rparr>"

lemma sample_entry_ok: "entry_ok sample_entry"
  by (simp add: entry_ok_def sample_entry_def KEY_TYPE_EC_def KS_LABEL_MAX_def KS_DER_MAX_def cstr_def)

theorem payload_roundtrip_witness:
  "\<exists>bs mem' es. encode_cbor_payload (5 + 2 * (4300 + 4096 + 16)) [sample_entry, sample_entry] = Inr bs
     \<and> decode_cbor_payload sample_env (2 ^ 64) bs mem0 = (mem', es, Inr 2)
     \<and> map entry_view es = map entry_view [sample_entry, sample_entry]"
  using payload_roundtrip [of "[sample_entry, sample_entry]" sample_env "2 ^ 64" mem0]
  by (simp add: sample_env_def sample_entry_ok numeral_2_eq_2)

lemma decode_only_valid:
  assumes "decode_cbor_payload env m plain mem = (mem', es, Inr n)"
  shows "n \<le> 64 \<and> length es = n \<and> (\<forall>e \<in> set es. entry_ok e)"
proof -
  obtain k major c where h: "cbor_read_head plain 0 = Inr (k, major, c)"
    using assms by (auto simp: decode_cbor_payload_def split: sum.splits)
  then have g: "major = CBOR_MAJOR_ARRAY" "c \<le> 64"
    using assms by (simp_all add: decode_cbor_payload_def KS_MAX_ENTRIES_def split: if_splits)
  obtain mem2 es2 r where d: "decode_entries env m plain c k mem = (mem2, es2, r)" by (metis prod_cases3)
  then obtain u where "r = Inr u" "es = es2" "n = c"
    using assms h g by (cases r) (simp_all add: decode_cbor_payload_def KS_MAX_ENTRIES_def)
  with decode_entries_ok d g(2) show ?thesis by blast
qed

text \<open>C30. Decoding untrusted bytes yields only well-formed keys: if the decoder accepts a payload,
  whatever it holds, it reports at most 64 entries, as many as it filled, and every one has a 16-byte
  id, a label of at most 64 bytes, a known key type, a private key of at most 4096 bytes
  and a certificate, if any, of at most 4096.\<close>
theorem decode_accepts_only_valid:
  assumes "decode_cbor_payload env m plain mem = (mem', es, Inr n)"
  shows "n \<le> 64 \<and> length es = n \<and> (\<forall>e \<in> set es. entry_ok e)"
  using assms by (rule decode_only_valid)

theorem decode_accepts_only_valid_witness:
  "\<exists>mem' es. decode_cbor_payload sample_env (2 ^ 64) (payload_bytes [sample_entry]) mem0 = (mem', es, Inr 1)
     \<and> (\<forall>e \<in> set es. entry_ok e)"
proof -
  have "mem_plenty sample_env" by (simp add: mem_plenty_def sample_env_def)
  from decode_payload_enc [OF this, of "[sample_entry]" "2 ^ 64" "[]" mem0]
  obtain mem' es where "decode_cbor_payload sample_env (2 ^ 64) (payload_bytes [sample_entry]) mem0 = (mem', es, Inr 1)"
    by (auto simp: sample_entry_ok KS_MAX_ENTRIES_def)
  with decode_accepts_only_valid [OF this] show ?thesis by blast
qed

text \<open>C29. Decoding keeps secrets in locked memory and loses none of them without duplicate keys: from a state
  in which unwiped key material is locked, any payload, accepted or not, leaves it so and exposes nothing; the blocks it
  added are exactly those the touched entries point to and those whose pointer a repeated
  map key overwrote.\<close>
theorem decode_memory_discipline:
  assumes "decode_cbor_payload env m plain m0 = (mem', es, r)" "fresh_from m0" "lost m0 = {}" "dirty m0 \<subseteq> locked m0"
  shows "dirty mem' \<subseteq> locked mem' \<and> exposed mem' = exposed m0 \<and> bared mem' = bared m0
     \<and> live mem' = live m0 \<union> all_blks es \<union> lost mem'
     \<and> dirty mem' \<subseteq> dirty m0 \<union> all_der_blks es \<union> lost mem' \<and> all_blks es \<inter> lost mem' = {}"
  using dec_invD [OF decode_payload_inv [OF assms(2-4,1)]] by blast

theorem decode_memory_discipline_witness:
  "\<exists>mem' es r. decode_cbor_payload sample_env (2 ^ 64) [0x81, 0xA0] mem0 = (mem', es, r) \<and> dirty mem' \<subseteq> locked mem' \<and> exposed mem' = {}"
proof -
  obtain mem' es r where d: "decode_cbor_payload sample_env (2 ^ 64) [0x81, 0xA0] mem0 = (mem', es, r)" by (metis prod_cases3)
  from decode_memory_discipline [OF d] d show ?thesis by (auto simp: mem0_def fresh_from_def)
qed

text \<open>Creating does not check what loading requires: a private key of more than 4096 bytes that fits
  the creator's buffer is encoded without complaint, but the decoder rejects the payload, whatever memory
  is available, so the keystore written from it can never be loaded again.\<close>
theorem oversized_key_never_loads:
  assumes "entry_ok (k\<lparr>der_bytes := Some (b, [])\<rparr>)" "cert_bytes k = None" "der_bytes k = Some (b, d)"
    and "4096 < length d" "length d \<le> 8000"
  shows "\<exists>bs. encode_cbor_payload (5 + 1 * (4300 + 4096 + 16)) [k] = Inr bs
     \<and> snd (snd (decode_cbor_payload env m bs mem)) = Inl KS_ERR_CBOR"
proof -
  have i: "length (key_id k) = 16" "length (cstr (label k)) \<le> 64" "key_type k = KEY_TYPE_RSA \<or> key_type k = KEY_TYPE_EC"
    using assms(1) by (auto simp: entry_ok_def KS_LABEL_MAX_def)
  have ee: "entry_enc k" using i assms(2,3,5) by (auto simp: entry_enc_def KS_LABEL_MAX_def)
  define ps where "ps = [(str ''id'', cbor_str CBOR_MAJOR_BYTES (key_id k)), (str ''label'', cbor_str CBOR_MAJOR_TEXT (cstr (label k))),
      (str ''key_type'', cbor_head CBOR_MAJOR_UINT (nat (key_type k)))]"
  define pre where "pre = cbor_head CBOR_MAJOR_ARRAY 1 @ cbor_head CBOR_MAJOR_MAP 4"
  define fs where "fs = [set_id (key_id k), set_label (cstr (label k)), set_type (key_type k)]"
  define dn where "dn = cbor_str CBOR_MAJOR_TEXT (str ''der_bytes'')"
  define dv where "dv = cbor_str CBOR_MAJOR_BYTES d"
  have pb: "payload_bytes [k] = pre @ pairs_bytes ps @ dn @ dv"
    using assms(2,3) by (simp add: payload_bytes_def entry_bytes_eq entry_pairs_def pairs_bytes_def ps_def pre_def dn_def dv_def)
  note l = length_cbor_str length_cbor_head_bounds(2)
  have "length (payload_bytes [k]) \<le> 8417"
    using i(1,2) assms(5) l(1) [of 2 "key_id k"] l(1) [of 3 "cstr (label k)"] l(1) [of 2 d] l(2) [of 0 "nat (key_type k)"] l(2) [of 5 4] l(2) [of 4 1]
      l(1) [of 3 "str ''id''"] l(1) [of 3 "str ''label''"] l(1) [of 3 "str ''key_type''"] l(1) [of 3 "str ''der_bytes''"]
    by (simp add: pb ps_def pre_def dn_def dv_def pairs_bytes_def cbor_consts)
  then have e: "encode_cbor_payload (5 + 1 * (4300 + 4096 + 16)) [k] = Inr (payload_bytes [k])"
    using encode_payload_enc [of "[k]"] ee by (simp add: KS_MAX_ENTRIES_def)
  define buf where "buf = payload_bytes [k]"
  have "list_all2 (pair_reads env m buf) ps fs"
    using i pair_reads_basic pair_reads_type by (simp add: ps_def fs_def KS_LABEL_MAX_def)
  from decode_pairs_prefix [OF this, of pre "dn @ dv" 1 "dec_init mem"] pb
  have p: "decode_pairs env m buf 4 2 (dec_init mem)
      = decode_pairs env m buf (Suc 0) (length (pre @ pairs_bytes ps)) (fold (\<lambda>f. f) fs (dec_init mem))"
    by (simp add: buf_def ps_def pre_def length_cbor_head numeral_2_eq_2 eval_nat_numeral)
  have t: "cbor_read_text buf (length (pre @ pairs_bytes ps)) 32 = Inr (length dn, str ''der_bytes'')"
    using cbor_read_text_str [of buf "pre @ pairs_bytes ps" "str ''der_bytes''" dv 32] pb by (simp add: buf_def dn_def)
  have "cbor_bytes_at buf (length (pre @ pairs_bytes ps @ dn)) KS_DER_MAX = Inl KS_ERR_CBOR"
    using cbor_bytes_at_str [of buf "pre @ pairs_bytes ps @ dn" d "[]" KS_DER_MAX] pb assms(4,5)
    by (simp add: buf_def dv_def KS_DER_MAX_def)
  then have "decode_value env m buf (length (pre @ pairs_bytes ps) + length dn) (str ''der_bytes'') st = (st, Inl KS_ERR_CBOR)" for st
    by (simp add: decode_value_def cbor_read_bytes_alloc_def add.assoc)
  with p t have "\<exists>st. decode_pairs env m buf 4 2 (dec_init mem) = (st, Inl KS_ERR_CBOR)" by simp
  moreover have "cbor_read_head buf 0 = Inr (Suc 0, CBOR_MAJOR_ARRAY, Suc 0)" "cbor_read_head buf (Suc 0) = Inr (Suc 0, CBOR_MAJOR_MAP, 4)"
    using cbor_skip_head [of buf "[]" CBOR_MAJOR_ARRAY 1 "cbor_head CBOR_MAJOR_MAP 4 @ pairs_bytes ps @ dn @ dv"]
      cbor_skip_head [of buf "cbor_head CBOR_MAJOR_ARRAY 1" CBOR_MAJOR_MAP 4 "pairs_bytes ps @ dn @ dv"] pb
    by (simp_all add: length_cbor_head buf_def pre_def cbor_consts)
  ultimately have "snd (snd (decode_cbor_payload env m buf mem)) = Inl KS_ERR_CBOR"
    by (auto simp: decode_cbor_payload_def KS_MAX_ENTRIES_def numeral_2_eq_2)
  with e show ?thesis by (simp add: buf_def)
qed

theorem oversized_key_never_loads_witness:
  "\<exists>bs. encode_cbor_payload 8417 [sample_entry\<lparr>der_bytes := Some (0, replicate 5000 0x30)\<rparr>] = Inr bs
     \<and> snd (snd (decode_cbor_payload sample_env (2 ^ 64) bs mem0)) = Inl KS_ERR_CBOR"
  using oversized_key_never_loads [where k = "sample_entry\<lparr>der_bytes := Some (0, replicate 5000 0x30)\<rparr>" and b = 0
      and d = "replicate 5000 0x30" and env = sample_env and m = "2 ^ 64" and mem = mem0]
  by (simp add: sample_entry_def entry_ok_def cstr_def KS_LABEL_MAX_def KS_DER_MAX_def KEY_TYPE_EC_def)

text \<open>A repeated \<open>der_bytes\<close> key leaks key material: for an entry that gives the private key twice, the decoder
  accepts the payload, and the block of the first key stays allocated and unwiped although no
  entry points to it.\<close>
theorem decode_duplicate_der_leaks:
  "\<exists>mem' e. decode_cbor_payload sample_env m
      (cbor_head 4 1 @ cbor_head 5 5 @ pairs_bytes
         [(str ''id'', cbor_str 2 (replicate 16 7)), (str ''label'', cbor_str 3 [0x6B]), (str ''key_type'', cbor_head 0 1),
          (str ''der_bytes'', cbor_str 2 [0x30, 0x31]), (str ''der_bytes'', cbor_str 2 [0x30, 0x32])]) mem0
        = (mem', [e], Inr 1)
     \<and> der_bytes e = Some (1, [0x30, 0x32]) \<and> 0 \<in> live mem' \<and> 0 \<in> dirty mem' \<and> 0 \<notin> all_blks [e]"
proof -
  define ps :: "(byte list \<times> byte list) list" where
    "ps = [(str ''id'', cbor_str 2 (replicate 16 7)), (str ''label'', cbor_str 3 [0x6B]), (str ''key_type'', cbor_head 0 1),
      (str ''der_bytes'', cbor_str 2 [0x30, 0x31]), (str ''der_bytes'', cbor_str 2 [0x30, 0x32])]"
  define fs where
    "fs = [set_id (replicate 16 7), set_label [0x6B], set_type 1, set_der [0x30, 0x31], set_der [0x30, 0x32]]"
  define buf where "buf = cbor_head 4 1 @ cbor_head 5 5 @ pairs_bytes ps"
  have "mem_plenty sample_env" by (simp add: mem_plenty_def sample_env_def)
  note pr = pair_reads_basic pair_reads_type pair_reads_alloc [OF this]
  have "list_all2 (pair_reads sample_env m buf) ps fs"
    using pr(1) [of "replicate 16 7" sample_env] pr(2) [of "[0x6B]" sample_env] pr(3) [of 1 sample_env] pr(4) [of "[0x30, 0x31]"] pr(4) [of "[0x30, 0x32]"]
    by (simp add: cbor_consts KEY_TYPE_EC_def KEY_TYPE_RSA_def ps_def fs_def)
  moreover have "buf = (cbor_head 4 1 @ cbor_head 5 5) @ pairs_bytes ps @ []" by (simp add: buf_def)
  ultimately have "decode_pairs sample_env m buf (length ps) (length (cbor_head 4 1 @ cbor_head 5 5)) (dec_init mem0)
     = (fold (\<lambda>f. f) fs (dec_init mem0), Inr (length (cbor_head 4 1 @ cbor_head 5 5) + length (pairs_bytes ps)))"
    by (rule decode_pairs_all)
  moreover have "length ps = 5" by (simp add: ps_def)
  moreover have "length (cbor_head 4 1 @ cbor_head 5 5) = 2" by (simp add: length_cbor_head)
  ultimately have p: "decode_pairs sample_env m buf 5 2 (dec_init mem0) = (fold (\<lambda>f. f) fs (dec_init mem0), Inr (2 + length (pairs_bytes ps)))"
    by simp
  have h1: "cbor_read_head buf 0 = Inr (1, 4, 1)"
    using cbor_skip_head [of buf "[]" 4 1 "cbor_head 5 5 @ pairs_bytes ps"] by (simp add: length_cbor_head buf_def)
  have h2: "cbor_read_head buf 1 = Inr (1, 5, 5)"
    using cbor_skip_head [of buf "cbor_head 4 1" 5 5 "pairs_bytes ps"] by (simp add: length_cbor_head buf_def)
  define st where "st = fold (\<lambda>f. f) fs (dec_init mem0)"
  have st: "has_id st" "has_label st" "has_key_type st" "has_der st" "der_bytes (ds_entry st) = Some (1, [0x30, 0x32])"
    "cert_bytes (ds_entry st) = None" "0 \<in> live (ds_mem st)" "0 \<in> dirty (ds_mem st)"
    by (simp_all add: st_def fs_def dec_setters dec_init_def zero_entry_def mem0_def mem_lose_def)
  have "decode_entries sample_env m buf (Suc 0) (Suc 0) mem0 = (ds_mem st, [ds_entry st], Inr ())"
    using p [folded st_def] st(1-4) h2 [unfolded One_nat_def] by (simp add: cbor_consts numeral_2_eq_2)
  then have "decode_cbor_payload sample_env m buf mem0 = (ds_mem st, [ds_entry st], Inr 1)"
    using h1 [unfolded One_nat_def] by (simp add: decode_cbor_payload_def cbor_consts del: decode_entries.simps)
  then show ?thesis using st(5-8) unfolding buf_def ps_def
    by (intro exI [of _ "ds_mem st"] exI [of _ "ds_entry st"]) (simp add: all_blks_def der_blks_def cert_blks_def)
qed

end
