(* ===== verification/Keystore.thy ===== *)
theory Keystore imports KeystorePayload begin

text \<open>
  The keystore file (\<open>src/wp11_keystore.c\<close>): the robust read and write loops, the header, \<open>wp11_keystore_load\<close> with its
  cleanup path, \<open>wp11_keystore_free\<close>, the accessors, \<open>wp11_keystore_create\<close> with its write to a
  temporary file and rename, and the provisioning helpers.  wolfCrypt is a parameter (\<open>crypto\<close>); the system calls
  return what a given script says, so that every short read or write, signal and failure is a
  value of the script.  The stack copy of the derived key is not a block of the memory state.
\<close>

section \<open>Parameters: wolfCrypt and the system calls\<close>

text \<open>\<open>None\<close> is a non-zero return code.\<close>

record crypto =
  pbkdf2 :: "byte list \<Rightarrow> byte list \<Rightarrow> nat \<Rightarrow> byte list option"
  gcm_setkey :: "byte list \<Rightarrow> bool"
  gcm_encrypt :: "byte list \<Rightarrow> byte list \<Rightarrow> byte list \<Rightarrow> (byte list \<times> byte list) option"
  gcm_decrypt :: "byte list \<Rightarrow> byte list \<Rightarrow> byte list \<Rightarrow> byte list \<Rightarrow> byte list option"

text \<open>
  What the code relies on: the ciphertext has the length of the plaintext, the tag 16 bytes,
  decryption with the same key and nonce restores the plaintext, and what is decrypted has the length of the ciphertext.
\<close>

definition gcm_sound :: "crypto \<Rightarrow> bool" where
  "gcm_sound cr \<longleftrightarrow>
     (\<forall>k n p c t. gcm_encrypt cr k n p = Some (c, t) \<longrightarrow>
        length c = length p \<and> length t = 16 \<and> gcm_decrypt cr k n c t = Some p)"

text \<open>Outcomes of \<open>read\<close> and \<open>write\<close>.  No data is end of file.\<close>

datatype rd_ev = RD_EINTR | RD_ERR | RD_DATA "byte list"
datatype wr_ev = WR_EINTR | WR_ERR | WR_N nat

section \<open>Loops over the system calls\<close>

text \<open>\<open>None\<close>: the call never returns (the script is exhausted).  At most the requested bytes are delivered.\<close>

fun read_all :: "rd_ev list \<Rightarrow> byte list \<Rightarrow> nat \<Rightarrow> (ks_err + byte list) option" where
  "read_all evs buf len =
     (if length buf \<ge> len then Some (Inr buf)
      else case evs of
        [] \<Rightarrow> None
      | RD_EINTR # evs' \<Rightarrow> read_all evs' buf len
      | RD_ERR # evs' \<Rightarrow> Some (Inl KS_ERR_IO)
      | RD_DATA d # evs' \<Rightarrow>
          if d = [] then Some (Inl KS_ERR_TRUNCATED)
          else read_all evs' (buf @ take (len - length buf) d) len)"

text \<open>The remaining script, the chunks written one by one, and the result.\<close>

fun write_all :: "wr_ev list \<Rightarrow> byte list \<Rightarrow> (wr_ev list \<times> byte list list \<times> (ks_err + unit)) option" where
  "write_all evs buf =
     (if buf = [] then Some (evs, [], Inr ())
      else case evs of
        [] \<Rightarrow> None
      | WR_EINTR # evs' \<Rightarrow> write_all evs' buf
      | WR_ERR # evs' \<Rightarrow> Some (evs', [], Inl KS_ERR_IO)
      | WR_N n # evs' \<Rightarrow>
          if n = 0 then Some (evs', [], Inl KS_ERR_IO)
          else (case write_all evs' (drop n buf) of
                  None \<Rightarrow> None
                | Some (evs'', cs, r) \<Rightarrow> Some (evs'', take n buf # cs, r)))"

declare read_all.simps [simp del] write_all.simps [simp del]

section \<open>The header\<close>

definition P11K_MAGIC :: "byte list" where "P11K_MAGIC = str ''P11K''"
definition P11K_VERSION :: byte where "P11K_VERSION = 1"
definition P11K_HDR_LEN :: nat where "P11K_HDR_LEN = 57"
definition P11K_TAG_LEN :: nat where "P11K_TAG_LEN = 16"
definition KS_MIN_KDF_ITER :: nat where "KS_MIN_KDF_ITER = 100000"
definition KS_KDF_ITERATIONS :: nat where "KS_KDF_ITERATIONS = 200000"
definition C_INT_MAX :: nat where "C_INT_MAX = 2147483647"
definition C_PATH_MAX :: nat where "C_PATH_MAX = 4096"

lemmas hdr_consts = P11K_MAGIC_def P11K_VERSION_def P11K_HDR_LEN_def P11K_TAG_LEN_def KS_MIN_KDF_ITER_def
  KS_KDF_ITERATIONS_def C_INT_MAX_def C_PATH_MAX_def

definition read_u32be :: "byte list \<Rightarrow> nat \<Rightarrow> nat" where
  "read_u32be buf i = be_val (bslice buf i 4)"

definition write_u32be :: "nat \<Rightarrow> byte list" where
  "write_u32be v = [byte_of (v div 16777216), byte_of (v div 65536), byte_of (v div 256), byte_of v]"

text \<open>The checks of the loaded file in the code's order: the iteration count and the ciphertext length.\<close>

definition check_header :: "byte list \<Rightarrow> ks_err + nat \<times> nat" where
  "check_header filebuf =
     (if bslice filebuf 0 4 \<noteq> P11K_MAGIC then Inl KS_ERR_BAD_MAGIC
      else if filebuf ! 4 \<noteq> P11K_VERSION then Inl KS_ERR_BAD_VERSION
      else let iter = read_u32be filebuf 37; ctlen = read_u32be filebuf 53 in
        if iter < KS_MIN_KDF_ITER then Inl KS_ERR_KDF_WEAK
        else if ctlen > KS_MAX_CT_LEN then Inl KS_ERR_CBOR
        else if length filebuf < P11K_HDR_LEN + ctlen + P11K_TAG_LEN then Inl KS_ERR_TRUNCATED
        else if iter > C_INT_MAX then Inl KS_ERR_BAD_ITER
        else Inr (iter, ctlen))"

definition build_header :: "byte list \<Rightarrow> byte list \<Rightarrow> nat \<Rightarrow> byte list" where
  "build_header salt nonce ctlen =
     P11K_MAGIC @ [P11K_VERSION] @ salt @ write_u32be KS_KDF_ITERATIONS @ nonce @ write_u32be ctlen"

section \<open>Releasing entries\<close>

definition free_key_entry :: "ks_mem \<Rightarrow> wp11_key_entry \<Rightarrow> ks_mem" where
  "free_key_entry mem e =
     (let mem1 = (case der_bytes e of None \<Rightarrow> mem
                  | Some (b, bs) \<Rightarrow> mem_free (mem_munlock (wp11_zero_blk mem b) b) b) in
      case cert_bytes e of None \<Rightarrow> mem1
      | Some (b, bs) \<Rightarrow> mem_free (wp11_zero_blk mem1 b) b)"

definition free_entries :: "ks_mem \<Rightarrow> wp11_key_entry list \<Rightarrow> ks_mem" where
  "free_entries mem es = fold (\<lambda>e m. free_key_entry m e) es mem"

text \<open>The end of \<open>wp11_keystore_load\<close>: plaintext with its \<open>plain_locked\<close>, file buffer, and, on an error, entries with \<open>entries_locked\<close>.\<close>

definition load_cleanup ::
  "ks_mem \<Rightarrow> (nat \<times> bool) option \<Rightarrow> nat \<Rightarrow> (nat \<times> bool \<times> wp11_key_entry list) option \<Rightarrow> ks_mem" where
  "load_cleanup mem plain filebuf ents =
     (let mem1 = (case plain of None \<Rightarrow> mem
                  | Some (b, lk) \<Rightarrow> let z = wp11_zero_blk mem b in mem_free (if lk then mem_munlock z b else z) b);
          mem2 = mem_free mem1 filebuf in
      case ents of None \<Rightarrow> mem2
      | Some (b, lk, es) \<Rightarrow>
          let z = wp11_zero_blk (free_entries mem2 es) b in mem_free (if lk then mem_munlock z b else z) b)"

section \<open>Loading\<close>

record wp11_keystore =
  ks_blk :: nat
  entries_blk :: nat
  entries :: "wp11_key_entry list"
  ks_count :: nat

record load_io =
  open_ok :: bool
  fstat_ok :: bool
  st_size :: nat
  reads :: "rd_ev list"

text \<open>The sizes of the two structures on a 64-bit target.\<close>

definition SIZEOF_KEY_ENTRY :: nat where "SIZEOF_KEY_ENTRY = 120"
definition SIZEOF_KEYSTORE :: nat where "SIZEOF_KEYSTORE = 24"

text \<open>
  From the allocation of the entries array on: \<open>plain\<close> (block \<open>pb\<close>, locked) holds the decrypted bytes.
  Note that it is wiped and freed after decoding without \<open>munlock\<close>.
\<close>

definition load_decode ::
  "mem_env \<Rightarrow> nat \<Rightarrow> nat \<Rightarrow> nat \<Rightarrow> byte list \<Rightarrow> ks_mem \<Rightarrow> ks_mem \<times> (ks_err + wp11_keystore)" where
  "load_decode env m fb pb plain mem =
     (case mem_malloc env mem (KS_MAX_ENTRIES * SIZEOF_KEY_ENTRY) of
        (mem1, None) \<Rightarrow> (load_cleanup mem1 (Some (pb, True)) fb None, Inl KS_ERR_NOMEM)
      | (mem1, Some eb) \<Rightarrow>
          (case decode_cbor_payload env m plain mem1 of
             (mem2, es, r) \<Rightarrow>
               let mem3 = mem_free (wp11_zero_blk mem2 pb) pb in
               (case r of
                  Inl e \<Rightarrow> (load_cleanup mem3 None fb (Some (eb, False, es)), Inl e)
                | Inr n \<Rightarrow>
                    (case mem_mlock env mem3 eb (KS_MAX_ENTRIES * SIZEOF_KEY_ENTRY) of
                       (mem4, False) \<Rightarrow> (load_cleanup mem4 None fb (Some (eb, False, es)), Inl KS_ERR_MLOCK)
                     | (mem4, True) \<Rightarrow>
                         (case mem_malloc env mem4 SIZEOF_KEYSTORE of
                            (mem5, None) \<Rightarrow> (load_cleanup mem5 None fb (Some (eb, True, es)), Inl KS_ERR_NOMEM)
                          | (mem5, Some kb) \<Rightarrow>
                              (load_cleanup mem5 None fb None,
                               Inr \<lparr>ks_blk = kb, entries_blk = eb, entries = es, ks_count = n\<rparr>))))))"

text \<open>From the derivation of the key on; the file buffer is the block \<open>fb\<close>.\<close>

definition load_decrypt ::
  "mem_env \<Rightarrow> nat \<Rightarrow> crypto \<Rightarrow> byte list \<Rightarrow> byte list \<Rightarrow> nat \<Rightarrow> ks_mem \<Rightarrow> ks_mem \<times> (ks_err + wp11_keystore)" where
  "load_decrypt env m cr pin filebuf fb mem =
     (case check_header filebuf of
        Inl e \<Rightarrow> (load_cleanup mem None fb None, Inl e)
      | Inr (iter, ctlen) \<Rightarrow>
          (case pbkdf2 cr pin (bslice filebuf 5 32) iter of
             None \<Rightarrow> (load_cleanup mem None fb None, Inl KS_ERR_CRYPTO)
           | Some key \<Rightarrow>
               if ctlen = 0 then (load_cleanup mem None fb None, Inl KS_ERR_CBOR)
               else (case mem_malloc env mem ctlen of
                  (mem1, None) \<Rightarrow> (load_cleanup mem1 None fb None, Inl KS_ERR_NOMEM)
                | (mem1, Some pb) \<Rightarrow>
                    (case mem_mlock env mem1 pb ctlen of
                       (mem2, False) \<Rightarrow> (load_cleanup mem2 (Some (pb, False)) fb None, Inl KS_ERR_MLOCK)
                     | (mem2, True) \<Rightarrow>
                         if \<not> gcm_setkey cr key then (load_cleanup mem2 (Some (pb, True)) fb None, Inl KS_ERR_CRYPTO)
                         else let mem3 = mem_write mem2 pb in
                           (case gcm_decrypt cr key (bslice filebuf 41 12) (bslice filebuf P11K_HDR_LEN ctlen)
                                  (bslice filebuf (P11K_HDR_LEN + ctlen) P11K_TAG_LEN) of
                              None \<Rightarrow> (load_cleanup mem3 (Some (pb, True)) fb None, Inl KS_ERR_BAD_PIN)
                            | Some plain \<Rightarrow> load_decode env m fb pb plain mem3)))))"

definition wp11_keystore_load ::
  "mem_env \<Rightarrow> nat \<Rightarrow> crypto \<Rightarrow> load_io \<Rightarrow> bool \<Rightarrow> byte list \<Rightarrow> ks_mem \<Rightarrow> (ks_mem \<times> (ks_err + wp11_keystore)) option" where
  "wp11_keystore_load env m cr io ptrs_ok pin mem =
     (if \<not> ptrs_ok then Some (mem, Inl KS_ERR_PARAM)
      else if length pin = 0 then Some (mem, Inl KS_ERR_PARAM)
      else if length pin > C_INT_MAX then Some (mem, Inl KS_ERR_PARAM)
      else if \<not> open_ok io then Some (mem, Inl KS_ERR_IO)
      else if \<not> fstat_ok io then Some (mem, Inl KS_ERR_IO)
      else if st_size io < P11K_HDR_LEN + P11K_TAG_LEN then Some (mem, Inl KS_ERR_TRUNCATED)
      else if st_size io > P11K_HDR_LEN + KS_MAX_CT_LEN + P11K_TAG_LEN then Some (mem, Inl KS_ERR_TRUNCATED)
      else case mem_malloc env mem (st_size io) of
        (mem1, None) \<Rightarrow> Some (mem1, Inl KS_ERR_NOMEM)
      | (mem1, Some fb) \<Rightarrow>
          (case read_all (reads io) [] (st_size io) of
             None \<Rightarrow> None
           | Some (Inl e) \<Rightarrow> Some (load_cleanup mem1 None fb None, Inl e)
           | Some (Inr filebuf) \<Rightarrow> Some (load_decrypt env m cr pin filebuf fb mem1)))"

section \<open>Freeing and reading a keystore\<close>

definition wp11_keystore_free :: "wp11_keystore option \<Rightarrow> ks_mem \<Rightarrow> ks_mem" where
  "wp11_keystore_free ks mem =
     (case ks of None \<Rightarrow> mem
      | Some k \<Rightarrow>
          let mem1 = free_entries mem (entries k);
              mem2 = mem_free (mem_munlock (wp11_zero_blk mem1 (entries_blk k)) (entries_blk k)) (entries_blk k) in
          mem_free mem2 (ks_blk k))"

definition wp11_keystore_count :: "wp11_keystore option \<Rightarrow> nat" where
  "wp11_keystore_count ks = (case ks of None \<Rightarrow> 0 | Some k \<Rightarrow> ks_count k)"

definition wp11_keystore_get :: "wp11_keystore option \<Rightarrow> nat \<Rightarrow> wp11_key_entry option" where
  "wp11_keystore_get ks i =
     (case ks of None \<Rightarrow> None
      | Some k \<Rightarrow> if i \<ge> ks_count k then None else Some (entries k ! i))"

section \<open>Creating a keystore file\<close>

type_synonym files = "byte list \<Rightarrow> byte list option"

record create_io =
  rng_init_ok :: bool
  rng_salt :: "byte list option"
  rng_nonce :: "byte list option"
  tmp_open_ok :: bool
  writes :: "wr_ev list"
  fsync_ok :: bool
  rename_ok :: bool
  unlink_ok :: bool

definition append_file :: "files \<Rightarrow> byte list \<Rightarrow> byte list \<Rightarrow> files" where
  "append_file fs p bs = fs(p \<mapsto> (case fs p of None \<Rightarrow> bs | Some old \<Rightarrow> old @ bs))"

fun append_chunks :: "files \<Rightarrow> byte list \<Rightarrow> byte list list \<Rightarrow> files list" where
  "append_chunks fs p [] = []"
| "append_chunks fs p (c # cs) = append_file fs p c # append_chunks (append_file fs p c) p cs"

fun write_bufs :: "wr_ev list \<Rightarrow> byte list list \<Rightarrow> (byte list list \<times> (ks_err + unit)) option" where
  "write_bufs evs [] = Some ([], Inr ())"
| "write_bufs evs (b # bs) =
     (case write_all evs b of
        None \<Rightarrow> None
      | Some (evs', cs, Inl e) \<Rightarrow> Some (cs, Inl e)
      | Some (evs', cs, Inr u) \<Rightarrow>
          (case write_bufs evs' bs of None \<Rightarrow> None | Some (cs', r) \<Rightarrow> Some (cs @ cs', r)))"

definition tmppath :: "byte list \<Rightarrow> byte list" where
  "tmppath path = path @ str ''.tmp''"

text \<open>
  The file operations of \<open>wp11_keystore_create\<close>: open with \<open>O_TRUNC\<close>, the three writes,
  \<open>fsync\<close>, \<open>rename\<close>, and on an error \<open>unlink\<close>, whose failure is ignored.  The result lists the file system after every
  system call that changes it, which is what a crash at that point leaves.
\<close>

definition write_file :: "create_io \<Rightarrow> byte list \<Rightarrow> byte list list \<Rightarrow> files \<Rightarrow> (files list \<times> (ks_err + unit)) option" where
  "write_file io path parts fs =
     (let tmp = tmppath path in
      if \<not> tmp_open_ok io then Some ([], Inl KS_ERR_IO)
      else let fs1 = fs(tmp \<mapsto> []) in
        case write_bufs (writes io) parts of
          None \<Rightarrow> None
        | Some (cs, r) \<Rightarrow>
            let trace = fs1 # append_chunks fs1 tmp cs; fs2 = last trace; unlink = (if unlink_ok io then [fs2(tmp := None)] else []) in
            (case r of
               Inl e \<Rightarrow> Some (trace @ unlink, Inl e)
             | Inr u \<Rightarrow>
                 if \<not> fsync_ok io then Some (trace @ unlink, Inl KS_ERR_IO)
                 else if \<not> rename_ok io then Some (trace @ unlink, Inl KS_ERR_IO)
                 else Some (trace @ [fs2(tmp := None, path := fs2 tmp)], Inr ())))"

text \<open>The encrypted image: header, ciphertext, tag; \<open>plain\<close> is the encoded payload.\<close>

definition seal :: "crypto \<Rightarrow> create_io \<Rightarrow> byte list \<Rightarrow> byte list \<Rightarrow> ks_err + byte list list" where
  "seal cr io pin plain =
     (if \<not> rng_init_ok io then Inl KS_ERR_CRYPTO
      else case rng_salt io of None \<Rightarrow> Inl KS_ERR_CRYPTO
      | Some salt \<Rightarrow>
          (case rng_nonce io of None \<Rightarrow> Inl KS_ERR_CRYPTO
           | Some nonce \<Rightarrow>
               (case pbkdf2 cr pin salt KS_KDF_ITERATIONS of None \<Rightarrow> Inl KS_ERR_CRYPTO
                | Some key \<Rightarrow>
                    if \<not> gcm_setkey cr key then Inl KS_ERR_CRYPTO
                    else (case gcm_encrypt cr key nonce plain of None \<Rightarrow> Inl KS_ERR_CRYPTO
                          | Some (ct, tag) \<Rightarrow> Inr [build_header salt nonce (length plain), ct, tag]))))"

text \<open>The trace of file systems and the result; \<open>None\<close> when a write never returns.\<close>

definition wp11_keystore_create ::
  "mem_env \<Rightarrow> nat \<Rightarrow> crypto \<Rightarrow> create_io \<Rightarrow> bool \<Rightarrow> byte list \<Rightarrow> byte list \<Rightarrow> wp11_key_entry list option \<Rightarrow> nat
     \<Rightarrow> ks_mem \<Rightarrow> files \<Rightarrow> (ks_mem \<times> files list \<times> (ks_err + unit)) option" where
  "wp11_keystore_create env m cr io ptrs_ok path pin keys nkeys mem fs =
     (let per_entry = 4300 + KS_CERT_MAX + 16; plain_len = 5 + nkeys * per_entry in
      if \<not> ptrs_ok then Some (mem, [], Inl KS_ERR_PARAM)
      else if keys = None \<and> nkeys \<noteq> 0 then Some (mem, [], Inl KS_ERR_PARAM)
      else if length pin = 0 \<or> nkeys > KS_MAX_ENTRIES then Some (mem, [], Inl KS_ERR_PARAM)
      else if length pin > C_INT_MAX then Some (mem, [], Inl KS_ERR_PARAM)
      else if nkeys > 0 \<and> per_entry > (m - 1 - 5) div nkeys then Some (mem, [], Inl KS_ERR_PARAM)
      else case mem_malloc env mem plain_len of
        (mem1, None) \<Rightarrow> Some (mem1, [], Inl KS_ERR_NOMEM)
      | (mem1, Some pb) \<Rightarrow>
          (let mem2 = mem_write mem1 pb; fin = (\<lambda>mm. mem_free (wp11_zero_blk mm pb) pb) in
           case encode_cbor_payload plain_len (case keys of None \<Rightarrow> [] | Some ks \<Rightarrow> take nkeys ks) of
             Inl e \<Rightarrow> Some (fin mem2, [], Inl e)
           | Inr plain \<Rightarrow>
               (case mem_malloc env mem2 (length plain) of
                  (mem3, None) \<Rightarrow> Some (fin mem3, [], Inl KS_ERR_NOMEM)
                | (mem3, Some cb) \<Rightarrow>
                    (case seal cr io pin plain of
                       Inl e \<Rightarrow> Some (mem_free (fin mem3) cb, [], Inl e)
                     | Inr parts \<Rightarrow>
                         if length path \<ge> C_PATH_MAX then Some (mem_free (fin mem3) cb, [], Inl KS_ERR_PARAM)
                         else (case write_file io path parts fs of
                            None \<Rightarrow> None
                          | Some (trace, r) \<Rightarrow> Some (mem_free (fin mem3) cb, trace, r))))))"

section \<open>Provisioning helpers\<close>

text \<open>\<open>rng_block\<close> is the RNG's 16 bytes, \<open>decode_ec\<close> and \<open>decode_rsa\<close> say whether wolfCrypt parses the DER.\<close>

definition wp11_keystore_gen_id :: "bool \<Rightarrow> byte list option \<Rightarrow> ks_err + byte list" where
  "wp11_keystore_gen_id init_ok rng_block =
     (if \<not> init_ok then Inl KS_ERR_CRYPTO
      else case rng_block of None \<Rightarrow> Inl KS_ERR_CRYPTO | Some b \<Rightarrow> Inr b)"

definition wp11_keystore_detect_key_type :: "(byte list \<Rightarrow> bool) \<Rightarrow> (byte list \<Rightarrow> bool) \<Rightarrow> byte list option \<Rightarrow> ks_err + int" where
  "wp11_keystore_detect_key_type decode_ec decode_rsa der =
     (case der of None \<Rightarrow> Inl KS_ERR_PARAM
      | Some d \<Rightarrow>
          if length d = 0 then Inl KS_ERR_PARAM
          else if decode_ec d then Inr KEY_TYPE_EC
          else if decode_rsa d then Inr KEY_TYPE_RSA
          else Inl KS_ERR_INVALID_DER)"

text \<open>\<open>wc_KeyPemToDer\<close> with the output capacity; \<open>None\<close> for a result that is not positive.  On failure the buffer is wiped and freed.\<close>

definition wp11_keystore_pem_to_der ::
  "mem_env \<Rightarrow> (byte list \<Rightarrow> nat \<Rightarrow> byte list option) \<Rightarrow> bool \<Rightarrow> byte list \<Rightarrow> ks_mem \<Rightarrow> ks_mem \<times> (ks_err + nat \<times> byte list)" where
  "wp11_keystore_pem_to_der env key_pem_to_der ptrs_ok pem mem =
     (if \<not> ptrs_ok \<or> length pem = 0 then (mem, Inl KS_ERR_PARAM)
      else case mem_malloc env mem KS_DER_MAX of
        (mem1, None) \<Rightarrow> (mem1, Inl KS_ERR_NOMEM)
      | (mem1, Some b) \<Rightarrow>
          (case key_pem_to_der pem KS_DER_MAX of
             None \<Rightarrow> (mem_free (wp11_zero_blk (mem_write mem1 b) b) b, Inl KS_ERR_CRYPTO)
           | Some der \<Rightarrow> (mem_write mem1 b, Inr (b, der))))"

definition wp11_keystore_cert_pem_to_der ::
  "mem_env \<Rightarrow> (byte list \<Rightarrow> nat \<Rightarrow> byte list option) \<Rightarrow> bool \<Rightarrow> byte list \<Rightarrow> ks_mem \<Rightarrow> ks_mem \<times> (ks_err + nat \<times> byte list)" where
  "wp11_keystore_cert_pem_to_der env cert_pem_to_der ptrs_ok pem mem =
     (if \<not> ptrs_ok then (mem, Inl KS_ERR_PARAM)
      else case mem_malloc env mem KS_CERT_MAX of
        (mem1, None) \<Rightarrow> (mem1, Inl KS_ERR_NOMEM)
      | (mem1, Some b) \<Rightarrow>
          (case cert_pem_to_der pem KS_CERT_MAX of
             None \<Rightarrow> (mem_free mem1 b, Inl KS_ERR_CRYPTO)
           | Some der \<Rightarrow> (mem1, Inr (b, der))))"

end
