(* ===== verification/KeystoreCorrect.thy ===== *)
theory KeystoreCorrect imports Keystore begin

text \<open>
  Correctness of the keystore file operations: the loops over short reads and writes, the
  crash-atomic replacement of the file, the memory discipline of loading, and that what was created is what is loaded.
\<close>

section \<open>Loops\<close>

definition rd_data :: "rd_ev list \<Rightarrow> byte list" where
  "rd_data evs = concat (map (\<lambda>e. case e of RD_DATA d \<Rightarrow> d | _ \<Rightarrow> []) evs)"

definition rd_benign :: "rd_ev list \<Rightarrow> bool" where
  "rd_benign evs \<longleftrightarrow> RD_ERR \<notin> set evs \<and> RD_DATA [] \<notin> set evs"

lemma read_all_data:
  "rd_benign evs \<Longrightarrow> length buf \<le> len \<Longrightarrow> len \<le> length buf + length (rd_data evs) \<Longrightarrow>
     read_all evs buf len = Some (Inr (take len (buf @ rd_data evs)))"
proof (induction evs arbitrary: buf)
  case Nil
  then show ?case by (simp add: read_all.simps [of "[]"] rd_data_def)
next
  case (Cons e evs)
  have b: "rd_benign evs" using Cons.prems(1) by (simp add: rd_benign_def)
  show ?case
  proof (cases "length buf \<ge> len")
    case True
    with Cons.prems(2) show ?thesis by (simp add: read_all.simps [of "x # evs" for x])
  next
    case False
    show ?thesis
    proof (cases e)
      case RD_EINTR
      with Cons.IH [OF b Cons.prems(2)] Cons.prems(3) False show ?thesis
        by (simp add: read_all.simps [of "x # evs" for x] rd_data_def)
    next
      case RD_ERR
      with Cons.prems(1) show ?thesis by (simp add: rd_benign_def)
    next
      case (RD_DATA d)
      with Cons.prems(1) have d: "d \<noteq> []" by (auto simp: rd_benign_def)
      let ?b = "buf @ take (len - length buf) d"
      have "len \<le> length ?b + length (rd_data evs)" using Cons.prems(3) RD_DATA by (simp add: rd_data_def)
      from Cons.IH [OF b _ this] False
      have "read_all evs ?b len = Some (Inr (take len (?b @ rd_data evs)))" by simp
      moreover have "take len (?b @ rd_data evs) = take len (buf @ rd_data (e # evs))"
        using False RD_DATA
        by (cases "length d \<le> len - length buf") (simp_all add: rd_data_def not_le min_def)
      ultimately show ?thesis using False d RD_DATA
        by (simp add: read_all.simps [of "x # evs" for x])
    qed
  qed
qed

lemma write_all_chunks:
  "write_all evs buf = Some (evs', cs, r) \<Longrightarrow>
     (case r of Inr u \<Rightarrow> concat cs = buf | Inl e \<Rightarrow> e = KS_ERR_IO \<and> (\<exists>rest. buf = concat cs @ rest))"
proof (induction evs arbitrary: buf evs' cs r)
  case Nil
  then show ?case by (auto simp: write_all.simps [of "[]"] split: if_splits)
next
  case (Cons e evs)
  show ?case
  proof (cases "buf = []")
    case True
    with Cons.prems show ?thesis by (auto simp: write_all.simps [of "x # evs" for x])
  next
    case False
    show ?thesis
    proof (cases "\<exists>n. e = WR_N n \<and> n \<noteq> 0")
      case True
      then obtain n where n: "e = WR_N n" "n \<noteq> 0" by blast
      with Cons.prems False obtain cs' where w: "write_all evs (drop n buf) = Some (evs', cs', r)" and cs: "cs = take n buf # cs'"
        by (auto simp: write_all.simps [of "x # evs" for x] split: option.splits)
      have "\<exists>rest. buf = take n buf @ concat cs' @ rest" if "drop n buf = concat cs' @ rest" for rest
        using that append_take_drop_id [of n buf] by metis
      with Cons.IH [OF w] cs show ?thesis by (cases r) auto
    next
      case False
      with Cons.prems Cons.IH \<open>buf \<noteq> []\<close> show ?thesis
        by (cases e) (auto simp: write_all.simps [of "x # evs" for x] split: if_splits)
    qed
  qed
qed

lemma write_bufs_chunks:
  "write_bufs evs bs = Some (cs, Inr u) \<Longrightarrow> concat cs = concat bs"
proof (induction bs arbitrary: evs cs)
  case Nil
  then show ?case by simp
next
  case (Cons b bs)
  then obtain evs' cs1 u' cs2 where "write_all evs b = Some (evs', cs1, Inr u')" "write_bufs evs' bs = Some (cs2, Inr u)" "cs = cs1 @ cs2"
    by (auto split: option.splits sum.splits)
  with Cons.IH write_all_chunks show ?case by fastforce
qed

section \<open>Replacing the file\<close>

lemma append_chunks_other:
  "f \<in> set (append_chunks fs p cs) \<Longrightarrow> q \<noteq> p \<Longrightarrow> f q = fs q"
  by (induction cs arbitrary: fs) (auto simp: append_file_def)

lemma append_chunks_last:
  "fs p = Some old \<Longrightarrow> last (fs # append_chunks fs p cs) p = Some (old @ concat cs)"
proof (induction cs arbitrary: fs old)
  case Nil
  then show ?case by simp
next
  case (Cons c cs)
  from Cons.prems have "append_file fs p c p = Some (old @ c)" by (simp add: append_file_def)
  from Cons.IH [where fs = "append_file fs p c", OF this] show ?case by simp
qed

lemma tmppath_neq [simp]: "tmppath path \<noteq> path" "path \<noteq> tmppath path"
  by (simp_all add: tmppath_def str_def)

lemma write_file_cases:
  assumes "write_file io path parts fs = Some (trace, r)" "tmp_open_ok io"
  shows "\<exists>tr. tr \<noteq> [] \<and> (\<forall>f \<in> set tr. f path = fs path) \<and>
     ((\<exists>e. r = Inl e \<and> trace = tr @ (if unlink_ok io then [(last tr)(tmppath path := None)] else []))
      \<or> (r = Inr () \<and> last tr (tmppath path) = Some (concat parts)
         \<and> trace = tr @ [(last tr)(tmppath path := None, path := last tr (tmppath path))]))"
proof -
  let ?tmp = "tmppath path"
  let ?fs1 = "fs(?tmp \<mapsto> [])"
  from assms obtain cs r1 where w: "write_bufs (writes io) parts = Some (cs, r1)"
    by (auto simp: write_file_def Let_def split: option.splits)
  define tr where "tr = ?fs1 # append_chunks ?fs1 ?tmp cs"
  have old: "f path = fs path" if "f \<in> set tr" for f
    using that append_chunks_other [of f ?fs1 ?tmp cs path] by (auto simp: tr_def)
  have ne: "tr \<noteq> []" by (simp add: tr_def)
  show ?thesis
  proof (cases "r1 = Inr () \<and> fsync_ok io \<and> rename_ok io")
    case False
    then have "\<exists>e. write_file io path parts fs = Some (tr @ (if unlink_ok io then [(last tr)(?tmp := None)] else []), Inl e)"
      using assms(2) w by (cases r1) (auto simp: write_file_def Let_def tr_def simp del: last.simps fun_upd_apply)
    with assms(1) old ne show ?thesis by (intro exI [of _ tr]) auto
  next
    case True
    then have t: "write_file io path parts fs = Some (tr @ [(last tr)(?tmp := None, path := last tr ?tmp)], Inr ())"
      using assms(2) w by (simp add: write_file_def Let_def tr_def del: last.simps fun_upd_apply)
    have "last tr ?tmp = Some (concat parts)"
      using append_chunks_last [of ?fs1 ?tmp "[]" cs] write_bufs_chunks w True by (auto simp: tr_def)
    with t assms(1) old ne show ?thesis by (intro exI [of _ tr]) simp
  qed
qed

lemma write_file_final:
  "write_file io path parts fs = Some (trace, Inr u) \<Longrightarrow> last trace path = Some (concat parts)"
  using write_file_cases [of io path parts fs trace "Inr u"]
  by (cases "tmp_open_ok io") (auto simp: write_file_def Let_def)

lemma write_file_other:
  assumes "write_file io path parts fs = Some (trace, r)" "q \<noteq> path" "q \<noteq> tmppath path"
  shows "\<forall>f \<in> set trace. f q = fs q"
proof (cases "tmp_open_ok io")
  case False
  with assms(1) show ?thesis by (simp add: write_file_def Let_def)
next
  case True
  from assms(1) True obtain cs r' where w: "write_bufs (writes io) parts = Some (cs, r')"
    by (auto simp: write_file_def Let_def split: option.splits)
  let ?fs1 = "fs(tmppath path \<mapsto> [])"
  have a: "\<forall>f \<in> set (append_chunks ?fs1 (tmppath path) cs). f q = fs q"
    using append_chunks_other [of _ ?fs1 "tmppath path" cs] assms(3) by auto
  have l: "last (?fs1 # append_chunks ?fs1 (tmppath path) cs) q = fs q"
    using a assms(3) last_in_set [of "append_chunks ?fs1 (tmppath path) cs"] by (auto simp: last_ConsR)
  show ?thesis using assms True w a l by (auto simp: write_file_def Let_def split: sum.splits if_splits)
qed

text \<open>C10. Creating a keystore replaces the file atomically: whatever short writes, signals and failures
  happen, after every single file operation the path holds either what it held before or the
  complete new image, never a part of it, and no file but it and its temporary file changes; on success it is the image
  and the temporary file is gone, on an error the path is untouched and the temporary file is removed again unless the final
  \<open>unlink\<close>, whose result the code ignores, fails.\<close>
theorem keystore_write_atomic:
  assumes "write_file io path parts fs = Some (trace, r)"
  shows "(\<forall>f \<in> set trace. f path = fs path \<or> f path = Some (concat parts))
     \<and> (\<forall>f \<in> set trace. \<forall>q. q = path \<or> q = tmppath path \<or> f q = fs q)
     \<and> (r = Inr () \<longrightarrow> trace \<noteq> [] \<and> last trace path = Some (concat parts) \<and> last trace (tmppath path) = None)
     \<and> (is_ok r \<or> ((\<forall>f \<in> set trace. f path = fs path)
          \<and> (trace = [] \<or> \<not> unlink_ok io \<or> last trace (tmppath path) = None)))"
proof (cases "tmp_open_ok io")
  case False
  with assms show ?thesis by (simp add: write_file_def Let_def) auto
next
  case True
  from write_file_cases [OF assms True] obtain tr where tr: "tr \<noteq> []" "\<forall>f \<in> set tr. f path = fs path"
    and c: "(\<exists>e. r = Inl e \<and> trace = tr @ (if unlink_ok io then [(last tr)(tmppath path := None)] else []))
      \<or> (r = Inr () \<and> last tr (tmppath path) = Some (concat parts)
         \<and> trace = tr @ [(last tr)(tmppath path := None, path := last tr (tmppath path))])" by blast
  have "last tr path = fs path" using tr last_in_set by blast
  with tr c write_file_other [OF assms] show ?thesis by (elim disjE exE conjE) auto
qed

definition sample_io :: create_io where
  "sample_io = \<lparr>rng_init_ok = True, rng_salt = Some (replicate 32 1), rng_nonce = Some (replicate 12 2), tmp_open_ok = True,
     writes = [WR_N 1, WR_EINTR, WR_N 1000000, WR_N 1000000, WR_N 1000000], fsync_ok = True, rename_ok = True, unlink_ok = True\<rparr>"

theorem keystore_write_atomic_witness:
  "\<exists>trace r. write_file sample_io [0x6B] [[1, 2], [3]] (\<lambda>p. None) = Some (trace, r)
     \<and> (\<forall>f \<in> set trace. f [0x6B] = None \<or> f [0x6B] = Some [1, 2, 3])"
proof -
  have "write_file sample_io [0x6B] [[1, 2], [3]] (\<lambda>p. None) \<noteq> None"
    by (simp add: write_file_def sample_io_def write_all.simps Let_def)
  then obtain trace r where w: "write_file sample_io [0x6B] [[1, 2], [3]] (\<lambda>p. None) = Some (trace, r)" by auto
  with keystore_write_atomic [OF w] show ?thesis by auto
qed

section \<open>Memory while loading\<close>

lemma mem_effects [simp]:
  "live (mem_free mem b) = live mem - {b}" "dirty (mem_free mem b) = dirty mem - {b}" "pages (mem_free mem b) = pages mem"
  "locked_pages (mem_free mem b) = locked_pages mem" "lost (mem_free mem b) = lost mem" "next_blk (mem_free mem b) = next_blk mem"
  "live (wp11_zero_blk mem b) = live mem" "dirty (wp11_zero_blk mem b) = dirty mem - {b}" "pages (wp11_zero_blk mem b) = pages mem"
  "locked_pages (wp11_zero_blk mem b) = locked_pages mem" "lost (wp11_zero_blk mem b) = lost mem" "exposed (wp11_zero_blk mem b) = exposed mem"
  "next_blk (wp11_zero_blk mem b) = next_blk mem"
  "bared (mem_free mem b) = bared mem" "bared (wp11_zero_blk mem b) = bared mem"
  "live (mem_munlock mem b) = live mem" "dirty (mem_munlock mem b) = dirty mem" "pages (mem_munlock mem b) = pages mem"
  "lost (mem_munlock mem b) = lost mem" "next_blk (mem_munlock mem b) = next_blk mem"
  by (simp_all add: mem_defs)

text \<open>The blocks below \<open>n\<close> that share a page with another block below \<open>n\<close>.\<close>

definition sharing :: "(nat \<Rightarrow> nat set) \<Rightarrow> nat \<Rightarrow> nat set" where
  "sharing pg n = {x. x < n \<and> (\<exists>y < n. y \<noteq> x \<and> pg x \<inter> pg y \<noteq> {})}"

lemma exposed_free [simp]: "b \<notin> dirty mem \<Longrightarrow> exposed (mem_free mem b) = exposed mem"
  by (simp add: mem_free_def)

lemma exposed_munlock [simp]: "b \<notin> dirty mem \<Longrightarrow> exposed (mem_munlock mem b) = exposed mem"
  by (simp add: mem_munlock_def)

lemma bared_munlock:
  "b < n \<Longrightarrow> dirty mem \<subseteq> {..<n} \<Longrightarrow> bared (mem_munlock mem b) \<subseteq> bared mem \<union> sharing (pages mem) n"
  by (auto simp: mem_munlock_def sharing_def)

lemma free_key_entry_effect:
  "live (free_key_entry mem e) = live mem - (der_blks e \<union> cert_blks e)"
  "dirty (free_key_entry mem e) = dirty mem - (der_blks e \<union> cert_blks e)"
  "lost (free_key_entry mem e) = lost mem" "exposed (free_key_entry mem e) = exposed mem" "pages (free_key_entry mem e) = pages mem" "next_blk (free_key_entry mem e) = next_blk mem"
  by (auto simp: free_key_entry_def der_blks_def cert_blks_def Let_def split: option.splits)

lemma free_key_entry_bared:
  assumes "der_blks e \<subseteq> {..<n}" "dirty mem \<subseteq> {..<n}"
  shows "bared (free_key_entry mem e) \<subseteq> bared mem \<union> sharing (pages mem) n"
proof (cases "der_bytes e")
  case None
  then show ?thesis by (auto simp: free_key_entry_def split: option.splits)
next
  case (Some q)
  obtain b bs where q: "q = (b, bs)" by (cases q)
  have b: "b < n" using assms(1) by (simp add: der_blks_def Some q)
  have "bared (mem_munlock (wp11_zero_blk mem b) b) \<subseteq> bared mem \<union> sharing (pages mem) n"
    using bared_munlock [of b n "wp11_zero_blk mem b"] b assms(2) by auto
  then show ?thesis by (auto simp: free_key_entry_def Some q Let_def split: option.splits)
qed

lemma free_entries_Cons: "free_entries mem (e # es) = free_entries (free_key_entry mem e) es"
  by (simp add: free_entries_def)

lemma free_entries_effect:
  "live (free_entries mem es) = live mem - all_blks es"
  "dirty (free_entries mem es) = dirty mem - all_blks es"
  "lost (free_entries mem es) = lost mem" "exposed (free_entries mem es) = exposed mem" "pages (free_entries mem es) = pages mem" "next_blk (free_entries mem es) = next_blk mem"
proof -
  have "live (free_entries mem es) = live mem - all_blks es \<and> dirty (free_entries mem es) = dirty mem - all_blks es
     \<and> lost (free_entries mem es) = lost mem \<and> exposed (free_entries mem es) = exposed mem \<and> pages (free_entries mem es) = pages mem \<and> next_blk (free_entries mem es) = next_blk mem"
    for mem
  proof (induction es arbitrary: mem)
    case Nil
    show ?case by (simp add: free_entries_def all_blks_def)
  next
    case (Cons e es)
    show ?case using Cons.IH [of "free_key_entry mem e"]
      by (simp add: free_entries_Cons free_key_entry_effect all_blks_def Diff_Un Un_Diff) blast
  qed
  then show "live (free_entries mem es) = live mem - all_blks es"
    "dirty (free_entries mem es) = dirty mem - all_blks es"
    "lost (free_entries mem es) = lost mem" "exposed (free_entries mem es) = exposed mem" "pages (free_entries mem es) = pages mem"
    "next_blk (free_entries mem es) = next_blk mem" by auto
qed

lemma free_entries_bared:
  "all_blks es \<subseteq> {..<n} \<Longrightarrow> dirty mem \<subseteq> {..<n} \<Longrightarrow> bared (free_entries mem es) \<subseteq> bared mem \<union> sharing (pages mem) n"
proof (induction es arbitrary: mem)
  case Nil
  then show ?case by (simp add: free_entries_def)
next
  case (Cons e es)
  then have b: "der_blks e \<subseteq> {..<n}" "all_blks es \<subseteq> {..<n}" by (auto simp: all_blks_def)
  have "dirty (free_key_entry mem e) \<subseteq> {..<n}" using Cons.prems(2) by (auto simp: free_key_entry_effect)
  from Cons.IH [OF b(2) this] free_key_entry_bared [OF b(1) Cons.prems(2)] show ?case
    by (auto simp: free_entries_Cons free_key_entry_effect)
qed

lemma cleanup_entries:
  assumes "fb \<notin> dirty mem"
  shows "live (load_cleanup mem None fb (Some (eb, lk, es))) = live mem - {fb} - all_blks es - {eb}"
    "dirty (load_cleanup mem None fb (Some (eb, lk, es))) = dirty mem - {fb} - all_blks es - {eb}"
    "lost (load_cleanup mem None fb (Some (eb, lk, es))) = lost mem"
    "next_blk (load_cleanup mem None fb (Some (eb, lk, es))) = next_blk mem"
    "exposed (load_cleanup mem None fb (Some (eb, lk, es))) = exposed mem"
  using assms by (simp_all add: load_cleanup_def Let_def free_entries_effect)

lemma cleanup_entries_bared:
  assumes "fb \<notin> dirty mem" "all_blks es \<subseteq> {..<n}" "dirty mem \<subseteq> {..<n}" "eb < n"
  shows "bared (load_cleanup mem None fb (Some (eb, lk, es))) \<subseteq> bared mem \<union> sharing (pages mem) n"
proof -
  let ?f = "free_entries (mem_free mem fb) es"
  let ?z = "wp11_zero_blk ?f eb"
  have "bared ?f \<subseteq> bared mem \<union> sharing (pages mem) n"
    using free_entries_bared [of es n "mem_free mem fb"] assms by auto
  moreover have "bared (mem_munlock ?z eb) \<subseteq> bared ?f \<union> sharing (pages mem) n"
    using bared_munlock [of eb n ?z] assms by (auto simp: free_entries_effect)
  ultimately show ?thesis by (auto simp: load_cleanup_def Let_def)
qed

lemma cleanup_plain:
  assumes "fb \<notin> dirty mem"
  shows "live (load_cleanup mem (Some (pb, lk)) fb None) = live mem - {pb} - {fb}"
    "dirty (load_cleanup mem (Some (pb, lk)) fb None) = dirty mem - {pb} - {fb}"
    "lost (load_cleanup mem (Some (pb, lk)) fb None) = lost mem"
    "next_blk (load_cleanup mem (Some (pb, lk)) fb None) = next_blk mem"
    "exposed (load_cleanup mem (Some (pb, lk)) fb None) = exposed mem"
    "live (load_cleanup mem None fb None) = live mem - {fb}"
    "dirty (load_cleanup mem None fb None) = dirty mem - {fb}"
    "lost (load_cleanup mem None fb None) = lost mem"
    "exposed (load_cleanup mem None fb None) = exposed mem"
    "next_blk (load_cleanup mem None fb None) = next_blk mem"
    "pages (load_cleanup mem None fb None) = pages mem"
    "locked_pages (load_cleanup mem None fb None) = locked_pages mem"
    "bared (load_cleanup mem None fb None) = bared mem"
  using assms by (simp_all add: load_cleanup_def Let_def)

lemma cleanup_plain_bared:
  assumes "fb \<notin> dirty mem" "dirty mem \<subseteq> {..<n}" "pb < n"
  shows "bared (load_cleanup mem (Some (pb, lk)) fb None) \<subseteq> bared mem \<union> sharing (pages mem) n"
  using bared_munlock [of pb n "wp11_zero_blk mem pb"] assms by (auto simp: load_cleanup_def Let_def)

lemma keystore_free_effect:
  "live (wp11_keystore_free (Some k) mem) = live mem - all_blks (entries k) - {entries_blk k} - {ks_blk k}"
  "dirty (wp11_keystore_free (Some k) mem) = dirty mem - all_blks (entries k) - {entries_blk k} - {ks_blk k}"
  "lost (wp11_keystore_free (Some k) mem) = lost mem"
  "ks_blk k \<notin> dirty mem \<Longrightarrow> exposed (wp11_keystore_free (Some k) mem) = exposed mem"
  by (simp_all add: wp11_keystore_free_def Let_def free_entries_effect)

lemma keystore_free_bared:
  assumes "all_blks (entries k) \<subseteq> {..<n}" "dirty mem \<subseteq> {..<n}" "entries_blk k < n"
  shows "bared (wp11_keystore_free (Some k) mem) \<subseteq> bared mem \<union> sharing (pages mem) n"
proof -
  let ?f = "free_entries mem (entries k)"
  let ?z = "wp11_zero_blk ?f (entries_blk k)"
  have "bared ?f \<subseteq> bared mem \<union> sharing (pages mem) n" by (rule free_entries_bared [OF assms(1,2)])
  moreover have "bared (mem_munlock ?z (entries_blk k)) \<subseteq> bared ?f \<union> sharing (pages mem) n"
    using bared_munlock [of "entries_blk k" n ?z] assms by (auto simp: free_entries_effect)
  ultimately show ?thesis by (auto simp: wp11_keystore_free_def Let_def free_entries_effect)
qed

text \<open>
  The balance of loading from the state \<open>m0\<close>: on an error everything is given back except lost
  blocks; on success freeing the keystore gives everything back except these; nothing is exposed.  What the
  \<open>munlock\<close>s of an error path or of the later free bare is at most blocks that share a page with another block.
\<close>

definition balanced :: "ks_mem \<Rightarrow> ks_mem \<Rightarrow> ks_err + wp11_keystore \<Rightarrow> bool" where
  "balanced m0 mem r \<longleftrightarrow> exposed mem = exposed m0 \<and> (is_ok r \<longrightarrow> bared mem = bared m0) \<and>
     (let fin = (case r of Inl e \<Rightarrow> mem | Inr k \<Rightarrow> wp11_keystore_free (Some k) mem) in
      live fin = live m0 \<union> lost mem \<and> dirty fin \<subseteq> dirty m0 \<union> lost mem \<and> lost fin = lost mem \<and> exposed fin = exposed m0
      \<and> bared fin \<subseteq> bared m0 \<union> sharing (pages m0) (next_blk mem))"

definition plain_ready :: "ks_mem \<Rightarrow> nat \<Rightarrow> nat \<Rightarrow> ks_mem \<Rightarrow> bool" where
  "plain_ready m0 fb pb mem \<longleftrightarrow>
     fresh_from m0 \<and> lost m0 = {} \<and> dirty m0 \<subseteq> locked m0 \<and> fb = next_blk m0 \<and> pb = Suc fb \<and> next_blk mem = Suc pb
     \<and> live mem = insert pb (insert fb (live m0)) \<and> pages mem = pages m0 \<and> locked_pages mem = locked_pages m0 \<union> pages m0 pb
     \<and> dirty mem = insert pb (dirty m0) \<and> exposed mem = exposed m0 \<and> bared mem = bared m0 \<and> lost mem = {}"

lemma load_decode_mem:
  assumes "plain_ready m0 fb pb mem" "load_decode env m fb pb plain mem = (mem', r)"
  shows "balanced m0 mem' r \<and> (is_ok r \<longrightarrow> pages m0 pb \<subseteq> locked_pages mem' \<and> pb \<notin> live mem')"
proof -
  note R = assms(1) [unfolded plain_ready_def]
  let ?eb = "next_blk mem"
  let ?n = "KS_MAX_ENTRIES * SIZEOF_KEY_ENTRY"
  have old: "b < fb" if "b \<in> live m0 \<union> dirty m0" for b
    using R that unfolding fresh_from_def by blast
  have fbd: "fb \<notin> dirty m0" "pb \<notin> dirty m0" "fb \<notin> live m0" "pb \<notin> live m0" "?eb \<notin> live m0"
    using old [of fb] old [of pb] old [of ?eb] R by auto
  have fd: "fb \<notin> dirty mem" using fbd R by auto
  show ?thesis
  proof (cases "malloc_ok env ?eb ?n")
    case False
    let ?m1 = "mem\<lparr>next_blk := Suc ?eb\<rparr>"
    from False assms(2) have r: "r = Inl KS_ERR_NOMEM" and m: "mem' = load_cleanup ?m1 (Some (pb, True)) fb None"
      by (auto simp: load_decode_def mem_malloc_def Let_def)
    have "fb \<notin> dirty ?m1" using fd by simp
    moreover have "dirty ?m1 \<subseteq> {..<Suc ?eb}" using R old by fastforce
    moreover have "pb < Suc ?eb" using R by simp
    ultimately have "bared mem' \<subseteq> bared m0 \<union> sharing (pages m0) (next_blk mem')"
      using cleanup_plain_bared [of fb ?m1 "Suc ?eb" pb True] cleanup_plain(4) [of fb ?m1 pb True] R by (simp add: m)
    with cleanup_plain(1-3,5) [of fb ?m1 pb True] fd R fbd show ?thesis by (auto simp: balanced_def r m Let_def)
  next
    case True
    let ?m1 = "mem\<lparr>next_blk := Suc ?eb, live := insert ?eb (live mem)\<rparr>"
    obtain m2 es r2 where d: "decode_cbor_payload env m plain ?m1 = (m2, es, r2)" by (metis prod_cases3)
    have f1: "fresh_from ?m1" using R old by (auto simp: fresh_from_def less_Suc_eq dest: old)
    have "lost ?m1 = {}" "dirty ?m1 \<subseteq> locked ?m1" using R by (auto simp: locked_def)
    note D = dec_invD [OF decode_payload_inv [OF f1 this d]]
    have hi: "?eb < b" if "b \<in> all_blks es \<union> lost m2" for b
      using D(2) [of b] D(3) [of b] that by auto
    have nin: "?eb \<notin> all_blks es" "?eb \<notin> lost m2" "fb \<notin> all_blks es" "fb \<notin> lost m2" "pb \<notin> all_blks es" "pb \<notin> lost m2"
      using hi [of ?eb] hi [of fb] hi [of pb] R by auto
    have dj: "live m0 \<inter> all_blks es = {}" "live m0 \<inter> lost m2 = {}" "dirty m0 \<inter> lost m2 = {}"
    proof -
      have "b \<notin> all_blks es \<union> lost m2" if "b \<in> live m0 \<union> dirty m0" for b
        using hi [of b] old [of b] that R by auto
      then show "live m0 \<inter> all_blks es = {}" "live m0 \<inter> lost m2 = {}" "dirty m0 \<inter> lost m2 = {}" by blast+
    qed
    define m3 where "m3 = mem_free (wp11_zero_blk m2 pb) pb"
    have l3: "live m3 = insert ?eb (insert fb (live m0)) \<union> all_blks es \<union> lost m2"
      using D(6) R nin fbd by (auto simp: m3_def)
    have d3: "dirty m3 \<subseteq> dirty m0 \<union> all_blks es \<union> lost m2" using D(5,7) R by (auto simp: m3_def)
    have o3: "exposed m3 = exposed m0 \<and> bared m3 = bared m0" "lost m3 = lost m2" "pages m3 = pages m0" "pages m0 pb \<subseteq> locked_pages m3" "next_blk m3 = next_blk m2"
      using R D(9-12) by (auto simp: m3_def)
    have ab: "all_blks es \<subseteq> {..<next_blk m2}" using D(2) by auto
    have eb: "?eb < next_blk m2" using D(1) by simp
    have db: "dirty m3 \<subseteq> {..<next_blk m2}"
    proof
      fix b assume "b \<in> dirty m3"
      with d3 D(2) [of b] D(3) [of b] old [of b] R eb show "b \<in> {..<next_blk m2}" by auto
    qed
    have f3: "fb \<notin> dirty m3" using d3 fbd nin by auto
    have err: "balanced m0 (load_cleanup mm None fb (Some (?eb, lk, es))) (Inl e)"
      if "live mm = live m3" "dirty mm = dirty m3" "lost mm = lost m3" "exposed mm = exposed m3 \<and> bared mm = bared m3" "pages mm = pages m3" "next_blk m2 \<le> next_blk mm" for mm lk e
    proof -
      have f: "fb \<notin> dirty mm" using that f3 by simp
      have "live m3 - {fb} - all_blks es - {?eb} = live m0 \<union> lost m2"
        using l3 nin dj fbd D(4) by auto
      moreover have "dirty m3 - {fb} - all_blks es - {?eb} \<subseteq> dirty m0 \<union> lost m2" using d3 by auto
      moreover have "bared (load_cleanup mm None fb (Some (?eb, lk, es))) \<subseteq> bared m0 \<union> sharing (pages m0) (next_blk mm)"
        using cleanup_entries_bared [OF f, of es "next_blk mm" ?eb lk] ab db eb that o3 by (auto dest: less_le_trans)
      ultimately show ?thesis using cleanup_entries [OF f, of ?eb lk es] that o3 by (simp add: balanced_def)
    qed
    have ld: "load_decode env m fb pb plain mem = (case r2 of
        Inl e \<Rightarrow> (load_cleanup m3 None fb (Some (?eb, False, es)), Inl e)
      | Inr n \<Rightarrow>
          (case mem_mlock env m3 ?eb ?n of
             (mem4, False) \<Rightarrow> (load_cleanup mem4 None fb (Some (?eb, False, es)), Inl KS_ERR_MLOCK)
           | (mem4, True) \<Rightarrow>
               (case mem_malloc env mem4 SIZEOF_KEYSTORE of
                  (mem5, None) \<Rightarrow> (load_cleanup mem5 None fb (Some (?eb, True, es)), Inl KS_ERR_NOMEM)
                | (mem5, Some kb) \<Rightarrow>
                    (load_cleanup mem5 None fb None,
                     Inr \<lparr>ks_blk = kb, entries_blk = ?eb, entries = es, ks_count = n\<rparr>))))"
      unfolding m3_def using True d by (simp add: load_decode_def mem_malloc_def [of env mem] Let_def)
    show ?thesis
    proof (cases r2)
      case (Inl e)
      with ld assms(2) err [of m3 False e] o3(5) show ?thesis by auto
    next
      case (Inr n)
      show ?thesis
      proof (cases "mlock_ok env ?eb ?n")
        case False
        with ld assms(2) Inr err [of m3 False] o3(5) show ?thesis by (auto simp: mem_mlock_def)
      next
        case True
        let ?m4 = "m3\<lparr>locked_pages := locked_pages m3 \<union> pages m3 ?eb\<rparr>"
        let ?kb = "next_blk m3"
        show ?thesis
        proof (cases "malloc_ok env ?kb SIZEOF_KEYSTORE")
          case False
          with True ld assms(2) Inr err [of "?m4\<lparr>next_blk := Suc ?kb\<rparr>" True] o3(5) show ?thesis
            by (auto simp: mem_mlock_def mem_malloc_def Let_def)
        next
          case mk: True
          let ?m5 = "?m4\<lparr>next_blk := Suc ?kb, live := insert ?kb (live m3)\<rparr>"
          let ?k = "\<lparr>ks_blk = ?kb, entries_blk = ?eb, entries = es, ks_count = n\<rparr>"
          have r: "r = Inr ?k" and m: "mem' = load_cleanup ?m5 None fb None"
            using True mk ld assms(2) Inr by (auto simp: mem_mlock_def mem_malloc_def Let_def)
          have f5: "fb \<notin> dirty ?m5" using f3 by simp
          note C = cleanup_plain(6-13) [OF f5]
          have kb: "?kb \<notin> live m0 \<union> lost m2 \<union> all_blks es \<union> dirty m3 \<union> {fb, pb, ?eb}"
          proof -
            have "b < ?kb" if "b \<in> live m0 \<union> lost m2 \<union> all_blks es \<union> dirty m0 \<union> {fb, pb, ?eb}" for b
              using that D(1) D(2) [of b] D(3) [of b] old [of b] R by (auto simp: m3_def)
            then show ?thesis using d3 by blast
          qed
          have lv: "live mem' - all_blks es - {?eb} - {?kb} = live m0 \<union> lost m2"
            unfolding m C(1) using l3 nin dj fbd kb D(4) by auto
          have dv: "dirty mem' - all_blks es - {?eb} - {?kb} \<subseteq> dirty m0 \<union> lost m2"
            unfolding m C(2) using d3 by auto
          have kd: "?kb \<notin> dirty mem'" unfolding m C(2) using kb by auto
          have dm: "dirty mem' \<subseteq> {..<Suc ?kb}" unfolding m C(2) using db o3(5) by auto
          have am: "all_blks (entries ?k) \<subseteq> {..<Suc ?kb}" using ab o3(5) by auto
          have "bared (wp11_keystore_free (Some ?k) mem') \<subseteq> bared mem' \<union> sharing (pages mem') (Suc ?kb)"
            by (rule keystore_free_bared [OF am dm]) (use eb o3(5) in simp_all)
          moreover have "exposed mem' = exposed m0 \<and> bared mem' = bared m0" "pages mem' = pages m0" "next_blk mem' = Suc ?kb" "lost mem' = lost m2"
            unfolding m C(3,4,5,6,8) using o3 by simp_all
          ultimately have "balanced m0 mem' r" using lv dv kd keystore_free_effect [of ?k mem'] by (simp add: balanced_def r)
          moreover have "pages m0 pb \<subseteq> locked_pages mem'" unfolding m C(7) using o3 by auto
          moreover have "pb \<notin> live mem'" unfolding m C(1) using l3 nin fbd kb R by auto
          ultimately show ?thesis by simp
        qed
      qed
    qed
  qed
qed

lemma load_decrypt_mem:
  assumes "fresh_from m0" "lost m0 = {}" "dirty m0 \<subseteq> locked m0" "fb = next_blk m0"
    and "load_decrypt env m cr pin filebuf fb (m0\<lparr>next_blk := Suc fb, live := insert fb (live m0)\<rparr>) = (mem', r)"
  shows "balanced m0 mem' r \<and> (is_ok r \<longrightarrow> pages m0 (Suc fb) \<subseteq> locked_pages mem' \<and> Suc fb \<notin> live mem')"
proof -
  let ?m1 = "m0\<lparr>next_blk := Suc fb, live := insert fb (live m0)\<rparr>"
  let ?pb = "Suc fb"
  have old: "b < fb" if "b \<in> live m0 \<union> dirty m0" for b
    using assms(1,4) that unfolding fresh_from_def by blast
  have fbd: "fb \<notin> dirty m0" "?pb \<notin> dirty m0" "fb \<notin> live m0" "?pb \<notin> live m0" using old [of fb] old [of ?pb] by auto
  have quit: "balanced m0 (load_cleanup mm None fb None) (Inl e)"
    if "live mm = insert fb (live m0)" "dirty mm = dirty m0" "lost mm = {}" "exposed mm = exposed m0 \<and> bared mm = bared m0" for mm e
    using cleanup_plain(6-13) [of fb mm] that fbd by (auto simp: balanced_def)
  have quit_p: "balanced m0 (load_cleanup mm (Some (?pb, lk)) fb None) (Inl e)"
    if "live mm = insert ?pb (insert fb (live m0))" "dirty mm = dirty m0 \<or> dirty mm = insert ?pb (dirty m0)" "lost mm = {}" "exposed mm = exposed m0 \<and> bared mm = bared m0"
      "pages mm = pages m0" "next_blk mm = Suc ?pb"
    for mm lk e
  proof -
    have "dirty mm \<subseteq> {..<Suc ?pb}" 
    proof
      fix x assume "x \<in> dirty mm"
      then show "x \<in> {..<Suc ?pb}" using that(2) old [of x] by auto
    qed
    then have "bared (load_cleanup mm (Some (?pb, lk)) fb None) \<subseteq> bared m0 \<union> sharing (pages m0) (Suc ?pb)"
      using cleanup_plain_bared [of fb mm "Suc ?pb" ?pb lk] that fbd by auto
    with cleanup_plain(1-5) [of fb mm ?pb lk] that fbd show ?thesis by (auto simp: balanced_def)
  qed
  show ?thesis
  proof (cases "check_header filebuf")
    case (Inl e)
    with assms(5) quit [of ?m1 e] assms(2) show ?thesis by (auto simp: load_decrypt_def)
  next
    case (Inr h)
    obtain iter ctlen where h: "h = (iter, ctlen)" by (cases h)
    show ?thesis
    proof (cases "pbkdf2 cr pin (bslice filebuf 5 32) iter")
      case None
      with assms(5) Inr h quit [of ?m1] assms(2) show ?thesis by (auto simp: load_decrypt_def)
    next
      case (Some key)
      note k = this
      show ?thesis
      proof (cases "ctlen = 0 \<or> \<not> malloc_ok env ?pb ctlen")
        case True
        have q1: "balanced m0 (load_cleanup ?m1 None fb None) (Inl KS_ERR_CBOR)" using quit [of ?m1] assms(2) by simp
        have q2: "balanced m0 (load_cleanup (?m1\<lparr>next_blk := Suc ?pb\<rparr>) None fb None) (Inl KS_ERR_NOMEM)"
          using quit [of "?m1\<lparr>next_blk := Suc ?pb\<rparr>"] assms(2) by simp
        show ?thesis
        proof (cases "ctlen = 0")
          case True
          with assms(5) Inr h k have "r = Inl KS_ERR_CBOR" "mem' = load_cleanup ?m1 None fb None"
            by (simp_all add: load_decrypt_def)
          with q1 show ?thesis by simp
        next
          case False
          with \<open>ctlen = 0 \<or> \<not> malloc_ok env ?pb ctlen\<close> assms(5) Inr h k
          have "r = Inl KS_ERR_NOMEM" "mem' = load_cleanup (?m1\<lparr>next_blk := Suc ?pb\<rparr>) None fb None"
            by (simp_all add: load_decrypt_def mem_malloc_def Let_def)
          with q2 show ?thesis by simp
        qed
      next
        case False
        let ?m2 = "?m1\<lparr>next_blk := Suc ?pb, live := insert ?pb (live ?m1)\<rparr>"
        let ?m3 = "?m2\<lparr>locked_pages := locked_pages ?m2 \<union> pages ?m2 ?pb\<rparr>"
        let ?m4 = "mem_write ?m3 ?pb"
        have m4: "live ?m4 = insert ?pb (insert fb (live m0))" "dirty ?m4 = insert ?pb (dirty m0)" "pages ?m4 = pages m0"
          "locked_pages ?m4 = locked_pages m0 \<union> pages m0 ?pb" "exposed ?m4 = exposed m0 \<and> bared ?m4 = bared m0" "lost ?m4 = {}" "next_blk ?m4 = Suc ?pb"
          using assms(2) by (simp_all add: mem_write_def locked_def)
        then have rdy: "plain_ready m0 fb ?pb ?m4" using assms(1-4) by (simp add: plain_ready_def)
        show ?thesis
        proof (cases "mlock_ok env ?pb ctlen \<and> gcm_setkey cr key")
          case False
          with \<open>\<not> (ctlen = 0 \<or> \<not> malloc_ok env ?pb ctlen)\<close> assms(5) Inr h k quit_p [of ?m2 False] quit_p [of ?m3 True] assms(2) show ?thesis
            by (auto simp: load_decrypt_def mem_malloc_def mem_mlock_def Let_def split: if_splits)
        next
          case True
          show ?thesis
          proof (cases "gcm_decrypt cr key (bslice filebuf 41 12) (bslice filebuf P11K_HDR_LEN ctlen)
              (bslice filebuf (P11K_HDR_LEN + ctlen) P11K_TAG_LEN)")
            case None
            with True \<open>\<not> (ctlen = 0 \<or> \<not> malloc_ok env ?pb ctlen)\<close> assms(5) Inr h k quit_p [of ?m4 True] m4 show ?thesis
              by (auto simp: load_decrypt_def mem_malloc_def mem_mlock_def Let_def)
          next
            case (Some plain)
            with True \<open>\<not> (ctlen = 0 \<or> \<not> malloc_ok env ?pb ctlen)\<close> assms(5) Inr h k
            have "load_decode env m fb ?pb plain ?m4 = (mem', r)"
              by (simp add: load_decrypt_def mem_malloc_def mem_mlock_def Let_def)
            from load_decode_mem [OF rdy this] show ?thesis .
          qed
        qed
      qed
    qed
  qed
qed

lemma load_mem:
  assumes "fresh_from m0" "lost m0 = {}" "dirty m0 \<subseteq> locked m0"
    and "wp11_keystore_load env m cr io p pin m0 = Some (mem', r)"
  shows "balanced m0 mem' r \<and> (is_ok r \<longrightarrow> pages m0 (Suc (next_blk m0)) \<subseteq> locked_pages mem' \<and> Suc (next_blk m0) \<notin> live mem')"
proof -
  let ?fb = "next_blk m0"
  have same: "balanced m0 mm (Inl e)" if "live mm = live m0" "dirty mm = dirty m0" "lost mm = {}" "exposed mm = exposed m0 \<and> bared mm = bared m0" for mm e
    using that by (simp add: balanced_def)
  have fbd: "?fb \<notin> dirty m0" "?fb \<notin> live m0"
  proof -
    have "b < ?fb" if "b \<in> live m0 \<union> dirty m0" for b
      using assms(1) that unfolding fresh_from_def by blast
    from this [of ?fb] show "?fb \<notin> dirty m0" "?fb \<notin> live m0" by auto
  qed
  show ?thesis
  proof (cases "p \<and> length pin \<noteq> 0 \<and> \<not> length pin > C_INT_MAX \<and> open_ok io \<and> fstat_ok io
      \<and> \<not> st_size io < P11K_HDR_LEN + P11K_TAG_LEN \<and> \<not> st_size io > P11K_HDR_LEN + KS_MAX_CT_LEN + P11K_TAG_LEN
      \<and> malloc_ok env ?fb (st_size io)")
    case False
    with assms(4) same [of m0] same [of "m0\<lparr>next_blk := Suc ?fb\<rparr>"] assms(2) show ?thesis
      by (auto simp: wp11_keystore_load_def mem_malloc_def Let_def split: if_splits)
  next
    case True
    let ?m1 = "m0\<lparr>next_blk := Suc ?fb, live := insert ?fb (live m0)\<rparr>"
    show ?thesis
    proof (cases "read_all (reads io) [] (st_size io)")
      case None
      with assms(4) True show ?thesis by (simp add: wp11_keystore_load_def mem_malloc_def Let_def)
    next
      case (Some x)
      show ?thesis
      proof (cases x)
        case (Inl e)
        with Some True assms(4) have "mem' = load_cleanup ?m1 None ?fb None" "r = Inl e"
          by (simp_all add: wp11_keystore_load_def mem_malloc_def Let_def)
        with cleanup_plain(6-13) [of ?fb ?m1] fbd assms(2) show ?thesis by (auto simp: balanced_def)
      next
        case (Inr filebuf)
        with Some True assms(4) have "load_decrypt env m cr pin filebuf ?fb ?m1 = (mem', r)"
          by (simp add: wp11_keystore_load_def mem_malloc_def Let_def)
        from load_decrypt_mem [OF assms(1-3) refl this] fbd show ?thesis by blast
      qed
    qed
  qed
qed

section \<open>The image and its header\<close>

lemma build_header_fields:
  assumes "length salt = 32" "length nonce = 12" "n < 4294967296" "img = build_header salt nonce n @ ct @ tag"
    and "length ct = n" "length tag = 16"
  shows "bslice img 0 4 = P11K_MAGIC" "img ! 4 = P11K_VERSION" "bslice img 5 32 = salt" "read_u32be img 37 = KS_KDF_ITERATIONS"
    "bslice img 41 12 = nonce" "read_u32be img 53 = n" "bslice img 57 n = ct" "bslice img (57 + n) 16 = tag"
    "length img = 57 + n + 16"
proof -
  let ?it = "write_u32be KS_KDF_ITERATIONS" and ?n = "write_u32be n"
  have img: "img = P11K_MAGIC @ [P11K_VERSION] @ salt @ ?it @ nonce @ ?n @ ct @ tag"
    using assms(4) by (simp add: build_header_def)
  have l: "length P11K_MAGIC = 4" "length ?it = 4" "length ?n = 4" by (simp_all add: P11K_MAGIC_def str_def write_u32be_def)
  show "bslice img 0 4 = P11K_MAGIC" unfolding img using l(1) by (simp add: bslice_def)
  show "img ! 4 = P11K_VERSION" unfolding img using l(1) by (simp add: nth_append)
  show "bslice img 5 32 = salt"
    using bslice_middle [of "P11K_MAGIC @ [P11K_VERSION]" 5 salt 32 "?it @ nonce @ ?n @ ct @ tag"] l assms(1) by (simp add: img)
  have "bslice img 37 4 = ?it"
    using bslice_middle [of "P11K_MAGIC @ [P11K_VERSION] @ salt" 37 ?it 4 "nonce @ ?n @ ct @ tag"] l assms(1) by (simp add: img)
  then show "read_u32be img 37 = KS_KDF_ITERATIONS"
    using be_val_bytes_4 [of KS_KDF_ITERATIONS] by (simp add: read_u32be_def write_u32be_def KS_KDF_ITERATIONS_def del: be_val.simps)
  show "bslice img 41 12 = nonce"
    using bslice_middle [of "P11K_MAGIC @ [P11K_VERSION] @ salt @ ?it" 41 nonce 12 "?n @ ct @ tag"] l assms(1,2) by (simp add: img)
  have "bslice img 53 4 = ?n"
    using bslice_middle [of "P11K_MAGIC @ [P11K_VERSION] @ salt @ ?it @ nonce" 53 ?n 4 "ct @ tag"] l assms(1,2) by (simp add: img)
  then show "read_u32be img 53 = n"
    using be_val_bytes_4 [OF assms(3)] by (simp add: read_u32be_def write_u32be_def del: be_val.simps)
  show "bslice img 57 n = ct"
    using bslice_middle [of "P11K_MAGIC @ [P11K_VERSION] @ salt @ ?it @ nonce @ ?n" 57 ct n tag] l assms(1,2,5) by (simp add: img)
  show "bslice img (57 + n) 16 = tag"
    using bslice_end [of "P11K_MAGIC @ [P11K_VERSION] @ salt @ ?it @ nonce @ ?n @ ct" "57 + n" tag 16] l assms(1,2,5,6) by (simp add: img)
  show "length img = 57 + n + 16" using l assms(1,2,5,6) by (simp add: img)
qed

lemma check_header_built:
  assumes "length salt = 32" "length nonce = 12" "n \<le> KS_MAX_CT_LEN" "img = build_header salt nonce n @ ct @ tag"
    and "length ct = n" "length tag = 16"
  shows "check_header img = Inr (200000, n)"
proof -
  have "n < 4294967296" using assms(3) by (simp add: KS_MAX_CT_LEN_def)
  from build_header_fields [OF assms(1,2) this assms(4-6)] assms(3) show ?thesis
    by (simp add: check_header_def KS_KDF_ITERATIONS_def KS_MIN_KDF_ITER_def C_INT_MAX_def P11K_HDR_LEN_def P11K_TAG_LEN_def)
qed

text \<open>What the creator writes.\<close>

lemma create_image:
  assumes "wp11_keystore_create env m cr io True path pin (Some keys) (length keys) mem fs = Some (mem', trace, Inr u)"
    and "\<forall>k \<in> set keys. entry_ok k" "gcm_sound cr"
  shows "\<exists>salt nonce key ct tag. rng_salt io = Some salt \<and> rng_nonce io = Some nonce \<and> pbkdf2 cr pin salt 200000 = Some key
     \<and> gcm_setkey cr key \<and> gcm_encrypt cr key nonce (payload_bytes keys) = Some (ct, tag)
     \<and> last trace path = Some (build_header salt nonce (length (payload_bytes keys)) @ ct @ tag)
     \<and> length pin \<noteq> 0 \<and> length pin \<le> C_INT_MAX \<and> length keys \<le> 64"
proof -
  let ?pl = "5 + length keys * (4300 + KS_CERT_MAX + 16)"
  have g: "length pin \<noteq> 0" "length keys \<le> KS_MAX_ENTRIES" "length pin \<le> C_INT_MAX"
    using assms(1) by (auto simp: wp11_keystore_create_def Let_def split: if_splits)
  have enc: "encode_cbor_payload ?pl keys = Inr (payload_bytes keys)"
    using encode_payload_eq [OF assms(2) g(2)] length_payload_bytes [OF assms(2)] by (simp add: KS_CERT_MAX_def)
  from assms(1) g enc obtain parts where sl: "seal cr io pin (payload_bytes keys) = Inr parts"
    and w: "write_file io path parts fs = Some (trace, Inr u)"
    by (auto simp: wp11_keystore_create_def Let_def split: if_splits prod.splits option.splits sum.splits)
  from sl obtain salt nonce key ct tag where "rng_salt io = Some salt" "rng_nonce io = Some nonce"
    "pbkdf2 cr pin salt KS_KDF_ITERATIONS = Some key" "gcm_setkey cr key" "gcm_encrypt cr key nonce (payload_bytes keys) = Some (ct, tag)"
    "parts = [build_header salt nonce (length (payload_bytes keys)), ct, tag]"
    by (auto simp: seal_def split: if_splits option.splits)
  moreover have "last trace path = Some (concat parts)"
    using write_file_final [OF w] by simp
  ultimately show ?thesis using g by (auto simp: KS_KDF_ITERATIONS_def KS_MAX_ENTRIES_def)
qed

lemma payload_bytes_ne: "payload_bytes keys \<noteq> []" "0 < length (payload_bytes keys)"
  using length_cbor_head_bounds(1) [of CBOR_MAJOR_ARRAY "length keys"] by (auto simp: payload_bytes_def)

lemma load_of_image:
  assumes "length salt = 32" "length nonce = 12" "length ct = length plain" "length tag = 16" "0 < length plain" "length plain \<le> KS_MAX_CT_LEN"
    and "img = build_header salt nonce (length plain) @ ct @ tag"
    and "pbkdf2 cr pin salt 200000 = Some key" "gcm_setkey cr key" "gcm_decrypt cr key nonce ct tag = Some plain"
    and "length pin \<noteq> 0" "length pin \<le> C_INT_MAX" "mem_plenty env"
    and "open_ok io" "fstat_ok io" "st_size io = length img" "rd_benign (reads io)" "rd_data (reads io) = img"
  shows "wp11_keystore_load env m cr io True pin mem = Some (load_decode env m (next_blk mem) (Suc (next_blk mem)) plain
     (mem_write (mem\<lparr>next_blk := Suc (Suc (next_blk mem)), live := insert (Suc (next_blk mem)) (insert (next_blk mem) (live mem)),
                    locked_pages := locked_pages mem \<union> pages mem (Suc (next_blk mem))\<rparr>) (Suc (next_blk mem))))"
proof -
  have lt: "length plain < 4294967296" using assms(6) by (simp add: KS_MAX_CT_LEN_def)
  note F = build_header_fields [OF assms(1,2) lt assms(7,3,4)]
  note H = check_header_built [OF assms(1,2,6,7,3,4)]
  have rd: "read_all (reads io) [] (length img) = Some (Inr img)"
    using read_all_data [OF assms(17), of "[]" "length img"] assms(18) by simp
  have mp: "malloc_ok env = (\<lambda>b n. True)" "mlock_ok env = (\<lambda>b n. True)" using assms(13) by (auto simp: mem_plenty_def)
  show ?thesis
    using assms(5,6,8-12,14-16) rd F H mp
    by (simp add: wp11_keystore_load_def mem_malloc_def mem_mlock_def Let_def load_decrypt_def P11K_HDR_LEN_def P11K_TAG_LEN_def)
qed

lemma created_loads:
  assumes "wp11_keystore_create env m cr cio True path pin (Some keys) (length keys) mem fs = Some (mem1, trace, Inr ())"
    and "\<forall>k \<in> set keys. entry_ok k" "length (payload_bytes keys) \<le> 524288" "gcm_sound cr"
    and "\<forall>s. rng_salt cio = Some s \<longrightarrow> length s = 32" "\<forall>n. rng_nonce cio = Some n \<longrightarrow> length n = 12"
    and "mem_plenty env'" "open_ok io" "fstat_ok io" "last trace path = Some (rd_data (reads io))" "st_size io = length (rd_data (reads io))"
    and "rd_benign (reads io)"
  shows "\<exists>mem2 ks. wp11_keystore_load env' m cr io True pin mem' = Some (mem2, Inr ks)
     \<and> wp11_keystore_count (Some ks) = length keys \<and> map entry_view (entries ks) = map entry_view keys"
proof -
  let ?plain = "payload_bytes keys"
  obtain salt nonce key ct tag where c: "rng_salt cio = Some salt" "rng_nonce cio = Some nonce" "pbkdf2 cr pin salt 200000 = Some key"
     "gcm_setkey cr key" "gcm_encrypt cr key nonce ?plain = Some (ct, tag)"
     "last trace path = Some (build_header salt nonce (length ?plain) @ ct @ tag)" "length pin \<noteq> 0" "length pin \<le> C_INT_MAX" "length keys \<le> 64"
    using create_image [OF assms(1,2,4)] by blast
  have g: "length ct = length ?plain" "length tag = 16" "gcm_decrypt cr key nonce ct tag = Some ?plain"
    using assms(4) c(5) unfolding gcm_sound_def by blast+
  have n: "length salt = 32" "length nonce = 12" using assms(5,6) c(1,2) by auto
  have pos: "0 < length ?plain" using payload_bytes_ne by blast
  have le: "length ?plain \<le> KS_MAX_CT_LEN" using assms(3) by (simp add: KS_MAX_CT_LEN_def)
  have img: "rd_data (reads io) = build_header salt nonce (length ?plain) @ ct @ tag" using assms(10) c(6) by simp
  let ?fb = "next_blk mem'"
  define m3 where "m3 = mem_write (mem'\<lparr>next_blk := Suc (Suc ?fb), live := insert (Suc ?fb) (insert ?fb (live mem')),
                    locked_pages := locked_pages mem' \<union> pages mem' (Suc ?fb)\<rparr>) (Suc ?fb)"
  have l: "wp11_keystore_load env' m cr io True pin mem' = Some (load_decode env' m ?fb (Suc ?fb) ?plain m3)"
    unfolding m3_def by (rule load_of_image [OF n g(1,2) pos le img c(3,4) g(3) c(7,8) assms(7,8,9) _ assms(12) refl]) (rule assms(11))
  have mp: "malloc_ok env' = (\<lambda>b n. True)" "mlock_ok env' = (\<lambda>b n. True)" using assms(7) by (auto simp: mem_plenty_def)
  obtain m4 es where "decode_cbor_payload env' m (?plain @ []) (m3\<lparr>next_blk := Suc (next_blk m3), live := insert (next_blk m3) (live m3)\<rparr>)
      = (m4, es, Inr (length keys))" "map entry_view es = map entry_view keys"
    using decode_payload_enc [OF assms(7,2), of m "[]" "m3\<lparr>next_blk := Suc (next_blk m3), live := insert (next_blk m3) (live m3)\<rparr>"] c(9)
    by (auto simp: KS_MAX_ENTRIES_def)
  then have "\<exists>mem2 ks. load_decode env' m ?fb (Suc ?fb) ?plain m3 = (mem2, Inr ks) \<and> ks_count ks = length keys
     \<and> map entry_view (entries ks) = map entry_view keys"
    using mp by (simp add: load_decode_def mem_malloc_def mem_mlock_def Let_def)
  then show ?thesis using l by (auto simp: wp11_keystore_count_def)
qed

text \<open>C1. End to end, a created keystore loads again: if \<open>wp11_keystore_create\<close> succeeds for valid entries
  whose payload is at most 512 KB, then loading the file it left, with the same PIN and however
  the reads are cut or interrupted, succeeds and yields the same keys in the same order.\<close>
theorem keystore_create_load:
  assumes "wp11_keystore_create env m cr cio True path pin (Some keys) (length keys) mem fs = Some (mem1, trace, Inr ())"
    and "\<forall>k \<in> set keys. entry_ok k" "length (payload_bytes keys) \<le> 524288" "gcm_sound cr"
    and "\<forall>s. rng_salt cio = Some s \<longrightarrow> length s = 32" "\<forall>n. rng_nonce cio = Some n \<longrightarrow> length n = 12"
    and "mem_plenty env'" "open_ok io" "fstat_ok io" "last trace path = Some (rd_data (reads io))" "st_size io = length (rd_data (reads io))"
    and "rd_benign (reads io)"
  shows "\<exists>mem2 ks. wp11_keystore_load env' m cr io True pin mem' = Some (mem2, Inr ks)
     \<and> wp11_keystore_count (Some ks) = length keys \<and> map entry_view (entries ks) = map entry_view keys"
  using assms by (rule created_loads)

text \<open>A cipher for the witnesses: the plaintext itself with a constant tag.\<close>

definition plain_crypto :: crypto where
  "plain_crypto = \<lparr>pbkdf2 = (\<lambda>pin salt iter. Some (pin @ salt)), gcm_setkey = (\<lambda>k. True),
     gcm_encrypt = (\<lambda>k n p. Some (p, replicate 16 0)), gcm_decrypt = (\<lambda>k n c t. Some c)\<rparr>"

definition sample_load_io :: "byte list \<Rightarrow> load_io" where
  "sample_load_io img = \<lparr>open_ok = True, fstat_ok = True, st_size = length img, reads = [RD_EINTR, RD_DATA (take 60 img), RD_DATA (drop 60 img)]\<rparr>"

lemma sample_reads:
  assumes "60 < length img"
  shows "rd_data (reads (sample_load_io img)) = img" "rd_benign (reads (sample_load_io img))"
  using assms by (auto simp: rd_data_def rd_benign_def sample_load_io_def)

lemma sample_create:
  assumes "length keys = 1" "\<forall>k \<in> set keys. entry_ok k"
  shows "\<exists>mem1 trace. wp11_keystore_create sample_env (2 ^ 64) plain_crypto sample_io True [0x6B] [0x31] (Some keys) (length keys) mem0 (\<lambda>p. None)
     = Some (mem1, trace, Inr ())"
proof -
  have enc: "encode_cbor_payload 8417 keys = Inr (payload_bytes keys)"
    using encode_payload_eq [OF assms(2)] length_payload_bytes [OF assms(2)] assms(1) by (simp add: KS_MAX_ENTRIES_def)
  have len: "length (payload_bytes keys) \<le> 8417" using length_payload_bytes [OF assms(2)] assms(1) by simp
  have ne: "payload_bytes keys \<noteq> []" using payload_bytes_ne by blast
  have hd: "length (build_header s n l) \<le> 1000" if "length s = 32" "length n = 12" for s n l
    using that by (simp add: build_header_def P11K_MAGIC_def str_def write_u32be_def)
  have hn: "build_header s n l \<noteq> []" "drop 1 (build_header s n l) \<noteq> []" for s n l by (simp_all add: build_header_def P11K_MAGIC_def str_def)
  show ?thesis
    using enc len ne hd [of "replicate 32 1" "replicate 12 2" "length (payload_bytes keys)"] hn assms(1)
    by (simp add: wp11_keystore_create_def sample_env_def mem_malloc_def Let_def KS_CERT_MAX_def KS_MAX_ENTRIES_def C_INT_MAX_def
        seal_def sample_io_def plain_crypto_def C_PATH_MAX_def write_file_def write_all.simps)
qed

theorem keystore_create_load_witness:
  "\<exists>io mem2 ks. wp11_keystore_load sample_env (2 ^ 64) plain_crypto io True [0x31] mem0 = Some (mem2, Inr ks)
     \<and> wp11_keystore_count (Some ks) = 1 \<and> map entry_view (entries ks) = map entry_view [sample_entry]"
proof -
  obtain mem1 trace where c: "wp11_keystore_create sample_env (2 ^ 64) plain_crypto sample_io True [0x6B] [0x31]
      (Some [sample_entry]) (length [sample_entry]) mem0 (\<lambda>p. None) = Some (mem1, trace, Inr ())"
    using sample_create [of "[sample_entry]"] sample_entry_ok by auto
  have snd: "gcm_sound plain_crypto" by (simp add: gcm_sound_def plain_crypto_def)
  obtain img where img: "last trace [0x6B] = Some img" "length img > 60"
    using create_image [OF c _ snd] sample_entry_ok
    by (auto simp: build_header_def P11K_MAGIC_def str_def write_u32be_def plain_crypto_def sample_io_def)
  have r: "rd_data (reads (sample_load_io img)) = img" "rd_benign (reads (sample_load_io img))"
    using img(2) by (auto simp: rd_data_def rd_benign_def sample_load_io_def)
  have "length (payload_bytes [sample_entry]) \<le> 524288"
    using length_payload_bytes [of "[sample_entry]"] sample_entry_ok by simp
  from keystore_create_load [OF c _ this snd, of sample_env "sample_load_io img" mem0] r img(1) sample_entry_ok
  obtain mem2 ks where "wp11_keystore_load sample_env (2 ^ 64) plain_crypto (sample_load_io img) True [0x31] mem0 = Some (mem2, Inr ks)"
    "wp11_keystore_count (Some ks) = length [sample_entry]" "map entry_view (entries ks) = map entry_view [sample_entry]"
    by (auto simp: sample_io_def mem_plenty_def sample_env_def sample_load_io_def)
  then show ?thesis by (intro exI conjI) (assumption, simp_all)
qed

lemma decode_count_bound:
  "decode_cbor_payload env m plain mem = (mem', es, Inr n) \<Longrightarrow> n \<le> 64"
proof -
  assume a: "decode_cbor_payload env m plain mem = (mem', es, Inr n)"
  then obtain k major c where h: "cbor_read_head plain 0 = Inr (k, major, c)"
    by (auto simp: decode_cbor_payload_def split: sum.splits)
  then have g: "major = CBOR_MAJOR_ARRAY" "c \<le> 64"
    using a by (simp_all add: decode_cbor_payload_def KS_MAX_ENTRIES_def split: if_splits)
  obtain mem2 es2 r where d: "decode_entries env m plain c k mem = (mem2, es2, r)" by (metis prod_cases3)
  then have "n = c" using a h g by (cases r) (simp_all add: decode_cbor_payload_def KS_MAX_ENTRIES_def)
  with g show ?thesis by simp
qed

text \<open>What was loaded consists of entries within the field limits.\<close>

lemma loaded_entries_ok:
  assumes "wp11_keystore_load env m cr io p pin m0 = Some (mem', Inr k)"
  shows "length (entries k) = ks_count k" "ks_count k \<le> 64" "\<forall>e \<in> set (entries k). entry_ok e"
proof -
  from assms obtain mm fb img where "load_decrypt env m cr pin img fb mm = (mem', Inr k)"
    by (auto simp: wp11_keystore_load_def split: if_splits prod.splits option.splits sum.splits)
  then obtain plain pb m3 where d: "load_decode env m fb pb plain m3 = (mem', Inr k)"
    by (auto simp: load_decrypt_def Let_def split: if_splits prod.splits option.splits sum.splits bool.splits)
  obtain m4 eb where "mem_malloc env m3 (KS_MAX_ENTRIES * SIZEOF_KEY_ENTRY) = (m4, Some eb)"
    using d by (auto simp: load_decode_def split: prod.splits option.splits)
  moreover obtain m5 es r where dc: "decode_cbor_payload env m plain m4 = (m5, es, r)" by (metis prod_cases3)
  ultimately have "r = Inr (ks_count k) \<and> entries k = es"
    using d by (cases r) (auto simp: load_decode_def Let_def split: prod.splits option.splits bool.splits)
  with dc decode_only_valid show "length (entries k) = ks_count k" "ks_count k \<le> 64" "\<forall>e \<in> set (entries k). entry_ok e" by blast+
qed

lemma sample_loadable:
  "\<exists>img. 60 < length img \<and> (\<exists>mem' k. wp11_keystore_load sample_env (2 ^ 64) plain_crypto (sample_load_io img) True [0x31] mem0 = Some (mem', Inr k))"
proof -
  define img where "img = build_header (replicate 32 1) (replicate 12 2) (length [0x80 :: byte]) @ [0x80] @ replicate 16 0"
  have pl: "mem_plenty sample_env" by (simp add: mem_plenty_def sample_env_def)
  have "60 < length img" by (simp add: img_def build_header_def P11K_MAGIC_def str_def write_u32be_def)
  note sr = sample_reads [OF this]
  have l: "wp11_keystore_load sample_env (2 ^ 64) plain_crypto (sample_load_io img) True [0x31] mem0
      = Some (load_decode sample_env (2 ^ 64) (next_blk mem0) (Suc (next_blk mem0)) [0x80]
     (mem_write (mem0\<lparr>next_blk := Suc (Suc (next_blk mem0)), live := insert (Suc (next_blk mem0)) (insert (next_blk mem0) (live mem0)),
                    locked_pages := locked_pages mem0 \<union> pages mem0 (Suc (next_blk mem0))\<rparr>) (Suc (next_blk mem0))))"
    using pl sr
    by (intro load_of_image [where ct = "[0x80]" and salt = "replicate 32 1" and nonce = "replicate 12 2" and tag = "replicate 16 0" and img = img])
      (simp_all add: plain_crypto_def KS_MAX_CT_LEN_def C_INT_MAX_def img_def, simp_all add: sample_load_io_def)
  have "is_ok (snd (load_decode sample_env m fb pb [0x80] mem))" for m fb pb mem
    by (simp add: load_decode_def sample_env_def mem_malloc_def mem_mlock_def Let_def decode_cbor_payload_def cbor_read_head_def cbor_consts)
  then have "\<exists>mem' k. wp11_keystore_load sample_env (2 ^ 64) plain_crypto (sample_load_io img) True [0x31] mem0 = Some (mem', Inr k)"
    using l by (metis prod.collapse)
  with \<open>60 < length img\<close> show ?thesis by blast
qed

lemma sample_created:
  "\<exists>img mem' k. 60 < length img
     \<and> wp11_keystore_load sample_env (2 ^ 64) plain_crypto (sample_load_io img) True [0x31] mem0 = Some (mem', Inr k)
     \<and> map entry_view (entries k) = [entry_view sample_entry]"
proof -
  obtain mem1 trace where c: "wp11_keystore_create sample_env (2 ^ 64) plain_crypto sample_io True [0x6B] [0x31]
      (Some [sample_entry]) (length [sample_entry]) mem0 (\<lambda>p. None) = Some (mem1, trace, Inr ())"
    using sample_create [of "[sample_entry]"] sample_entry_ok by auto
  have snd: "gcm_sound plain_crypto" by (simp add: gcm_sound_def plain_crypto_def)
  obtain img where img: "last trace [0x6B] = Some img" "length img > 60"
    using create_image [OF c _ snd] sample_entry_ok
    by (auto simp: build_header_def P11K_MAGIC_def str_def write_u32be_def plain_crypto_def sample_io_def)
  have "length (payload_bytes [sample_entry]) \<le> 524288"
    using length_payload_bytes [of "[sample_entry]"] sample_entry_ok by simp
  from created_loads [OF c _ this snd, of sample_env "sample_load_io img" mem0] sample_reads [OF img(2)] img sample_entry_ok
  show ?thesis by (auto simp: sample_io_def mem_plenty_def sample_env_def sample_load_io_def)
qed

text \<open>C2. Loading is balanced and discloses no key but through a shared page: from a clean state, for any file, PIN, failing
  allocation or \<open>mlock\<close>, any outcome and any placement of the blocks on pages, every heap block that receives key material is locked
  before it is written and wiped before it is unlocked or freed, on every path and by \<open>wp11_keystore_free\<close> after a success; since
  \<open>munlock\<close> unlocks whole pages, the \<open>munlock\<close>s of an error path and of that function may bare a key that is not wiped yet, but only one that lies on
  a page with another block (they do: \<open>keystore_free_bares_neighbour\<close>), and a successful load bares none; on an error everything
  allocated is given back, and after a success \<open>wp11_keystore_free\<close> gives it back, except blocks lost to a repeated map key.  The
  derived key on the stack, which the code wipes but does not lock, is no block of this memory.\<close>
theorem keystore_load_balanced:
  assumes "wp11_keystore_load env m cr io p pin m0 = Some (mem', r)"
    and "fresh_from m0" "lost m0 = {}" "dirty m0 = {}"
  shows "exposed mem' = exposed m0 \<and>
     (case r of
        Inl e \<Rightarrow> live mem' = live m0 \<union> lost mem' \<and> dirty mem' \<subseteq> lost mem' \<and> bared mem' \<subseteq> bared m0 \<union> sharing (pages m0) (next_blk mem')
      | Inr k \<Rightarrow> bared mem' = bared m0 \<and> live (wp11_keystore_free (Some k) mem') = live m0 \<union> lost mem'
           \<and> dirty (wp11_keystore_free (Some k) mem') \<subseteq> lost mem' \<and> exposed (wp11_keystore_free (Some k) mem') = exposed m0
           \<and> bared (wp11_keystore_free (Some k) mem') \<subseteq> bared m0 \<union> sharing (pages m0) (next_blk mem'))"
  using load_mem [OF assms(2,3) _ assms(1)] assms(4)
  by (auto simp: balanced_def Let_def split: sum.splits)

theorem keystore_load_balanced_witness:
  "\<exists>img mem' k. wp11_keystore_load sample_env (2 ^ 64) plain_crypto (sample_load_io img) True [0x31] mem0 = Some (mem', Inr k)
     \<and> map entry_view (entries k) = [entry_view sample_entry] \<and> exposed mem' = {}
     \<and> live (wp11_keystore_free (Some k) mem') = lost mem' \<and> exposed (wp11_keystore_free (Some k) mem') = {}
     \<and> bared (wp11_keystore_free (Some k) mem') = {}"
proof -
  obtain img mem' k where w: "wp11_keystore_load sample_env (2 ^ 64) plain_crypto (sample_load_io img) True [0x31] mem0 = Some (mem', Inr k)"
    and v: "map entry_view (entries k) = [entry_view sample_entry]" using sample_created by (elim exE conjE) (rule that)
  have "sharing (pages mem0) n = {}" for n by (auto simp: sharing_def mem0_def)
  with keystore_load_balanced [OF w] have e: "exposed mem' = {} \<and> live (wp11_keystore_free (Some k) mem') = lost mem'
     \<and> exposed (wp11_keystore_free (Some k) mem') = {} \<and> bared (wp11_keystore_free (Some k) mem') = {}" by (auto simp: mem0_def fresh_from_def)
  show ?thesis by (rule exI [of _ img], rule exI [of _ mem'], rule exI [of _ k]) (rule conjI [OF w conjI [OF v e]])
qed

lemma free_entries_bares_more: "bared mem \<subseteq> bared (free_entries mem es)"
proof (induction es arbitrary: mem)
  case Nil
  show ?case by (simp add: free_entries_def)
next
  case (Cons e es)
  have "bared mem \<subseteq> bared (free_key_entry mem e)"
    by (auto simp: free_key_entry_def mem_defs split: option.splits)
  with Cons.IH [of "free_key_entry mem e"] show ?case by (auto simp: free_entries_Cons)
qed

text \<open>Freeing a keystore bares the keys it has not wiped yet: the keys are wiped, unlocked and freed one after the other,
  so when the first key's block lies on a page with a later key's, its \<open>munlock\<close> unlocks that page while the later key is still there.\<close>
theorem keystore_free_bares_neighbour:
  assumes "entries k = e1 # es" "der_bytes e1 = Some (b1, d1)" "e2 \<in> set es" "der_bytes e2 = Some (b2, d2)"
    and "b2 \<in> dirty mem" "b2 \<noteq> b1" "pages mem b1 \<inter> pages mem b2 \<noteq> {}"
  shows "b2 \<in> bared (wp11_keystore_free (Some k) mem)"
proof -
  have "b2 \<in> bared (free_key_entry mem e1)"
    using assms(2,5-7) by (auto simp: free_key_entry_def mem_defs split: option.splits)
  then have "b2 \<in> bared (free_entries mem (entries k))"
    using free_entries_bares_more [of "free_key_entry mem e1" es] by (auto simp: assms(1) free_entries_Cons)
  then show ?thesis by (auto simp: wp11_keystore_free_def mem_defs)
qed

theorem keystore_free_bares_neighbour_witness:
  "1 \<in> bared (wp11_keystore_free (Some \<lparr>ks_blk = 3, entries_blk = 2,
       entries = [sample_entry, sample_entry\<lparr>der_bytes := Some (1, [0x30, 0x02])\<rparr>], ks_count = 2\<rparr>)
     \<lparr>next_blk = 4, live = {0, 1, 2, 3}, pages = (\<lambda>b. {b div 2}), locked_pages = {0, 1}, dirty = {0, 1}, exposed = {}, bared = {}, lost = {}\<rparr>)"
  by (rule keystore_free_bares_neighbour [where ?e1.0 = sample_entry and ?b1.0 = 0 and ?d1.0 = "[0x30, 0x01]"
      and es = "[sample_entry\<lparr>der_bytes := Some (1, [0x30, 0x02])\<rparr>]" and ?e2.0 = "sample_entry\<lparr>der_bytes := Some (1, [0x30, 0x02])\<rparr>"
      and ?d2.0 = "[0x30, 0x02]"]) (simp_all add: sample_entry_def)

text \<open>Every successful load leaks a memory lock: the plaintext block, the second one allocated, is freed without \<open>munlock\<close>, so
  its pages stay locked although it is no longer allocated, contrary to the rule the
  code states for its cleanup.\<close>
theorem keystore_load_leaks_lock:
  assumes "wp11_keystore_load env m cr io p pin m0 = Some (mem', Inr k)"
    and "fresh_from m0" "lost m0 = {}" "dirty m0 \<subseteq> locked m0"
  shows "pages m0 (Suc (next_blk m0)) \<subseteq> locked_pages mem' \<and> Suc (next_blk m0) \<notin> live mem'"
  using load_mem [OF assms(2,3,4,1)] by auto

theorem keystore_load_leaks_lock_witness:
  "\<exists>mem' k img. wp11_keystore_load sample_env (2 ^ 64) plain_crypto (sample_load_io img) True [0x31] mem0 = Some (mem', Inr k)
     \<and> 1 \<in> locked_pages mem' \<and> 1 \<notin> live mem'"
proof -
  obtain img mem' k where w: "wp11_keystore_load sample_env (2 ^ 64) plain_crypto (sample_load_io img) True [0x31] mem0 = Some (mem', Inr k)"
    using sample_loadable by blast
  from keystore_load_leaks_lock [OF w] w show ?thesis by (auto simp: mem0_def fresh_from_def)
qed

text \<open>C23. No key without authentication: a keystore is returned only for a file with the right magic and version whose
  iteration count is at least 100000 and fits an \<open>int\<close>, whose ciphertext the file really holds,
  and whose AES-GCM decryption under the key derived from the PIN with that salt and count succeeded; the entries are those
  decoded from that plaintext, at most 64.\<close>
theorem keystore_load_authenticated:
  assumes "wp11_keystore_load env m cr io p pin m0 = Some (mem', Inr k)"
  shows "\<exists>img iter ctlen key plain mem1 mem2.
     read_all (reads io) [] (st_size io) = Some (Inr img) \<and> bslice img 0 4 = P11K_MAGIC \<and> img ! 4 = 1
     \<and> 100000 \<le> iter \<and> iter \<le> 2147483647 \<and> iter = read_u32be img 37 \<and> ctlen = read_u32be img 53
     \<and> 0 < ctlen \<and> ctlen \<le> 524288 \<and> 57 + ctlen + 16 \<le> length img
     \<and> pin \<noteq> [] \<and> pbkdf2 cr pin (bslice img 5 32) iter = Some key
     \<and> gcm_decrypt cr key (bslice img 41 12) (bslice img 57 ctlen) (bslice img (57 + ctlen) 16) = Some plain
     \<and> decode_cbor_payload env m plain mem1 = (mem2, entries k, Inr (ks_count k)) \<and> ks_count k \<le> 64"
proof -
  from assms obtain mm fb img where rd: "read_all (reads io) [] (st_size io) = Some (Inr img)" and pin: "length pin \<noteq> 0"
    and ld: "load_decrypt env m cr pin img fb mm = (mem', Inr k)"
    by (auto simp: wp11_keystore_load_def split: if_splits prod.splits option.splits sum.splits)
  from ld obtain iter ctlen key plain pb m3 where h: "check_header img = Inr (iter, ctlen)"
    and k: "pbkdf2 cr pin (bslice img 5 32) iter = Some key" and z: "ctlen \<noteq> 0"
    and g: "gcm_decrypt cr key (bslice img 41 12) (bslice img P11K_HDR_LEN ctlen) (bslice img (P11K_HDR_LEN + ctlen) P11K_TAG_LEN) = Some plain"
    and d: "load_decode env m fb pb plain m3 = (mem', Inr k)"
    by (auto simp: load_decrypt_def Let_def split: if_splits prod.splits option.splits sum.splits bool.splits)
  obtain m4 eb where "mem_malloc env m3 (KS_MAX_ENTRIES * SIZEOF_KEY_ENTRY) = (m4, Some eb)"
    using d by (auto simp: load_decode_def split: prod.splits option.splits)
  moreover obtain m5 es r where dc: "decode_cbor_payload env m plain m4 = (m5, es, r)" by (metis prod_cases3)
  ultimately have "r = Inr (ks_count k) \<and> entries k = es"
    using d by (cases r) (auto simp: load_decode_def Let_def split: prod.splits option.splits bool.splits)
  moreover from this dc have "ks_count k \<le> 64" using decode_count_bound by blast
  moreover from h have "bslice img 0 4 = P11K_MAGIC \<and> img ! 4 = 1 \<and> 100000 \<le> iter \<and> iter \<le> 2147483647
      \<and> iter = read_u32be img 37 \<and> ctlen = read_u32be img 53 \<and> ctlen \<le> 524288 \<and> 57 + ctlen + 16 \<le> length img"
    by (auto simp: check_header_def Let_def P11K_VERSION_def KS_MIN_KDF_ITER_def C_INT_MAX_def KS_MAX_CT_LEN_def P11K_HDR_LEN_def P11K_TAG_LEN_def
        split: if_splits)
  ultimately show ?thesis using rd pin k z g dc
    by - (rule exI [of _ img], rule exI [of _ iter], rule exI [of _ ctlen], rule exI [of _ key], rule exI [of _ plain],
        rule exI [of _ m4], rule exI [of _ m5], simp add: P11K_HDR_LEN_def P11K_TAG_LEN_def)
qed

theorem keystore_load_authenticated_witness:
  "\<exists>mem' k img. wp11_keystore_load sample_env (2 ^ 64) plain_crypto (sample_load_io img) True [0x31] mem0 = Some (mem', Inr k)
     \<and> 100000 \<le> read_u32be img 37 \<and> ks_count k \<le> 64"
proof -
  obtain img where l: "60 < length img" "\<exists>mem' k. wp11_keystore_load sample_env (2 ^ 64) plain_crypto (sample_load_io img) True [0x31] mem0 = Some (mem', Inr k)"
    using sample_loadable by blast
  then obtain mem' k where w: "wp11_keystore_load sample_env (2 ^ 64) plain_crypto (sample_load_io img) True [0x31] mem0 = Some (mem', Inr k)" by blast
  have "read_all (reads (sample_load_io img)) [] (st_size (sample_load_io img)) = Some (Inr img)"
    using read_all_data [of "reads (sample_load_io img)" "[]" "length img"] sample_reads [OF l(1)] by (simp add: sample_load_io_def)
  with keystore_load_authenticated [OF w] w show ?thesis by auto
qed

end
