(* ===== verification/Pkcs11State.thy ===== *)
theory Pkcs11State imports TokenDb OpenPgp KeystoreCorrect begin

text \<open>
  The global state of the PKCS#11 layer (\<open>src/wp11_pkcs11.c\<close>): sessions, key objects, slots, the hotplug queue, with
  the handle checks and the small mechanism tables.  A pointer into one of the three static tables is an
  index; \<open>NULL\<close> is \<open>None\<close>.  What the tables point to outside themselves is in explicit heaps: keystores in
  the memory state of the keystore (\<open>ks_mem\<close>), open CCID contexts in \<open>ccids\<close>, reference counts of the
  backends' key objects in \<open>privs\<close>.  All public functions hold \<open>g_lock\<close> from entry to exit, so each is one atomic
  step on this state.
\<close>

section \<open>Return codes and constants\<close>

datatype CK_RV =
    CKR_OK | CKR_HOST_MEMORY | CKR_SLOT_ID_INVALID | CKR_GENERAL_ERROR | CKR_FUNCTION_FAILED | CKR_ARGUMENTS_BAD
  | CKR_NO_EVENT | CKR_ATTRIBUTE_READ_ONLY | CKR_ATTRIBUTE_TYPE_INVALID | CKR_ATTRIBUTE_SENSITIVE | CKR_DEVICE_ERROR
  | CKR_DEVICE_MEMORY | CKR_FUNCTION_NOT_SUPPORTED | CKR_KEY_HANDLE_INVALID | CKR_KEY_TYPE_INCONSISTENT
  | CKR_MECHANISM_INVALID | CKR_MECHANISM_PARAM_INVALID | CKR_OBJECT_HANDLE_INVALID | CKR_OPERATION_ACTIVE
  | CKR_OPERATION_NOT_INITIALIZED | CKR_PIN_INCORRECT | CKR_PIN_LEN_RANGE | CKR_SESSION_COUNT
  | CKR_SESSION_HANDLE_INVALID | CKR_SESSION_PARALLEL_NOT_SUPPORTED | CKR_SESSION_READ_ONLY_EXISTS
  | CKR_SESSION_READ_WRITE_SO_EXISTS | CKR_TOKEN_NOT_PRESENT | CKR_USER_ALREADY_LOGGED_IN
  | CKR_USER_ANOTHER_ALREADY_LOGGED_IN | CKR_USER_NOT_LOGGED_IN | CKR_USER_PIN_NOT_INITIALIZED
  | CKR_USER_TYPE_INVALID | CKR_BUFFER_TOO_SMALL | CKR_CRYPTOKI_NOT_INITIALIZED | CKR_CRYPTOKI_ALREADY_INITIALIZED
  | CKR_KEY_SIZE_RANGE | CKR_KEY_INDIGESTIBLE | CKR_DATA_LEN_RANGE | CKR_ENCRYPTED_DATA_LEN_RANGE
  | CKR_ENCRYPTED_DATA_INVALID | CKR_SIGNATURE_INVALID | CKR_SIGNATURE_LEN_RANGE | CKR_ACTION_PROHIBITED
  | CKR_TEMPLATE_INCOMPLETE | CKR_ATTRIBUTE_VALUE_INVALID | CKR_RANDOM_SEED_NOT_SUPPORTED

type_synonym CK_FLAGS = "64 word"

definition CKF_RW_SESSION :: CK_FLAGS where "CKF_RW_SESSION = 0x2"
definition CKF_SERIAL_SESSION :: CK_FLAGS where "CKF_SERIAL_SESSION = 0x4"
definition CKF_DONT_BLOCK :: CK_FLAGS where "CKF_DONT_BLOCK = 0x1"

datatype CK_STATE =
    CKS_RO_PUBLIC_SESSION | CKS_RO_USER_FUNCTIONS | CKS_RW_PUBLIC_SESSION | CKS_RW_USER_FUNCTIONS | CKS_RW_SO_FUNCTIONS

definition CKU_SO :: nat where "CKU_SO = 0"
definition CKU_USER :: nat where "CKU_USER = 1"

definition CKO_DATA :: nat where "CKO_DATA = 0"
definition CKO_CERTIFICATE :: nat where "CKO_CERTIFICATE = 1"
definition CKO_PUBLIC_KEY :: nat where "CKO_PUBLIC_KEY = 2"
definition CKO_PRIVATE_KEY :: nat where "CKO_PRIVATE_KEY = 3"
definition CKO_SECRET_KEY :: nat where "CKO_SECRET_KEY = 4"

definition CKK_RSA :: nat where "CKK_RSA = 0x00"
definition CKK_EC :: nat where "CKK_EC = 0x03"
definition CKK_GENERIC_SECRET :: nat where "CKK_GENERIC_SECRET = 0x10"
definition CKK_DES :: nat where "CKK_DES = 0x13"
definition CKK_DES3 :: nat where "CKK_DES3 = 0x15"
definition CKK_EC_EDWARDS :: nat where "CKK_EC_EDWARDS = 0x40"
definition CKK_AES :: nat where "CKK_AES = 0x1F"

definition MAX_SESSIONS :: nat where "MAX_SESSIONS = 8"
definition MAX_SLOTS :: nat where "MAX_SLOTS = 16"
definition MAX_KEYS :: nat where "MAX_KEYS = 64"
definition FIND_TMPL_MAX_ATTRS :: nat where "FIND_TMPL_MAX_ATTRS = 8"
definition FIND_ATTR_MAX_VAL_LEN :: nat where "FIND_ATTR_MAX_VAL_LEN = 64"

lemmas table_sizes = MAX_SESSIONS_def MAX_SLOTS_def MAX_KEYS_def

text \<open>Which optional backends the library is built with.  The model is the build without the wolfHSM backend.\<close>

record wp11_cfg =
  CFG_USB :: bool
  CFG_USB_FLASH :: bool
  CFG_FSDIR :: bool

section \<open>Sessions\<close>

record wp11_find_attr =
  fa_type :: nat
  fa_len :: nat
  fa_val :: "byte list"

text \<open>
  \<open>find_tmpl\<close> is the first \<open>find_tmpl_count\<close> entries; the parsed parameters of PSS and OAEP are \<open>None\<close> until the
  first \<open>Init\<close> function stores them.  A wolfCrypt context is a structure of that library: the model has its memory
  image, which only wolfCrypt's functions, parameters of the model, produce and read.
\<close>

type_synonym wc_ctx = "byte list"

datatype wc_hash = WC_HASH_SHA | WC_HASH_SHA224 | WC_HASH_SHA256 | WC_HASH_SHA384 | WC_HASH_SHA512
datatype wc_mgf = WC_MGF1SHA1 | WC_MGF1SHA224 | WC_MGF1SHA256 | WC_MGF1SHA384 | WC_MGF1SHA512

record gcm_params =
  gcm_iv :: "byte list"
  gcm_aad :: "byte list"
  gcm_tag_bits :: nat

record wp11_session =
  s_in_use :: bool
  s_slot_id :: nat
  s_flags :: CK_FLAGS
  s_state :: CK_STATE
  s_logged_in :: nat
  sign_active :: bool
  sign_mech :: nat
  sign_key :: nat
  verify_active :: bool
  verify_mech :: nat
  verify_key :: nat
  decrypt_active :: bool
  decrypt_oneshot :: bool
  decrypt_multipart :: bool
  decrypt_mech :: nat
  decrypt_key :: nat
  dec_ctx :: wc_ctx
  encrypt_active :: bool
  encrypt_oneshot :: bool
  encrypt_multipart :: bool
  encrypt_mech :: nat
  encrypt_key :: nat
  enc_ctx :: wc_ctx
  gcm_enc :: gcm_params
  gcm_dec :: gcm_params
  oaep_enc :: "(wc_hash \<times> wc_mgf \<times> byte list) option"
  oaep_dec :: "(wc_hash \<times> wc_mgf \<times> byte list) option"
  digest_active :: bool
  digest_oneshot :: bool
  digest_multipart :: bool
  digest_mech :: nat
  dig_ctx :: wc_ctx
  find_active :: bool
  find_pos :: nat
  find_tmpl :: "wp11_find_attr list"
  pss_sign :: "(wc_hash \<times> wc_mgf \<times> int) option"
  pss_verify :: "(wc_hash \<times> wc_mgf \<times> int) option"

text \<open>\<open>memset(&g_sessions[i], 0, ...)\<close>; \<open>CKS_RO_PUBLIC_SESSION\<close> is 0.\<close>

definition zero_gcm :: gcm_params where
  "zero_gcm = \<lparr>gcm_iv = [], gcm_aad = [], gcm_tag_bits = 0\<rparr>"

definition zero_session :: wp11_session where
  "zero_session = \<lparr>s_in_use = False, s_slot_id = 0, s_flags = 0, s_state = CKS_RO_PUBLIC_SESSION, s_logged_in = 0,
     sign_active = False, sign_mech = 0, sign_key = 0, verify_active = False, verify_mech = 0, verify_key = 0,
     decrypt_active = False, decrypt_oneshot = False, decrypt_multipart = False, decrypt_mech = 0, decrypt_key = 0, dec_ctx = [],
     encrypt_active = False, encrypt_oneshot = False, encrypt_multipart = False, encrypt_mech = 0, encrypt_key = 0, enc_ctx = [],
     gcm_enc = zero_gcm, gcm_dec = zero_gcm, oaep_enc = None, oaep_dec = None,
     digest_active = False, digest_oneshot = False, digest_multipart = False, digest_mech = 0, dig_ctx = [],
     find_active = False, find_pos = 0, find_tmpl = [], pss_sign = None, pss_verify = None\<rparr>"

section \<open>Key objects\<close>

text \<open>The address of the operations table; \<open>free_key_priv\<close> is \<open>NULL\<close> in those of the keystore backends.\<close>

datatype backend_ops = wp11_backend_soft_ops | wp11_backend_usb_ops | wp11_backend_flash_ops | wp11_backend_fsdir_ops

fun has_free_key_priv :: "backend_ops \<Rightarrow> bool" where
  "has_free_key_priv wp11_backend_soft_ops = True"
| "has_free_key_priv wp11_backend_usb_ops = True"
| "has_free_key_priv wp11_backend_flash_ops = False"
| "has_free_key_priv wp11_backend_fsdir_ops = False"

text \<open>
  \<open>key_priv\<close>: an object of a backend's own heap (\<open>wp11_soft_key_t\<close>, or \<open>wp11_usb_key_priv_t\<close> with the CCID
  context, PIV slot and algorithm), or a pointer into the entries block of a keystore.
\<close>

datatype key_priv =
    SoftKey nat
  | UsbKey nat nat byte byte
  | KsEntry nat wp11_key_entry

text \<open>
  What such a pointer points to in the heap \<open>privs\<close>: a soft key with its reference count, type tag and the
  memory image of the initialised wolfCrypt key, or the private part of a PIV key.
\<close>

definition WP11_SOFT_KEY_ECC :: nat where "WP11_SOFT_KEY_ECC = 1"
definition WP11_SOFT_KEY_RSA :: nat where "WP11_SOFT_KEY_RSA = 2"
definition WP11_SOFT_KEY_ED25519 :: nat where "WP11_SOFT_KEY_ED25519 = 3"

record wp11_soft_key =
  sk_ref_count :: nat
  sk_key_type :: nat
  sk_image :: wc_ctx

datatype priv_obj = SoftObj wp11_soft_key | UsbObj

record wp11_key_obj =
  k_in_use :: bool
  k_slot_id :: nat
  obj_class :: nat
  k_key_type :: nat
  key_priv :: "key_priv option"
  sig_len_max :: nat
  k_label :: "byte list"
  application :: "byte list"
  ops :: "backend_ops option"
  k_id :: "byte list"
  is_private :: bool
  is_token :: bool
  cert_der :: "byte list option"
  secret :: "byte list option"
  is_sensitive :: bool
  is_extractable :: bool
  always_sensitive :: bool
  never_extractable :: bool
  is_local :: bool
  key_gen_mech :: nat

definition zero_key :: wp11_key_obj where
  "zero_key = \<lparr>k_in_use = False, k_slot_id = 0, obj_class = 0, k_key_type = 0, key_priv = None, sig_len_max = 0,
     k_label = [], application = [], ops = None, k_id = [], is_private = False, is_token = False, cert_der = None,
     secret = None, is_sensitive = False, is_extractable = False, always_sensitive = False,
     never_extractable = False, is_local = False, key_gen_mech = 0\<rparr>"

section \<open>Slots\<close>

text \<open>\<open>ccid\<close> is a pointer into the heap of open contexts; \<open>soft_pin\<close> holds the bytes up to \<open>soft_pin_len\<close>.\<close>

record wp11_slot =
  sl_in_use :: bool
  token_present :: bool
  sl_vid :: u16
  sl_pid :: u16
  sl_label :: "byte list"
  sl_proto :: wp11_proto
  ccid :: "nat option"
  keystore_path :: "byte list"
  keystore :: "wp11_keystore option"
  soft_pin :: "byte list"
  soft_pin_locked :: bool
  pin_fail_count :: nat

definition zero_slot :: wp11_slot where
  "zero_slot = \<lparr>sl_in_use = False, token_present = False, sl_vid = 0, sl_pid = 0, sl_label = [], sl_proto = PROTO_SOFT,
     ccid = None, keystore_path = [], keystore = None, soft_pin = [], soft_pin_locked = False, pin_fail_count = 0\<rparr>"

section \<open>The hotplug queue\<close>

record wp11_hotplug_event =
  ev_slot :: nat
  ev_arrived :: bool

record hotplug_q =
  g_hotplug_queue :: "wp11_hotplug_event list"
  g_hotplug_head :: nat
  g_hotplug_tail :: nat
  g_hotplug_dropped :: nat

section \<open>The whole state\<close>

record 'd wp11_state =
  g_lock_ready :: bool
  g_initialized :: bool
  g_sessions :: "wp11_session list"
  g_keys :: "wp11_key_obj list"
  g_slots :: "wp11_slot list"
  g_hotplug_mutex_ready :: bool
  hq :: hotplug_q
  heap :: ks_mem
  ccids :: "nat \<Rightarrow> 'd wp11_ccid_ctx option"
  ccid_next :: nat
  privs :: "nat \<Rightarrow> priv_obj option"
  priv_next :: nat
  g_usb_ctx :: bool
  g_event_thread_running :: bool
  g_flash_thread_running :: bool
  g_flash_wake_pipe :: bool
  g_fsdir_thread_running :: bool
  g_fsdir_wake_pipe :: bool
  g_fsdir_path :: "byte list"

section \<open>Handles\<close>

definition session_handle_valid :: "'d wp11_state \<Rightarrow> nat \<Rightarrow> bool" where
  "session_handle_valid st h =
     (if h = 0 \<or> h > MAX_SESSIONS then False else s_in_use (g_sessions st ! (h - 1)))"

definition session_get :: "'d wp11_state \<Rightarrow> nat \<Rightarrow> nat option" where
  "session_get st h = (if \<not> session_handle_valid st h then None else Some (h - 1))"

definition key_handle_valid :: "'d wp11_state \<Rightarrow> nat \<Rightarrow> bool" where
  "key_handle_valid st h =
     (if h = 0 \<or> h > MAX_KEYS then False else k_in_use (g_keys st ! (h - 1)))"

definition key_get :: "'d wp11_state \<Rightarrow> nat \<Rightarrow> nat option" where
  "key_get st h = (if \<not> key_handle_valid st h then None else Some (h - 1))"

definition slot_valid :: "'d wp11_state \<Rightarrow> nat \<Rightarrow> bool" where
  "slot_valid st slotID = (if slotID \<ge> MAX_SLOTS then False else sl_in_use (g_slots st ! slotID))"

definition upd_slot :: "nat \<Rightarrow> (wp11_slot \<Rightarrow> wp11_slot) \<Rightarrow> 'd wp11_state \<Rightarrow> 'd wp11_state" where
  "upd_slot i f st = st\<lparr>g_slots := (g_slots st)[i := f (g_slots st ! i)]\<rparr>"

definition upd_session :: "nat \<Rightarrow> (wp11_session \<Rightarrow> wp11_session) \<Rightarrow> 'd wp11_state \<Rightarrow> 'd wp11_state" where
  "upd_session i f st = st\<lparr>g_sessions := (g_sessions st)[i := f (g_sessions st ! i)]\<rparr>"

text \<open>The loops over the session table: every session in use on a slot.\<close>

definition on_slot_sessions :: "nat \<Rightarrow> (wp11_session \<Rightarrow> wp11_session) \<Rightarrow> 'd wp11_state \<Rightarrow> 'd wp11_state" where
  "on_slot_sessions i f st =
     st\<lparr>g_sessions := map (\<lambda>s. if s_in_use s \<and> s_slot_id s = i then f s else s) (g_sessions st)\<rparr>"

text \<open>The first element of a table that satisfies a test, as the search loops find it.\<close>

fun first_index :: "('a \<Rightarrow> bool) \<Rightarrow> 'a list \<Rightarrow> nat option" where
  "first_index P [] = None"
| "first_index P (x # xs) = (if P x then Some 0 else (case first_index P xs of None \<Rightarrow> None | Some i \<Rightarrow> Some (Suc i)))"

text \<open>\<open>strncmp(a, b, n) == 0\<close> for strings without NUL, and \<open>strncpy\<close> of at most \<open>n\<close> bytes with the NUL behind.\<close>

definition strncmp_eq :: "byte list \<Rightarrow> byte list \<Rightarrow> nat \<Rightarrow> bool" where
  "strncmp_eq a b n \<longleftrightarrow> take n a = take n b"

definition pad_string :: "nat \<Rightarrow> byte list \<Rightarrow> byte list" where
  "pad_string dst_len src = take dst_len src @ replicate (dst_len - length src) 0x20"

section \<open>Mechanism tables\<close>

definition CKM_RSA_PKCS :: nat where "CKM_RSA_PKCS = 0x0001"
definition CKM_RSA_PKCS_OAEP :: nat where "CKM_RSA_PKCS_OAEP = 0x0009"
definition CKM_RSA_PKCS_PSS :: nat where "CKM_RSA_PKCS_PSS = 0x000D"
definition CKM_DES_ECB :: nat where "CKM_DES_ECB = 0x0121"
definition CKM_DES_CBC :: nat where "CKM_DES_CBC = 0x0122"
definition CKM_DES3_ECB :: nat where "CKM_DES3_ECB = 0x0132"
definition CKM_DES3_CBC :: nat where "CKM_DES3_CBC = 0x0133"
definition CKM_MD5 :: nat where "CKM_MD5 = 0x0210"
definition CKM_MD5_HMAC :: nat where "CKM_MD5_HMAC = 0x0211"
definition CKM_SHA_1 :: nat where "CKM_SHA_1 = 0x0220"
definition CKM_SHA_1_HMAC :: nat where "CKM_SHA_1_HMAC = 0x0221"
definition CKM_SHA256 :: nat where "CKM_SHA256 = 0x0250"
definition CKM_SHA256_HMAC :: nat where "CKM_SHA256_HMAC = 0x0251"
definition CKM_SHA384 :: nat where "CKM_SHA384 = 0x0260"
definition CKM_SHA384_HMAC :: nat where "CKM_SHA384_HMAC = 0x0261"
definition CKM_SHA512 :: nat where "CKM_SHA512 = 0x0270"
definition CKM_SHA512_HMAC :: nat where "CKM_SHA512_HMAC = 0x0271"
definition CKM_ECDSA :: nat where "CKM_ECDSA = 0x1041"
definition CKM_ECDSA_SHA256 :: nat where "CKM_ECDSA_SHA256 = 0x1044"
definition CKM_EDDSA :: nat where "CKM_EDDSA = 0x1057"
definition CKM_AES_ECB :: nat where "CKM_AES_ECB = 0x1081"
definition CKM_AES_CBC :: nat where "CKM_AES_CBC = 0x1082"
definition CKM_AES_GCM :: nat where "CKM_AES_GCM = 0x1087"

lemmas mech_defs = CKM_RSA_PKCS_def CKM_RSA_PKCS_OAEP_def CKM_RSA_PKCS_PSS_def CKM_DES_ECB_def CKM_DES_CBC_def CKM_DES3_ECB_def
  CKM_DES3_CBC_def CKM_MD5_def CKM_MD5_HMAC_def CKM_SHA_1_def CKM_SHA_1_HMAC_def CKM_SHA256_def CKM_SHA256_HMAC_def
  CKM_SHA384_def CKM_SHA384_HMAC_def CKM_SHA512_def CKM_SHA512_HMAC_def CKM_ECDSA_def CKM_ECDSA_SHA256_def CKM_EDDSA_def
  CKM_AES_ECB_def CKM_AES_CBC_def CKM_AES_GCM_def

definition mech_block_size :: "nat \<Rightarrow> nat" where
  "mech_block_size mech =
     (if mech \<in> {CKM_DES_ECB, CKM_DES_CBC, CKM_DES3_ECB, CKM_DES3_CBC} then 8
      else if mech \<in> {CKM_AES_ECB, CKM_AES_CBC} then 16 else 0)"

definition mech_has_iv :: "nat \<Rightarrow> bool" where
  "mech_has_iv mech \<longleftrightarrow> mech = CKM_DES_CBC \<or> mech = CKM_DES3_CBC \<or> mech = CKM_AES_CBC"

definition mech_required_key_type :: "nat \<Rightarrow> nat option" where
  "mech_required_key_type mech =
     (if mech = CKM_DES_ECB \<or> mech = CKM_DES_CBC then Some CKK_DES
      else if mech = CKM_DES3_ECB \<or> mech = CKM_DES3_CBC then Some CKK_DES3
      else if mech = CKM_AES_ECB \<or> mech = CKM_AES_CBC \<or> mech = CKM_AES_GCM then Some CKK_AES
      else None)"

definition mech_hmac_output_size :: "nat \<Rightarrow> nat" where
  "mech_hmac_output_size mech =
     (if mech = CKM_MD5_HMAC then 16 else if mech = CKM_SHA_1_HMAC then 20 else if mech = CKM_SHA256_HMAC then 32
      else if mech = CKM_SHA384_HMAC then 48 else if mech = CKM_SHA512_HMAC then 64 else 0)"

definition mech_digest_output_size :: "nat \<Rightarrow> nat" where
  "mech_digest_output_size mech =
     (if mech = CKM_MD5 then 16 else if mech = CKM_SHA_1 then 20 else if mech = CKM_SHA256 then 32
      else if mech = CKM_SHA384 then 48 else if mech = CKM_SHA512 then 64 else 0)"

text \<open>\<open>None\<close> stands for the value 0 (hash) and -1 (MGF, HMAC) of an unknown algorithm.\<close>

definition ck_hash_to_wc :: "nat \<Rightarrow> wc_hash option" where
  "ck_hash_to_wc h =
     (if h = CKM_SHA_1 then Some WC_HASH_SHA else if h = 0x0255 then Some WC_HASH_SHA224
      else if h = CKM_SHA256 then Some WC_HASH_SHA256 else if h = CKM_SHA384 then Some WC_HASH_SHA384
      else if h = CKM_SHA512 then Some WC_HASH_SHA512 else None)"

definition ck_mgf_to_wc :: "nat \<Rightarrow> wc_mgf option" where
  "ck_mgf_to_wc g =
     (if g = 1 then Some WC_MGF1SHA1 else if g = 5 then Some WC_MGF1SHA224 else if g = 2 then Some WC_MGF1SHA256
      else if g = 3 then Some WC_MGF1SHA384 else if g = 4 then Some WC_MGF1SHA512 else None)"

definition mech_is_hmac :: "nat \<Rightarrow> bool" where
  "mech_is_hmac mech \<longleftrightarrow> mech \<in> {CKM_MD5_HMAC, CKM_SHA_1_HMAC, CKM_SHA256_HMAC, CKM_SHA384_HMAC, CKM_SHA512_HMAC}"

section \<open>Facts on the tables\<close>

lemma first_index_Some: "first_index P xs = Some i \<Longrightarrow> i < length xs \<and> P (xs ! i) \<and> (\<forall>j<i. \<not> P (xs ! j))"
proof (induction xs arbitrary: i)
  case (Cons x xs)
  then show ?case
    by (auto split: if_splits option.splits simp: nth_Cons less_Suc_eq_0_disj split: nat.splits)
qed simp

lemma first_index_None: "first_index P xs = None \<longleftrightarrow> (\<forall>x \<in> set xs. \<not> P x)"
  by (induction xs) (auto split: option.splits)

lemma session_get_Some: "session_get st h = Some i \<longleftrightarrow> 0 < h \<and> h \<le> MAX_SESSIONS \<and> i = h - 1 \<and> s_in_use (g_sessions st ! i)"
  by (auto simp: session_get_def session_handle_valid_def)

lemma key_get_Some: "key_get st h = Some i \<longleftrightarrow> 0 < h \<and> h \<le> MAX_KEYS \<and> i = h - 1 \<and> k_in_use (g_keys st ! i)"
  by (auto simp: key_get_def key_handle_valid_def)

lemma slot_valid_iff: "slot_valid st i \<longleftrightarrow> i < MAX_SLOTS \<and> sl_in_use (g_slots st ! i)"
  by (auto simp: slot_valid_def)

lemma length_pad_string [simp]: "length (pad_string n src) = n"
  by (simp add: pad_string_def)

definition tables_ok :: "'d wp11_state \<Rightarrow> bool" where
  "tables_ok st \<longleftrightarrow> length (g_sessions st) = MAX_SESSIONS \<and> length (g_slots st) = MAX_SLOTS \<and> length (g_keys st) = MAX_KEYS"

lemma tables_upd_session [simp]: "tables_ok (upd_session i f st) = tables_ok st"
  by (simp add: tables_ok_def upd_session_def)

lemma upd_session_simps [simp]:
  "g_lock_ready (upd_session i f st) = g_lock_ready st" "g_initialized (upd_session i f st) = g_initialized st"
  "g_keys (upd_session i f st) = g_keys st" "g_slots (upd_session i f st) = g_slots st" "key_get (upd_session i f st) h = key_get st h"
  "slot_valid (upd_session i f st) sl = slot_valid st sl"
  by (simp_all add: upd_session_def key_get_def key_handle_valid_def slot_valid_def)

lemma session_get_bound: "session_get st h = Some i \<Longrightarrow> tables_ok st \<Longrightarrow> i < length (g_sessions st)"
  by (auto simp: session_get_Some tables_ok_def)

lemma nth_upd_session [simp]: "i < length (g_sessions st) \<Longrightarrow> g_sessions (upd_session i f st) ! i = f (g_sessions st ! i)"
  by (simp add: upd_session_def)

lemma length_upd_session [simp]: "length (g_sessions (upd_session i f st)) = length (g_sessions st)"
  by (simp add: upd_session_def)

lemma session_get_upd [simp]:
  "(\<And>s. s_in_use (f s) = s_in_use s) \<Longrightarrow> session_get (upd_session i f st) h = session_get st h"
  by (cases "i < length (g_sessions st)")
    (auto simp: session_get_def session_handle_valid_def upd_session_def nth_list_update list_update_beyond not_less)

section \<open>Lengths that are cast to 32 bits\<close>

text \<open>What a wolfCrypt call reads of a buffer whose length the code casts to \<open>word32\<close>.\<close>

definition as_word32 :: "byte list \<Rightarrow> byte list" where
  "as_word32 d = take (length d mod 4294967296) d"

lemma as_word32_small [simp]: "length d < 4294967296 \<Longrightarrow> as_word32 d = d"
  by (simp add: as_word32_def)

text \<open>What a caller passes for an output: a pointer that may be \<open>NULL\<close>, and \<open>*pulLen\<close> unless that pointer is \<open>NULL\<close>.
  The result of an operation has the return code, \<open>*pulLen\<close> on return and the bytes written.\<close>

type_synonym 'd op_result = "'d wp11_state \<times> CK_RV \<times> nat option \<times> byte list"

end
