(* ===== verification/Hotplug.thy ===== *)
theory Hotplug imports Pkcs11State begin

text \<open>
  The hotplug event queue of \<open>src/wp11_pkcs11.c\<close>: the producer \<open>hotplug_push_event\<close>, the consumer
  \<open>C_WaitForSlotEvent\<close>, and the contract of a bounded first-in first-out queue that the ring buffer implements.
  The queue has its own mutex, so a push and a pop are atomic steps; \<open>pthread_mutex_lock\<close> on an initialised
  mutex is taken to succeed.
\<close>

definition WP11_HOTPLUG_QUEUE_SIZE :: nat where "WP11_HOTPLUG_QUEUE_SIZE = 64"

definition hq_init :: hotplug_q where
  "hq_init = \<lparr>g_hotplug_queue = replicate WP11_HOTPLUG_QUEUE_SIZE \<lparr>ev_slot = 0, ev_arrived = False\<rparr>,
     g_hotplug_head = 0, g_hotplug_tail = 0, g_hotplug_dropped = 0\<rparr>"

text \<open>The critical section of \<open>hotplug_push_event\<close>.  The counter of dropped events is an \<open>unsigned int\<close>.\<close>

definition hq_push :: "wp11_hotplug_event \<Rightarrow> hotplug_q \<Rightarrow> hotplug_q" where
  "hq_push ev q =
     (let next_tail = (g_hotplug_tail q + 1) mod WP11_HOTPLUG_QUEUE_SIZE in
      if next_tail \<noteq> g_hotplug_head q
      then q\<lparr>g_hotplug_queue := (g_hotplug_queue q)[g_hotplug_tail q := ev], g_hotplug_tail := next_tail\<rparr>
      else q\<lparr>g_hotplug_dropped := (g_hotplug_dropped q + 1) mod 4294967296\<rparr>)"

definition hq_pop :: "hotplug_q \<Rightarrow> (wp11_hotplug_event \<times> hotplug_q) option" where
  "hq_pop q =
     (if g_hotplug_head q \<noteq> g_hotplug_tail q
      then Some (g_hotplug_queue q ! g_hotplug_head q,
                 q\<lparr>g_hotplug_head := (g_hotplug_head q + 1) mod WP11_HOTPLUG_QUEUE_SIZE\<rparr>)
      else None)"

definition hotplug_push_event :: "nat \<Rightarrow> bool \<Rightarrow> 'd wp11_state \<Rightarrow> 'd wp11_state" where
  "hotplug_push_event slot_id arrived st =
     (if \<not> g_hotplug_mutex_ready st then st
      else st\<lparr>hq := hq_push \<lparr>ev_slot = slot_id, ev_arrived = arrived\<rparr> (hq st)\<rparr>)"

definition unsupported :: "'d wp11_state \<Rightarrow> CK_RV" where
  "unsupported st = (if \<not> g_initialized st then CKR_CRYPTOKI_NOT_INITIALIZED else CKR_FUNCTION_NOT_SUPPORTED)"

text \<open>
  \<open>None\<close>: the caller blocks on the condition variable; it looks again after the next push, in whatever
  state that leaves.  The slot id is what \<open>*pSlot\<close> receives.
\<close>

definition C_WaitForSlotEvent :: "CK_FLAGS \<Rightarrow> bool \<Rightarrow> 'd wp11_state \<Rightarrow> ('d wp11_state \<times> (CK_RV + nat)) option" where
  "C_WaitForSlotEvent flags pSlot_ok st =
     (if \<not> pSlot_ok then Some (st, Inl CKR_ARGUMENTS_BAD)
      else if \<not> g_lock_ready st then Some (st, Inl CKR_CRYPTOKI_NOT_INITIALIZED)
      else if \<not> g_initialized st then Some (st, Inl CKR_CRYPTOKI_NOT_INITIALIZED)
      else if \<not> g_hotplug_mutex_ready st then Some (st, Inl (unsupported st))
      else case hq_pop (hq st) of
        Some (ev, q) \<Rightarrow> Some (st\<lparr>hq := q\<rparr>, Inr (ev_slot ev))
      | None \<Rightarrow> if flags AND CKF_DONT_BLOCK \<noteq> 0 then Some (st, Inl CKR_NO_EVENT) else None)"

section \<open>The contract\<close>

datatype 'e fifo_op = Enq 'e | Deq

text \<open>What a sequence of operations delivers: the queue at the end and the elements taken, in order.\<close>

fun fifo_run :: "('e \<Rightarrow> 'q \<Rightarrow> 'q) \<Rightarrow> ('q \<Rightarrow> ('e \<times> 'q) option) \<Rightarrow> 'q \<Rightarrow> 'e fifo_op list \<Rightarrow> 'q \<times> 'e list" where
  "fifo_run enq deq q [] = (q, [])"
| "fifo_run enq deq q (Enq e # os) = fifo_run enq deq (enq e q) os"
| "fifo_run enq deq q (Deq # os) =
     (case deq q of
        None \<Rightarrow> fifo_run enq deq q os
      | Some (e, q') \<Rightarrow> apsnd (Cons e) (fifo_run enq deq q' os))"

text \<open>The specification: a list of pending elements that takes another one only while it is shorter than \<open>cap\<close>.\<close>

definition spec_enq :: "nat \<Rightarrow> 'e \<Rightarrow> 'e list \<Rightarrow> 'e list" where
  "spec_enq cap e xs = (if length xs < cap then xs @ [e] else xs)"

definition spec_deq :: "'e list \<Rightarrow> ('e \<times> 'e list) option" where
  "spec_deq xs = (case xs of [] \<Rightarrow> None | x # ys \<Rightarrow> Some (x, ys))"

fun enqueued :: "'e fifo_op list \<Rightarrow> 'e list" where
  "enqueued [] = []"
| "enqueued (Enq e # os) = e # enqueued os"
| "enqueued (Deq # os) = enqueued os"

locale bounded_fifo =
  fixes enq :: "'e \<Rightarrow> 'q \<Rightarrow> 'q" and deq :: "'q \<Rightarrow> ('e \<times> 'q) option"
    and contents :: "'q \<Rightarrow> 'e list" and lost_count :: "'q \<Rightarrow> nat" and wf :: "'q \<Rightarrow> bool" and cap :: nat
  assumes wf_enq: "wf q \<Longrightarrow> wf (enq e q)"
    and contents_enq: "wf q \<Longrightarrow> contents (enq e q) = spec_enq cap e (contents q)"
    and lost_enq: "wf q \<Longrightarrow> lost_count (enq e q) = (if length (contents q) < cap then lost_count q else (lost_count q + 1) mod 4294967296)"
    and deq_empty: "wf q \<Longrightarrow> contents q = [] \<Longrightarrow> deq q = None"
    and deq_cons: "wf q \<Longrightarrow> contents q = e # es \<Longrightarrow>
        \<exists>q'. deq q = Some (e, q') \<and> wf q' \<and> contents q' = es \<and> lost_count q' = lost_count q"
begin

lemma run_refines:
  "wf q \<Longrightarrow> wf (fst (fifo_run enq deq q os))
     \<and> contents (fst (fifo_run enq deq q os)) = fst (fifo_run (spec_enq cap) spec_deq (contents q) os)
     \<and> snd (fifo_run enq deq q os) = snd (fifo_run (spec_enq cap) spec_deq (contents q) os)"
proof (induction os arbitrary: q)
  case (Cons x os)
  show ?case
  proof (cases x)
    case (Enq e)
    then show ?thesis using Cons.IH [of "enq e q"] Cons.prems by (simp add: wf_enq contents_enq)
  next
    case Deq
    show ?thesis
    proof (cases "contents q")
      case Nil
      then show ?thesis using Deq Cons deq_empty [of q] by (simp add: spec_deq_def)
    next
      case (Cons e es)
      obtain q' where "deq q = Some (e, q')" "wf q'" "contents q' = es"
        using deq_cons [OF Cons.prems Cons] by blast
      then show ?thesis using Deq Cons Cons.IH [of q'] by (simp add: spec_deq_def)
    qed
  qed
qed simp

text \<open>Every element put in is delivered, still pending, or counted as lost.\<close>

lemma run_accounts:
  "wf q \<Longrightarrow> \<exists>n. lost_count (fst (fifo_run enq deq q os)) mod 4294967296 = (lost_count q + n) mod 4294967296
     \<and> length (contents q) + length (enqueued os)
       = length (snd (fifo_run enq deq q os)) + length (contents (fst (fifo_run enq deq q os))) + n"
proof (induction os arbitrary: q)
  case Nil
  then show ?case by (intro exI [of _ 0]) simp
next
  case (Cons x os)
  show ?case
  proof (cases x)
    case (Enq e)
    obtain n where n: "lost_count (fst (fifo_run enq deq (enq e q) os)) mod 4294967296 = (lost_count (enq e q) + n) mod 4294967296"
      "length (contents (enq e q)) + length (enqueued os)
       = length (snd (fifo_run enq deq (enq e q) os)) + length (contents (fst (fifo_run enq deq (enq e q) os))) + n"
      using Cons.IH [OF wf_enq [OF Cons.prems, of e]] by blast
    show ?thesis
    proof (cases "length (contents q) < cap")
      case True
      with n Enq Cons.prems show ?thesis
        by (intro exI [of _ n]) (simp add: lost_enq contents_enq spec_enq_def)
    next
      case False
      with n Enq Cons.prems show ?thesis
        by (intro exI [of _ "Suc n"]) (simp add: lost_enq contents_enq spec_enq_def mod_simps)
    qed
  next
    case Deq
    show ?thesis
    proof (cases "contents q")
      case Nil
      then show ?thesis using Deq Cons.prems deq_empty [of q] Cons.IH [of q] by simp
    next
      case c: (Cons e es)
      obtain q' where q': "deq q = Some (e, q')" "wf q'" "contents q' = es" "lost_count q' = lost_count q"
        using deq_cons [OF Cons.prems c] by blast
      then show ?thesis using Deq c Cons.IH [of q'] by (simp add: q')
    qed
  qed
qed

end

section \<open>The ring buffer keeps the contract\<close>

definition hq_wf :: "hotplug_q \<Rightarrow> bool" where
  "hq_wf q \<longleftrightarrow> length (g_hotplug_queue q) = WP11_HOTPLUG_QUEUE_SIZE
     \<and> g_hotplug_head q < WP11_HOTPLUG_QUEUE_SIZE \<and> g_hotplug_tail q < WP11_HOTPLUG_QUEUE_SIZE"

definition hq_pending :: "hotplug_q \<Rightarrow> nat" where
  "hq_pending q = (if g_hotplug_head q \<le> g_hotplug_tail q then g_hotplug_tail q - g_hotplug_head q
     else g_hotplug_tail q + WP11_HOTPLUG_QUEUE_SIZE - g_hotplug_head q)"

definition hq_contents :: "hotplug_q \<Rightarrow> wp11_hotplug_event list" where
  "hq_contents q = map (\<lambda>i. g_hotplug_queue q ! ((g_hotplug_head q + i) mod WP11_HOTPLUG_QUEUE_SIZE)) [0..<hq_pending q]"

lemma mod64: "x < 128 \<Longrightarrow> (x::nat) mod 64 = (if x < 64 then x else x - 64)"
  by (simp add: mod_if)

lemma ring_facts:
  assumes "h < 64" "t < 64" "n = (if h \<le> t then t - h else t + 64 - (h::nat))"
  shows "n \<le> 63" "(t + 1) mod 64 = h \<longleftrightarrow> n = 63" "n < 63 \<Longrightarrow> (h + n) mod 64 = t"
    "i < n \<Longrightarrow> (h + i) mod 64 \<noteq> t"
    "n < 63 \<Longrightarrow> (if h \<le> (t + 1) mod 64 then (t + 1) mod 64 - h else (t + 1) mod 64 + 64 - h) = n + 1"
    "0 < n \<Longrightarrow> (if (h + 1) mod 64 \<le> t then t - (h + 1) mod 64 else t + 64 - (h + 1) mod 64) = n - 1"
proof -
  show "n \<le> 63" "(t + 1) mod 64 = h \<longleftrightarrow> n = 63" "n < 63 \<Longrightarrow> (h + n) mod 64 = t"
    "n < 63 \<Longrightarrow> (if h \<le> (t + 1) mod 64 then (t + 1) mod 64 - h else (t + 1) mod 64 + 64 - h) = n + 1"
    "0 < n \<Longrightarrow> (if (h + 1) mod 64 \<le> t then t - (h + 1) mod 64 else t + 64 - (h + 1) mod 64) = n - 1"
    using assms by (auto simp: mod64)
  show "(h + i) mod 64 \<noteq> t" if "i < n"
  proof (cases "h \<le> t")
    case True
    with that assms have "h + i < t" "h + i < 64" by simp_all
    then show ?thesis by simp
  next
    case False
    with that assms have "h + i < 64 + t" "h + i < 128" "t < h + i" by simp_all
    then show ?thesis unfolding mod64 [OF \<open>h + i < 128\<close>] by (simp split: if_splits) linarith
  qed
qed

lemma hq_push_contents:
  assumes "hq_wf q"
  shows "hq_wf (hq_push e q)" "hq_contents (hq_push e q) = spec_enq 63 e (hq_contents q)"
    "g_hotplug_dropped (hq_push e q) = (if length (hq_contents q) < 63 then g_hotplug_dropped q else (g_hotplug_dropped q + 1) mod 4294967296)"
proof -
  note w = assms [unfolded hq_wf_def WP11_HOTPLUG_QUEUE_SIZE_def]
  note r = ring_facts [OF conjunct1 [OF conjunct2 [OF w]] conjunct2 [OF conjunct2 [OF w]] hq_pending_def [of q, unfolded WP11_HOTPLUG_QUEUE_SIZE_def]]
  note push = hq_push_def [of e q, unfolded Let_def WP11_HOTPLUG_QUEUE_SIZE_def r(2)]
  show "hq_wf (hq_push e q)"
    using w by (simp add: hq_wf_def push WP11_HOTPLUG_QUEUE_SIZE_def)
  show "g_hotplug_dropped (hq_push e q) = (if length (hq_contents q) < 63 then g_hotplug_dropped q else (g_hotplug_dropped q + 1) mod 4294967296)"
    using r(1) by (simp add: hq_contents_def push)
  show "hq_contents (hq_push e q) = spec_enq 63 e (hq_contents q)"
  proof (cases "hq_pending q < 63")
    case True
    then have p: "hq_push e q = q\<lparr>g_hotplug_queue := (g_hotplug_queue q)[g_hotplug_tail q := e], g_hotplug_tail := (g_hotplug_tail q + 1) mod 64\<rparr>"
      by (simp add: push)
    have "hq_pending (hq_push e q) = hq_pending q + 1"
      unfolding p hq_pending_def [of "_\<lparr>g_hotplug_queue := _, g_hotplug_tail := _\<rparr>"]
      using r(5) [OF True] by (simp add: WP11_HOTPLUG_QUEUE_SIZE_def split: if_splits)
    moreover have "(g_hotplug_queue q)[g_hotplug_tail q := e] ! ((g_hotplug_head q + i) mod 64)
        = g_hotplug_queue q ! ((g_hotplug_head q + i) mod 64)" if "i < hq_pending q" for i
      using r(4) [OF that] by simp
    ultimately show ?thesis
      using True r(3) w by (simp add: hq_contents_def spec_enq_def p WP11_HOTPLUG_QUEUE_SIZE_def)
  next
    case False
    with r(1) have "hq_pending q = 63" by linarith
    moreover have "hq_contents (q\<lparr>g_hotplug_dropped := d\<rparr>) = hq_contents q" for d
      by (simp add: hq_contents_def hq_pending_def)
    ultimately show ?thesis by (simp add: spec_enq_def push) (simp add: hq_contents_def)
  qed
qed

lemma hq_pop_empty: "hq_wf q \<Longrightarrow> hq_contents q = [] \<Longrightarrow> hq_pop q = None"
  by (auto simp: hq_contents_def hq_pending_def hq_pop_def hq_wf_def split: if_splits)

lemma hq_pop_cons:
  assumes "hq_wf q" "hq_contents q = e # es"
  shows "\<exists>q'. hq_pop q = Some (e, q') \<and> hq_wf q' \<and> hq_contents q' = es \<and> g_hotplug_dropped q' = g_hotplug_dropped q"
proof -
  note w = assms(1) [unfolded hq_wf_def WP11_HOTPLUG_QUEUE_SIZE_def]
  define q' where "q' = q\<lparr>g_hotplug_head := (g_hotplug_head q + 1) mod WP11_HOTPLUG_QUEUE_SIZE\<rparr>"
  note r = ring_facts [OF conjunct1 [OF conjunct2 [OF w]] conjunct2 [OF conjunct2 [OF w]] hq_pending_def [of q, unfolded WP11_HOTPLUG_QUEUE_SIZE_def]]
  have "length (hq_contents q) \<noteq> 0" using assms(2) by simp
  then have p: "0 < hq_pending q" by (simp add: hq_contents_def)
  then have ne: "g_hotplug_head q \<noteq> g_hotplug_tail q" by (auto simp: hq_pending_def)
  have wf': "hq_wf q'" using w by (simp add: q'_def hq_wf_def WP11_HOTPLUG_QUEUE_SIZE_def)
  have pend': "hq_pending q' = hq_pending q - 1"
    using r(6) [OF p] by (simp add: q'_def hq_pending_def [of "_\<lparr>g_hotplug_head := _\<rparr>"] WP11_HOTPLUG_QUEUE_SIZE_def split: if_splits)
  have split: "[0..<hq_pending q] = 0 # map Suc [0..<hq_pending q - 1]"
    using p by (metis Suc_diff_1 map_Suc_upt upt_conv_Cons)
  have c: "hq_contents q = g_hotplug_queue q ! g_hotplug_head q # hq_contents q'"
    unfolding hq_contents_def pend' unfolding split
    using w by (simp add: q'_def WP11_HOTPLUG_QUEUE_SIZE_def mod_simps)
  have "hq_pop q = Some (g_hotplug_queue q ! g_hotplug_head q, q')" using ne by (simp add: hq_pop_def q'_def)
  moreover have "g_hotplug_dropped q' = g_hotplug_dropped q" by (simp add: q'_def)
  ultimately show ?thesis using c assms(2) wf' by simp
qed

interpretation hotplug: bounded_fifo hq_push hq_pop hq_contents g_hotplug_dropped hq_wf 63
  by unfold_locales (simp_all add: hq_push_contents hq_pop_empty hq_pop_cons)

lemma hq_wf_init [simp]: "hq_wf hq_init" "hq_contents hq_init = []" "g_hotplug_dropped hq_init = 0"
  by (simp_all add: hq_wf_def hq_init_def hq_contents_def hq_pending_def WP11_HOTPLUG_QUEUE_SIZE_def)

text \<open>C37. The hotplug queue is a first-in first-out queue: whatever pushes and pops happen after its
  initialisation, the events delivered are those of a list that keeps up to 63 pending events in order and refuses
  more, and every event pushed is delivered, pending, or counted as dropped (modulo the width of the counter).\<close>
theorem hotplug_queue_is_fifo:
  "snd (fifo_run hq_push hq_pop hq_init os) = snd (fifo_run (spec_enq 63) spec_deq [] os)
   \<and> hq_contents (fst (fifo_run hq_push hq_pop hq_init os)) = fst (fifo_run (spec_enq 63) spec_deq [] os)
   \<and> (\<exists>n. g_hotplug_dropped (fst (fifo_run hq_push hq_pop hq_init os)) mod 4294967296 = n mod 4294967296
        \<and> length (enqueued os) = length (snd (fifo_run hq_push hq_pop hq_init os))
            + length (hq_contents (fst (fifo_run hq_push hq_pop hq_init os))) + n)"
  using hotplug.run_refines [of hq_init os] hotplug.run_accounts [of hq_init os] by simp

section \<open>States to start from\<close>

text \<open>The state of a process that has just started: static storage is zero.\<close>

definition state0 :: "'d wp11_state" where
  "state0 = \<lparr>g_lock_ready = False, g_initialized = False, g_sessions = replicate MAX_SESSIONS zero_session,
     g_keys = replicate MAX_KEYS zero_key, g_slots = replicate MAX_SLOTS zero_slot, g_hotplug_mutex_ready = False,
     hq = hq_init, heap = mem0, ccids = (\<lambda>_. None), ccid_next = 0, privs = (\<lambda>_. None), priv_next = 0, g_usb_ctx = False,
     g_event_thread_running = False, g_flash_thread_running = False, g_flash_wake_pipe = False,
     g_fsdir_thread_running = False, g_fsdir_wake_pipe = False, g_fsdir_path = []\<rparr>"

text \<open>A library in use: one read-write session on slot 0.\<close>

definition session_state :: "'d wp11_state" where
  "session_state = state0\<lparr>g_lock_ready := True, g_initialized := True,
     g_slots := (replicate MAX_SLOTS zero_slot)[0 := zero_slot\<lparr>sl_in_use := True, token_present := True\<rparr>],
     g_sessions := (replicate MAX_SESSIONS zero_session)[0 := zero_session\<lparr>s_in_use := True, s_flags := 6, s_state := CKS_RW_PUBLIC_SESSION\<rparr>]\<rparr>"

lemma session_state_simps [simp]:
  "g_lock_ready session_state" "g_initialized session_state" "tables_ok session_state" "session_get session_state (Suc 0) = Some 0"
  "g_keys session_state = replicate MAX_KEYS zero_key"
  by (simp_all add: session_state_def state0_def tables_ok_def table_sizes session_get_Some)

lemma session_state_session [simp]:
  "g_sessions session_state ! 0 = zero_session\<lparr>s_in_use := True, s_flags := 6, s_state := CKS_RW_PUBLIC_SESSION\<rparr>"
  by (simp add: session_state_def table_sizes)

end
