(* ===== verification/Slots.thy ===== *)
theory Slots imports Hotplug begin

text \<open>
  The slot table of \<open>src/wp11_pkcs11.c\<close>: arrival and departure of USB tokens (\<open>slot_add\<close>, \<open>slot_remove\<close>, \<open>hotplug_cb\<close>)
  and of keystore files (\<open>slot_add_keystore\<close>, \<open>slot_remove_keystore\<close>, \<open>slot_remove_flash_dir\<close> and the callers in
  the watcher threads), the removal of a slot's key objects, and the queries \<open>C_GetSlotList\<close> and \<open>C_GetSlotInfo\<close>.
  Slot 0 is the soft token; the search loops start at slot 1.
\<close>

section \<open>Removing key objects\<close>

text \<open>
  \<open>free_key_priv\<close> of the soft backend (\<open>wp11_soft_key_free\<close>, reference counted) and of the USB
  backend.
\<close>

definition wp11_soft_key_free :: "nat \<Rightarrow> 'd wp11_state \<Rightarrow> 'd wp11_state" where
  "wp11_soft_key_free p st =
     (case privs st p of
        Some (SoftObj k) \<Rightarrow>
          st\<lparr>privs := (privs st)(p := if sk_ref_count k > 1 then Some (SoftObj (k\<lparr>sk_ref_count := sk_ref_count k - 1\<rparr>)) else None)\<rparr>
      | _ \<Rightarrow> st)"

definition usb_free_key_priv :: "nat \<Rightarrow> 'd wp11_state \<Rightarrow> 'd wp11_state" where
  "usb_free_key_priv p st = st\<lparr>privs := (privs st)(p := None)\<rparr>"

definition free_key_priv :: "wp11_key_obj \<Rightarrow> 'd wp11_state \<Rightarrow> 'd wp11_state" where
  "free_key_priv k st =
     (case (ops k, key_priv k) of
        (Some wp11_backend_soft_ops, Some (SoftKey p)) \<Rightarrow> wp11_soft_key_free p st
      | (Some wp11_backend_usb_ops, Some (UsbKey p c s a)) \<Rightarrow> usb_free_key_priv p st
      | _ \<Rightarrow> st)"

text \<open>The loops over \<open>g_keys[]\<close> that release and zero the entries a test selects.\<close>

definition release_keys :: "(wp11_key_obj \<Rightarrow> bool) \<Rightarrow> 'd wp11_state \<Rightarrow> 'd wp11_state" where
  "release_keys P st = fold (\<lambda>k s. if P k then free_key_priv k s else s) (g_keys st) st"

definition wipe_keys :: "(wp11_key_obj \<Rightarrow> bool) \<Rightarrow> 'd wp11_state \<Rightarrow> 'd wp11_state" where
  "wipe_keys P st = st\<lparr>g_keys := map (\<lambda>k. if P k then zero_key else k) (g_keys st)\<rparr>"

definition usb_key_of :: "nat \<Rightarrow> wp11_key_obj \<Rightarrow> bool" where
  "usb_key_of slot_id k \<longleftrightarrow> k_in_use k \<and> k_slot_id k = slot_id \<and> ops k = Some wp11_backend_usb_ops"

definition piv_slot_clear_keys :: "nat \<Rightarrow> 'd wp11_state \<Rightarrow> 'd wp11_state" where
  "piv_slot_clear_keys slot_id st = wipe_keys (usb_key_of slot_id) (release_keys (usb_key_of slot_id) st)"

definition soft_key_of :: "nat \<Rightarrow> wp11_key_obj \<Rightarrow> bool" where
  "soft_key_of slot_id k \<longleftrightarrow> k_in_use k \<and> k_slot_id k = slot_id \<and> ops k = Some wp11_backend_soft_ops"

definition soft_slot_clear_keys :: "nat \<Rightarrow> 'd wp11_state \<Rightarrow> 'd wp11_state" where
  "soft_slot_clear_keys slot_id st = wipe_keys (soft_key_of slot_id) (release_keys (soft_key_of slot_id) st)"

definition ks_key_of :: "nat \<Rightarrow> wp11_key_obj \<Rightarrow> bool" where
  "ks_key_of slot_id k \<longleftrightarrow> k_in_use k \<and> k_slot_id k = slot_id
     \<and> (case ops k of None \<Rightarrow> False | Some t \<Rightarrow> \<not> has_free_key_priv t)"

definition ks_slot_clear_keys :: "nat \<Rightarrow> 'd wp11_state \<Rightarrow> 'd wp11_state" where
  "ks_slot_clear_keys slot_id st = wipe_keys (ks_key_of slot_id) st"

section \<open>Arrival and departure of USB tokens\<close>

text \<open>The first slot from slot 1 on that satisfies a test.\<close>

definition slot_search :: "(wp11_slot \<Rightarrow> bool) \<Rightarrow> 'd wp11_state \<Rightarrow> nat option" where
  "slot_search P st = (case first_index P (drop 1 (g_slots st)) of None \<Rightarrow> None | Some i \<Rightarrow> Some (i + 1))"

text \<open>The result is the slot id or, for \<open>(CK_SLOT_ID)-1\<close>, \<open>None\<close>.\<close>

definition slot_add :: "u16 \<Rightarrow> u16 \<Rightarrow> 'd wp11_state \<Rightarrow> 'd wp11_state \<times> nat option" where
  "slot_add vid pid st =
     (case wp11_token_db_lookup vid pid of
        None \<Rightarrow> (st, None)
      | Some desc \<Rightarrow>
          (case slot_search (\<lambda>s. sl_in_use s \<and> sl_vid s = vid \<and> sl_pid s = pid) st of
             Some i \<Rightarrow> (upd_slot i (\<lambda>s. s\<lparr>token_present := True\<rparr>) st, Some i)
           | None \<Rightarrow>
               (case slot_search (\<lambda>s. \<not> sl_in_use s) st of
                  Some i \<Rightarrow>
                    (upd_slot i (\<lambda>s. s\<lparr>sl_in_use := True, token_present := True, sl_vid := vid, sl_pid := pid,
                       sl_proto := tok_proto desc, sl_label := take 32 (str (tok_name desc))\<rparr>) st, Some i)
                | None \<Rightarrow> (st, None))))"

definition ccid_close :: "nat option \<Rightarrow> 'd wp11_state \<Rightarrow> 'd wp11_state" where
  "ccid_close c st = (case c of None \<Rightarrow> st | Some p \<Rightarrow> st\<lparr>ccids := (ccids st)(p := None)\<rparr>)"

definition slot_remove :: "u16 \<Rightarrow> u16 \<Rightarrow> 'd wp11_state \<Rightarrow> 'd wp11_state \<times> nat option" where
  "slot_remove vid pid st =
     (case slot_search (\<lambda>s. sl_in_use s \<and> sl_vid s = vid \<and> sl_pid s = pid \<and> token_present s) st of
        None \<Rightarrow> (st, None)
      | Some i \<Rightarrow>
          let st1 = on_slot_sessions i (\<lambda>s. zero_session) (upd_slot i (\<lambda>s. s\<lparr>token_present := False\<rparr>) st) in
          (if ccid (g_slots st1 ! i) \<noteq> None
           then upd_slot i (\<lambda>s. s\<lparr>ccid := None\<rparr>) (ccid_close (ccid (g_slots st1 ! i)) (piv_slot_clear_keys i st1))
           else st1, Some i))"

text \<open>\<open>struct libusb_device_descriptor\<close>, as far as it is read.\<close>

record usb_descriptor =
  bDescriptorType :: byte
  bLength :: byte
  idVendor :: u16
  idProduct :: u16

definition LIBUSB_DT_DEVICE :: byte where "LIBUSB_DT_DEVICE = 0x01"
definition LIBUSB_DT_DEVICE_SIZE :: byte where "LIBUSB_DT_DEVICE_SIZE = 18"

text \<open>
  The descriptor is \<open>None\<close> when libusb cannot read it.  \<open>lock_held\<close> says whether the calling thread already holds
  \<open>g_lock\<close>, which is not recursive: then the callback never returns (\<open>None\<close>).
\<close>

definition hotplug_cb :: "bool \<Rightarrow> usb_descriptor option \<Rightarrow> bool \<Rightarrow> 'd wp11_state \<Rightarrow> 'd wp11_state option" where
  "hotplug_cb lock_held desc arrived st =
     (case desc of
        None \<Rightarrow> Some st
      | Some d \<Rightarrow>
          if bDescriptorType d \<noteq> LIBUSB_DT_DEVICE then Some st
          else if bLength d \<noteq> LIBUSB_DT_DEVICE_SIZE then Some st
          else if idVendor d = 0 then Some st
          else if wp11_token_db_lookup (idVendor d) (idProduct d) = None then Some st
          else if lock_held then None
          else let (st1, slot_id) =
                 (if arrived then slot_add (idVendor d) (idProduct d) st else slot_remove (idVendor d) (idProduct d) st) in
            (case slot_id of None \<Rightarrow> Some st1 | Some i \<Rightarrow> Some (hotplug_push_event i arrived st1)))"

section \<open>Arrival and departure of keystore files\<close>

definition KS_PATH_SIZE :: nat where "KS_PATH_SIZE = 256"

definition path_basename :: "byte list \<Rightarrow> byte list" where
  "path_basename path = rev (takeWhile (\<lambda>b. b \<noteq> 0x2F) (rev path))"

definition slot_add_keystore :: "byte list \<Rightarrow> wp11_proto \<Rightarrow> 'd wp11_state \<Rightarrow> 'd wp11_state \<times> nat option" where
  "slot_add_keystore path prot st =
     (if length path \<ge> KS_PATH_SIZE then (st, None)
      else case slot_search (\<lambda>s. sl_in_use s \<and> sl_proto s = prot \<and> strncmp_eq (keystore_path s) path (KS_PATH_SIZE - 1)) st of
        Some i \<Rightarrow> (upd_slot i (\<lambda>s. s\<lparr>token_present := True\<rparr>) st, Some i)
      | None \<Rightarrow>
          (case slot_search (\<lambda>s. \<not> sl_in_use s) st of
             Some i \<Rightarrow>
               (upd_slot i (\<lambda>s. s\<lparr>sl_in_use := True, token_present := True, sl_vid := 0, sl_pid := 0, sl_proto := prot,
                  keystore_path := take (KS_PATH_SIZE - 1) path, sl_label := take 32 (path_basename path)\<rparr>) st, Some i)
           | None \<Rightarrow> (st, None)))"

text \<open>
  What both removal functions do with a slot: its keys first, then the keystore they point into, the token, the
  sessions.
\<close>

definition depart_keystore :: "nat \<Rightarrow> 'd wp11_state \<Rightarrow> 'd wp11_state" where
  "depart_keystore i st =
     (let st1 = ks_slot_clear_keys i st;
          st2 = (case keystore (g_slots st1 ! i) of
                   None \<Rightarrow> st1
                 | Some k \<Rightarrow> upd_slot i (\<lambda>s. s\<lparr>keystore := None\<rparr>) (st1\<lparr>heap := wp11_keystore_free (Some k) (heap st1)\<rparr>)) in
      on_slot_sessions i (\<lambda>s. zero_session) (upd_slot i (\<lambda>s. s\<lparr>token_present := False\<rparr>) st2))"

definition slot_remove_keystore :: "byte list \<Rightarrow> 'd wp11_state \<Rightarrow> 'd wp11_state \<times> nat option" where
  "slot_remove_keystore path st =
     (case slot_search (\<lambda>s. sl_in_use s \<and> token_present s \<and> strncmp_eq (keystore_path s) path (KS_PATH_SIZE - 1)) st of
        None \<Rightarrow> (st, None)
      | Some i \<Rightarrow> (depart_keystore i st, Some i))"

definition under_dir :: "byte list \<Rightarrow> wp11_slot \<Rightarrow> bool" where
  "under_dir dir s \<longleftrightarrow> take (length dir) (keystore_path s) = dir
     \<and> (length (keystore_path s) = length dir \<or> keystore_path s ! length dir = 0x2F)"

definition slot_remove_flash_dir :: "byte list \<Rightarrow> 'd wp11_state \<Rightarrow> 'd wp11_state" where
  "slot_remove_flash_dir dir st =
     fold (\<lambda>i st. let s = g_slots st ! i in
             if \<not> sl_in_use s \<or> \<not> token_present s then st
             else if sl_proto s \<noteq> PROTO_FLASH then st
             else if \<not> under_dir dir s then st
             else hotplug_push_event i False (depart_keystore i st))
          [1..<MAX_SLOTS] st"

definition push_slot_event :: "bool \<Rightarrow> 'd wp11_state \<times> nat option \<Rightarrow> 'd wp11_state" where
  "push_slot_event arrived r = (case r of (st, None) \<Rightarrow> st | (st, Some i) \<Rightarrow> hotplug_push_event i arrived st)"

definition flash_file_arrived :: "byte list \<Rightarrow> 'd wp11_state \<Rightarrow> 'd wp11_state" where
  "flash_file_arrived fpath st = push_slot_event True (slot_add_keystore fpath PROTO_FLASH st)"

definition flash_file_departed :: "byte list \<Rightarrow> 'd wp11_state \<Rightarrow> 'd wp11_state" where
  "flash_file_departed fpath st = push_slot_event False (slot_remove_keystore fpath st)"

definition fsdir_file_arrived :: "byte list \<Rightarrow> 'd wp11_state \<Rightarrow> 'd wp11_state" where
  "fsdir_file_arrived fpath st = push_slot_event True (slot_add_keystore fpath PROTO_FSDIR st)"

definition fsdir_file_departed :: "byte list \<Rightarrow> 'd wp11_state \<Rightarrow> 'd wp11_state" where
  "fsdir_file_departed fpath st = push_slot_event False (slot_remove_keystore fpath st)"

definition has_p11k_extension :: "byte list \<Rightarrow> bool" where
  "has_p11k_extension name \<longleftrightarrow> length name > 5 \<and> drop (length name - 5) name = str ''.p11k''"

section \<open>Queries\<close>

text \<open>The comparison of two NUL-free strings by \<open>strncmp\<close>: bytes are compared as unsigned.\<close>

fun strcmp_sign :: "byte list \<Rightarrow> byte list \<Rightarrow> int" where
  "strcmp_sign [] [] = 0"
| "strcmp_sign [] (b # bs) = -1"
| "strcmp_sign (a # as) [] = 1"
| "strcmp_sign (a # as) (b # bs) = (if a < b then -1 else if b < a then 1 else strcmp_sign as bs)"

definition slot_id_cmp :: "'d wp11_state \<Rightarrow> nat \<Rightarrow> nat \<Rightarrow> int" where
  "slot_id_cmp st sa sb =
     (if sa = 0 then -1
      else if sb = 0 then 1
      else let pa = keystore_path (g_slots st ! sa); pb = keystore_path (g_slots st ! sb);
               a_ks = (pa \<noteq> []); b_ks = (pb \<noteq> []) in
        if a_ks \<and> b_ks then strcmp_sign (take (KS_PATH_SIZE - 1) pa) (take (KS_PATH_SIZE - 1) pb)
        else if a_ks then 1
        else if b_ks then -1
        else if sa < sb then -1 else if sa > sb then 1 else 0)"

text \<open>A sort by a C comparison function; which of two elements that compare equal comes first is \<open>qsort\<close>'s choice.\<close>

fun cmp_insert :: "('a \<Rightarrow> 'a \<Rightarrow> int) \<Rightarrow> 'a \<Rightarrow> 'a list \<Rightarrow> 'a list" where
  "cmp_insert c x [] = [x]"
| "cmp_insert c x (y # ys) = (if c x y \<le> 0 then x # y # ys else y # cmp_insert c x ys)"

definition cmp_sort :: "('a \<Rightarrow> 'a \<Rightarrow> int) \<Rightarrow> 'a list \<Rightarrow> 'a list" where
  "cmp_sort c xs = foldr (cmp_insert c) xs []"

definition listed_slots :: "bool \<Rightarrow> 'd wp11_state \<Rightarrow> nat list" where
  "listed_slots tokenPresent st =
     filter (\<lambda>i. sl_in_use (g_slots st ! i) \<and> (tokenPresent \<longrightarrow> token_present (g_slots st ! i))) [0..<MAX_SLOTS]"

text \<open>
  \<open>count\<close> is \<open>*pulCount\<close> on entry, \<open>None\<close> for a \<open>NULL\<close> pointer; \<open>list_ok\<close> says whether \<open>pSlotList\<close> is given.  The result
  has the return code, \<open>*pulCount\<close> on return and the ids written.
\<close>

definition C_GetSlotList ::
  "wp11_cfg \<Rightarrow> bool \<Rightarrow> bool \<Rightarrow> nat option \<Rightarrow> 'd wp11_state \<Rightarrow> CK_RV \<times> nat option \<times> nat list" where
  "C_GetSlotList cfg tokenPresent list_ok count st =
     (if \<not> g_lock_ready st \<or> \<not> g_initialized st then (CKR_CRYPTOKI_NOT_INITIALIZED, count, [])
      else case count of
        None \<Rightarrow> (CKR_ARGUMENTS_BAD, None, [])
      | Some cap \<Rightarrow>
          let ids = listed_slots tokenPresent st; cnt = length ids in
          if \<not> list_ok then (CKR_OK, Some cnt, [])
          else if cap < cnt then (CKR_BUFFER_TOO_SMALL, Some cnt, [])
          else (CKR_OK, Some cnt, if CFG_USB_FLASH cfg \<or> CFG_FSDIR cfg then cmp_sort (slot_id_cmp st) ids else ids))"

record slot_info =
  slotDescription :: "byte list"
  manufacturerID :: "byte list"
  ckf_token_present :: bool
  firmwareVersion :: "nat \<times> nat"

definition C_GetSlotInfo :: "nat \<Rightarrow> bool \<Rightarrow> 'd wp11_state \<Rightarrow> CK_RV + slot_info" where
  "C_GetSlotInfo slotID pInfo_ok st =
     (if \<not> g_lock_ready st \<or> \<not> g_initialized st then Inl CKR_CRYPTOKI_NOT_INITIALIZED
      else if \<not> slot_valid st slotID then Inl CKR_SLOT_ID_INVALID
      else if \<not> pInfo_ok then Inl CKR_ARGUMENTS_BAD
      else Inr \<lparr>slotDescription = pad_string 64 (if slotID = 0 then str ''wolfP11 Software Slot'' else sl_label (g_slots st ! slotID)),
                manufacturerID = pad_string 32 (str ''wolfSSL Inc.''),
                ckf_token_present = token_present (g_slots st ! slotID),
                firmwareVersion = (0, 1)\<rparr>)"

end
