(* ===== verification/Sessions.thy ===== *)
theory Sessions imports Slots begin

text \<open>
  Sessions and login of \<open>src/wp11_pkcs11.c\<close>: \<open>C_OpenSession\<close>, \<open>C_CloseSession\<close>, \<open>C_CloseAllSessions\<close>, \<open>C_GetSessionInfo\<close>,
  \<open>C_Login\<close> with the creation of key objects from a PIV card, a keystore file or the persistent soft token,
  \<open>C_Logout\<close>, and \<open>C_InitPIN\<close>.  \<open>C_Login\<close> calls the models of the CCID, PIV and keystore layers.
\<close>

section \<open>Opening and closing\<close>

definition C_OpenSession :: "nat \<Rightarrow> CK_FLAGS \<Rightarrow> bool \<Rightarrow> 'd wp11_state \<Rightarrow> 'd wp11_state \<times> (CK_RV + nat)" where
  "C_OpenSession slotID flags ph_ok st =
     (if \<not> g_lock_ready st \<or> \<not> g_initialized st then (st, Inl CKR_CRYPTOKI_NOT_INITIALIZED)
      else if \<not> slot_valid st slotID then (st, Inl CKR_SLOT_ID_INVALID)
      else if \<not> token_present (g_slots st ! slotID) then (st, Inl CKR_TOKEN_NOT_PRESENT)
      else if \<not> ph_ok then (st, Inl CKR_ARGUMENTS_BAD)
      else if flags AND CKF_SERIAL_SESSION = 0 then (st, Inl CKR_SESSION_PARALLEL_NOT_SUPPORTED)
      else let rw = (flags AND CKF_RW_SESSION \<noteq> 0);
               slot_login = (case find (\<lambda>s. s_in_use s \<and> s_slot_id s = slotID \<and> s_logged_in s \<noteq> 0) (g_sessions st) of
                               None \<Rightarrow> 0 | Some s \<Rightarrow> s_logged_in s) in
        if slot_login = 2 \<and> \<not> rw then (st, Inl CKR_SESSION_READ_WRITE_SO_EXISTS)
        else (case first_index (\<lambda>s. \<not> s_in_use s) (g_sessions st) of
            None \<Rightarrow> (st, Inl CKR_SESSION_COUNT)
          | Some i \<Rightarrow>
              (upd_session i (\<lambda>s. zero_session\<lparr>s_in_use := True, s_slot_id := slotID, s_flags := flags, s_logged_in := slot_login,
                 s_state := (if slot_login = 1 then (if rw then CKS_RW_USER_FUNCTIONS else CKS_RO_USER_FUNCTIONS)
                             else if slot_login = 2 then CKS_RW_SO_FUNCTIONS
                             else (if rw then CKS_RW_PUBLIC_SESSION else CKS_RO_PUBLIC_SESSION))\<rparr>) st,
               Inr (i + 1))))"

definition C_CloseSession :: "nat \<Rightarrow> 'd wp11_state \<Rightarrow> 'd wp11_state \<times> CK_RV" where
  "C_CloseSession hSession st =
     (if \<not> g_lock_ready st \<or> \<not> g_initialized st then (st, CKR_CRYPTOKI_NOT_INITIALIZED)
      else case session_get st hSession of
        None \<Rightarrow> (st, CKR_SESSION_HANDLE_INVALID)
      | Some i \<Rightarrow> (upd_session i (\<lambda>s. zero_session) st, CKR_OK))"

definition C_CloseAllSessions :: "nat \<Rightarrow> 'd wp11_state \<Rightarrow> 'd wp11_state \<times> CK_RV" where
  "C_CloseAllSessions slotID st =
     (if \<not> g_lock_ready st \<or> \<not> g_initialized st then (st, CKR_CRYPTOKI_NOT_INITIALIZED)
      else if \<not> slot_valid st slotID then (st, CKR_SLOT_ID_INVALID)
      else (on_slot_sessions slotID (\<lambda>s. zero_session) st, CKR_OK))"

text \<open>Slot, state and flags of the session.\<close>

definition C_GetSessionInfo :: "nat \<Rightarrow> bool \<Rightarrow> 'd wp11_state \<Rightarrow> CK_RV + nat \<times> CK_STATE \<times> CK_FLAGS" where
  "C_GetSessionInfo hSession pInfo_ok st =
     (if \<not> g_lock_ready st \<or> \<not> g_initialized st then Inl CKR_CRYPTOKI_NOT_INITIALIZED
      else if \<not> pInfo_ok then Inl CKR_ARGUMENTS_BAD
      else case session_get st hSession of
        None \<Rightarrow> Inl CKR_SESSION_HANDLE_INVALID
      | Some i \<Rightarrow> let s = g_sessions st ! i in Inr (s_slot_id s, s_state s, s_flags s))"

section \<open>What a login needs from outside\<close>

text \<open>
  The environment of one \<open>C_Login\<close>: the parameters of the keystore, CCID and PIV layers, the outcome of each
  allocation, and wolfCrypt's private key decoders.  \<open>le_io n\<close> are the system calls of the n-th load in the call.
  \<open>le_ec_size\<close> and \<open>le_rsa_size\<close> are decoding followed by \<open>wc_ecc_size\<close> and \<open>wc_RsaEncryptSize\<close>, \<open>None\<close> when decoding
  fails; \<open>le_ec_decode\<close> and \<open>le_rsa_decode\<close> give the number of bytes consumed and the key.
\<close>

record 'd login_env =
  le_mem :: mem_env
  le_width :: nat
  le_crypto :: crypto
  le_io :: "nat \<Rightarrow> byte list \<Rightarrow> load_io"
  le_stat_ok :: "byte list \<Rightarrow> bool"
  le_mlock_pin :: bool
  le_usb :: "'d usb_env"
  le_bus :: usb_bus
  le_dev :: 'd
  le_kp_malloc :: "nat \<Rightarrow> bool"
  le_der_malloc :: "byte \<Rightarrow> bool"
  le_cert_malloc :: "byte \<Rightarrow> bool"
  le_ec_size :: "byte list \<Rightarrow> int option"
  le_rsa_size :: "byte list \<Rightarrow> int option"
  le_soft_alloc :: "nat \<Rightarrow> bool"
  le_ec_decode :: "byte list \<Rightarrow> (nat \<times> wc_ctx) option"
  le_rsa_decode :: "byte list \<Rightarrow> (nat \<times> wc_ctx) option"

text \<open>\<open>wp11_keystore_load\<close> of a path with the caller's PIN (\<open>None\<close> for \<open>NULL\<close>); \<open>None\<close> when a read never returns.\<close>

definition keystore_load_path ::
  "'d login_env \<Rightarrow> nat \<Rightarrow> byte list \<Rightarrow> byte list option \<Rightarrow> 'd wp11_state \<Rightarrow> ('d wp11_state \<times> (ks_err + wp11_keystore)) option" where
  "keystore_load_path env n path pin st =
     (case wp11_keystore_load (le_mem env) (le_width env) (le_crypto env) (le_io env n path) (pin \<noteq> None)
             (case pin of None \<Rightarrow> [] | Some p \<Rightarrow> p) (heap st) of
        None \<Rightarrow> None
      | Some (mem, r) \<Rightarrow> Some (st\<lparr>heap := mem\<rparr>, r))"

definition keystore_release :: "wp11_keystore \<Rightarrow> 'd wp11_state \<Rightarrow> 'd wp11_state" where
  "keystore_release k st = st\<lparr>heap := wp11_keystore_free (Some k) (heap st)\<rparr>"

section \<open>Key objects from keystore entries\<close>

definition entry_der :: "wp11_key_entry \<Rightarrow> byte list" where
  "entry_der e = (case der_bytes e of None \<Rightarrow> [] | Some (b, d) \<Rightarrow> d)"

definition ks_key_sig_len_max :: "'d login_env \<Rightarrow> wp11_key_entry \<Rightarrow> nat" where
  "ks_key_sig_len_max env e =
     (if key_type e = KEY_TYPE_EC then
        (case le_ec_size env (entry_der e) of
           None \<Rightarrow> 0
         | Some key_size \<Rightarrow> if key_size \<le> 0 then 0 else nat (8 + 2 * key_size))
      else
        (case le_rsa_size env (entry_der e) of
           None \<Rightarrow> 0
         | Some key_size \<Rightarrow> if key_size \<le> 0 then 0 else nat key_size))"

text \<open>The first free entry of \<open>g_keys[]\<close> is filled; the fields that are not assigned keep what they had.\<close>

definition put_key :: "(wp11_key_obj \<Rightarrow> wp11_key_obj) \<Rightarrow> 'd wp11_state \<Rightarrow> 'd wp11_state option" where
  "put_key f st =
     (case first_index (\<lambda>k. \<not> k_in_use k) (g_keys st) of
        None \<Rightarrow> None
      | Some i \<Rightarrow> Some (st\<lparr>g_keys := (g_keys st)[i := f (g_keys st ! i)]\<rparr>))"

definition keystore_entries :: "wp11_keystore \<Rightarrow> wp11_key_entry list" where
  "keystore_entries ks = List.map_filter (wp11_keystore_get (Some ks)) [0..<wp11_keystore_count (Some ks)]"

definition entry_key_type :: "wp11_key_entry \<Rightarrow> nat" where
  "entry_key_type e = (if key_type e = KEY_TYPE_EC then CKK_EC else CKK_RSA)"

fun ks_populate :: "'d login_env \<Rightarrow> nat \<Rightarrow> nat \<Rightarrow> backend_ops \<Rightarrow> wp11_key_entry list \<Rightarrow> 'd wp11_state \<Rightarrow> 'd wp11_state \<times> nat" where
  "ks_populate env slot_id blk t [] st = (st, 0)"
| "ks_populate env slot_id blk t (e # es) st =
     (case put_key (\<lambda>k. k\<lparr>k_in_use := True, k_slot_id := slot_id, obj_class := CKO_PRIVATE_KEY, k_key_type := entry_key_type e,
          sig_len_max := ks_key_sig_len_max env e, key_priv := Some (KsEntry blk e), ops := Some t, is_private := True,
          is_token := True, k_label := cstr (take 31 (label e))\<rparr>) st of
        None \<Rightarrow> apsnd Suc (ks_populate env slot_id blk t es st)
      | Some st' \<Rightarrow> ks_populate env slot_id blk t es st')"

text \<open>The number of entries that did not fit is returned beside the state.\<close>

definition ks_slot_populate_keys ::
  "'d login_env \<Rightarrow> nat \<Rightarrow> wp11_keystore \<Rightarrow> backend_ops \<Rightarrow> 'd wp11_state \<Rightarrow> 'd wp11_state \<times> nat" where
  "ks_slot_populate_keys env slot_id ks t st = ks_populate env slot_id (entries_blk ks) t (keystore_entries ks) st"

text \<open>Note that the new object's reference count stays 0, as \<open>calloc\<close> left it.\<close>

definition wp11_soft_key_new_from_der ::
  "'d login_env \<Rightarrow> byte list option \<Rightarrow> int \<Rightarrow> 'd wp11_state \<Rightarrow> 'd wp11_state \<times> nat option" where
  "wp11_soft_key_new_from_der env der key_typ st =
     (case der of
        None \<Rightarrow> (st, None)
      | Some d \<Rightarrow>
          if length d = 0 \<or> length d > 4294967295 then (st, None)
          else if \<not> le_soft_alloc env (priv_next st) then (st\<lparr>priv_next := priv_next st + 1\<rparr>, None)
          else case (if key_typ = 1 then le_ec_decode env d else le_rsa_decode env d) of
            None \<Rightarrow> (st\<lparr>priv_next := priv_next st + 1\<rparr>, None)
          | Some (idx, img) \<Rightarrow>
              if idx \<noteq> length d then (st\<lparr>priv_next := priv_next st + 1\<rparr>, None)
              else (st\<lparr>priv_next := priv_next st + 1, privs := (privs st)(priv_next st \<mapsto>
                      SoftObj \<lparr>sk_ref_count = 0, sk_key_type = (if key_typ = 1 then WP11_SOFT_KEY_ECC else WP11_SOFT_KEY_RSA),
                        sk_image = img\<rparr>)\<rparr>, Some (priv_next st)))"

fun soft_populate :: "'d login_env \<Rightarrow> nat \<Rightarrow> wp11_key_entry list \<Rightarrow> 'd wp11_state \<Rightarrow> 'd wp11_state \<times> nat" where
  "soft_populate env slot_id [] st = (st, 0)"
| "soft_populate env slot_id (e # es) st =
     (if first_index (\<lambda>k. \<not> k_in_use k) (g_keys st) = None then apsnd Suc (soft_populate env slot_id es st)
      else case wp11_soft_key_new_from_der env (map_option snd (der_bytes e)) (key_type e) st of
        (st1, None) \<Rightarrow> apsnd Suc (soft_populate env slot_id es st1)
      | (st1, Some p) \<Rightarrow>
          (case put_key (\<lambda>k. k\<lparr>k_in_use := True, k_slot_id := slot_id, obj_class := CKO_PRIVATE_KEY, k_key_type := entry_key_type e,
              sig_len_max := ks_key_sig_len_max env e, key_priv := Some (SoftKey p), ops := Some wp11_backend_soft_ops,
              is_token := True, k_id := key_id e, k_label := cstr (take 31 (label e))\<rparr>) st1 of
             None \<Rightarrow> apsnd Suc (soft_populate env slot_id es st1)
           | Some st2 \<Rightarrow> soft_populate env slot_id es st2))"

definition soft_slot_populate_keys :: "'d login_env \<Rightarrow> nat \<Rightarrow> wp11_keystore \<Rightarrow> 'd wp11_state \<Rightarrow> 'd wp11_state \<times> nat" where
  "soft_slot_populate_keys env slot_id ks st = soft_populate env slot_id (keystore_entries ks) st"

section \<open>Key objects from a PIV card\<close>

definition PIV_SLOT_AUTH :: byte where "PIV_SLOT_AUTH = 0x9A"
definition PIV_SLOT_SIGN :: byte where "PIV_SLOT_SIGN = 0x9C"
definition PIV_SLOT_KEYMGMT :: byte where "PIV_SLOT_KEYMGMT = 0x9D"
definition PIV_SLOT_CARDAUTH :: byte where "PIV_SLOT_CARDAUTH = 0x9E"
definition PIV_ALG_EC_P256 :: byte where "PIV_ALG_EC_P256 = 0x11"

record piv_slot_row =
  row_slot :: byte
  row_alg :: byte
  row_id :: byte
  row_sig_len :: nat
  row_label :: string

definition piv_slot_tab :: "piv_slot_row list" where
  "piv_slot_tab =
     [\<lparr>row_slot = PIV_SLOT_AUTH, row_alg = PIV_ALG_EC_P256, row_id = 0x01, row_sig_len = 72, row_label = ''PIV Authentication''\<rparr>,
      \<lparr>row_slot = PIV_SLOT_SIGN, row_alg = PIV_ALG_EC_P256, row_id = 0x02, row_sig_len = 72, row_label = ''PIV Digital Signature''\<rparr>,
      \<lparr>row_slot = PIV_SLOT_KEYMGMT, row_alg = PIV_ALG_EC_P256, row_id = 0x03, row_sig_len = 72, row_label = ''PIV Key Management''\<rparr>,
      \<lparr>row_slot = PIV_SLOT_CARDAUTH, row_alg = PIV_ALG_EC_P256, row_id = 0x04, row_sig_len = 72, row_label = ''PIV Card Authentication''\<rparr>]"

text \<open>One key object per PIV slot; \<open>False\<close> when the table is full or an allocation fails.  \<open>c\<close> is the new context.\<close>

fun piv_make_keys :: "'d login_env \<Rightarrow> nat \<Rightarrow> nat \<Rightarrow> piv_slot_row list \<Rightarrow> 'd wp11_state \<Rightarrow> 'd wp11_state \<times> bool" where
  "piv_make_keys env slot_id c [] st = (st, True)"
| "piv_make_keys env slot_id c (r # rs) st =
     (if first_index (\<lambda>k. \<not> k_in_use k) (g_keys st) = None then (st, False)
      else if \<not> le_kp_malloc env (priv_next st) then (st\<lparr>priv_next := priv_next st + 1\<rparr>, False)
      else let p = priv_next st; st1 = st\<lparr>priv_next := p + 1, privs := (privs st)(p \<mapsto> UsbObj)\<rparr> in
        case put_key (\<lambda>k. k\<lparr>k_in_use := True, k_slot_id := slot_id, obj_class := CKO_PRIVATE_KEY, k_key_type := CKK_EC,
            sig_len_max := row_sig_len r, key_priv := Some (UsbKey p c (row_slot r) (row_alg r)),
            ops := Some wp11_backend_usb_ops, is_token := True, k_id := [row_id r], k_label := str (row_label r)\<rparr>) st1 of
          None \<Rightarrow> (st1, False)
        | Some st2 \<Rightarrow> piv_make_keys env slot_id c rs st2)"

text \<open>The certificates; an error skips one slot, a failed allocation or a full table the remaining ones.\<close>

fun piv_make_certs ::
  "'d login_env \<Rightarrow> nat \<Rightarrow> piv_slot_row list \<Rightarrow> 'd wp11_ccid_ctx \<Rightarrow> 'd wp11_state \<Rightarrow> 'd wp11_ccid_ctx \<times> 'd wp11_state" where
  "piv_make_certs env slot_id [] ctx st = (ctx, st)"
| "piv_make_certs env slot_id (r # rs) ctx st =
     (if \<not> le_der_malloc env (row_slot r) then (ctx, st)
      else case wp11_piv_get_cert (ccid_xfer (le_usb env)) (le_cert_malloc env (row_slot r)) True ctx (row_slot r) PIV_CERT_MAX_LEN of
        (ctx1, Inl e) \<Rightarrow> piv_make_certs env slot_id rs ctx1 st
      | (ctx1, Inr der) \<Rightarrow>
          (case put_key (\<lambda>k. k\<lparr>k_in_use := True, k_slot_id := slot_id, obj_class := CKO_CERTIFICATE, key_priv := None,
              ops := Some wp11_backend_usb_ops, is_token := True, k_id := [row_id r], cert_der := Some der,
              k_label := str (row_label r)\<rparr>) st of
             None \<Rightarrow> (ctx1, st)
           | Some st1 \<Rightarrow> piv_make_certs env slot_id rs ctx1 st1))"

text \<open>
  A context that is closed again on an error path never enters the heap \<open>ccids\<close>; on success it is entered with the state
  the exchanges have left it in.
\<close>

definition piv_login :: "'d login_env \<Rightarrow> nat \<Rightarrow> byte list option \<Rightarrow> 'd wp11_state \<Rightarrow> 'd wp11_state \<times> CK_RV" where
  "piv_login env slot_id pin st =
     (case pin of
        None \<Rightarrow> (st, CKR_ARGUMENTS_BAD)
      | Some p \<Rightarrow>
          if p = [] then (st, CKR_ARGUMENTS_BAD)
          else case wp11_ccid_open True (le_bus env) (sl_vid (g_slots st ! slot_id)) (sl_pid (g_slots st ! slot_id)) (le_dev env) of
            (h, Inl e) \<Rightarrow> (st, CKR_DEVICE_ERROR)
          | (h, Inr ctx) \<Rightarrow>
              (case wp11_piv_select (ccid_xfer (le_usb env)) True ctx of
                 (ctx1, Inl e) \<Rightarrow> (st, CKR_DEVICE_ERROR)
               | (ctx1, Inr u) \<Rightarrow>
                   (case wp11_piv_verify_pin (ccid_xfer (le_usb env)) True ctx1 p of
                      (ctx2, Inl e) \<Rightarrow>
                        (st, if e = PIV_ERR_PIN_BAD \<or> e = PIV_ERR_PIN_LOCKED then CKR_PIN_INCORRECT else CKR_FUNCTION_FAILED)
                    | (ctx2, Inr v) \<Rightarrow>
                        (let c = ccid_next st in
                         case piv_make_keys env slot_id c piv_slot_tab (st\<lparr>ccid_next := c + 1\<rparr>) of
                           (st1, False) \<Rightarrow> (piv_slot_clear_keys slot_id st1, CKR_DEVICE_MEMORY)
                         | (st1, True) \<Rightarrow>
                             (case piv_make_certs env slot_id piv_slot_tab ctx2 st1 of
                                (ctx3, st2) \<Rightarrow>
                                  (upd_slot slot_id (\<lambda>s. s\<lparr>ccid := Some c\<rparr>) (st2\<lparr>ccids := (ccids st2)(c \<mapsto> ctx3)\<rparr>), CKR_OK))))))"

section \<open>Login\<close>

text \<open>Consecutive parts of a function: the next one runs only after \<open>CKR_OK\<close>.\<close>

definition rv_then :: "('d wp11_state \<times> CK_RV) option \<Rightarrow> ('d wp11_state \<Rightarrow> ('d wp11_state \<times> CK_RV) option) \<Rightarrow> ('d wp11_state \<times> CK_RV) option" where
  "rv_then r f = (case r of None \<Rightarrow> None | Some (st, rv) \<Rightarrow> if rv = CKR_OK then f st else Some (st, rv))"

definition SOFT_PIN_SIZE :: nat where "SOFT_PIN_SIZE = 64"

definition load_rv :: "ks_err \<Rightarrow> CK_RV" where
  "load_rv e = (if e = KS_ERR_BAD_PIN then CKR_PIN_INCORRECT else CKR_FUNCTION_FAILED)"

text \<open>The load of a keystore file into a slot, shared by the flash and the directory backend.\<close>

definition keystore_login ::
  "'d login_env \<Rightarrow> nat \<Rightarrow> nat \<Rightarrow> backend_ops \<Rightarrow> byte list option \<Rightarrow> 'd wp11_state \<Rightarrow> ('d wp11_state \<times> CK_RV) option" where
  "keystore_login env n slot_id t pin st =
     (case keystore_load_path env n (keystore_path (g_slots st ! slot_id)) pin st of
        None \<Rightarrow> None
      | Some (st1, Inl e) \<Rightarrow> Some (st1, load_rv e)
      | Some (st1, Inr ks) \<Rightarrow>
          (case ks_slot_populate_keys env slot_id ks t (upd_slot slot_id (\<lambda>s. s\<lparr>keystore := Some ks\<rparr>) st1) of
             (st2, dropped) \<Rightarrow>
               if dropped > 0 then
                 Some (upd_slot slot_id (\<lambda>s. s\<lparr>keystore := None\<rparr>) (keystore_release ks (ks_slot_clear_keys slot_id st2)), CKR_DEVICE_MEMORY)
               else Some (st2, CKR_OK)))"

definition soft_login :: "'d login_env \<Rightarrow> nat \<Rightarrow> byte list option \<Rightarrow> 'd wp11_state \<Rightarrow> ('d wp11_state \<times> CK_RV) option" where
  "soft_login env slot_id pin st =
     (case keystore_load_path env 0 (keystore_path (g_slots st ! slot_id)) pin st of
        None \<Rightarrow> None
      | Some (st1, Inl e) \<Rightarrow> Some (st1, if e = KS_ERR_IO then CKR_USER_PIN_NOT_INITIALIZED else load_rv e)
      | Some (st1, Inr ks) \<Rightarrow>
          if \<not> le_mlock_pin env then Some (keystore_release ks st1, CKR_GENERAL_ERROR)
          else let st2 = upd_slot slot_id (\<lambda>s. s\<lparr>soft_pin_locked := True, soft_pin := (case pin of None \<Rightarrow> [] | Some p \<Rightarrow> p)\<rparr>) st1 in
            (case soft_slot_populate_keys env slot_id ks st2 of
               (st3, dropped) \<Rightarrow>
                 if dropped > 0 then
                   Some (upd_slot slot_id (\<lambda>s. s\<lparr>soft_pin := []\<rparr>) (keystore_release ks (soft_slot_clear_keys slot_id st3)), CKR_DEVICE_MEMORY)
                 else Some (keystore_release ks st3, CKR_OK)))"

definition flash_part ::
  "wp11_cfg \<Rightarrow> 'd login_env \<Rightarrow> nat \<Rightarrow> byte list option \<Rightarrow> 'd wp11_state \<Rightarrow> ('d wp11_state \<times> CK_RV) option" where
  "flash_part cfg env slot_id pin st =
     (if CFG_USB_FLASH cfg \<and> keystore_path (g_slots st ! slot_id) \<noteq> [] then
        (case pin of
           None \<Rightarrow> Some (st, CKR_ARGUMENTS_BAD)
         | Some p \<Rightarrow>
             if p = [] then Some (st, CKR_ARGUMENTS_BAD)
             else if length p > SOFT_PIN_SIZE then Some (st, CKR_PIN_LEN_RANGE)
             else if sl_proto (g_slots st ! slot_id) = PROTO_SOFT then soft_login env slot_id pin st
             else keystore_login env 0 slot_id wp11_backend_flash_ops pin st)
      else Some (st, CKR_OK))"

definition fsdir_part ::
  "wp11_cfg \<Rightarrow> 'd login_env \<Rightarrow> nat \<Rightarrow> byte list option \<Rightarrow> 'd wp11_state \<Rightarrow> ('d wp11_state \<times> CK_RV) option" where
  "fsdir_part cfg env slot_id pin st =
     (if CFG_FSDIR cfg \<and> sl_proto (g_slots st ! slot_id) = PROTO_FSDIR then
        (case pin of
           None \<Rightarrow> Some (st, CKR_ARGUMENTS_BAD)
         | Some p \<Rightarrow>
             if p = [] then Some (st, CKR_ARGUMENTS_BAD)
             else keystore_login env 1 slot_id wp11_backend_fsdir_ops pin st)
      else Some (st, CKR_OK))"

definition is_rw :: "wp11_session \<Rightarrow> bool" where
  "is_rw s \<longleftrightarrow> s_flags s AND CKF_RW_SESSION \<noteq> 0"

definition mark_user :: "wp11_session \<Rightarrow> wp11_session" where
  "mark_user s = s\<lparr>s_logged_in := 1, s_state := (if is_rw s then CKS_RW_USER_FUNCTIONS else CKS_RO_USER_FUNCTIONS)\<rparr>"

definition mark_so :: "wp11_session \<Rightarrow> wp11_session" where
  "mark_so s = s\<lparr>s_logged_in := 2, s_state := CKS_RW_SO_FUNCTIONS\<rparr>"

text \<open>The part of \<open>C_Login\<close> for \<open>CKU_USER\<close>, and the PIN check of \<open>CKU_SO\<close>.\<close>

definition login_user ::
  "wp11_cfg \<Rightarrow> 'd login_env \<Rightarrow> nat \<Rightarrow> byte list option \<Rightarrow> 'd wp11_state \<Rightarrow> ('d wp11_state \<times> CK_RV) option" where
  "login_user cfg env slot_id pin st =
     rv_then (if CFG_USB cfg \<and> sl_proto (g_slots st ! slot_id) = PROTO_PIV then Some (piv_login env slot_id pin st) else Some (st, CKR_OK))
       (\<lambda>st1. rv_then (flash_part cfg env slot_id pin st1)
         (\<lambda>st2. rv_then (fsdir_part cfg env slot_id pin st2)
           (\<lambda>st3. Some (on_slot_sessions slot_id mark_user st3, CKR_OK))))"

definition so_check ::
  "wp11_cfg \<Rightarrow> 'd login_env \<Rightarrow> nat \<Rightarrow> byte list option \<Rightarrow> 'd wp11_state \<Rightarrow> ('d wp11_state \<times> CK_RV) option" where
  "so_check cfg env slot_id pin st =
     (let sl = g_slots st ! slot_id in
      if \<exists>s \<in> set (g_sessions st). s_in_use s \<and> s_slot_id s = slot_id \<and> \<not> is_rw s then Some (st, CKR_SESSION_READ_ONLY_EXISTS)
      else if CFG_USB_FLASH cfg \<and> sl_proto sl = PROTO_SOFT \<and> keystore_path sl \<noteq> [] \<and> le_stat_ok env (keystore_path sl) then
        (case keystore_load_path env 0 (keystore_path sl) pin st of
           None \<Rightarrow> None
         | Some (st1, Inl e) \<Rightarrow> Some (st1, load_rv e)
         | Some (st1, Inr ks) \<Rightarrow> Some (keystore_release ks st1, CKR_OK))
      else Some (st, CKR_OK))"

text \<open>\<open>cleanup\<close>: the count of wrong PINs of the slot.\<close>

definition count_pin_failure :: "nat \<Rightarrow> 'd wp11_state \<times> CK_RV \<Rightarrow> 'd wp11_state \<times> CK_RV" where
  "count_pin_failure slot_id r =
     (case r of (st, rv) \<Rightarrow>
        (if rv = CKR_PIN_INCORRECT then upd_slot slot_id (\<lambda>s. s\<lparr>pin_fail_count := pin_fail_count s + 1\<rparr>) st
         else if rv = CKR_OK then upd_slot slot_id (\<lambda>s. s\<lparr>pin_fail_count := 0\<rparr>) st
         else st, rv))"

definition C_Login ::
  "wp11_cfg \<Rightarrow> 'd login_env \<Rightarrow> nat \<Rightarrow> nat \<Rightarrow> byte list option \<Rightarrow> 'd wp11_state \<Rightarrow> ('d wp11_state \<times> CK_RV) option" where
  "C_Login cfg env hSession userType pin st =
     (if \<not> g_lock_ready st \<or> \<not> g_initialized st then Some (st, CKR_CRYPTOKI_NOT_INITIALIZED)
      else case session_get st hSession of
        None \<Rightarrow> Some (st, CKR_SESSION_HANDLE_INVALID)
      | Some i \<Rightarrow>
          let slot_id = s_slot_id (g_sessions st ! i) in
          map_option (count_pin_failure slot_id)
            (case find (\<lambda>s. s_in_use s \<and> s_slot_id s = slot_id \<and> s_logged_in s \<noteq> 0) (g_sessions st) of
               Some s \<Rightarrow>
                 Some (st, if s_logged_in s = (if userType = CKU_SO then 2 else 1)
                           then CKR_USER_ALREADY_LOGGED_IN else CKR_USER_ANOTHER_ALREADY_LOGGED_IN)
             | None \<Rightarrow>
                 if userType = CKU_SO then
                   rv_then (so_check cfg env slot_id pin st) (\<lambda>st1. Some (on_slot_sessions slot_id mark_so st1, CKR_OK))
                 else if userType = CKU_USER then login_user cfg env slot_id pin st
                 else Some (st, CKR_USER_TYPE_INVALID)))"

section \<open>Logout\<close>

definition mark_public :: "wp11_session \<Rightarrow> wp11_session" where
  "mark_public s = s\<lparr>s_logged_in := 0, s_state := (if is_rw s then CKS_RW_PUBLIC_SESSION else CKS_RO_PUBLIC_SESSION),
     sign_active := False, sign_key := 0, verify_active := False, verify_key := 0, encrypt_active := False, encrypt_key := 0,
     decrypt_active := False, decrypt_key := 0, digest_active := False, find_active := False, find_pos := 0, find_tmpl := []\<rparr>"

definition logout_piv :: "wp11_cfg \<Rightarrow> nat \<Rightarrow> 'd wp11_state \<Rightarrow> 'd wp11_state" where
  "logout_piv cfg i st =
     (if CFG_USB cfg \<and> sl_proto (g_slots st ! i) = PROTO_PIV \<and> ccid (g_slots st ! i) \<noteq> None
      then upd_slot i (\<lambda>s. s\<lparr>ccid := None\<rparr>) (ccid_close (ccid (g_slots st ! i)) (piv_slot_clear_keys i st))
      else st)"

definition logout_soft :: "wp11_cfg \<Rightarrow> nat \<Rightarrow> 'd wp11_state \<Rightarrow> 'd wp11_state" where
  "logout_soft cfg i st =
     (if CFG_USB_FLASH cfg \<and> sl_proto (g_slots st ! i) = PROTO_SOFT \<and> keystore_path (g_slots st ! i) \<noteq> []
      then upd_slot i (\<lambda>s. s\<lparr>soft_pin := [], soft_pin_locked := False\<rparr>) (soft_slot_clear_keys i st)
      else st)"

definition logout_keystore :: "wp11_cfg \<Rightarrow> nat \<Rightarrow> 'd wp11_state \<Rightarrow> 'd wp11_state" where
  "logout_keystore cfg i st =
     (if CFG_USB_FLASH cfg \<or> CFG_FSDIR cfg then
        (case keystore (g_slots st ! i) of
           None \<Rightarrow> st
         | Some k \<Rightarrow> upd_slot i (\<lambda>s. s\<lparr>keystore := None\<rparr>) (keystore_release k (ks_slot_clear_keys i st)))
      else st)"

definition C_Logout :: "wp11_cfg \<Rightarrow> nat \<Rightarrow> 'd wp11_state \<Rightarrow> 'd wp11_state \<times> CK_RV" where
  "C_Logout cfg hSession st =
     (if \<not> g_lock_ready st \<or> \<not> g_initialized st then (st, CKR_CRYPTOKI_NOT_INITIALIZED)
      else case session_get st hSession of
        None \<Rightarrow> (st, CKR_SESSION_HANDLE_INVALID)
      | Some j \<Rightarrow>
          let i = s_slot_id (g_sessions st ! j) in
          if s_logged_in (g_sessions st ! j) = 0 then (st, CKR_USER_NOT_LOGGED_IN)
          else (on_slot_sessions i mark_public (logout_keystore cfg i (logout_soft cfg i (logout_piv cfg i st))), CKR_OK))"

section \<open>The user PIN of the soft token\<close>

text \<open>
  \<open>cio\<close> are the system calls of the creation and \<open>fs\<close> the file system; the result has the
  file systems after each of its operations and the return code.
\<close>

definition C_InitPIN ::
  "wp11_cfg \<Rightarrow> 'd login_env \<Rightarrow> create_io \<Rightarrow> nat \<Rightarrow> byte list option \<Rightarrow> files \<Rightarrow> 'd wp11_state
     \<Rightarrow> ('d wp11_state \<times> files list \<times> CK_RV) option" where
  "C_InitPIN cfg env cio hSession pin fs st =
     (if \<not> g_lock_ready st \<or> \<not> g_initialized st then Some (st, [], CKR_CRYPTOKI_NOT_INITIALIZED)
      else case pin of
        None \<Rightarrow> Some (st, [], CKR_ARGUMENTS_BAD)
      | Some p \<Rightarrow>
          if p = [] then Some (st, [], CKR_PIN_LEN_RANGE)
          else case session_get st hSession of
            None \<Rightarrow> Some (st, [], CKR_SESSION_HANDLE_INVALID)
          | Some j \<Rightarrow>
              let sl = g_slots st ! s_slot_id (g_sessions st ! j) in
              if CFG_USB_FLASH cfg \<and> sl_proto sl = PROTO_SOFT \<and> keystore_path sl \<noteq> [] then
                (case keystore_load_path env 0 (keystore_path sl) pin st of
                   None \<Rightarrow> None
                 | Some (st1, Inr ks) \<Rightarrow> Some (keystore_release ks st1, [], CKR_USER_NOT_LOGGED_IN)
                 | Some (st1, Inl e) \<Rightarrow>
                     if e \<noteq> KS_ERR_IO
                     then Some (st1, [], if e = KS_ERR_BAD_PIN then CKR_USER_NOT_LOGGED_IN else CKR_FUNCTION_FAILED)
                     else if length p > SOFT_PIN_SIZE then Some (st1, [], CKR_PIN_LEN_RANGE)
                     else (case wp11_keystore_create (le_mem env) (le_width env) (le_crypto env) cio True (keystore_path sl) p None 0 (heap st1) fs of
                        None \<Rightarrow> None
                      | Some (mem, trace, r) \<Rightarrow>
                          Some (st1\<lparr>heap := mem\<rparr>, trace, case r of Inl e \<Rightarrow> CKR_FUNCTION_FAILED | Inr u \<Rightarrow> CKR_OK)))
              else Some (st, [], CKR_FUNCTION_NOT_SUPPORTED))"

end
