(* ===== verification/Objects.thy ===== *)
theory Objects imports Sessions begin

text \<open>
  Object search, destruction and the latching attributes of \<open>src/wp11_pkcs11.c\<close> (\<open>C_FindObjectsInit\<close>, \<open>C_FindObjects\<close>,
  \<open>C_FindObjectsFinal\<close>, \<open>C_DestroyObject\<close>, \<open>C_GetObjectSize\<close>, \<open>C_SetAttributeValue\<close>), and \<open>C_SignInit\<close>.
\<close>

section \<open>Templates\<close>

definition CKA_CLASS :: nat where "CKA_CLASS = 0x000"
definition CKA_TOKEN :: nat where "CKA_TOKEN = 0x001"
definition CKA_LABEL :: nat where "CKA_LABEL = 0x003"
definition CKA_APPLICATION :: nat where "CKA_APPLICATION = 0x010"
definition CKA_KEY_TYPE :: nat where "CKA_KEY_TYPE = 0x100"
definition CKA_ID :: nat where "CKA_ID = 0x102"
definition CKA_SENSITIVE :: nat where "CKA_SENSITIVE = 0x103"
definition CKA_EXTRACTABLE :: nat where "CKA_EXTRACTABLE = 0x162"

lemmas cka_defs = CKA_CLASS_def CKA_TOKEN_def CKA_LABEL_def CKA_APPLICATION_def CKA_KEY_TYPE_def CKA_ID_def
  CKA_SENSITIVE_def CKA_EXTRACTABLE_def

text \<open>The value is \<open>None\<close> for \<open>pValue == NULL\<close>; its length is \<open>ulValueLen\<close>.\<close>

record CK_ATTRIBUTE =
  a_type :: nat
  a_value :: "byte list option"

text \<open>The eight bytes of a \<open>CK_ULONG\<close> in memory on a 64-bit little-endian target.\<close>

definition ulong_bytes :: "nat \<Rightarrow> byte list" where
  "ulong_bytes n = map (\<lambda>i. byte_of (n div 256 ^ i)) [0..<8]"

definition ulong_at :: "byte list \<Rightarrow> nat \<Rightarrow> nat" where
  "ulong_at bs i = be_val (rev (bslice bs (8 * i) 8))"

definition attr_matches :: "wp11_key_obj \<Rightarrow> wp11_find_attr \<Rightarrow> bool" where
  "attr_matches obj t =
     (if fa_type t = CKA_CLASS then fa_len t = 8 \<and> ulong_bytes (obj_class obj) = fa_val t
      else if fa_type t = CKA_KEY_TYPE then fa_len t = 8 \<and> ulong_bytes (k_key_type obj) = fa_val t
      else if fa_type t = CKA_LABEL then fa_len t = length (k_label obj) \<and> k_label obj = fa_val t
      else if fa_type t = CKA_ID then fa_len t = length (k_id obj) \<and> k_id obj = fa_val t
      else if fa_type t = CKA_TOKEN then fa_len t = 1 \<and> (fa_val t ! 0 \<noteq> 0) = is_token obj
      else if fa_type t = CKA_APPLICATION then fa_len t = length (application obj) \<and> application obj = fa_val t
      else False)"

fun key_matches_template :: "wp11_key_obj \<Rightarrow> wp11_find_attr list \<Rightarrow> bool" where
  "key_matches_template obj [] = True"
| "key_matches_template obj (t # ts) = (if \<not> attr_matches obj t then False else key_matches_template obj ts)"

section \<open>Find\<close>

text \<open>The copy of the template; \<open>None\<close> when an attribute has no value or one that is too long.\<close>

fun copy_template :: "CK_ATTRIBUTE list \<Rightarrow> wp11_find_attr list option" where
  "copy_template [] = Some []"
| "copy_template (a # as) =
     (case a_value a of
        None \<Rightarrow> None
      | Some v \<Rightarrow>
          if length v > FIND_ATTR_MAX_VAL_LEN then None
          else map_option (Cons \<lparr>fa_type = a_type a, fa_len = length v, fa_val = v\<rparr>) (copy_template as))"

text \<open>A failed copy leaves entries behind \<open>find_tmpl_count\<close>, which is 0 while no search is active.\<close>

definition C_FindObjectsInit :: "nat \<Rightarrow> CK_ATTRIBUTE list option \<Rightarrow> 'd wp11_state \<Rightarrow> 'd wp11_state \<times> CK_RV" where
  "C_FindObjectsInit hSession pTemplate st =
     (if \<not> g_lock_ready st \<or> \<not> g_initialized st then (st, CKR_CRYPTOKI_NOT_INITIALIZED)
      else case session_get st hSession of
        None \<Rightarrow> (st, CKR_SESSION_HANDLE_INVALID)
      | Some i \<Rightarrow>
          if find_active (g_sessions st ! i) then (st, CKR_OPERATION_ACTIVE)
          else let start = (\<lambda>ts. (upd_session i (\<lambda>s. s\<lparr>find_tmpl := ts, find_active := True, find_pos := 0\<rparr>) st, CKR_OK)) in
            case pTemplate of
              None \<Rightarrow> start []
            | Some as \<Rightarrow>
                if as = [] then start []
                else if length as > FIND_TMPL_MAX_ATTRS then (st, CKR_ARGUMENTS_BAD)
                else (case copy_template as of None \<Rightarrow> (st, CKR_ARGUMENTS_BAD) | Some ts \<Rightarrow> start ts))"

text \<open>The loop of \<open>C_FindObjects\<close>: the handles found, at most \<open>maxc\<close>, and the position behind the last object looked at.\<close>

function find_scan :: "(nat \<Rightarrow> bool) \<Rightarrow> nat \<Rightarrow> nat \<Rightarrow> nat list \<times> nat" where
  "find_scan hit maxc pos =
     (if pos < MAX_KEYS \<and> maxc > 0 then
        (if hit pos then (let (hs, p) = find_scan hit (maxc - 1) (pos + 1) in ((pos + 1) # hs, p))
         else find_scan hit maxc (pos + 1))
      else ([], pos))"
  by pat_completeness auto
termination
  by (relation "measure (\<lambda>(hit, maxc, pos). MAX_KEYS - pos)") auto

declare find_scan.simps [simp del]

definition find_hit :: "'d wp11_state \<Rightarrow> wp11_session \<Rightarrow> nat \<Rightarrow> bool" where
  "find_hit st s idx \<longleftrightarrow> k_in_use (g_keys st ! idx) \<and> k_slot_id (g_keys st ! idx) = s_slot_id s
     \<and> key_matches_template (g_keys st ! idx) (find_tmpl s)"

definition C_FindObjects :: "nat \<Rightarrow> bool \<Rightarrow> nat \<Rightarrow> 'd wp11_state \<Rightarrow> 'd wp11_state \<times> (CK_RV + nat list)" where
  "C_FindObjects hSession ptrs_ok ulMax st =
     (if \<not> g_lock_ready st \<or> \<not> g_initialized st then (st, Inl CKR_CRYPTOKI_NOT_INITIALIZED)
      else if \<not> ptrs_ok then (st, Inl CKR_ARGUMENTS_BAD)
      else case session_get st hSession of
        None \<Rightarrow> (st, Inl CKR_SESSION_HANDLE_INVALID)
      | Some i \<Rightarrow>
          let s = g_sessions st ! i in
          if \<not> find_active s then (st, Inl CKR_OPERATION_NOT_INITIALIZED)
          else (case find_scan (find_hit st s) ulMax (find_pos s) of
             (hs, p) \<Rightarrow> (upd_session i (\<lambda>s. s\<lparr>find_pos := p\<rparr>) st, Inr hs)))"

definition C_FindObjectsFinal :: "nat \<Rightarrow> 'd wp11_state \<Rightarrow> 'd wp11_state \<times> CK_RV" where
  "C_FindObjectsFinal hSession st =
     (if \<not> g_lock_ready st \<or> \<not> g_initialized st then (st, CKR_CRYPTOKI_NOT_INITIALIZED)
      else case session_get st hSession of
        None \<Rightarrow> (st, CKR_SESSION_HANDLE_INVALID)
      | Some i \<Rightarrow>
          if \<not> find_active (g_sessions st ! i) then (st, CKR_OPERATION_NOT_INITIALIZED)
          else (upd_session i (\<lambda>s. s\<lparr>find_active := False, find_tmpl := []\<rparr>) st, CKR_OK))"

section \<open>Destroying an object\<close>

definition forget_key :: "nat \<Rightarrow> wp11_session \<Rightarrow> wp11_session" where
  "forget_key h s =
     (if \<not> s_in_use s then s
      else let s1 = (if sign_key s = h then s\<lparr>sign_active := False, sign_key := 0\<rparr> else s);
               s2 = (if verify_key s1 = h then s1\<lparr>verify_active := False, verify_key := 0\<rparr> else s1);
               s3 = (if encrypt_key s2 = h then s2\<lparr>encrypt_active := False, encrypt_key := 0\<rparr> else s2) in
        if decrypt_key s3 = h then s3\<lparr>decrypt_active := False, decrypt_key := 0\<rparr> else s3)"

text \<open>Only \<open>key_priv\<close>, \<open>secret\<close> and \<open>in_use\<close> are reset; every other field keeps its value.\<close>

definition C_DestroyObject :: "nat \<Rightarrow> nat \<Rightarrow> 'd wp11_state \<Rightarrow> 'd wp11_state \<times> CK_RV" where
  "C_DestroyObject hSession hObject st =
     (if \<not> g_lock_ready st \<or> \<not> g_initialized st then (st, CKR_CRYPTOKI_NOT_INITIALIZED)
      else case session_get st hSession of
        None \<Rightarrow> (st, CKR_SESSION_HANDLE_INVALID)
      | Some i \<Rightarrow>
          (case key_get st hObject of
             None \<Rightarrow> (st, CKR_OBJECT_HANDLE_INVALID)
           | Some j \<Rightarrow>
               let obj = g_keys st ! j in
               if k_slot_id obj \<noteq> s_slot_id (g_sessions st ! i) then (st, CKR_OBJECT_HANDLE_INVALID)
               else let st1 = free_key_priv obj st;
                        st2 = st1\<lparr>g_keys := (g_keys st1)[j := obj\<lparr>key_priv := None, secret := None, k_in_use := False\<rparr>]\<rparr> in
                 (st2\<lparr>g_sessions := map (forget_key hObject) (g_sessions st2)\<rparr>, CKR_OK)))"

definition C_GetObjectSize :: "nat \<Rightarrow> nat \<Rightarrow> bool \<Rightarrow> 'd wp11_state \<Rightarrow> CK_RV" where
  "C_GetObjectSize hSession hObject ptr_ok st =
     (if \<not> g_lock_ready st \<or> \<not> g_initialized st then CKR_CRYPTOKI_NOT_INITIALIZED
      else if session_get st hSession = None then CKR_SESSION_HANDLE_INVALID
      else if key_get st hObject = None then CKR_OBJECT_HANDLE_INVALID
      else if \<not> ptr_ok then CKR_ARGUMENTS_BAD
      else CKR_OK)"

section \<open>Attributes that may change\<close>

text \<open>One attribute of \<open>C_SetAttributeValue\<close>; \<open>None\<close> for \<open>CKR_ATTRIBUTE_READ_ONLY\<close>.  A \<open>CK_BBOOL\<close> is one byte.\<close>

definition set_attr :: "CK_ATTRIBUTE \<Rightarrow> wp11_key_obj \<Rightarrow> wp11_key_obj option" where
  "set_attr a obj =
     (case a_value a of
        None \<Rightarrow> Some obj
      | Some v \<Rightarrow>
          if a_type a = CKA_CLASS \<or> a_type a = CKA_KEY_TYPE then None
          else if a_type a = CKA_SENSITIVE then
            (if length v = 1 then
               (if is_sensitive obj \<and> v ! 0 = 0 then None
                else Some (if v ! 0 \<noteq> 0 then obj\<lparr>is_sensitive := True\<rparr> else obj))
             else Some obj)
          else if a_type a = CKA_EXTRACTABLE then
            (if length v = 1 then
               (if \<not> is_extractable obj \<and> v ! 0 \<noteq> 0 then None
                else Some (if v ! 0 = 0 then obj\<lparr>is_extractable := False, never_extractable := True\<rparr> else obj))
             else Some obj)
          else if a_type a = CKA_LABEL then
            (if length v \<le> 31 then Some (obj\<lparr>k_label := cstr v\<rparr>) else Some obj)
          else Some obj)"

text \<open>The loop stops at the first read-only attribute; what was set before it stays set.\<close>

fun set_attrs :: "CK_ATTRIBUTE list \<Rightarrow> wp11_key_obj \<Rightarrow> wp11_key_obj \<times> CK_RV" where
  "set_attrs [] obj = (obj, CKR_OK)"
| "set_attrs (a # as) obj =
     (case set_attr a obj of None \<Rightarrow> (obj, CKR_ATTRIBUTE_READ_ONLY) | Some obj' \<Rightarrow> set_attrs as obj')"

text \<open>\<open>pTemplate\<close> is \<open>None\<close> for a \<open>NULL\<close> template with a positive count.\<close>

definition C_SetAttributeValue :: "nat \<Rightarrow> nat \<Rightarrow> CK_ATTRIBUTE list option \<Rightarrow> 'd wp11_state \<Rightarrow> 'd wp11_state \<times> CK_RV" where
  "C_SetAttributeValue hSession hObject pTemplate st =
     (if \<not> g_lock_ready st \<or> \<not> g_initialized st then (st, CKR_CRYPTOKI_NOT_INITIALIZED)
      else if session_get st hSession = None then (st, CKR_SESSION_HANDLE_INVALID)
      else case key_get st hObject of
        None \<Rightarrow> (st, CKR_OBJECT_HANDLE_INVALID)
      | Some j \<Rightarrow>
          (case pTemplate of
             None \<Rightarrow> (st, CKR_ARGUMENTS_BAD)
           | Some as \<Rightarrow>
               (case set_attrs as (g_keys st ! j) of
                  (obj, rv) \<Rightarrow> (st\<lparr>g_keys := (g_keys st)[j := obj]\<rparr>, rv))))"

section \<open>Starting a signature\<close>

text \<open>\<open>pParameter\<close> is \<open>None\<close> for \<open>NULL\<close>; \<open>ulParameterLen\<close> is the length of what it points to otherwise.\<close>

record CK_MECHANISM =
  mechanism :: nat
  pParameter :: "byte list option"
  ulParameterLen :: nat

definition validate_mechanism_params :: "CK_MECHANISM \<Rightarrow> CK_RV" where
  "validate_mechanism_params m =
     (if pParameter m = None \<and> ulParameterLen m \<noteq> 0 then CKR_MECHANISM_PARAM_INVALID
      else if pParameter m \<noteq> None \<and> ulParameterLen m = 0 then CKR_MECHANISM_PARAM_INVALID
      else if ulParameterLen m \<noteq> 0 then CKR_MECHANISM_PARAM_INVALID
      else CKR_OK)"

text \<open>
  \<open>CK_RSA_PKCS_PSS_PARAMS\<close> is three \<open>CK_ULONG\<close>s; a salt length of 0 means the default, -1 in wolfCrypt, and the
  cast to \<open>int\<close> keeps the low 32 bits.
\<close>

definition parse_pss :: "CK_MECHANISM \<Rightarrow> CK_RV + wc_hash \<times> wc_mgf \<times> int" where
  "parse_pss m =
     (case pParameter m of
        None \<Rightarrow> Inl CKR_MECHANISM_PARAM_INVALID
      | Some bs \<Rightarrow>
          if ulParameterLen m < 24 then Inl CKR_MECHANISM_PARAM_INVALID
          else (case (ck_hash_to_wc (ulong_at bs 0), ck_mgf_to_wc (ulong_at bs 1)) of
             (Some h, Some g) \<Rightarrow>
               Inr (h, g, if ulong_at bs 2 = 0 then -1 else sint (word_of_nat (ulong_at bs 2) :: 32 word))
           | _ \<Rightarrow> Inl CKR_MECHANISM_PARAM_INVALID))"

text \<open>The mechanism checks of \<open>C_SignInit\<close>: the new PSS parameters, if any, or an error.\<close>

definition sign_mech_check :: "CK_MECHANISM \<Rightarrow> wp11_key_obj \<Rightarrow> CK_RV + (wc_hash \<times> wc_mgf \<times> int) option" where
  "sign_mech_check m obj =
     (if mechanism m \<in> {CKM_RSA_PKCS, CKM_ECDSA, CKM_ECDSA_SHA256, CKM_EDDSA} then
        (if validate_mechanism_params m \<noteq> CKR_OK then Inl (validate_mechanism_params m) else Inr None)
      else if mechanism m = CKM_RSA_PKCS_PSS then
        (if k_key_type obj \<noteq> CKK_RSA then Inl CKR_KEY_TYPE_INCONSISTENT
         else case parse_pss m of Inl e \<Rightarrow> Inl e | Inr p \<Rightarrow> Inr (Some p))
      else if mech_is_hmac (mechanism m) then
        (if k_key_type obj \<noteq> CKK_GENERIC_SECRET \<and> obj_class obj \<noteq> CKO_SECRET_KEY then Inl CKR_KEY_TYPE_INCONSISTENT
         else (case secret obj of
                 None \<Rightarrow> Inl CKR_KEY_HANDLE_INVALID
               | Some sec \<Rightarrow> if sec = [] then Inl CKR_KEY_HANDLE_INVALID else Inr None))
      else Inl CKR_MECHANISM_INVALID)"

text \<open>Every failure after the session was found, except an operation already active, clears \<open>sign_active\<close>.\<close>

definition C_SignInit :: "nat \<Rightarrow> CK_MECHANISM option \<Rightarrow> nat \<Rightarrow> 'd wp11_state \<Rightarrow> 'd wp11_state \<times> CK_RV" where
  "C_SignInit hSession pMechanism hKey st =
     (if \<not> g_lock_ready st \<or> \<not> g_initialized st then (st, CKR_CRYPTOKI_NOT_INITIALIZED)
      else case pMechanism of
        None \<Rightarrow> (st, CKR_ARGUMENTS_BAD)
      | Some m \<Rightarrow>
          (case session_get st hSession of
             None \<Rightarrow> (st, CKR_SESSION_HANDLE_INVALID)
           | Some i \<Rightarrow>
               let s = g_sessions st ! i; fail = (\<lambda>rv. (upd_session i (\<lambda>s. s\<lparr>sign_active := False\<rparr>) st, rv)) in
               if sign_active s then (st, CKR_OPERATION_ACTIVE)
               else case key_get st hKey of
                 None \<Rightarrow> fail CKR_KEY_HANDLE_INVALID
               | Some j \<Rightarrow>
                   let obj = g_keys st ! j in
                   if obj_class obj = CKO_CERTIFICATE then fail CKR_KEY_HANDLE_INVALID
                   else if s_logged_in s = 0 \<and> is_private obj then fail CKR_USER_NOT_LOGGED_IN
                   else (case sign_mech_check m obj of
                      Inl e \<Rightarrow> fail e
                    | Inr pss \<Rightarrow>
                        (upd_session i (\<lambda>s. s\<lparr>sign_active := True, sign_mech := mechanism m, sign_key := hKey,
                           pss_sign := (if pss = None then pss_sign s else pss)\<rparr>) st, CKR_OK))))"

end
