(* ===== verification/Lifecycle.thy ===== *)
theory Lifecycle imports Sessions begin

text \<open>
  \<open>C_Initialize\<close>, \<open>C_Finalize\<close> and \<open>C_GetInfo\<close> of \<open>src/wp11_pkcs11.c\<close>.  \<open>C_Initialize\<close> holds \<open>g_lock\<close> while it registers the
  hotplug callback; libusb calls the callback for every device already attached before the registration
  returns (that is what \<open>LIBUSB_HOTPLUG_ENUMERATE\<close> asks for).
\<close>

text \<open>What the process environment, the compile-time settings and the system calls give.\<close>

record init_env =
  ie_reserved_null :: bool
  ie_mutex_ok :: bool
  ie_soft_path :: "byte list option"
  ie_soft_default :: "byte list option"
  ie_home :: "byte list option"
  ie_hq_mutex_ok :: bool
  ie_hq_cond_ok :: bool
  ie_libusb_ok :: bool
  ie_register_ok :: bool
  ie_attached :: "usb_descriptor option list"
  ie_event_thread_ok :: bool
  ie_flash_pipe_ok :: bool
  ie_flash_thread_ok :: bool
  ie_fsdir_env :: "byte list option"
  ie_fsdir_default :: "byte list option"
  ie_fsdir_pipe_ok :: bool
  ie_fsdir_thread_ok :: bool

text \<open>Environment variable, then compile-time default, then the home directory unless the path would be truncated.\<close>

definition soft_keystore_path :: "init_env \<Rightarrow> byte list" where
  "soft_keystore_path ie =
     (case (case ie_soft_path ie of None \<Rightarrow> ie_soft_default ie | Some p \<Rightarrow> Some p) of
        Some sp \<Rightarrow> take (KS_PATH_SIZE - 1) sp
      | None \<Rightarrow>
          (case ie_home ie of
             None \<Rightarrow> []
           | Some home \<Rightarrow>
               let p = home @ str ''/.wolfp11/soft.p11k'' in if length p \<ge> KS_PATH_SIZE then [] else p))"

definition init_slot0 :: "wp11_cfg \<Rightarrow> init_env \<Rightarrow> wp11_slot" where
  "init_slot0 cfg ie = zero_slot\<lparr>sl_in_use := True, token_present := True, sl_proto := PROTO_SOFT,
     sl_label := take 32 (str ''wolfP11 Soft Token''),
     keystore_path := (if CFG_USB_FLASH cfg then soft_keystore_path ie else [])\<rparr>"

text \<open>The callback for the devices attached, in turn; \<open>None\<close> when one call never returns.\<close>

fun enumerate_devices :: "bool \<Rightarrow> usb_descriptor option list \<Rightarrow> 'd wp11_state \<Rightarrow> 'd wp11_state option" where
  "enumerate_devices lock_held [] st = Some st"
| "enumerate_devices lock_held (d # ds) st =
     (case hotplug_cb lock_held d True st of None \<Rightarrow> None | Some st' \<Rightarrow> enumerate_devices lock_held ds st')"

definition start_usb :: "init_env \<Rightarrow> 'd wp11_state \<Rightarrow> 'd wp11_state option" where
  "start_usb ie st =
     (if \<not> ie_libusb_ok ie then Some st
      else let st1 = st\<lparr>g_usb_ctx := True\<rparr> in
        if \<not> ie_register_ok ie then Some st1
        else (case enumerate_devices True (ie_attached ie) st1 of
           None \<Rightarrow> None
         | Some st2 \<Rightarrow> Some (st2\<lparr>g_event_thread_running := ie_event_thread_ok ie\<rparr>)))"

definition start_flash :: "init_env \<Rightarrow> 'd wp11_state \<Rightarrow> 'd wp11_state" where
  "start_flash ie st =
     (if ie_flash_pipe_ok ie
      then st\<lparr>g_flash_thread_running := ie_flash_thread_ok ie, g_flash_wake_pipe := ie_flash_thread_ok ie\<rparr>
      else st\<lparr>g_flash_wake_pipe := False\<rparr>)"

definition start_fsdir :: "init_env \<Rightarrow> 'd wp11_state \<Rightarrow> 'd wp11_state" where
  "start_fsdir ie st =
     (let path = (case (case ie_fsdir_env ie of None \<Rightarrow> ie_fsdir_default ie | Some p \<Rightarrow> Some p) of
                    None \<Rightarrow> [] | Some fp \<Rightarrow> take 255 fp);
          st1 = st\<lparr>g_fsdir_path := path\<rparr> in
      if path \<noteq> [] \<and> ie_fsdir_pipe_ok ie
      then st1\<lparr>g_fsdir_thread_running := ie_fsdir_thread_ok ie, g_fsdir_wake_pipe := ie_fsdir_thread_ok ie\<rparr>
      else st1\<lparr>g_fsdir_wake_pipe := False\<rparr>)"

text \<open>The operations tables of the backends: the name of the function each pointer holds, \<open>None\<close> for \<open>NULL\<close>.\<close>

record wp11_backend_ops_t =
  op_sign :: "string option"
  op_verify :: "string option"
  op_decrypt :: "string option"
  op_derive :: "string option"
  op_free_key_priv :: "string option"

fun backend_table :: "backend_ops \<Rightarrow> wp11_backend_ops_t" where
  "backend_table wp11_backend_soft_ops = \<lparr>op_sign = Some ''soft_sign'', op_verify = Some ''soft_verify'', op_decrypt = Some ''soft_decrypt'',
     op_derive = Some ''soft_derive'', op_free_key_priv = Some ''soft_free_key_priv''\<rparr>"
| "backend_table wp11_backend_usb_ops = \<lparr>op_sign = Some ''usb_sign'', op_verify = Some ''usb_verify'', op_decrypt = Some ''usb_decrypt'',
     op_derive = Some ''usb_derive'', op_free_key_priv = Some ''usb_free_key_priv''\<rparr>"
| "backend_table wp11_backend_flash_ops = \<lparr>op_sign = Some ''wp11_ks_sign'', op_verify = Some ''wp11_ks_verify'', op_decrypt = Some ''wp11_ks_decrypt'',
     op_derive = None, op_free_key_priv = None\<rparr>"
| "backend_table wp11_backend_fsdir_ops = \<lparr>op_sign = Some ''wp11_ks_sign'', op_verify = Some ''wp11_ks_verify'', op_decrypt = Some ''wp11_ks_decrypt'',
     op_derive = None, op_free_key_priv = None\<rparr>"

declare backend_table.simps [simp del]

definition wp11_backend_validate :: "wp11_backend_ops_t option \<Rightarrow> bool" where
  "wp11_backend_validate tab =
     (case tab of None \<Rightarrow> False | Some t \<Rightarrow> op_sign t \<noteq> None \<and> op_verify t \<noteq> None \<and> op_decrypt t \<noteq> None)"

text \<open>The check of \<open>C_Initialize\<close> never fails on these tables, and a table without \<open>free_key_priv\<close> is the one the object code tests for.\<close>

lemma tables_valid [simp]: "wp11_backend_validate (Some (backend_table t))"
  by (cases t) (simp_all add: wp11_backend_validate_def backend_table.simps)

lemma has_free_iff: "has_free_key_priv t \<longleftrightarrow> op_free_key_priv (backend_table t) \<noteq> None"
  by (cases t) (simp_all add: backend_table.simps)

text \<open>\<open>None\<close>: the call never returns.\<close>

definition C_Initialize :: "wp11_cfg \<Rightarrow> init_env \<Rightarrow> 'd wp11_state \<Rightarrow> ('d wp11_state \<times> CK_RV) option" where
  "C_Initialize cfg ie st =
     (if \<not> ie_reserved_null ie then Some (st, CKR_ARGUMENTS_BAD)
      else if \<not> g_lock_ready st \<and> \<not> ie_mutex_ok ie then Some (st, CKR_GENERAL_ERROR)
      else let st0 = st\<lparr>g_lock_ready := True\<rparr> in
        if g_initialized st0 then Some (st0, CKR_CRYPTOKI_ALREADY_INITIALIZED)
        else let st1 = st0\<lparr>g_sessions := replicate MAX_SESSIONS zero_session, g_keys := replicate MAX_KEYS zero_key,
                           g_slots := (replicate MAX_SLOTS zero_slot)[0 := init_slot0 cfg ie]\<rparr> in
          if \<not> ie_hq_mutex_ok ie \<or> \<not> ie_hq_cond_ok ie then Some (st1, CKR_GENERAL_ERROR)
          else let st2 = st1\<lparr>g_hotplug_mutex_ready := True,
                             hq := (hq st1)\<lparr>g_hotplug_head := 0, g_hotplug_tail := 0, g_hotplug_dropped := 0\<rparr>\<rparr> in
            case (if CFG_USB cfg then start_usb ie st2 else Some st2) of
              None \<Rightarrow> None
            | Some st3 \<Rightarrow>
                let st4 = (if CFG_USB_FLASH cfg then start_flash ie st3 else st3);
                    st5 = (if CFG_FSDIR cfg then start_fsdir ie st4 else st4) in
                if \<not> wp11_backend_validate (Some (backend_table wp11_backend_soft_ops))
                   \<or> CFG_USB cfg \<and> \<not> wp11_backend_validate (Some (backend_table wp11_backend_usb_ops))
                   \<or> CFG_USB_FLASH cfg \<and> \<not> wp11_backend_validate (Some (backend_table wp11_backend_flash_ops))
                   \<or> CFG_FSDIR cfg \<and> \<not> wp11_backend_validate (Some (backend_table wp11_backend_fsdir_ops))
                then Some (st5, CKR_GENERAL_ERROR)
                else Some (st5\<lparr>g_initialized := True\<rparr>, CKR_OK))"

section \<open>Finalising\<close>

text \<open>The loop over \<open>g_keys[]\<close>: only the private part and the secret are released; \<open>cert_der\<close> keeps its pointer.\<close>

definition finalize_keys :: "'d wp11_state \<Rightarrow> 'd wp11_state" where
  "finalize_keys st =
     (let st1 = release_keys k_in_use st in
      st1\<lparr>g_keys := map (\<lambda>k. k\<lparr>key_priv := None, secret := None, k_in_use := False\<rparr>) (g_keys st1)\<rparr>)"

definition finalize_keystores :: "(wp11_slot \<Rightarrow> bool) \<Rightarrow> 'd wp11_state \<Rightarrow> 'd wp11_state" where
  "finalize_keystores P st =
     fold (\<lambda>i st. let s = g_slots st ! i in
             (case keystore s of
                None \<Rightarrow> st
              | Some k \<Rightarrow> if sl_in_use s \<and> P s then upd_slot i (\<lambda>s. s\<lparr>keystore := None\<rparr>) (keystore_release k st) else st))
          [1..<MAX_SLOTS] st"

text \<open>Note that the cleanup runs also when the library was not initialised.  Joining the threads always succeeds.\<close>

definition finalize_cleanup :: "wp11_cfg \<Rightarrow> 'd wp11_state \<Rightarrow> 'd wp11_state" where
  "finalize_cleanup cfg st =
     st\<lparr>g_lock_ready := False, g_usb_ctx := (g_usb_ctx st \<and> \<not> CFG_USB cfg),
        g_event_thread_running := (g_event_thread_running st \<and> \<not> CFG_USB cfg),
        g_flash_thread_running := (g_flash_thread_running st \<and> \<not> CFG_USB_FLASH cfg),
        g_flash_wake_pipe := (g_flash_wake_pipe st \<and> \<not> CFG_USB_FLASH cfg),
        g_fsdir_thread_running := (g_fsdir_thread_running st \<and> \<not> CFG_FSDIR cfg),
        g_fsdir_wake_pipe := (g_fsdir_wake_pipe st \<and> \<not> CFG_FSDIR cfg),
        g_hotplug_mutex_ready := False\<rparr>"

definition C_Finalize :: "wp11_cfg \<Rightarrow> bool \<Rightarrow> 'd wp11_state \<Rightarrow> 'd wp11_state \<times> CK_RV" where
  "C_Finalize cfg reserved_null st =
     (if \<not> reserved_null then (st, CKR_ARGUMENTS_BAD)
      else if \<not> g_lock_ready st then (st, CKR_CRYPTOKI_NOT_INITIALIZED)
      else if \<not> g_initialized st then (finalize_cleanup cfg st, CKR_CRYPTOKI_NOT_INITIALIZED)
      else let st1 = finalize_keys (st\<lparr>g_initialized := False\<rparr>);
               st2 = (if CFG_USB_FLASH cfg then finalize_keystores (\<lambda>s. True) st1 else st1);
               st3 = (if CFG_FSDIR cfg then finalize_keystores (\<lambda>s. sl_proto s = PROTO_FSDIR) st2 else st2) in
        (finalize_cleanup cfg (st3\<lparr>g_slots := replicate MAX_SLOTS zero_slot\<rparr>), CKR_OK))"

text \<open>Cryptoki version, manufacturer, library description, library version.\<close>

definition C_GetInfo :: "bool \<Rightarrow> 'd wp11_state \<Rightarrow> CK_RV + (nat \<times> nat) \<times> byte list \<times> byte list \<times> (nat \<times> nat)" where
  "C_GetInfo pInfo_ok st =
     (if \<not> g_lock_ready st \<or> \<not> g_initialized st then Inl CKR_CRYPTOKI_NOT_INITIALIZED
      else if \<not> pInfo_ok then Inl CKR_ARGUMENTS_BAD
      else Inr ((2, 40), pad_string 32 (str ''wolfSSL''), pad_string 32 (str ''wolfP11 PKCS#11 Library''), (0, 1)))"

section \<open>Initialising with a token attached\<close>

definition known_token :: "usb_descriptor \<Rightarrow> bool" where
  "known_token d \<longleftrightarrow> bDescriptorType d = LIBUSB_DT_DEVICE \<and> bLength d = LIBUSB_DT_DEVICE_SIZE \<and> idVendor d \<noteq> 0
     \<and> wp11_token_db_lookup (idVendor d) (idProduct d) \<noteq> None"

lemma hotplug_cb_held: "hotplug_cb True d a st = (if \<exists>x. d = Some x \<and> known_token x then None else Some st)"
  by (auto simp: hotplug_cb_def known_token_def split: option.splits)

lemma enumerate_held: "enumerate_devices True ds st = (if \<exists>x. Some x \<in> set ds \<and> known_token x then None else Some st)"
  by (induction ds) (auto simp: hotplug_cb_held)

text \<open>C38. Initialisation hangs when a token is plugged in: in a USB build, with libusb working and a device of the
  token database attached (for which libusb then calls the callback during registration), \<open>C_Initialize\<close> never
  returns, because the callback takes the lock that \<open>C_Initialize\<close> holds.\<close>
theorem initialize_deadlocks_with_token:
  assumes "CFG_USB cfg" "ie_reserved_null ie" "ie_mutex_ok ie" "ie_hq_mutex_ok ie" "ie_hq_cond_ok ie"
    and "ie_libusb_ok ie" "ie_register_ok ie" "\<not> g_initialized st"
    and "Some d \<in> set (ie_attached ie)" "known_token d"
  shows "C_Initialize cfg ie st = None"
  using assms by (auto simp: C_Initialize_def start_usb_def enumerate_held Let_def)

definition sample_ie :: "usb_descriptor option list \<Rightarrow> init_env" where
  "sample_ie ds = \<lparr>ie_reserved_null = True, ie_mutex_ok = True, ie_soft_path = None, ie_soft_default = None, ie_home = None,
     ie_hq_mutex_ok = True, ie_hq_cond_ok = True, ie_libusb_ok = True, ie_register_ok = True, ie_attached = ds,
     ie_event_thread_ok = True, ie_flash_pipe_ok = True, ie_flash_thread_ok = True, ie_fsdir_env = None,
     ie_fsdir_default = None, ie_fsdir_pipe_ok = True, ie_fsdir_thread_ok = True\<rparr>"

theorem initialize_deadlocks_with_token_witness:
  "C_Initialize \<lparr>CFG_USB = True, CFG_USB_FLASH = False, CFG_FSDIR = False\<rparr>
     (sample_ie [Some \<lparr>bDescriptorType = 1, bLength = 18, idVendor = 0x1050, idProduct = 0x0407\<rparr>]) (state0 :: unit wp11_state) = None"
  by (rule initialize_deadlocks_with_token [where d = "\<lparr>bDescriptorType = 1, bLength = 18, idVendor = 0x1050, idProduct = 0x0407\<rparr>"])
    (simp_all add: sample_ie_def state0_def known_token_def LIBUSB_DT_DEVICE_def LIBUSB_DT_DEVICE_SIZE_def
      wp11_token_db_lookup_def wp11_token_db_def)

end
