(* ===== verification/LoginView.thy ===== *)
theory LoginView imports Objects Lifecycle begin

text \<open>
  The login view of the PKCS#11 state: what sessions and slots show of open sessions, tokens and logins.  Every internal
  operation either keeps the view or changes it in one stated way; the invariant of the view holds in every state that any
  interleaving of calls, hotplug events and watcher events reaches.
\<close>

section \<open>The view\<close>

definition sess_core :: "wp11_session \<Rightarrow> bool \<times> nat \<times> CK_FLAGS \<times> CK_STATE \<times> nat" where
  "sess_core s = (s_in_use s, s_slot_id s, s_flags s, s_state s, s_logged_in s)"

definition slot_core :: "wp11_slot \<Rightarrow> bool \<times> bool \<times> u16 \<times> u16 \<times> wp11_proto \<times> byte list \<times> byte list" where
  "slot_core s = (sl_in_use s, token_present s, sl_vid s, sl_pid s, sl_proto s, keystore_path s, sl_label s)"

definition same_view :: "'d wp11_state \<Rightarrow> 'd wp11_state \<Rightarrow> bool" where
  "same_view st st' \<longleftrightarrow> map sess_core (g_sessions st') = map sess_core (g_sessions st)
     \<and> map slot_core (g_slots st') = map slot_core (g_slots st) \<and> length (g_keys st') = length (g_keys st)
     \<and> g_lock_ready st' = g_lock_ready st \<and> g_initialized st' = g_initialized st"

text \<open>The state that PKCS#11 gives a session of a login (0 public, 1 user, 2 security officer).\<close>

definition state_for :: "CK_FLAGS \<Rightarrow> nat \<Rightarrow> CK_STATE" where
  "state_for flags login =
     (let rw = (flags AND CKF_RW_SESSION \<noteq> 0) in
      if login = 2 then CKS_RW_SO_FUNCTIONS
      else if login = 1 then (if rw then CKS_RW_USER_FUNCTIONS else CKS_RO_USER_FUNCTIONS)
      else (if rw then CKS_RW_PUBLIC_SESSION else CKS_RO_PUBLIC_SESSION))"

definition sess_ok :: "wp11_slot list \<Rightarrow> wp11_session \<Rightarrow> bool" where
  "sess_ok slots s \<longleftrightarrow> s_slot_id s < MAX_SLOTS \<and> sl_in_use (slots ! s_slot_id s) \<and> token_present (slots ! s_slot_id s)
     \<and> s_logged_in s \<le> 2 \<and> s_state s = state_for (s_flags s) (s_logged_in s) \<and> (s_logged_in s = 2 \<longrightarrow> is_rw s)"

definition login_inv :: "'d wp11_state \<Rightarrow> bool" where
  "login_inv st \<longleftrightarrow>
     length (g_sessions st) = MAX_SESSIONS \<and> length (g_slots st) = MAX_SLOTS \<and> length (g_keys st) = MAX_KEYS
     \<and> (\<forall>s \<in> set (g_sessions st). s_in_use s \<longrightarrow> sess_ok (g_slots st) s)
     \<and> (\<forall>s \<in> set (g_sessions st). \<forall>t \<in> set (g_sessions st).
          s_in_use s \<and> s_in_use t \<and> s_slot_id s = s_slot_id t \<longrightarrow> s_logged_in s = s_logged_in t)
     \<and> sl_in_use (g_slots st ! 0) \<and> token_present (g_slots st ! 0) \<and> sl_proto (g_slots st ! 0) = PROTO_SOFT"

lemma same_view_refl [simp, intro!]: "same_view st st"
  by (simp add: same_view_def)

lemma same_view_trans [trans]: "same_view a b \<Longrightarrow> same_view b c \<Longrightarrow> same_view a c"
  by (simp add: same_view_def)

lemma map_core_set:
  assumes "map f xs = map f ys" "x \<in> set xs"
  shows "\<exists>y \<in> set ys. f x = f y"
  using assms by (metis (no_types, lifting) imageE image_eqI list.set_map)

lemma sess_ok_core:
  assumes "sess_core s = sess_core t" "map slot_core sl = map slot_core sl'" "length sl' = MAX_SLOTS" "sess_ok sl' t"
  shows "sess_ok sl s"
proof -
  from assms(2,3) have "length sl = MAX_SLOTS" by (metis length_map)
  with assms(2-4) have "slot_core (sl ! s_slot_id t) = slot_core (sl' ! s_slot_id t)"
    by (metis length_map nth_map sess_ok_def)
  with assms(1,4) show ?thesis by (simp add: sess_ok_def sess_core_def slot_core_def is_rw_def)
qed

lemma login_inv_view:
  assumes "same_view st st'" "login_inv st"
  shows "login_inv st'"
proof -
  note v = assms(1) [unfolded same_view_def]
  have len: "length (g_sessions st') = length (g_sessions st)" "length (g_slots st') = length (g_slots st)"
    using v by (metis length_map)+
  have core: "\<exists>t \<in> set (g_sessions st). sess_core s = sess_core t" if "s \<in> set (g_sessions st')" for s
    using map_core_set [OF conjunct1 [OF v] that] .
  have "sess_ok (g_slots st') s" if s: "s \<in> set (g_sessions st')" "s_in_use s" for s
  proof -
    from core [OF s(1)] obtain t where t: "t \<in> set (g_sessions st)" "sess_core s = sess_core t" by blast
    with s(2) assms(2) have "sess_ok (g_slots st) t" by (simp add: login_inv_def sess_core_def)
    with t(2) v assms(2) show ?thesis by (intro sess_ok_core [of s t _ "g_slots st"]) (simp_all add: login_inv_def)
  qed
  moreover have "s_logged_in s = s_logged_in t"
    if a: "s \<in> set (g_sessions st')" "t \<in> set (g_sessions st')" "s_in_use s" "s_in_use t" "s_slot_id s = s_slot_id t" for s t
  proof -
    obtain s' t' where "s' \<in> set (g_sessions st)" "sess_core s = sess_core s'" "t' \<in> set (g_sessions st)" "sess_core t = sess_core t'"
      using core [OF a(1)] core [OF a(2)] by blast
    then have c: "s' \<in> set (g_sessions st)" "t' \<in> set (g_sessions st)" "s_in_use s'" "s_in_use t'" "s_slot_id s' = s_slot_id t'"
      and eq: "s_logged_in s' = s_logged_in s" "s_logged_in t' = s_logged_in t"
      using a(3-5) by (simp_all add: sess_core_def)
    have "s_logged_in s' = s_logged_in t'"
      using assms(2) c unfolding login_inv_def by blast
    with eq show ?thesis by simp
  qed
  moreover have "sl_in_use (g_slots st' ! 0) \<and> token_present (g_slots st' ! 0) \<and> sl_proto (g_slots st' ! 0) = PROTO_SOFT"
  proof -
    have "0 < length (g_slots st)" "0 < length (g_slots st')" using assms(2) len by (simp_all add: login_inv_def MAX_SLOTS_def)
    then have "slot_core (g_slots st' ! 0) = slot_core (g_slots st ! 0)"
      using arg_cong [OF conjunct1 [OF conjunct2 [OF v]], of "\<lambda>xs. xs ! 0"] by simp
    with assms(2) show ?thesis by (simp add: login_inv_def slot_core_def)
  qed
  moreover have "length (g_sessions st') = MAX_SESSIONS \<and> length (g_slots st') = MAX_SLOTS \<and> length (g_keys st') = MAX_KEYS"
    using assms(2) v len by (simp add: login_inv_def)
  ultimately show ?thesis unfolding login_inv_def by blast
qed

section \<open>Operations that keep the view\<close>

lemma view_upd_slot [intro]:
  "(\<And>s. slot_core (f s) = slot_core s) \<Longrightarrow> same_view st (upd_slot i f st)"
  by (simp add: same_view_def upd_slot_def map_update) (metis list_update_beyond list_update_id linorder_not_less length_map nth_map)

lemma view_upd_session [intro]:
  "(\<And>s. sess_core (f s) = sess_core s) \<Longrightarrow> same_view st (upd_session i f st)"
  by (simp add: same_view_def upd_session_def map_update) (metis list_update_beyond list_update_id linorder_not_less length_map nth_map)

lemma view_heap [simp]:
  "same_view st (st\<lparr>heap := h\<rparr>)" "same_view st (st\<lparr>ccids := c\<rparr>)" "same_view st (st\<lparr>ccid_next := n\<rparr>)" "same_view st (st\<lparr>privs := p\<rparr>)"
  "same_view st (st\<lparr>priv_next := n\<rparr>)" "same_view st (st\<lparr>hq := q\<rparr>)" "same_view st (st\<lparr>priv_next := n, privs := p\<rparr>)"
  by (simp_all add: same_view_def)

lemma view_keys [simp]: "length ks = length (g_keys st) \<Longrightarrow> same_view st (st\<lparr>g_keys := ks\<rparr>)"
  by (simp add: same_view_def)

lemma view_free_key [simp]: "same_view st (free_key_priv k st)"
  by (auto simp: free_key_priv_def wp11_soft_key_free_def usb_free_key_priv_def
      split: option.split backend_ops.split key_priv.split priv_obj.split)

lemma view_fold: "(\<And>x s. same_view s (f x s)) \<Longrightarrow> same_view st (fold f xs st)"
  by (induction xs arbitrary: st) (auto intro: same_view_trans)

lemma view_release [simp]: "same_view st (release_keys P st)"
  unfolding release_keys_def by (rule view_fold) simp

lemma view_wipe [simp]: "same_view st (wipe_keys P st)"
  by (simp add: wipe_keys_def)

lemma view_clear [simp]:
  "same_view st (piv_slot_clear_keys i st)" "same_view st (soft_slot_clear_keys i st)" "same_view st (ks_slot_clear_keys i st)"
  unfolding piv_slot_clear_keys_def soft_slot_clear_keys_def ks_slot_clear_keys_def
  by (blast intro: same_view_trans view_release view_wipe)+

lemma view_put_key: "put_key f st = Some st' \<Longrightarrow> same_view st st'"
  by (auto simp: put_key_def split: option.splits)

lemma view_ccid_close [simp]: "same_view st (ccid_close c st)"
  by (auto simp: ccid_close_def split: option.split)

lemma view_keystore_release [simp]: "same_view st (keystore_release k st)"
  by (simp add: keystore_release_def)

lemma view_push [simp]: "same_view st (hotplug_push_event i a st)"
  by (simp add: hotplug_push_event_def)

lemma view_ks_populate: "same_view st (fst (ks_populate env i b t es st))"
proof (induction es arbitrary: st)
  case (Cons e es)
  then show ?case by (auto split: option.split intro: same_view_trans dest!: view_put_key)
qed simp

lemma view_new_from_der: "wp11_soft_key_new_from_der env der t st = (st', r) \<Longrightarrow> same_view st st'"
  by (auto simp: wp11_soft_key_new_from_der_def split: option.splits if_splits)

lemma view_soft_populate: "same_view st (fst (soft_populate env i es st))"
proof (induction es arbitrary: st)
  case (Cons e es)
  then show ?case
    by (auto split: option.split prod.split intro: same_view_trans dest!: view_put_key view_new_from_der)
qed simp

lemma view_make_keys: "same_view st (fst (piv_make_keys env i c rs st))"
proof (induction rs arbitrary: st)
  case (Cons r rs)
  show ?case
    using same_view_trans [OF same_view_trans [OF view_heap(7) view_put_key] Cons.IH]
    by (simp add: Let_def split: option.split)
qed simp

lemma view_make_certs: "same_view st (snd (piv_make_certs env i rs ctx st))"
proof (induction rs arbitrary: ctx st)
  case (Cons r rs)
  then show ?case by (auto split: option.split prod.split sum.split intro: same_view_trans dest!: view_put_key)
qed simp

end
