(* ===== verification/LoginInv.thy ===== *)
theory LoginInv imports LoginView begin

text \<open>
  The login invariant: every public function, hotplug event and watcher event keeps it.  The last sections state the step
  relation of the library and what holds in every reachable state.
\<close>

section \<open>How the invariant survives a change\<close>

lemma login_invI:
  assumes "length (g_sessions st) = MAX_SESSIONS" "length (g_slots st) = MAX_SLOTS" "length (g_keys st) = MAX_KEYS"
    and "\<And>s. s \<in> set (g_sessions st) \<Longrightarrow> s_in_use s \<Longrightarrow> sess_ok (g_slots st) s"
    and "\<And>s t. s \<in> set (g_sessions st) \<Longrightarrow> t \<in> set (g_sessions st) \<Longrightarrow> s_in_use s \<Longrightarrow> s_in_use t \<Longrightarrow>
           s_slot_id s = s_slot_id t \<Longrightarrow> s_logged_in s = s_logged_in t"
    and "sl_in_use (g_slots st ! 0)" "token_present (g_slots st ! 0)" "sl_proto (g_slots st ! 0) = PROTO_SOFT"
  shows "login_inv st"
  using assms unfolding login_inv_def by blast

lemma login_invD:
  assumes "login_inv st"
  shows "length (g_sessions st) = MAX_SESSIONS" "length (g_slots st) = MAX_SLOTS" "length (g_keys st) = MAX_KEYS"
    "s \<in> set (g_sessions st) \<Longrightarrow> s_in_use s \<Longrightarrow> sess_ok (g_slots st) s"
    "s \<in> set (g_sessions st) \<Longrightarrow> t \<in> set (g_sessions st) \<Longrightarrow> s_in_use s \<Longrightarrow> s_in_use t \<Longrightarrow>
       s_slot_id s = s_slot_id t \<Longrightarrow> s_logged_in s = s_logged_in t"
    "sl_in_use (g_slots st ! 0)" "token_present (g_slots st ! 0)" "sl_proto (g_slots st ! 0) = PROTO_SOFT"
  using assms unfolding login_inv_def by blast+

lemma sess_ok_mono:
  assumes "sess_ok sl s" "sl_in_use (sl ! s_slot_id s) \<Longrightarrow> token_present (sl ! s_slot_id s) \<Longrightarrow> sl_in_use (sl' ! s_slot_id s) \<and> token_present (sl' ! s_slot_id s)"
  shows "sess_ok sl' s"
  using assms by (simp add: sess_ok_def)

lemma inv_subset_sessions:
  assumes "login_inv st" "length ss = MAX_SESSIONS" "\<And>s. s \<in> set ss \<Longrightarrow> s_in_use s \<Longrightarrow> s \<in> set (g_sessions st)"
  shows "login_inv (st\<lparr>g_sessions := ss\<rparr>)"
  using login_invD [OF assms(1)] assms(2,3) by (intro login_invI) auto

lemma in_set_upd: "x \<in> set (xs[i := y]) \<Longrightarrow> x = y \<or> x \<in> set xs"
  using set_update_subset_insert [of xs i y] by auto

lemma inv_zero_session: "login_inv st \<Longrightarrow> login_inv (upd_session i (\<lambda>s. zero_session) st)"
  unfolding upd_session_def
  by (rule inv_subset_sessions) (auto simp: login_invD zero_session_def dest: in_set_upd)

lemma inv_zero_slot_sessions: "login_inv st \<Longrightarrow> login_inv (on_slot_sessions i (\<lambda>s. zero_session) st)"
  unfolding on_slot_sessions_def
  by (rule inv_subset_sessions) (auto simp: login_invD zero_session_def split: if_splits)

text \<open>The token of a slot leaves: its sessions are wiped in the same step.\<close>

lemma inv_departure:
  assumes "login_inv st" "i \<noteq> 0" "same_view (on_slot_sessions i (\<lambda>s. zero_session) (upd_slot i (\<lambda>s. s\<lparr>token_present := False\<rparr>) st)) st'"
  shows "login_inv st'"
proof -
  note d = login_invD [OF assms(1)]
  let ?st = "on_slot_sessions i (\<lambda>s. zero_session) (upd_slot i (\<lambda>s. s\<lparr>token_present := False\<rparr>) st)"
  have kept: "s \<in> set (g_sessions st) \<and> s_slot_id s \<noteq> i" if "s \<in> set (g_sessions ?st)" "s_in_use s" for s
    using that by (auto simp: on_slot_sessions_def upd_slot_def zero_session_def split: if_splits)
  have slot: "g_slots ?st ! j = g_slots st ! j" if "j \<noteq> i" for j
    using that by (simp add: on_slot_sessions_def upd_slot_def)
  have "login_inv ?st"
  proof (rule login_invI)
    fix s assume s: "s \<in> set (g_sessions ?st)" "s_in_use s"
    from kept [OF this] have k: "s \<in> set (g_sessions st)" "s_slot_id s \<noteq> i" by auto
    from d(4) [OF k(1) s(2)] show "sess_ok (g_slots ?st) s" by (rule sess_ok_mono) (simp add: slot [OF k(2)])
  next
    fix s t assume "s \<in> set (g_sessions ?st)" "t \<in> set (g_sessions ?st)" "s_in_use s" "s_in_use t" "s_slot_id s = s_slot_id t"
    then show "s_logged_in s = s_logged_in t" using kept d(5) by blast
  qed (use d(1-3,6-8) assms(2) in \<open>simp_all add: on_slot_sessions_def upd_slot_def\<close>)
  with assms(3) show ?thesis by (rule login_inv_view)
qed

text \<open>A token arrives in a slot other than slot 0.\<close>

lemma inv_arrival:
  assumes "login_inv st" "i \<noteq> 0" "\<And>s. sl_in_use s \<Longrightarrow> sl_in_use (f s)" "\<And>s. token_present (f s)"
  shows "login_inv (upd_slot i f st)"
proof -
  note d = login_invD [OF assms(1)]
  have up: "sl_in_use (g_slots st ! j) \<Longrightarrow> token_present (g_slots st ! j) \<Longrightarrow>
      sl_in_use (g_slots (upd_slot i f st) ! j) \<and> token_present (g_slots (upd_slot i f st) ! j)" if "j < MAX_SLOTS" for j
    using assms(3,4) d(2) that by (cases "i = j") (auto simp: upd_slot_def)
  have ok': "sess_ok (g_slots (upd_slot i f st)) s" if "s \<in> set (g_sessions (upd_slot i f st))" "s_in_use s" for s
  proof -
    from that have ok: "sess_ok (g_slots st) s" by (intro d(4)) (simp_all add: upd_slot_def)
    then show ?thesis by (rule sess_ok_mono) (use ok up in \<open>simp add: sess_ok_def\<close>)
  qed
  show ?thesis
  proof (rule login_invI)
    fix s t assume "s \<in> set (g_sessions (upd_slot i f st))" "t \<in> set (g_sessions (upd_slot i f st))" "s_in_use s" "s_in_use t"
      "s_slot_id s = s_slot_id t"
    then show "s_logged_in s = s_logged_in t" by (intro d(5)) (simp_all add: upd_slot_def)
  qed (use d(1-3,6-8) assms(2) ok' in \<open>simp_all add: upd_slot_def\<close>)
qed

text \<open>All sessions of a slot change their login together.\<close>

lemma inv_relogin:
  assumes "login_inv st" "n \<le> 2"
    and f: "\<And>s. s_in_use (f s) = s_in_use s \<and> s_slot_id (f s) = s_slot_id s \<and> s_flags (f s) = s_flags s
        \<and> s_logged_in (f s) = n \<and> s_state (f s) = state_for (s_flags s) n"
    and so: "\<And>s. n = 2 \<Longrightarrow> s \<in> set (g_sessions st) \<Longrightarrow> s_in_use s \<Longrightarrow> s_slot_id s = i \<Longrightarrow> is_rw s"
  shows "login_inv (on_slot_sessions i f st)"
proof -
  note d = login_invD [OF assms(1)]
  let ?st = "on_slot_sessions i f st"
  have form: "\<exists>t \<in> set (g_sessions st). s_in_use t \<and> s_slot_id t = s_slot_id s \<and> s_flags s = s_flags t
      \<and> (if s_slot_id s = i then s = f t else s = t)" if "s \<in> set (g_sessions ?st)" "s_in_use s" for s
  proof -
    from that obtain u where u: "u \<in> set (g_sessions st)" "s = (if s_in_use u \<and> s_slot_id u = i then f u else u)"
      by (auto simp: on_slot_sessions_def)
    have "s_in_use u \<and> s_slot_id u = s_slot_id s \<and> s_flags s = s_flags u \<and> (if s_slot_id s = i then s = f u else s = u)"
      using u(2) that(2) f [of u] by (cases "s_in_use u \<and> s_slot_id u = i") simp_all
    with u(1) show ?thesis by blast
  qed
  show ?thesis
  proof (rule login_invI)
    fix s assume s: "s \<in> set (g_sessions ?st)" "s_in_use s"
    from form [OF this] obtain t where t: "t \<in> set (g_sessions st)" "s_in_use t" "s_slot_id t = s_slot_id s" "s_flags s = s_flags t"
      "if s_slot_id s = i then s = f t else s = t" by blast
    have ok: "sess_ok (g_slots st) t" by (rule d(4) [OF t(1,2)])
    have rw: "is_rw s = is_rw t" using t(4) by (simp add: is_rw_def)
    show "sess_ok (g_slots ?st) s"
    proof (cases "s_slot_id s = i")
      case True
      with t(5) f [of t] t(4) have "s_logged_in s = n" "s_state s = state_for (s_flags s) n" by simp_all
      with ok t(3) True assms(2) so [OF _ t(1,2)] rw show ?thesis by (simp add: sess_ok_def on_slot_sessions_def)
    next
      case False
      with t(5) ok show ?thesis by (simp add: on_slot_sessions_def)
    qed
  next
    fix s u assume s: "s \<in> set (g_sessions ?st)" "u \<in> set (g_sessions ?st)" "s_in_use s" "s_in_use u" "s_slot_id s = s_slot_id u"
    show "s_logged_in s = s_logged_in u"
    proof (cases "s_slot_id s = i")
      case True
      obtain a b where "s = f a" "u = f b"
        using form [OF s(1,3)] form [OF s(2,4)] True s(5) by auto
      then show ?thesis using f [of a] f [of b] by simp
    next
      case False
      have "s \<in> set (g_sessions st)" "u \<in> set (g_sessions st)"
        using form [OF s(1,3)] form [OF s(2,4)] False s(5) by auto
      then show ?thesis using s(3-5) by (rule d(5))
    qed
  qed (use d(1-3,6-8) in \<open>simp_all add: on_slot_sessions_def\<close>)
qed

section \<open>Sessions\<close>

lemma find_login:
  assumes "login_inv st" "find (\<lambda>s. s_in_use s \<and> s_slot_id s = i \<and> s_logged_in s \<noteq> 0) (g_sessions st) = r"
    and "t \<in> set (g_sessions st)" "s_in_use t" "s_slot_id t = i"
  shows "s_logged_in t = (case r of None \<Rightarrow> 0 | Some s \<Rightarrow> s_logged_in s)"
proof (cases r)
  case None
  with assms show ?thesis by (auto simp: find_None_iff)
next
  case (Some s)
  with assms(2) have "s \<in> set (g_sessions st)" "s_in_use s" "s_slot_id s = i"
    by (auto simp: find_Some_iff)
  with assms Some show ?thesis using login_invD(5) [OF assms(1), of t s] by simp
qed

lemma find_login_le:
  assumes "login_inv st" "find (\<lambda>s. s_in_use s \<and> s_slot_id s = i \<and> s_logged_in s \<noteq> 0) (g_sessions st) = Some s"
  shows "s_logged_in s \<le> 2"
proof -
  from assms(2) have "s \<in> set (g_sessions st)" "s_in_use s" by (auto simp: find_Some_iff)
  from login_invD(4) [OF assms(1) this] show ?thesis by (simp add: sess_ok_def)
qed

lemma inv_open:
  assumes "login_inv st"
  shows "login_inv (fst (C_OpenSession slot flags ph st))"
proof -
  let ?r = "find (\<lambda>s. s_in_use s \<and> s_slot_id s = slot \<and> s_logged_in s \<noteq> 0) (g_sessions st)"
  let ?n = "case ?r of None \<Rightarrow> 0 | Some s \<Rightarrow> s_logged_in s"
  note d = login_invD [OF assms]
  define new where "new = zero_session\<lparr>s_in_use := True, s_slot_id := slot, s_flags := flags, s_logged_in := ?n, s_state := state_for flags ?n\<rparr>"
  have n: "?n \<le> 2" using find_login_le [OF assms] by (auto split: option.split)
  show ?thesis
  proof (cases "\<exists>i. C_OpenSession slot flags ph st = (upd_session i (\<lambda>s. new) st, Inr (i + 1)) \<and> slot_valid st slot
      \<and> token_present (g_slots st ! slot) \<and> (?n = 2 \<longrightarrow> flags AND CKF_RW_SESSION \<noteq> 0)")
    case False
    then have "fst (C_OpenSession slot flags ph st) = st"
      by (auto simp: C_OpenSession_def Let_def new_def state_for_def split: option.splits)
    with assms show ?thesis by simp
  next
    case True
    then obtain i where i: "C_OpenSession slot flags ph st = (upd_session i (\<lambda>s. new) st, Inr (i + 1))" "slot_valid st slot"
      "token_present (g_slots st ! slot)" "?n = 2 \<longrightarrow> flags AND CKF_RW_SESSION \<noteq> 0" by blast
    have new: "s_slot_id new = slot" "s_logged_in new = ?n" "s_state new = state_for (s_flags new) (s_logged_in new)" "s_flags new = flags"
      by (simp_all add: new_def)
    have ok: "sess_ok (g_slots st) new"
      unfolding sess_ok_def is_rw_def new(1) using i new n by (auto simp: slot_valid_iff)
    have "login_inv (upd_session i (\<lambda>s. new) st)"
    proof (rule login_invI)
      fix s assume s: "s \<in> set (g_sessions (upd_session i (\<lambda>s. new) st))" "s_in_use s"
      then have "s = new \<or> s \<in> set (g_sessions st)" by (auto simp: upd_session_def dest: in_set_upd)
      with ok d(4) s(2) show "sess_ok (g_slots (upd_session i (\<lambda>s. new) st)) s" by (auto simp: upd_session_def)
    next
      fix s t assume s: "s \<in> set (g_sessions (upd_session i (\<lambda>s. new) st))" "t \<in> set (g_sessions (upd_session i (\<lambda>s. new) st))"
        "s_in_use s" "s_in_use t" "s_slot_id s = s_slot_id t"
      then have "s = new \<or> s \<in> set (g_sessions st)" "t = new \<or> t \<in> set (g_sessions st)"
        by (auto simp: upd_session_def dest: in_set_upd)
      moreover have "s_logged_in u = ?n" if "u \<in> set (g_sessions st)" "s_in_use u" "s_slot_id u = slot" for u
        using find_login [OF assms refl that] .
      moreover note d(5) [of s t]
      ultimately show "s_logged_in s = s_logged_in t"
        using s(3-5) new(1,2) by (cases "s = new"; cases "t = new") simp_all
    qed (use d(1-3,6-8) in \<open>simp_all add: upd_session_def\<close>)
    with i(1) show ?thesis by simp
  qed
qed

lemma inv_close: "login_inv st \<Longrightarrow> login_inv (fst (C_CloseSession h st))"
  by (auto simp: C_CloseSession_def inv_zero_session split: option.split)

lemma inv_close_all: "login_inv st \<Longrightarrow> login_inv (fst (C_CloseAllSessions i st))"
  by (simp add: C_CloseAllSessions_def inv_zero_slot_sessions)

section \<open>Login and logout\<close>

lemma rv_thenE:
  assumes "rv_then r f = Some (st', rv)"
  obtains "r = Some (st', rv)" "rv \<noteq> CKR_OK" | st1 where "r = Some (st1, CKR_OK)" "f st1 = Some (st', rv)"
  using assms by (auto simp: rv_then_def split: option.splits if_splits)

lemma same_viewI_upd: "same_view st st1 \<Longrightarrow> (\<And>s. slot_core (f s) = slot_core s) \<Longrightarrow> same_view st (upd_slot i f st1)"
  using same_view_trans view_upd_slot by blast

lemma slot_core_simps [simp]:
  "slot_core (s\<lparr>keystore := k\<rparr>) = slot_core s" "slot_core (s\<lparr>ccid := c\<rparr>) = slot_core s" "slot_core (s\<lparr>soft_pin := p\<rparr>) = slot_core s"
  "slot_core (s\<lparr>soft_pin_locked := b\<rparr>) = slot_core s" "slot_core (s\<lparr>pin_fail_count := n\<rparr>) = slot_core s"
  "slot_core (s\<lparr>soft_pin := p, soft_pin_locked := b\<rparr>) = slot_core s"
  "slot_core (s\<lparr>soft_pin_locked := b, soft_pin := p\<rparr>) = slot_core s"
  by (simp_all add: slot_core_def)

lemmas view_intros = same_view_trans [OF _ view_heap(1)] same_view_trans [OF _ view_heap(2)] same_view_trans [OF _ view_clear(1)]
  same_view_trans [OF _ view_clear(2)] same_view_trans [OF _ view_clear(3)] same_view_trans [OF _ view_keystore_release]
  same_view_trans [OF _ view_ccid_close] same_viewI_upd

lemma view_ccid_put:
  assumes "same_view st st2"
  shows "same_view st (upd_slot i (\<lambda>s. s\<lparr>ccid := x\<rparr>) (st2\<lparr>ccids := y\<rparr>))"
  by (rule same_viewI_upd [OF view_intros(2) [OF assms]]) simp

lemma view_piv_objects:
  assumes "piv_make_keys env i c rows (st\<lparr>ccid_next := n\<rparr>) = (st1, b)"
  shows "same_view st st1"
    and "piv_make_certs env i rows' ctx st1 = (ctx', st2) \<Longrightarrow> same_view st st2"
proof -
  show v: "same_view st st1"
    using view_make_keys [of "st\<lparr>ccid_next := n\<rparr>" env i c rows] assms by (auto intro: same_view_trans [OF view_heap(3)])
  show "same_view st st2" if "piv_make_certs env i rows' ctx st1 = (ctx', st2)"
    using same_view_trans [OF v view_make_certs [of st1 env i rows' ctx]] that by simp
qed

lemma view_piv_login: "same_view st (fst (piv_login env i pin st))"
  unfolding piv_login_def Let_def
  by (auto split: option.split prod.split sum.split bool.split
      intro: view_intros(3) [OF view_piv_objects(1)] view_ccid_put [OF view_piv_objects(2)] simp del: One_nat_def)

lemma view_load: "keystore_load_path env n p pin st = Some (st', r) \<Longrightarrow> same_view st st'"
  by (auto simp: keystore_load_path_def split: option.splits)

lemma view_ks_slot_populate: "same_view st (fst (ks_slot_populate_keys env i ks t st))"
  by (simp add: ks_slot_populate_keys_def view_ks_populate)

lemma view_soft_slot_populate: "same_view st (fst (soft_slot_populate_keys env i ks st))"
  by (simp add: soft_slot_populate_keys_def view_soft_populate)

lemma view_keystore_login:
  assumes "keystore_login env n i t pin st = Some (st', rv)"
  shows "same_view st st'"
proof -
  obtain st1 r where l: "keystore_load_path env n (keystore_path (g_slots st ! i)) pin st = Some (st1, r)"
    using assms by (auto simp: keystore_login_def split: option.splits)
  note v = view_load [OF l]
  show ?thesis
  proof (cases r)
    case (Inl e)
    with assms l v show ?thesis by (simp add: keystore_login_def)
  next
    case (Inr ks)
    obtain st2 d where p: "ks_slot_populate_keys env i ks t (upd_slot i (\<lambda>s. s\<lparr>keystore := Some ks\<rparr>) st1) = (st2, d)" by fastforce
    have v2: "same_view st st2"
      using same_view_trans [OF same_viewI_upd [OF v] view_ks_slot_populate] p by (metis fst_conv slot_core_simps(1))
    show ?thesis
      using assms l Inr p v2 same_viewI_upd [OF view_intros(6) [OF view_intros(5) [OF v2]]]
      by (auto simp: keystore_login_def split: if_splits)
  qed
qed

lemma view_soft_login:
  assumes "soft_login env i pin st = Some (st', rv)"
  shows "same_view st st'"
proof -
  obtain st1 r where l: "keystore_load_path env 0 (keystore_path (g_slots st ! i)) pin st = Some (st1, r)"
    using assms by (auto simp: soft_login_def split: option.splits)
  note v = view_load [OF l]
  show ?thesis
  proof (cases r)
    case (Inl e)
    with assms l v show ?thesis by (simp add: soft_login_def)
  next
    case (Inr ks)
    let ?p = "case pin of None \<Rightarrow> [] | Some p \<Rightarrow> p"
    obtain st3 d where p: "soft_slot_populate_keys env i ks (upd_slot i (\<lambda>s. s\<lparr>soft_pin_locked := True, soft_pin := ?p\<rparr>) st1) = (st3, d)"
      by fastforce
    have v3: "same_view st st3"
      using same_view_trans [OF same_viewI_upd [OF v] view_soft_slot_populate] p by (metis fst_conv slot_core_simps(7))
    have "same_view st (upd_slot i (\<lambda>s. s\<lparr>soft_pin := []\<rparr>) (keystore_release ks (soft_slot_clear_keys i st3)))"
      by (rule same_viewI_upd [OF view_intros(6) [OF view_intros(4) [OF v3]]]) simp
    then show ?thesis
      using assms l Inr p v3 view_intros(6) [OF v, of ks] view_intros(6) [OF v3, of ks]
      by (auto simp: soft_login_def Let_def split: if_splits)
  qed
qed

lemma view_login_parts:
  "flash_part cfg env i pin st = Some (st', rv) \<Longrightarrow> same_view st st'"
  "fsdir_part cfg env i pin st = Some (st', rv) \<Longrightarrow> same_view st st'"
  by (auto simp: flash_part_def fsdir_part_def split: if_splits option.splits dest: view_keystore_login view_soft_login)

lemma login_user_cases:
  assumes "login_user cfg env i pin st = Some (st', rv)"
  obtains "same_view st st'" "rv \<noteq> CKR_OK" | st3 where "same_view st st3" "st' = on_slot_sessions i mark_user st3" "rv = CKR_OK"
proof -
  have p: "same_view st st1" if "(if CFG_USB cfg \<and> sl_proto (g_slots st ! i) = PROTO_PIV then Some (piv_login env i pin st) else Some (st, CKR_OK)) = Some (st1, r)"
    for st1 r
    using that view_piv_login [of st env i pin] by (auto split: if_splits)
  show ?thesis
    using assms [unfolded login_user_def]
  proof (elim rv_thenE)
    fix a b c
    assume "(if CFG_USB cfg \<and> sl_proto (g_slots st ! i) = PROTO_PIV then Some (piv_login env i pin st) else Some (st, CKR_OK)) = Some (a, CKR_OK)"
      and parts: "flash_part cfg env i pin a = Some (b, CKR_OK)" "fsdir_part cfg env i pin b = Some (c, CKR_OK)"
      and last: "Some (on_slot_sessions i mark_user c, CKR_OK) = Some (st', rv)"
    then have "same_view st c"
      using same_view_trans [OF same_view_trans [OF p view_login_parts(1) [OF parts(1)]] view_login_parts(2) [OF parts(2)]] by blast
    with last show thesis by (intro that(2)) auto
  qed (auto dest!: p view_login_parts intro: same_view_trans that(1))
qed

lemma so_check_view: "so_check cfg env i pin st = Some (st', rv) \<Longrightarrow> same_view st st'"
  by (auto simp: so_check_def Let_def split: if_splits option.splits prod.splits sum.splits dest!: view_load intro: view_intros(6))

lemma so_check_rw:
  "so_check cfg env i pin st = Some (st', CKR_OK) \<Longrightarrow> s \<in> set (g_sessions st) \<Longrightarrow> s_in_use s \<Longrightarrow> s_slot_id s = i \<Longrightarrow> is_rw s"
  by (auto simp: so_check_def Let_def split: if_splits)

lemma view_rw:
  assumes "same_view st st'" "\<And>s. s \<in> set (g_sessions st) \<Longrightarrow> s_in_use s \<Longrightarrow> s_slot_id s = i \<Longrightarrow> is_rw s"
    and "s \<in> set (g_sessions st')" "s_in_use s" "s_slot_id s = i"
  shows "is_rw s"
proof -
  obtain t where "t \<in> set (g_sessions st)" "sess_core s = sess_core t"
    using map_core_set [of sess_core "g_sessions st'" "g_sessions st"] assms(1,3) by (auto simp: same_view_def)
  with assms(2,4,5) show ?thesis by (simp add: sess_core_def is_rw_def)
qed

lemma mark_simps:
  "s_in_use (mark_user s) = s_in_use s \<and> s_slot_id (mark_user s) = s_slot_id s \<and> s_flags (mark_user s) = s_flags s
     \<and> s_logged_in (mark_user s) = 1 \<and> s_state (mark_user s) = state_for (s_flags s) 1"
  "s_in_use (mark_so s) = s_in_use s \<and> s_slot_id (mark_so s) = s_slot_id s \<and> s_flags (mark_so s) = s_flags s
     \<and> s_logged_in (mark_so s) = 2 \<and> s_state (mark_so s) = state_for (s_flags s) 2"
  "s_in_use (mark_public s) = s_in_use s \<and> s_slot_id (mark_public s) = s_slot_id s \<and> s_flags (mark_public s) = s_flags s
     \<and> s_logged_in (mark_public s) = 0 \<and> s_state (mark_public s) = state_for (s_flags s) 0"
  by (simp_all add: mark_user_def mark_so_def mark_public_def state_for_def is_rw_def)

lemma inv_marks:
  "login_inv st \<Longrightarrow> login_inv (on_slot_sessions i mark_user st)"
  "login_inv st \<Longrightarrow> login_inv (on_slot_sessions i mark_public st)"
  "login_inv st \<Longrightarrow> (\<And>s. s \<in> set (g_sessions st) \<Longrightarrow> s_in_use s \<Longrightarrow> s_slot_id s = i \<Longrightarrow> is_rw s)
     \<Longrightarrow> login_inv (on_slot_sessions i mark_so st)"
  using inv_relogin [of st 1 mark_user i] inv_relogin [of st 0 mark_public i] inv_relogin [of st 2 mark_so i]
  by (simp_all add: mark_simps)

lemma view_count: "same_view st (fst (count_pin_failure i (st, rv)))"
  by (auto simp: count_pin_failure_def intro!: view_upd_slot)

lemma C_Login_cases:
  assumes "C_Login cfg env h u pin st = Some (st', rv)"
  obtains "same_view st st'"
    | i st1 where "rv_then (so_check cfg env i pin st) (\<lambda>st1. Some (on_slot_sessions i mark_so st1, CKR_OK)) = Some (st1, rv)" "same_view st1 st'"
    | i st1 where "login_user cfg env i pin st = Some (st1, rv)" "same_view st1 st'"
proof (cases "g_lock_ready st \<and> g_initialized st \<and> session_get st h \<noteq> None")
  case False
  with assms show ?thesis by (intro that(1)) (auto simp: C_Login_def split: option.splits if_splits)
next
  case True
  then obtain j where j: "session_get st h = Some j" by blast
  define i where "i = s_slot_id (g_sessions st ! j)"
  define r where "r = (case find (\<lambda>s. s_in_use s \<and> s_slot_id s = i \<and> s_logged_in s \<noteq> 0) (g_sessions st) of
     Some s \<Rightarrow> Some (st, if s_logged_in s = (if u = CKU_SO then 2 else 1) then CKR_USER_ALREADY_LOGGED_IN else CKR_USER_ANOTHER_ALREADY_LOGGED_IN)
   | None \<Rightarrow> if u = CKU_SO then rv_then (so_check cfg env i pin st) (\<lambda>st1. Some (on_slot_sessions i mark_so st1, CKR_OK))
             else if u = CKU_USER then login_user cfg env i pin st else Some (st, CKR_USER_TYPE_INVALID))"
  have "map_option (count_pin_failure i) r = Some (st', rv)"
    using assms True j unfolding C_Login_def Let_def r_def i_def by simp
  then obtain a where a: "r = Some (a, rv)" "same_view a st'"
    using view_count [of a i rv for a] by (auto simp: count_pin_failure_def split: prod.splits)
  show ?thesis
    using a that unfolding r_def by (auto split: option.splits if_splits)
qed

lemma inv_login:
  assumes "login_inv st" "C_Login cfg env h u pin st = Some (st', rv)"
  shows "login_inv st'"
  using assms(2)
proof (cases rule: C_Login_cases)
  case 1
  then show ?thesis using assms(1) by (rule login_inv_view)
next
  case (2 i st1)
  from 2(1) have "login_inv st1"
  proof (cases rule: rv_thenE)
    case 1
    then show ?thesis using assms(1) login_inv_view so_check_view by blast
  next
    case (2 st2)
    then have eq: "st1 = on_slot_sessions i mark_so st2" by simp
    note v = so_check_view [OF 2(1)]
    show ?thesis unfolding eq
      by (rule inv_marks(3) [OF login_inv_view [OF v assms(1)]]) (rule view_rw [OF v so_check_rw [OF 2(1)]])
  qed
  with 2(2) show ?thesis by (rule login_inv_view)
next
  case (3 i st1)
  from 3(1) have "login_inv st1"
    by (cases rule: login_user_cases) (auto intro: login_inv_view inv_marks assms(1))
  with 3(2) show ?thesis by (rule login_inv_view)
qed

lemma view_close_ccid: "same_view st (upd_slot i (\<lambda>s. s\<lparr>ccid := None\<rparr>) (ccid_close c (piv_slot_clear_keys j st)))"
  by (rule same_viewI_upd [OF view_intros(7) [OF view_clear(1)]]) simp

lemma view_forget_pin: "same_view st (upd_slot i (\<lambda>s. s\<lparr>soft_pin := [], soft_pin_locked := False\<rparr>) (soft_slot_clear_keys j st))"
  by (rule same_viewI_upd [OF view_clear(2)]) simp

lemma view_close_keystore:
  "same_view st (upd_slot i (\<lambda>s. s\<lparr>keystore := None\<rparr>) (keystore_release k (ks_slot_clear_keys j st)))"
  by (rule same_viewI_upd [OF view_intros(6) [OF view_clear(3)]]) simp

lemma view_logout:
  "same_view st (logout_piv cfg i st)" "same_view st (logout_soft cfg i st)" "same_view st (logout_keystore cfg i st)"
  by (simp_all add: logout_piv_def logout_soft_def logout_keystore_def view_close_ccid view_forget_pin view_close_keystore
      split: option.split)

lemma inv_logout_slot:
  "login_inv st \<Longrightarrow> login_inv (on_slot_sessions i mark_public (logout_keystore cfg i (logout_soft cfg i (logout_piv cfg i st))))"
  by (rule inv_marks(2)) (blast intro: login_inv_view view_logout)

lemma inv_logout: "login_inv st \<Longrightarrow> login_inv (fst (C_Logout cfg h st))"
  by (simp add: C_Logout_def Let_def inv_logout_slot split: option.split)

lemma view_initpin: "C_InitPIN cfg env cio h pin fs st = Some (st', tr, rv) \<Longrightarrow> same_view st st'"
  by (auto simp: C_InitPIN_def Let_def split: if_splits option.splits sum.splits prod.splits
      dest!: view_load intro: view_intros(1,6))

section \<open>Operations on objects\<close>

lemma view_map_sessions:
  "(\<And>s. sess_core (f s) = sess_core s) \<Longrightarrow> same_view st st' \<Longrightarrow> same_view st (st'\<lparr>g_sessions := map f (g_sessions st')\<rparr>)"
  by (simp add: same_view_def comp_def)

lemma view_objects:
  "same_view st (fst (C_FindObjectsInit h tm st))" "same_view st (fst (C_FindObjects h ok n st))" "same_view st (fst (C_FindObjectsFinal h st))"
  "same_view st (fst (C_SetAttributeValue h ob tm st))" "same_view st (fst (C_SignInit h m k st))"
  by (auto simp: C_FindObjectsInit_def C_FindObjects_def C_FindObjectsFinal_def C_SetAttributeValue_def C_SignInit_def Let_def sess_core_def
      split: option.split prod.split sum.split intro!: view_upd_session view_keys)

lemma sess_core_forget [simp]: "sess_core (forget_key h s) = sess_core s"
  by (simp add: forget_key_def sess_core_def Let_def)

lemma view_destroy: "same_view st (fst (C_DestroyObject h ob st))"
proof -
  have "same_view st (free_key_priv k st\<lparr>g_keys := (g_keys (free_key_priv k st))[j := k'], g_sessions := map (forget_key ob) (g_sessions (free_key_priv k st))\<rparr>)"
    for k j k'
  proof -
    let ?f = "free_key_priv k st"
    have "same_view st (?f\<lparr>g_keys := (g_keys ?f)[j := k']\<rparr>)" by (rule same_view_trans [OF view_free_key view_keys]) simp
    from view_map_sessions [OF sess_core_forget this] show ?thesis by simp
  qed
  then show ?thesis by (simp add: C_DestroyObject_def Let_def split: option.split)
qed

section \<open>Tokens that come and go\<close>

lemma slot_search_pos: "slot_search P st = Some i \<Longrightarrow> i \<noteq> 0"
  by (auto simp: slot_search_def split: option.splits)

lemma inv_push: "login_inv st \<Longrightarrow> login_inv (hotplug_push_event i a st)"
  by (rule login_inv_view [OF view_push])

lemma inv_push_slot_event: "login_inv (fst r) \<Longrightarrow> login_inv (push_slot_event a r)"
  by (auto simp: push_slot_event_def inv_push split: prod.splits option.splits)

lemma inv_slot_add: "login_inv st \<Longrightarrow> login_inv (fst (slot_add v p st))"
  by (auto simp: slot_add_def split: option.split intro!: inv_arrival dest: slot_search_pos)

lemma inv_slot_add_keystore: "login_inv st \<Longrightarrow> login_inv (fst (slot_add_keystore path pr st))"
  by (auto simp: slot_add_keystore_def split: option.split intro!: inv_arrival dest: slot_search_pos)

lemma inv_slot_remove: "login_inv st \<Longrightarrow> login_inv (fst (slot_remove v p st))"
  unfolding slot_remove_def Let_def
  by (simp split: option.split) (blast intro: inv_departure view_close_ccid same_view_refl dest: slot_search_pos)

definition core_depart :: "nat \<Rightarrow> bool \<times> nat \<times> CK_FLAGS \<times> CK_STATE \<times> nat \<Rightarrow> bool \<times> nat \<times> CK_FLAGS \<times> CK_STATE \<times> nat" where
  "core_depart i c = (if fst c \<and> fst (snd c) = i then sess_core zero_session else c)"

definition slot_absent :: "bool \<times> bool \<times> u16 \<times> u16 \<times> wp11_proto \<times> byte list \<times> byte list \<Rightarrow>
    bool \<times> bool \<times> u16 \<times> u16 \<times> wp11_proto \<times> byte list \<times> byte list" where
  "slot_absent c = (fst c, False, snd (snd c))"

lemma core_departing:
  "map sess_core (g_sessions (on_slot_sessions i (\<lambda>s. zero_session) st)) = map (core_depart i) (map sess_core (g_sessions st))"
  by (simp add: on_slot_sessions_def core_depart_def sess_core_def)

lemma slot_core_departing:
  "map slot_core (g_slots (upd_slot i (\<lambda>s. s\<lparr>token_present := False\<rparr>) st))
     = (map slot_core (g_slots st))[i := slot_absent (map slot_core (g_slots st) ! i)]"
proof (cases "i < length (g_slots st)")
  case True
  then show ?thesis by (simp add: upd_slot_def map_update slot_absent_def slot_core_def)
next
  case False
  then show ?thesis by (simp add: upd_slot_def not_less list_update_beyond)
qed

lemma same_view_departing:
  assumes "same_view st st'"
  shows "same_view (on_slot_sessions i (\<lambda>s. zero_session) (upd_slot i (\<lambda>s. s\<lparr>token_present := False\<rparr>) st))
                   (on_slot_sessions i (\<lambda>s. zero_session) (upd_slot i (\<lambda>s. s\<lparr>token_present := False\<rparr>) st'))"
proof -
  let ?u = "\<lambda>st. upd_slot i (\<lambda>s. s\<lparr>token_present := False\<rparr>) st" and ?o = "\<lambda>st. on_slot_sessions i (\<lambda>s. zero_session) st"
  have keep: "g_slots (?o s) = g_slots s \<and> g_keys (?o s) = g_keys s \<and> g_lock_ready (?o s) = g_lock_ready s \<and> g_initialized (?o s) = g_initialized s"
    "g_sessions (?u s) = g_sessions s \<and> g_keys (?u s) = g_keys s \<and> g_lock_ready (?u s) = g_lock_ready s \<and> g_initialized (?u s) = g_initialized s"
    for s :: "'a wp11_state"
    by (simp_all add: on_slot_sessions_def upd_slot_def)
  show ?thesis
    using assms unfolding same_view_def core_departing by (simp only: keep core_departing slot_core_departing)
qed

lemma view_drop_keystore:
  "same_view st (upd_slot i (\<lambda>s. s\<lparr>keystore := None\<rparr>) ((ks_slot_clear_keys j st)\<lparr>heap := h\<rparr>))"
  by (rule same_viewI_upd [OF view_intros(1) [OF view_clear(3)]]) simp

lemma inv_depart_keystore:
  assumes "login_inv st" "i \<noteq> 0"
  shows "login_inv (depart_keystore i st)"
  unfolding depart_keystore_def Let_def
  by (rule inv_departure [OF assms same_view_departing]) (simp add: view_drop_keystore split: option.split)

lemma inv_slot_remove_keystore: "login_inv st \<Longrightarrow> login_inv (fst (slot_remove_keystore path st))"
  by (auto simp: slot_remove_keystore_def split: option.split intro!: inv_depart_keystore dest: slot_search_pos)

lemma fold_inv: "P st \<Longrightarrow> (\<And>x s. x \<in> set xs \<Longrightarrow> P s \<Longrightarrow> P (f x s)) \<Longrightarrow> P (fold f xs st)"
  by (induction xs arbitrary: st) auto

lemma inv_remove_flash_dir: "login_inv st \<Longrightarrow> login_inv (slot_remove_flash_dir dir st)"
  unfolding slot_remove_flash_dir_def
  by (erule fold_inv) (auto simp: Let_def intro!: inv_push inv_depart_keystore)

lemma inv_files:
  assumes "login_inv st"
  shows "login_inv (flash_file_arrived p st)" "login_inv (flash_file_departed p st)"
    "login_inv (fsdir_file_arrived p st)" "login_inv (fsdir_file_departed p st)"
  using assms unfolding flash_file_arrived_def flash_file_departed_def fsdir_file_arrived_def fsdir_file_departed_def
  by (blast intro: inv_push_slot_event inv_slot_add_keystore inv_slot_remove_keystore)+

lemma inv_hotplug_cb:
  assumes "hotplug_cb lk desc a st = Some st'" "login_inv st"
  shows "login_inv st'"
  using assms inv_slot_add [OF assms(2)] inv_slot_remove [OF assms(2)]
  by (auto simp: hotplug_cb_def Let_def split: option.splits if_splits prod.splits intro: inv_push) (metis fst_conv inv_push)+

lemma inv_wait: "C_WaitForSlotEvent fl ok st = Some (st', r) \<Longrightarrow> same_view st st'"
  by (auto simp: C_WaitForSlotEvent_def split: if_splits option.splits prod.splits)

end
