(* ===== verification/Backend.thy ===== *)
theory Backend imports Objects begin

text \<open>
  The signing, verifying, decrypting and deriving operations behind the table \<open>wp11_backend_ops_t\<close>: the software backend
  (\<open>src/wp11_backend_soft.c\<close>), the keystore backends (\<open>src/wp11_backend_keystore.c\<close>) and the USB backend
  (\<open>src/wp11_backend_usb.c\<close>).  wolfCrypt's functions are parameters, a fresh environment for every call, so that the
  randomness of a call is part of its environment.  An operation that follows a pointer to a freed object, or to one of
  another type than it casts to, has no result (\<open>None\<close>).
\<close>

section \<open>Results\<close>

datatype backend_err =
    BACKEND_ERR_GENERAL | BACKEND_ERR_NOT_READY | BACKEND_ERR_TIMEOUT | BACKEND_ERR_KEY_NOT_FOUND | BACKEND_ERR_USAGE
  | BACKEND_ERR_NOT_IMPL | BACKEND_ERR_SIG_INVALID

fun backend_err_to_rv :: "backend_err \<Rightarrow> CK_RV" where
  "backend_err_to_rv BACKEND_ERR_NOT_READY = CKR_DEVICE_ERROR"
| "backend_err_to_rv BACKEND_ERR_TIMEOUT = CKR_DEVICE_ERROR"
| "backend_err_to_rv BACKEND_ERR_KEY_NOT_FOUND = CKR_KEY_HANDLE_INVALID"
| "backend_err_to_rv BACKEND_ERR_USAGE = CKR_ACTION_PROHIBITED"
| "backend_err_to_rv BACKEND_ERR_NOT_IMPL = CKR_MECHANISM_INVALID"
| "backend_err_to_rv BACKEND_ERR_SIG_INVALID = CKR_SIGNATURE_INVALID"
| "backend_err_to_rv BACKEND_ERR_GENERAL = CKR_FUNCTION_FAILED"

definition FITS_U32 :: "nat \<Rightarrow> bool" where
  "FITS_U32 sz \<longleftrightarrow> sz \<le> 4294967295"

definition WP11_OAEP_LABEL_MAX :: nat where "WP11_OAEP_LABEL_MAX = 64"
definition RSA4096_BYTES :: nat where "RSA4096_BYTES = 512"
definition CKM_ECDH1_DERIVE :: nat where "CKM_ECDH1_DERIVE = 0x1050"

text \<open>
  wolfCrypt's public key functions on the memory image of a key.  A number among the arguments is the size of the output
  buffer; \<open>None\<close> is a negative return code.  \<open>ce_ecc_verify\<close> and \<open>ce_ed_verify\<close> give \<open>*stat == 1\<close>; the
  parameters of OAEP and PSS are \<open>None\<close> for the zeros of a session that never had any.
\<close>

record 'd crypto_env = "'d login_env" +
  ce_rng_ok :: bool
  ce_init_ok :: bool
  ce_set_rng_ok :: bool
  ce_sha256 :: "byte list \<Rightarrow> byte list option"
  ce_hmac :: "nat \<Rightarrow> byte list \<Rightarrow> byte list \<Rightarrow> byte list option"
  ce_ecc_sign :: "wc_ctx \<Rightarrow> byte list \<Rightarrow> nat \<Rightarrow> byte list option"
  ce_ecc_verify :: "wc_ctx \<Rightarrow> byte list \<Rightarrow> byte list \<Rightarrow> bool option"
  ce_rsa_sign :: "wc_ctx \<Rightarrow> byte list \<Rightarrow> nat \<Rightarrow> byte list option"
  ce_rsa_verify :: "wc_ctx \<Rightarrow> byte list \<Rightarrow> nat \<Rightarrow> byte list option"
  ce_ed_sign :: "wc_ctx \<Rightarrow> byte list \<Rightarrow> nat \<Rightarrow> byte list option"
  ce_ed_verify :: "wc_ctx \<Rightarrow> byte list \<Rightarrow> byte list \<Rightarrow> bool option"
  ce_rsa_decrypt :: "wc_ctx \<Rightarrow> byte list \<Rightarrow> nat \<Rightarrow> byte list option"
  ce_import_x963 :: "byte list \<Rightarrow> wc_ctx option"
  ce_ecdh :: "wc_ctx \<Rightarrow> wc_ctx \<Rightarrow> nat \<Rightarrow> byte list option"
  ce_rsa_size :: "wc_ctx \<Rightarrow> int"
  ce_rsa_encrypt :: "wc_ctx \<Rightarrow> byte list \<Rightarrow> nat \<Rightarrow> byte list option"
  ce_oaep_encrypt :: "wc_ctx \<Rightarrow> byte list \<Rightarrow> nat \<Rightarrow> (wc_hash \<times> wc_mgf) option \<Rightarrow> byte list \<Rightarrow> byte list option"
  ce_oaep_decrypt :: "wc_ctx \<Rightarrow> byte list \<Rightarrow> nat \<Rightarrow> (wc_hash \<times> wc_mgf) option \<Rightarrow> byte list \<Rightarrow> byte list option"
  ce_pss_sign :: "wc_ctx \<Rightarrow> byte list \<Rightarrow> nat \<Rightarrow> (wc_hash \<times> wc_mgf \<times> int) option \<Rightarrow> byte list option"
  ce_pss_verify :: "wc_ctx \<Rightarrow> byte list \<Rightarrow> nat \<Rightarrow> (wc_hash \<times> wc_mgf \<times> int) option \<Rightarrow> byte list option"
  ce_pss_check :: "byte list \<Rightarrow> byte list \<Rightarrow> (wc_hash \<times> wc_mgf \<times> int) option \<Rightarrow> nat \<Rightarrow> bool"
  ce_flatten :: "wc_ctx \<Rightarrow> (byte list \<times> byte list) option"
  ce_to_der :: "nat \<Rightarrow> wc_ctx \<Rightarrow> nat \<Rightarrow> byte list option"
  ce_make_ecc :: "nat \<Rightarrow> wc_ctx option"
  ce_make_rsa :: "int \<Rightarrow> wc_ctx option"
  ce_make_ed :: "wc_ctx option"
  ce_random :: "nat \<Rightarrow> byte list option"
  ce_malloc :: "nat \<Rightarrow> bool"

section \<open>The software backend\<close>

text \<open>The soft key a pointer points to.\<close>

definition soft_key_at :: "key_priv \<Rightarrow> 'd wp11_state \<Rightarrow> wp11_soft_key option" where
  "soft_key_at p st =
     (case p of SoftKey a \<Rightarrow> (case privs st a of Some (SoftObj k) \<Rightarrow> Some k | _ \<Rightarrow> None) | _ \<Rightarrow> None)"

text \<open>A call of the table with \<open>handle->priv\<close>; the callers pass no other pointer that is \<open>NULL\<close>.\<close>

definition with_soft_key ::
  "key_priv option \<Rightarrow> 'd wp11_state \<Rightarrow> (wp11_soft_key \<Rightarrow> backend_err + 'b) \<Rightarrow> (backend_err + 'b) option" where
  "with_soft_key priv st f =
     (case priv of
        None \<Rightarrow> Some (Inl BACKEND_ERR_GENERAL)
      | Some p \<Rightarrow> map_option f (soft_key_at p st))"

text \<open>A return code that is not 0 becomes -1.\<close>

definition or_general :: "'b option \<Rightarrow> backend_err + 'b" where
  "or_general r = (case r of None \<Rightarrow> Inl BACKEND_ERR_GENERAL | Some x \<Rightarrow> Inr x)"

definition soft_sign_key :: "'d crypto_env \<Rightarrow> nat \<Rightarrow> byte list \<Rightarrow> nat \<Rightarrow> wp11_soft_key \<Rightarrow> backend_err + byte list" where
  "soft_sign_key env mech inp siglen k =
     (let img = sk_image k in
      if mech = CKM_ECDSA then
        (if sk_key_type k \<noteq> WP11_SOFT_KEY_ECC then Inl BACKEND_ERR_GENERAL
         else if \<not> FITS_U32 siglen then Inl BACKEND_ERR_GENERAL
         else or_general (ce_ecc_sign env img (as_word32 inp) siglen))
      else if mech = CKM_ECDSA_SHA256 then
        (if sk_key_type k \<noteq> WP11_SOFT_KEY_ECC then Inl BACKEND_ERR_GENERAL
         else if \<not> ce_init_ok env then Inl BACKEND_ERR_GENERAL
         else case ce_sha256 env (as_word32 inp) of
           None \<Rightarrow> Inl BACKEND_ERR_GENERAL
         | Some digest \<Rightarrow>
             if \<not> FITS_U32 siglen then Inl BACKEND_ERR_GENERAL else or_general (ce_ecc_sign env img digest siglen))
      else if mech = CKM_RSA_PKCS then
        (if sk_key_type k \<noteq> WP11_SOFT_KEY_RSA then Inl BACKEND_ERR_GENERAL
         else if \<not> FITS_U32 (length inp) \<or> \<not> FITS_U32 siglen then Inl BACKEND_ERR_GENERAL
         else or_general (ce_rsa_sign env img inp siglen))
      else if mech = CKM_EDDSA then
        (if sk_key_type k \<noteq> WP11_SOFT_KEY_ED25519 then Inl BACKEND_ERR_GENERAL
         else if \<not> FITS_U32 (length inp) \<or> \<not> FITS_U32 siglen then Inl BACKEND_ERR_GENERAL
         else or_general (ce_ed_sign env img inp siglen))
      else Inl BACKEND_ERR_GENERAL)"

definition soft_sign ::
  "'d crypto_env \<Rightarrow> key_priv option \<Rightarrow> nat \<Rightarrow> byte list \<Rightarrow> nat \<Rightarrow> 'd wp11_state \<Rightarrow> (backend_err + byte list) option" where
  "soft_sign env priv mech inp siglen st = with_soft_key priv st (soft_sign_key env mech inp siglen)"

text \<open>The comparison behind \<open>wc_RsaSSL_Verify\<close> and the test of \<open>stat\<close>.\<close>

definition verified :: "bool \<Rightarrow> backend_err + unit" where
  "verified b = (if b then Inr () else Inl BACKEND_ERR_GENERAL)"

definition soft_verify_key ::
  "'d crypto_env \<Rightarrow> nat \<Rightarrow> byte list \<Rightarrow> byte list \<Rightarrow> wp11_soft_key \<Rightarrow> backend_err + unit" where
  "soft_verify_key env mech inp sig k =
     (let img = sk_image k in
      if mech = CKM_ECDSA then
        (if sk_key_type k \<noteq> WP11_SOFT_KEY_ECC \<or> \<not> FITS_U32 (length sig) then Inl BACKEND_ERR_GENERAL
         else verified (ce_ecc_verify env img sig (as_word32 inp) = Some True))
      else if mech = CKM_ECDSA_SHA256 then
        (if sk_key_type k \<noteq> WP11_SOFT_KEY_ECC \<or> \<not> FITS_U32 (length sig) then Inl BACKEND_ERR_GENERAL
         else if \<not> ce_init_ok env then Inl BACKEND_ERR_GENERAL
         else case ce_sha256 env (as_word32 inp) of
           None \<Rightarrow> Inl BACKEND_ERR_GENERAL
         | Some digest \<Rightarrow> verified (ce_ecc_verify env img sig digest = Some True))
      else if mech = CKM_RSA_PKCS then
        (if sk_key_type k \<noteq> WP11_SOFT_KEY_RSA then Inl BACKEND_ERR_GENERAL
         else case ce_rsa_verify env img (as_word32 sig) RSA4096_BYTES of
           None \<Rightarrow> Inl BACKEND_ERR_GENERAL
         | Some out \<Rightarrow> verified (out = inp))
      else if mech = CKM_EDDSA then
        (if sk_key_type k \<noteq> WP11_SOFT_KEY_ED25519 then Inl BACKEND_ERR_GENERAL
         else if \<not> FITS_U32 (length inp) \<or> \<not> FITS_U32 (length sig) then Inl BACKEND_ERR_GENERAL
         else verified (ce_ed_verify env img sig inp = Some True))
      else Inl BACKEND_ERR_GENERAL)"

definition soft_verify ::
  "'d crypto_env \<Rightarrow> key_priv option \<Rightarrow> nat \<Rightarrow> byte list \<Rightarrow> byte list \<Rightarrow> 'd wp11_state \<Rightarrow> (backend_err + unit) option" where
  "soft_verify env priv mech inp sig st = with_soft_key priv st (soft_verify_key env mech inp sig)"

definition soft_decrypt_key :: "'d crypto_env \<Rightarrow> nat \<Rightarrow> byte list \<Rightarrow> nat \<Rightarrow> wp11_soft_key \<Rightarrow> backend_err + byte list" where
  "soft_decrypt_key env mech ct ptlen k =
     (if mech = CKM_RSA_PKCS then
        (if sk_key_type k \<noteq> WP11_SOFT_KEY_RSA then Inl BACKEND_ERR_GENERAL
         else if \<not> FITS_U32 (length ct) \<or> \<not> FITS_U32 ptlen then Inl BACKEND_ERR_GENERAL
         else or_general (ce_rsa_decrypt env (sk_image k) ct ptlen))
      else Inl BACKEND_ERR_GENERAL)"

definition soft_decrypt ::
  "'d crypto_env \<Rightarrow> key_priv option \<Rightarrow> nat \<Rightarrow> byte list \<Rightarrow> nat \<Rightarrow> 'd wp11_state \<Rightarrow> (backend_err + byte list) option" where
  "soft_decrypt env priv mech ct ptlen st = with_soft_key priv st (soft_decrypt_key env mech ct ptlen)"

definition soft_derive_key :: "'d crypto_env \<Rightarrow> nat \<Rightarrow> byte list \<Rightarrow> nat \<Rightarrow> wp11_soft_key \<Rightarrow> backend_err + byte list" where
  "soft_derive_key env mech peer sharedlen k =
     (if mech \<noteq> CKM_ECDH1_DERIVE then Inl BACKEND_ERR_GENERAL
      else if sk_key_type k \<noteq> WP11_SOFT_KEY_ECC then Inl BACKEND_ERR_GENERAL
      else if \<not> ce_set_rng_ok env then Inl BACKEND_ERR_GENERAL
      else if \<not> ce_init_ok env then Inl BACKEND_ERR_GENERAL
      else if \<not> FITS_U32 (length peer) then Inl BACKEND_ERR_GENERAL
      else case ce_import_x963 env peer of
        None \<Rightarrow> Inl BACKEND_ERR_GENERAL
      | Some peer_ecc \<Rightarrow>
          if \<not> FITS_U32 sharedlen then Inl BACKEND_ERR_GENERAL
          else or_general (ce_ecdh env (sk_image k) peer_ecc sharedlen))"

definition soft_derive ::
  "'d crypto_env \<Rightarrow> key_priv option \<Rightarrow> nat \<Rightarrow> byte list \<Rightarrow> nat \<Rightarrow> 'd wp11_state \<Rightarrow> (backend_err + byte list) option" where
  "soft_derive env priv mech peer sharedlen st = with_soft_key priv st (soft_derive_key env mech peer sharedlen)"

section \<open>The other functions of the software backend\<close>

text \<open>
  The output pointer of the RSA functions may be \<open>NULL\<close>, which asks for the size.  A result is \<open>*outlen\<close> with the bytes
  written; \<open>None\<close> is -1.
\<close>

definition soft_key_modulus :: "'d crypto_env \<Rightarrow> wp11_soft_key \<Rightarrow> nat option" where
  "soft_key_modulus env k =
     (if sk_key_type k \<noteq> WP11_SOFT_KEY_RSA then None
      else if ce_rsa_size env (sk_image k) \<le> 0 then None
      else Some (nat (ce_rsa_size env (sk_image k))))"

definition with_length :: "byte list option \<Rightarrow> (nat \<times> byte list) option" where
  "with_length r = map_option (\<lambda>out. (length out, out)) r"

definition wp11_soft_key_rsa_encrypt ::
  "'d crypto_env \<Rightarrow> wp11_soft_key \<Rightarrow> byte list \<Rightarrow> bool \<Rightarrow> nat \<Rightarrow> (nat \<times> byte list) option" where
  "wp11_soft_key_rsa_encrypt env k inp out_ok outlen =
     (case soft_key_modulus env k of
        None \<Rightarrow> None
      | Some modsz \<Rightarrow>
          if \<not> out_ok then Some (modsz, [])
          else if outlen < modsz then None
          else with_length (ce_rsa_encrypt env (sk_image k) inp outlen))"

definition wp11_soft_key_rsa_oaep_encrypt ::
  "'d crypto_env \<Rightarrow> wp11_soft_key \<Rightarrow> byte list \<Rightarrow> bool \<Rightarrow> nat \<Rightarrow> (wc_hash \<times> wc_mgf) option \<Rightarrow> byte list
     \<Rightarrow> (nat \<times> byte list) option" where
  "wp11_soft_key_rsa_oaep_encrypt env k inp out_ok outlen hm lbl =
     (case soft_key_modulus env k of
        None \<Rightarrow> None
      | Some enc_sz \<Rightarrow>
          if \<not> out_ok then Some (enc_sz, [])
          else if outlen < enc_sz then None
          else if length lbl > WP11_OAEP_LABEL_MAX then None
          else with_length (ce_oaep_encrypt env (sk_image k) inp outlen hm lbl))"

definition wp11_soft_key_rsa_oaep_decrypt ::
  "'d crypto_env \<Rightarrow> wp11_soft_key \<Rightarrow> byte list \<Rightarrow> bool \<Rightarrow> nat \<Rightarrow> (wc_hash \<times> wc_mgf) option \<Rightarrow> byte list
     \<Rightarrow> (nat \<times> byte list) option" where
  "wp11_soft_key_rsa_oaep_decrypt env k inp out_ok outbuflen hm lbl =
     (case soft_key_modulus env k of
        None \<Rightarrow> None
      | Some enc_sz \<Rightarrow>
          if \<not> out_ok then Some (enc_sz, [])
          else if length lbl > WP11_OAEP_LABEL_MAX then None
          else with_length (ce_oaep_decrypt env (sk_image k) inp outbuflen hm lbl))"

definition wp11_soft_key_rsa_pss_sign ::
  "'d crypto_env \<Rightarrow> wp11_soft_key \<Rightarrow> byte list \<Rightarrow> nat \<Rightarrow> (wc_hash \<times> wc_mgf \<times> int) option \<Rightarrow> byte list option" where
  "wp11_soft_key_rsa_pss_sign env k digest siglen pss =
     (case soft_key_modulus env k of
        None \<Rightarrow> None
      | Some enc_sz \<Rightarrow> if siglen < enc_sz then None else ce_pss_sign env (sk_image k) digest siglen pss)"

definition wp11_soft_key_rsa_pss_verify ::
  "'d crypto_env \<Rightarrow> wp11_soft_key \<Rightarrow> byte list \<Rightarrow> byte list \<Rightarrow> (wc_hash \<times> wc_mgf \<times> int) option \<Rightarrow> bool" where
  "wp11_soft_key_rsa_pss_verify env k sig digest pss =
     (case soft_key_modulus env k of
        None \<Rightarrow> False
      | Some enc_sz \<Rightarrow>
          if enc_sz > RSA4096_BYTES then False
          else case ce_pss_verify env (sk_image k) sig enc_sz pss of
            None \<Rightarrow> False
          | Some em \<Rightarrow> ce_pss_check env digest em pss (enc_sz * 8))"

text \<open>Modulus and public exponent; the buffers of the only caller hold 512 and 32 bytes.\<close>

definition wp11_soft_key_export_rsa_pub :: "'d crypto_env \<Rightarrow> wp11_soft_key \<Rightarrow> (byte list \<times> byte list) option" where
  "wp11_soft_key_export_rsa_pub env k =
     (if sk_key_type k \<noteq> WP11_SOFT_KEY_RSA then None else ce_flatten env (sk_image k))"

definition wp11_soft_key_export_priv_der :: "'d crypto_env \<Rightarrow> wp11_soft_key \<Rightarrow> nat \<Rightarrow> byte list option" where
  "wp11_soft_key_export_priv_der env k buflen =
     (if sk_key_type k = WP11_SOFT_KEY_ECC \<or> sk_key_type k = WP11_SOFT_KEY_RSA
      then ce_to_der env (sk_key_type k) (sk_image k) buflen else None)"

section \<open>New soft keys\<close>

text \<open>Every constructor: allocate, start the random generator, initialise, generate, give up at the first failure.\<close>

definition soft_key_new ::
  "'d crypto_env \<Rightarrow> nat \<Rightarrow> wc_ctx option \<Rightarrow> bool \<Rightarrow> 'd wp11_state \<Rightarrow> 'd wp11_state \<times> nat option" where
  "soft_key_new env typ made rng_set st =
     (let p = priv_next st; st1 = st\<lparr>priv_next := p + 1\<rparr> in
      if \<not> le_soft_alloc env p \<or> \<not> ce_rng_ok env \<or> \<not> ce_init_ok env then (st1, None)
      else case made of
        None \<Rightarrow> (st1, None)
      | Some img \<Rightarrow>
          if \<not> rng_set then (st1, None)
          else (st1\<lparr>privs := (privs st)(p \<mapsto> SoftObj \<lparr>sk_ref_count = 1, sk_key_type = typ, sk_image = img\<rparr>)\<rparr>, Some p))"

definition wp11_soft_key_new_ecc_p256 :: "'d crypto_env \<Rightarrow> 'd wp11_state \<Rightarrow> 'd wp11_state \<times> nat option" where
  "wp11_soft_key_new_ecc_p256 env st = soft_key_new env WP11_SOFT_KEY_ECC (ce_make_ecc env 32) True st"

definition wp11_soft_key_new_ecc_p384 :: "'d crypto_env \<Rightarrow> 'd wp11_state \<Rightarrow> 'd wp11_state \<times> nat option" where
  "wp11_soft_key_new_ecc_p384 env st = soft_key_new env WP11_SOFT_KEY_ECC (ce_make_ecc env 48) True st"

definition wp11_soft_key_new_rsa :: "'d crypto_env \<Rightarrow> int \<Rightarrow> 'd wp11_state \<Rightarrow> 'd wp11_state \<times> nat option" where
  "wp11_soft_key_new_rsa env bits st = soft_key_new env WP11_SOFT_KEY_RSA (ce_make_rsa env bits) (ce_set_rng_ok env) st"

definition wp11_soft_key_new_ed25519 :: "'d crypto_env \<Rightarrow> 'd wp11_state \<Rightarrow> 'd wp11_state \<times> nat option" where
  "wp11_soft_key_new_ed25519 env st = soft_key_new env WP11_SOFT_KEY_ED25519 (ce_make_ed env) True st"

definition wp11_soft_key_ref :: "nat \<Rightarrow> 'd wp11_state \<Rightarrow> 'd wp11_state" where
  "wp11_soft_key_ref p st =
     (case privs st p of
        Some (SoftObj k) \<Rightarrow> st\<lparr>privs := (privs st)(p \<mapsto> SoftObj (k\<lparr>sk_ref_count := sk_ref_count k + 1\<rparr>))\<rparr>
      | _ \<Rightarrow> st)"

section \<open>The keystore backends\<close>

definition ks_entry :: "key_priv \<Rightarrow> 'd wp11_state \<Rightarrow> wp11_key_entry option" where
  "ks_entry p st = (case p of KsEntry blk e \<Rightarrow> (if blk \<in> live (heap st) then Some e else None) | _ \<Rightarrow> None)"

definition with_entry ::
  "key_priv option \<Rightarrow> 'd wp11_state \<Rightarrow> (wp11_key_entry \<Rightarrow> backend_err + 'b) \<Rightarrow> (backend_err + 'b) option" where
  "with_entry priv st f =
     (case priv of
        None \<Rightarrow> Some (Inl BACKEND_ERR_GENERAL)
      | Some p \<Rightarrow> map_option f (ks_entry p st))"

text \<open>The temporary key of one operation; bytes behind the decoded structure are not looked at.\<close>

definition ks_decode :: "'d crypto_env \<Rightarrow> int \<Rightarrow> bool \<Rightarrow> wp11_key_entry \<Rightarrow> wc_ctx option" where
  "ks_decode env typ rng e =
     (if key_type e \<noteq> typ then None
      else if rng \<and> \<not> ce_rng_ok env then None
      else if \<not> ce_init_ok env then None
      else map_option snd (if typ = KEY_TYPE_EC then le_ec_decode env (entry_der e) else le_rsa_decode env (entry_der e)))"

text \<open>What is signed or verified by ECDSA: the caller's digest, or the SHA-256 of the input.\<close>

definition ks_ecdsa_input :: "'d crypto_env \<Rightarrow> nat \<Rightarrow> byte list \<Rightarrow> byte list option" where
  "ks_ecdsa_input env mech inp =
     (if mech = CKM_ECDSA_SHA256 then (if \<not> ce_init_ok env then None else ce_sha256 env inp) else Some inp)"

definition ks_sign_entry :: "'d crypto_env \<Rightarrow> nat \<Rightarrow> byte list \<Rightarrow> nat \<Rightarrow> wp11_key_entry \<Rightarrow> backend_err + byte list" where
  "ks_sign_entry env mech inp siglen e =
     (if mech = CKM_RSA_PKCS then
        (case ks_decode env KEY_TYPE_RSA True e of
           None \<Rightarrow> Inl BACKEND_ERR_GENERAL
         | Some img \<Rightarrow>
             if \<not> FITS_U32 (length inp) \<or> \<not> FITS_U32 siglen then Inl BACKEND_ERR_GENERAL
             else or_general (ce_rsa_sign env img inp siglen))
      else if mech = CKM_ECDSA \<or> mech = CKM_ECDSA_SHA256 then
        (case ks_decode env KEY_TYPE_EC True e of
           None \<Rightarrow> Inl BACKEND_ERR_GENERAL
         | Some img \<Rightarrow>
             if \<not> FITS_U32 (length inp) \<or> \<not> FITS_U32 siglen then Inl BACKEND_ERR_GENERAL
             else case ks_ecdsa_input env mech inp of
               None \<Rightarrow> Inl BACKEND_ERR_GENERAL
             | Some h \<Rightarrow> or_general (ce_ecc_sign env img h siglen))
      else Inl BACKEND_ERR_GENERAL)"

definition wp11_ks_sign ::
  "'d crypto_env \<Rightarrow> key_priv option \<Rightarrow> nat \<Rightarrow> byte list \<Rightarrow> nat \<Rightarrow> 'd wp11_state \<Rightarrow> (backend_err + byte list) option" where
  "wp11_ks_sign env priv mech inp siglen st = with_entry priv st (ks_sign_entry env mech inp siglen)"

definition ks_verify_entry :: "'d crypto_env \<Rightarrow> nat \<Rightarrow> byte list \<Rightarrow> byte list \<Rightarrow> wp11_key_entry \<Rightarrow> backend_err + unit" where
  "ks_verify_entry env mech inp sig e =
     (if mech = CKM_RSA_PKCS then
        (case ks_decode env KEY_TYPE_RSA False e of
           None \<Rightarrow> Inl BACKEND_ERR_GENERAL
         | Some img \<Rightarrow>
             if \<not> FITS_U32 (length sig) then Inl BACKEND_ERR_GENERAL
             else (case ce_rsa_verify env img sig RSA4096_BYTES of
                None \<Rightarrow> Inl BACKEND_ERR_GENERAL | Some out \<Rightarrow> verified (out = inp)))
      else if mech = CKM_ECDSA \<or> mech = CKM_ECDSA_SHA256 then
        (case ks_decode env KEY_TYPE_EC False e of
           None \<Rightarrow> Inl BACKEND_ERR_GENERAL
         | Some img \<Rightarrow>
             if \<not> FITS_U32 (length inp) \<or> \<not> FITS_U32 (length sig) then Inl BACKEND_ERR_GENERAL
             else case ks_ecdsa_input env mech inp of
               None \<Rightarrow> Inl BACKEND_ERR_GENERAL
             | Some h \<Rightarrow> verified (ce_ecc_verify env img sig h = Some True))
      else Inl BACKEND_ERR_GENERAL)"

definition wp11_ks_verify ::
  "'d crypto_env \<Rightarrow> key_priv option \<Rightarrow> nat \<Rightarrow> byte list \<Rightarrow> byte list \<Rightarrow> 'd wp11_state \<Rightarrow> (backend_err + unit) option" where
  "wp11_ks_verify env priv mech inp sig st = with_entry priv st (ks_verify_entry env mech inp sig)"

definition ks_decrypt_entry :: "'d crypto_env \<Rightarrow> nat \<Rightarrow> byte list \<Rightarrow> nat \<Rightarrow> wp11_key_entry \<Rightarrow> backend_err + byte list" where
  "ks_decrypt_entry env mech ct ptlen e =
     (if mech = CKM_RSA_PKCS then
        (case ks_decode env KEY_TYPE_RSA True e of
           None \<Rightarrow> Inl BACKEND_ERR_GENERAL
         | Some img \<Rightarrow>
             if \<not> ce_set_rng_ok env then Inl BACKEND_ERR_GENERAL
             else if \<not> FITS_U32 (length ct) \<or> \<not> FITS_U32 ptlen then Inl BACKEND_ERR_GENERAL
             else or_general (ce_rsa_decrypt env img ct ptlen))
      else Inl BACKEND_ERR_GENERAL)"

definition wp11_ks_decrypt ::
  "'d crypto_env \<Rightarrow> key_priv option \<Rightarrow> nat \<Rightarrow> byte list \<Rightarrow> nat \<Rightarrow> 'd wp11_state \<Rightarrow> (backend_err + byte list) option" where
  "wp11_ks_decrypt env priv mech ct ptlen st = with_entry priv st (ks_decrypt_entry env mech ct ptlen)"

section \<open>The USB backend\<close>

definition usb_key_at :: "key_priv \<Rightarrow> 'd wp11_state \<Rightarrow> (nat \<times> byte \<times> byte) option" where
  "usb_key_at p st = (case p of UsbKey a c slot alg \<Rightarrow> (if privs st a = Some UsbObj then Some (c, slot, alg) else None) | _ \<Rightarrow> None)"

text \<open>One exchange of the PIV layer over the context of the key.\<close>

definition usb_call ::
  "key_priv option \<Rightarrow> ('d wp11_ccid_ctx \<Rightarrow> byte \<Rightarrow> byte \<Rightarrow> 'd wp11_ccid_ctx \<times> (piv_err + byte list)) \<Rightarrow> bool \<Rightarrow> 'd wp11_state
     \<Rightarrow> ('d wp11_state \<times> (backend_err + byte list)) option" where
  "usb_call priv f supported st =
     (case priv of
        None \<Rightarrow> Some (st, Inl BACKEND_ERR_GENERAL)
      | Some p \<Rightarrow>
          (case usb_key_at p st of
             None \<Rightarrow> None
           | Some (c, slot, alg) \<Rightarrow>
               if \<not> supported then Some (st, Inl BACKEND_ERR_GENERAL)
               else case ccids st c of
                 None \<Rightarrow> None
               | Some ctx \<Rightarrow>
                   (case f ctx slot alg of
                      (ctx', Inl e) \<Rightarrow> Some (st\<lparr>ccids := (ccids st)(c \<mapsto> ctx')\<rparr>, Inl BACKEND_ERR_GENERAL)
                    | (ctx', Inr out) \<Rightarrow> Some (st\<lparr>ccids := (ccids st)(c \<mapsto> ctx')\<rparr>, Inr out))))"

definition usb_sign ::
  "'d crypto_env \<Rightarrow> key_priv option \<Rightarrow> nat \<Rightarrow> byte list \<Rightarrow> nat \<Rightarrow> 'd wp11_state \<Rightarrow> ('d wp11_state \<times> (backend_err + byte list)) option" where
  "usb_sign env priv mech inp siglen st =
     usb_call priv (\<lambda>ctx slot alg. wp11_piv_sign (ccid_xfer (le_usb env)) True ctx slot alg inp siglen)
       (mech = CKM_ECDSA \<or> mech = CKM_RSA_PKCS) st"

definition usb_verify :: "backend_err + unit" where "usb_verify = Inl BACKEND_ERR_GENERAL"
definition usb_decrypt :: "backend_err + byte list" where "usb_decrypt = Inl BACKEND_ERR_GENERAL"

definition usb_derive ::
  "'d crypto_env \<Rightarrow> key_priv option \<Rightarrow> nat \<Rightarrow> byte list \<Rightarrow> nat \<Rightarrow> 'd wp11_state \<Rightarrow> ('d wp11_state \<times> (backend_err + byte list)) option" where
  "usb_derive env priv mech peer sharedlen st =
     usb_call priv (\<lambda>ctx slot alg. wp11_piv_ecdh (ccid_xfer (le_usb env)) True ctx slot alg peer sharedlen)
       (mech = CKM_ECDH1_DERIVE) st"

section \<open>Dispatch\<close>

text \<open>The calls through \<open>obj->backend_ops\<close>; \<open>derive\<close> is \<open>NULL\<close> in the tables of the keystore backends.\<close>

fun backend_sign ::
  "'d crypto_env \<Rightarrow> backend_ops \<Rightarrow> key_priv option \<Rightarrow> nat \<Rightarrow> byte list \<Rightarrow> nat \<Rightarrow> 'd wp11_state
     \<Rightarrow> ('d wp11_state \<times> (backend_err + byte list)) option" where
  "backend_sign env wp11_backend_soft_ops priv mech inp siglen st = map_option (Pair st) (soft_sign env priv mech inp siglen st)"
| "backend_sign env wp11_backend_usb_ops priv mech inp siglen st = usb_sign env priv mech inp siglen st"
| "backend_sign env wp11_backend_flash_ops priv mech inp siglen st = map_option (Pair st) (wp11_ks_sign env priv mech inp siglen st)"
| "backend_sign env wp11_backend_fsdir_ops priv mech inp siglen st = map_option (Pair st) (wp11_ks_sign env priv mech inp siglen st)"

fun backend_verify ::
  "'d crypto_env \<Rightarrow> backend_ops \<Rightarrow> key_priv option \<Rightarrow> nat \<Rightarrow> byte list \<Rightarrow> byte list \<Rightarrow> 'd wp11_state \<Rightarrow> (backend_err + unit) option" where
  "backend_verify env wp11_backend_soft_ops priv mech inp sig st = soft_verify env priv mech inp sig st"
| "backend_verify env wp11_backend_usb_ops priv mech inp sig st = Some usb_verify"
| "backend_verify env wp11_backend_flash_ops priv mech inp sig st = wp11_ks_verify env priv mech inp sig st"
| "backend_verify env wp11_backend_fsdir_ops priv mech inp sig st = wp11_ks_verify env priv mech inp sig st"

fun backend_decrypt ::
  "'d crypto_env \<Rightarrow> backend_ops \<Rightarrow> key_priv option \<Rightarrow> nat \<Rightarrow> byte list \<Rightarrow> nat \<Rightarrow> 'd wp11_state \<Rightarrow> (backend_err + byte list) option" where
  "backend_decrypt env wp11_backend_soft_ops priv mech ct ptlen st = soft_decrypt env priv mech ct ptlen st"
| "backend_decrypt env wp11_backend_usb_ops priv mech ct ptlen st = Some usb_decrypt"
| "backend_decrypt env wp11_backend_flash_ops priv mech ct ptlen st = wp11_ks_decrypt env priv mech ct ptlen st"
| "backend_decrypt env wp11_backend_fsdir_ops priv mech ct ptlen st = wp11_ks_decrypt env priv mech ct ptlen st"

fun has_derive :: "backend_ops \<Rightarrow> bool" where
  "has_derive wp11_backend_soft_ops = True"
| "has_derive wp11_backend_usb_ops = True"
| "has_derive wp11_backend_flash_ops = False"
| "has_derive wp11_backend_fsdir_ops = False"

definition backend_derive ::
  "'d crypto_env \<Rightarrow> backend_ops \<Rightarrow> key_priv option \<Rightarrow> nat \<Rightarrow> byte list \<Rightarrow> nat \<Rightarrow> 'd wp11_state
     \<Rightarrow> ('d wp11_state \<times> (backend_err + byte list)) option" where
  "backend_derive env t priv mech peer sharedlen st =
     (if t = wp11_backend_usb_ops then usb_derive env priv mech peer sharedlen st
      else map_option (Pair st) (soft_derive env priv mech peer sharedlen st))"

text \<open>A call of a backend changes nothing but the CCID context it talks through.\<close>

lemma usb_call_frame:
  "usb_call priv f b st = Some (st', r) \<Longrightarrow> st' = st\<lparr>ccids := ccids st'\<rparr>"
  by (auto simp: usb_call_def split: option.splits prod.splits sum.splits if_splits)

lemma backend_sign_frame: "backend_sign env t priv mech inp siglen st = Some (st', r) \<Longrightarrow> st' = st\<lparr>ccids := ccids st'\<rparr>"
  by (cases t) (auto simp: usb_sign_def dest: usb_call_frame)

lemma backend_derive_frame: "backend_derive env t priv mech inp siglen st = Some (st', r) \<Longrightarrow> st' = st\<lparr>ccids := ccids st'\<rparr>"
  by (auto simp: backend_derive_def usb_derive_def dest: usb_call_frame split: if_splits)

section \<open>A concrete environment\<close>

text \<open>A library whose signatures are the data behind a mark, for concrete runs: its laws are those of the real one.\<close>

definition toy_login :: "byte list login_env" where
  "toy_login = \<lparr>le_mem = sample_env, le_width = 2 ^ 64, le_crypto = plain_crypto, le_io = (\<lambda>n path. sample_load_io []),
     le_stat_ok = (\<lambda>p. True), le_mlock_pin = True, le_usb = echo_env, le_bus = \<lparr>init_ok = True, device_list = None, ctx_malloc_ok = True\<rparr>,
     le_dev = [], le_kp_malloc = (\<lambda>n. True), le_der_malloc = (\<lambda>b. True), le_cert_malloc = (\<lambda>b. True),
     le_ec_size = (\<lambda>d. Some 32), le_rsa_size = (\<lambda>d. Some 4), le_soft_alloc = (\<lambda>n. True),
     le_ec_decode = (\<lambda>d. Some (length d, d)), le_rsa_decode = (\<lambda>d. Some (length d, d))\<rparr>"

definition toy_crypto :: "byte list crypto_env" where
  "toy_crypto = login_env.extend toy_login
    \<lparr>ce_rng_ok = True, ce_init_ok = True, ce_set_rng_ok = True, ce_sha256 = (\<lambda>d. Some d),
     ce_hmac = (\<lambda>m k d. Some (take (mech_hmac_output_size m) (k @ d @ replicate 64 0))),
     ce_ecc_sign = (\<lambda>k d n. Some (1 # d)), ce_ecc_verify = (\<lambda>k sig d. Some (sig = 1 # d)),
     ce_rsa_sign = (\<lambda>k d n. Some (2 # d)), ce_rsa_verify = (\<lambda>k sig n. Some (tl sig)),
     ce_ed_sign = (\<lambda>k d n. Some (3 # d)), ce_ed_verify = (\<lambda>k sig d. Some (sig = 3 # d)),
     ce_rsa_decrypt = (\<lambda>k c n. Some (tl c)), ce_import_x963 = Some, ce_ecdh = (\<lambda>k p n. Some (map2 (+) k p)),
     ce_rsa_size = (\<lambda>k. 4), ce_rsa_encrypt = (\<lambda>k d n. Some (4 # d)),
     ce_oaep_encrypt = (\<lambda>k d n hm l. Some (5 # d)), ce_oaep_decrypt = (\<lambda>k c n hm l. Some (tl c)),
     ce_pss_sign = (\<lambda>k d n p. Some (6 # d)), ce_pss_verify = (\<lambda>k sig n p. Some (tl sig)), ce_pss_check = (\<lambda>d em p n. d = em),
     ce_flatten = (\<lambda>k. Some (k, [1, 0, 1])), ce_to_der = (\<lambda>t k n. Some k),
     ce_make_ecc = (\<lambda>n. Some (replicate n 9)), ce_make_rsa = (\<lambda>b. Some [8, 8, 8, 8]), ce_make_ed = Some [7],
     ce_random = (\<lambda>n. Some (replicate n 0x5A)), ce_malloc = (\<lambda>n. True)\<rparr>"

lemmas toy_simps = toy_crypto_def login_env.extend_def toy_login_def

end
