(* ===== verification/Attributes.thy ===== *)
theory Attributes imports Backend begin

text \<open>
  Object creation, copying and the attributes of objects (\<open>C_CreateObject\<close> without the part for the wolfHSM backend,
  \<open>C_CopyObject\<close>, \<open>C_GetAttributeValue\<close> in \<open>src/wp11_pkcs11.c\<close>).  A \<open>CK_BBOOL\<close> is kept as a truth value: a byte that
  is neither 0 nor 1 counts as 1.  Operations that read behind the memory the caller passes, or through a pointer of
  another type, have no result.
\<close>

section \<open>Constants\<close>

definition CKA_PRIVATE :: nat where "CKA_PRIVATE = 0x002"
definition CKA_VALUE :: nat where "CKA_VALUE = 0x011"
definition CKA_CERTIFICATE_TYPE :: nat where "CKA_CERTIFICATE_TYPE = 0x080"
definition CKA_MODULUS :: nat where "CKA_MODULUS = 0x120"
definition CKA_PUBLIC_EXPONENT :: nat where "CKA_PUBLIC_EXPONENT = 0x122"
definition CKA_PRIVATE_EXPONENT :: nat where "CKA_PRIVATE_EXPONENT = 0x123"
definition CKA_PRIME_1 :: nat where "CKA_PRIME_1 = 0x124"
definition CKA_PRIME_2 :: nat where "CKA_PRIME_2 = 0x125"
definition CKA_EXPONENT_1 :: nat where "CKA_EXPONENT_1 = 0x126"
definition CKA_EXPONENT_2 :: nat where "CKA_EXPONENT_2 = 0x127"
definition CKA_COEFFICIENT :: nat where "CKA_COEFFICIENT = 0x128"
definition CKA_LOCAL :: nat where "CKA_LOCAL = 0x163"
definition CKA_NEVER_EXTRACTABLE :: nat where "CKA_NEVER_EXTRACTABLE = 0x164"
definition CKA_ALWAYS_SENSITIVE :: nat where "CKA_ALWAYS_SENSITIVE = 0x165"
definition CKA_KEY_GEN_MECHANISM :: nat where "CKA_KEY_GEN_MECHANISM = 0x166"
definition CKC_X_509 :: nat where "CKC_X_509 = 0"

lemmas cka_more = CKA_PRIVATE_def CKA_VALUE_def CKA_CERTIFICATE_TYPE_def CKA_MODULUS_def CKA_PUBLIC_EXPONENT_def
  CKA_PRIVATE_EXPONENT_def CKA_PRIME_1_def CKA_PRIME_2_def CKA_EXPONENT_1_def CKA_EXPONENT_2_def CKA_COEFFICIENT_def
  CKA_LOCAL_def CKA_NEVER_EXTRACTABLE_def CKA_ALWAYS_SENSITIVE_def CKA_KEY_GEN_MECHANISM_def

text \<open>\<open>(CK_ULONG)-1\<close>, which is also \<open>CK_UNAVAILABLE_INFORMATION\<close>.\<close>

definition ULONG_MINUS_1 :: nat where "ULONG_MINUS_1 = 18446744073709551615"

definition APPLICATION_SIZE :: nat where "APPLICATION_SIZE = 64"

section \<open>Creating an object\<close>

text \<open>
  \<open>behind i\<close> is the memory that can be read behind the value of attribute \<open>i\<close>: the class is read as eight bytes and the
  label as a C string of at most 31 bytes, whatever \<open>ulValueLen\<close> says.
\<close>

definition read_ulong :: "byte list \<Rightarrow> nat option" where
  "read_ulong bs = (if length bs < 8 then None else Some (ulong_at bs 0))"

definition read_label :: "byte list \<Rightarrow> byte list option" where
  "read_label bs = (if 0 \<in> set (take 31 bs) \<or> 31 \<le> length bs then Some (cstr (take 31 bs)) else None)"

fun template_class :: "(nat \<Rightarrow> byte list) \<Rightarrow> nat \<Rightarrow> CK_ATTRIBUTE list \<Rightarrow> nat \<Rightarrow> nat option" where
  "template_class behind i [] cls = Some cls"
| "template_class behind i (a # as) cls =
     (if a_type a = CKA_CLASS then
        (case a_value a of
           None \<Rightarrow> template_class behind (Suc i) as cls
         | Some v \<Rightarrow>
             (case read_ulong (v @ behind i) of None \<Rightarrow> None | Some c \<Rightarrow> template_class behind (Suc i) as c))
      else template_class behind (Suc i) as cls)"

record create_attrs =
  ca_label :: "byte list"
  ca_val :: "byte list option"
  ca_token :: bool
  ca_app :: "byte list option"
  ca_key_type :: nat
  ca_sensitive :: bool
  ca_extractable :: bool
  ca_private :: bool

definition default_attrs :: create_attrs where
  "default_attrs = \<lparr>ca_label = [0], ca_val = None, ca_token = False, ca_app = None, ca_key_type = CKK_GENERIC_SECRET,
     ca_sensitive = False, ca_extractable = True, ca_private = False\<rparr>"

definition bbool :: "byte list \<Rightarrow> bool \<Rightarrow> bool" where
  "bbool v old = (if length v = 1 then v ! 0 \<noteq> 0 else old)"

definition create_attr :: "byte list \<Rightarrow> CK_ATTRIBUTE \<Rightarrow> create_attrs \<Rightarrow> create_attrs" where
  "create_attr beh a c =
     (case a_value a of
        None \<Rightarrow> c
      | Some v \<Rightarrow>
          if a_type a = CKA_LABEL then c\<lparr>ca_label := v @ beh\<rparr>
          else if a_type a = CKA_VALUE then c\<lparr>ca_val := Some v\<rparr>
          else if a_type a = CKA_TOKEN then c\<lparr>ca_token := bbool v (ca_token c)\<rparr>
          else if a_type a = CKA_APPLICATION then c\<lparr>ca_app := Some v\<rparr>
          else if a_type a = CKA_KEY_TYPE then (if length v = 8 then c\<lparr>ca_key_type := ulong_at v 0\<rparr> else c)
          else if a_type a = CKA_SENSITIVE then c\<lparr>ca_sensitive := bbool v (ca_sensitive c)\<rparr>
          else if a_type a = CKA_EXTRACTABLE then c\<lparr>ca_extractable := bbool v (ca_extractable c)\<rparr>
          else if a_type a = CKA_PRIVATE then c\<lparr>ca_private := bbool v (ca_private c)\<rparr>
          else c)"

fun scan_attrs :: "(nat \<Rightarrow> byte list) \<Rightarrow> nat \<Rightarrow> CK_ATTRIBUTE list \<Rightarrow> create_attrs \<Rightarrow> create_attrs" where
  "scan_attrs behind i [] c = c"
| "scan_attrs behind i (a # as) c = scan_attrs behind (Suc i) as (create_attr (behind i) a c)"

definition free_key :: "'d wp11_state \<Rightarrow> nat option" where
  "free_key st = first_index (\<lambda>k. \<not> k_in_use k) (g_keys st)"

definition is_key_class :: "nat \<Rightarrow> bool" where
  "is_key_class cls \<longleftrightarrow> cls = CKO_SECRET_KEY \<or> cls = CKO_PUBLIC_KEY \<or> cls = CKO_PRIVATE_KEY"

text \<open>An empty value allocates nothing.  What is not assigned keeps what the entry had.\<close>

definition value_of :: "create_attrs \<Rightarrow> byte list option" where
  "value_of c = (case ca_val c of None \<Rightarrow> None | Some v \<Rightarrow> if v = [] then None else Some v)"

definition new_object :: "nat \<Rightarrow> nat \<Rightarrow> byte list \<Rightarrow> create_attrs \<Rightarrow> wp11_key_obj \<Rightarrow> wp11_key_obj" where
  "new_object slot cls lbl c k =
     (let k1 = k\<lparr>k_in_use := True, k_slot_id := slot, obj_class := cls, is_private := ca_private c, is_token := ca_token c,
                secret := value_of c, key_priv := None, ops := None, k_label := lbl\<rparr>;
          k2 = (if is_key_class cls then
                  k1\<lparr>k_key_type := ca_key_type c, is_sensitive := ca_sensitive c, is_extractable := ca_extractable c,
                     always_sensitive := False, never_extractable := False, is_local := False\<rparr>
                else k1) in
      case ca_app c of None \<Rightarrow> k2 | Some ap \<Rightarrow> if ap = [] then k2 else k2\<lparr>application := ap\<rparr>)"

text \<open>\<open>pTemplate\<close> is \<open>None\<close> for \<open>NULL\<close> with a positive count.  The result has the new handle.\<close>

definition C_CreateObject ::
  "(nat \<Rightarrow> byte list) \<Rightarrow> bool \<Rightarrow> nat \<Rightarrow> CK_ATTRIBUTE list option \<Rightarrow> bool \<Rightarrow> 'd wp11_state
     \<Rightarrow> ('d wp11_state \<times> CK_RV \<times> nat option) option" where
  "C_CreateObject behind mem_ok hSession pTemplate ph_ok st =
     (if \<not> g_lock_ready st \<or> \<not> g_initialized st then Some (st, CKR_CRYPTOKI_NOT_INITIALIZED, None)
      else case session_get st hSession of
        None \<Rightarrow> Some (st, CKR_SESSION_HANDLE_INVALID, None)
      | Some i \<Rightarrow>
          if \<not> ph_ok then Some (st, CKR_ARGUMENTS_BAD, None)
          else case pTemplate of
            None \<Rightarrow> Some (st, CKR_ARGUMENTS_BAD, None)
          | Some as \<Rightarrow>
              (case template_class behind 0 as ULONG_MINUS_1 of
                 None \<Rightarrow> None
               | Some cls \<Rightarrow>
                   if cls = ULONG_MINUS_1 then Some (st, CKR_TEMPLATE_INCOMPLETE, None)
                   else if cls \<noteq> CKO_DATA \<and> \<not> is_key_class cls then Some (st, CKR_FUNCTION_NOT_SUPPORTED, None)
                   else let c = scan_attrs behind 0 as default_attrs in
                     if (case ca_app c of None \<Rightarrow> False | Some ap \<Rightarrow> length ap > APPLICATION_SIZE)
                     then Some (st, CKR_ATTRIBUTE_VALUE_INVALID, None)
                     else case free_key st of
                       None \<Rightarrow> Some (st, CKR_DEVICE_MEMORY, None)
                     | Some gi \<Rightarrow>
                         if value_of c \<noteq> None \<and> \<not> mem_ok then Some (st, CKR_DEVICE_MEMORY, None)
                         else (case read_label (ca_label c) of
                            None \<Rightarrow> None
                          | Some lbl \<Rightarrow>
                              Some (st\<lparr>g_keys := (g_keys st)[gi := new_object (s_slot_id (g_sessions st ! i)) cls lbl c (g_keys st ! gi)]\<rparr>,
                                    CKR_OK, Some (gi + 1)))))"

section \<open>Copying an object\<close>

text \<open>
  \<open>mallocs\<close> are the outcomes of the allocations: number 0 copies the value, number \<open>i + 1\<close> is for attribute \<open>i\<close>.
  The result of an override is \<open>None\<close> when its allocation fails.
\<close>

definition copy_attr :: "bool \<Rightarrow> CK_ATTRIBUTE \<Rightarrow> wp11_key_obj \<Rightarrow> wp11_key_obj option" where
  "copy_attr mem_ok a k =
     (case a_value a of
        None \<Rightarrow> Some k
      | Some v \<Rightarrow>
          if a_type a = CKA_LABEL then Some (if length v < 32 then k\<lparr>k_label := cstr v\<rparr> else k)
          else if a_type a = CKA_VALUE then (if \<not> mem_ok then None else Some (k\<lparr>secret := Some v\<rparr>))
          else Some k)"

fun copy_attrs :: "(nat \<Rightarrow> bool) \<Rightarrow> nat \<Rightarrow> CK_ATTRIBUTE list \<Rightarrow> wp11_key_obj \<Rightarrow> wp11_key_obj option" where
  "copy_attrs mallocs i [] k = Some k"
| "copy_attrs mallocs i (a # as) k =
     (case copy_attr (mallocs (i + 1)) a k of None \<Rightarrow> None | Some k' \<Rightarrow> copy_attrs mallocs (Suc i) as k')"

text \<open>A failed allocation leaves the new entry zeroed.\<close>

definition C_CopyObject ::
  "(nat \<Rightarrow> bool) \<Rightarrow> nat \<Rightarrow> nat \<Rightarrow> CK_ATTRIBUTE list option \<Rightarrow> bool \<Rightarrow> 'd wp11_state \<Rightarrow> 'd wp11_state \<times> CK_RV \<times> nat option" where
  "C_CopyObject mallocs hSession hObject pTemplate ph_ok st =
     (if \<not> g_lock_ready st \<or> \<not> g_initialized st then (st, CKR_CRYPTOKI_NOT_INITIALIZED, None)
      else if session_get st hSession = None then (st, CKR_SESSION_HANDLE_INVALID, None)
      else case key_get st hObject of
        None \<Rightarrow> (st, CKR_OBJECT_HANDLE_INVALID, None)
      | Some j \<Rightarrow>
          if \<not> ph_ok then (st, CKR_ARGUMENTS_BAD, None)
          else case pTemplate of
            None \<Rightarrow> (st, CKR_ARGUMENTS_BAD, None)
          | Some as \<Rightarrow>
              if \<exists>a \<in> set as. a_type a = CKA_CLASS then (st, CKR_ATTRIBUTE_READ_ONLY, None)
              else let src = g_keys st ! j in
                if obj_class src \<noteq> CKO_DATA then (st, CKR_FUNCTION_NOT_SUPPORTED, None)
                else case free_key st of
                  None \<Rightarrow> (st, CKR_DEVICE_MEMORY, None)
                | Some gi \<Rightarrow>
                    let put = (\<lambda>k. st\<lparr>g_keys := (g_keys st)[gi := k]\<rparr>) in
                    if secret src \<noteq> None \<and> secret src \<noteq> Some [] \<and> \<not> mallocs 0 then (put zero_key, CKR_HOST_MEMORY, None)
                    else (case copy_attrs mallocs 0 as src of
                       None \<Rightarrow> (put zero_key, CKR_HOST_MEMORY, None)
                     | Some k \<Rightarrow> (put k, CKR_OK, Some (gi + 1))))"

section \<open>Reading attributes\<close>

text \<open>
  What one attribute has to say.  A request is its type with \<open>ulValueLen\<close>, or \<open>None\<close> for \<open>pValue == NULL\<close>; the outcome
  is \<open>ulValueLen\<close>, \<open>None\<close> for \<open>CK_UNAVAILABLE_INFORMATION\<close>, with the bytes written.
\<close>

datatype attr_answer = AttrValue "byte list" | AttrNotFound | AttrSensitive

type_synonym attr_out = "nat option \<times> byte list"

definition bbool_bytes :: "bool \<Rightarrow> byte list" where
  "bbool_bytes b = [if b then 1 else 0]"

definition value_hidden :: "wp11_key_obj \<Rightarrow> bool" where
  "value_hidden k \<longleftrightarrow> is_local k \<and> obj_class k = CKO_SECRET_KEY \<and> (is_sensitive k \<or> \<not> is_extractable k)"

definition value_answer :: "wp11_key_obj \<Rightarrow> attr_answer" where
  "value_answer k =
     (if value_hidden k then AttrSensitive
      else case cert_der k of
        Some d \<Rightarrow> AttrValue d
      | None \<Rightarrow> (case secret k of Some v \<Rightarrow> AttrValue v | None \<Rightarrow> AttrNotFound))"

text \<open>Modulus and exponent; \<open>key_priv\<close> is taken for a soft key whatever the backend is.\<close>

definition rsa_pub_answer :: "'d crypto_env \<Rightarrow> bool \<Rightarrow> 'd wp11_state \<Rightarrow> wp11_key_obj \<Rightarrow> attr_answer option" where
  "rsa_pub_answer env want_n st k =
     (case key_priv k of
        None \<Rightarrow> Some AttrNotFound
      | Some p \<Rightarrow>
          if obj_class k \<noteq> CKO_PUBLIC_KEY \<and> obj_class k \<noteq> CKO_PRIVATE_KEY then Some AttrNotFound
          else case soft_key_at p st of
            None \<Rightarrow> None
          | Some sk \<Rightarrow>
              Some (case wp11_soft_key_export_rsa_pub env sk of
                None \<Rightarrow> AttrNotFound | Some (n, e) \<Rightarrow> AttrValue (if want_n then n else e)))"

definition is_private_part :: "nat \<Rightarrow> bool" where
  "is_private_part t \<longleftrightarrow> t \<in> {CKA_PRIVATE_EXPONENT, CKA_PRIME_1, CKA_PRIME_2, CKA_EXPONENT_1, CKA_EXPONENT_2, CKA_COEFFICIENT}"

definition attr_answer :: "'d crypto_env \<Rightarrow> 'd wp11_state \<Rightarrow> wp11_key_obj \<Rightarrow> nat \<Rightarrow> attr_answer option" where
  "attr_answer env st k t =
     (if t = CKA_CLASS then Some (AttrValue (ulong_bytes (obj_class k)))
      else if t = CKA_KEY_TYPE then Some (AttrValue (ulong_bytes (k_key_type k)))
      else if t = CKA_LABEL then Some (AttrValue (k_label k))
      else if t = CKA_ID then Some (if k_id k \<noteq> [] then AttrValue (k_id k) else AttrNotFound)
      else if t = CKA_TOKEN then Some (AttrValue (bbool_bytes (is_token k)))
      else if t = CKA_PRIVATE then Some (AttrValue (bbool_bytes (is_private k)))
      else if t = CKA_APPLICATION then Some (if obj_class k = CKO_DATA then AttrValue (application k) else AttrNotFound)
      else if t = CKA_VALUE then Some (value_answer k)
      else if t = CKA_CERTIFICATE_TYPE then
        Some (if obj_class k = CKO_CERTIFICATE then AttrValue (ulong_bytes CKC_X_509) else AttrNotFound)
      else if t = CKA_SENSITIVE then Some (AttrValue (bbool_bytes (is_sensitive k)))
      else if t = CKA_EXTRACTABLE then Some (AttrValue (bbool_bytes (is_extractable k)))
      else if t = CKA_ALWAYS_SENSITIVE then Some (AttrValue (bbool_bytes (always_sensitive k)))
      else if t = CKA_NEVER_EXTRACTABLE then Some (AttrValue (bbool_bytes (never_extractable k)))
      else if t = CKA_LOCAL then Some (AttrValue (bbool_bytes (is_local k)))
      else if t = CKA_KEY_GEN_MECHANISM then
        Some (AttrValue (ulong_bytes (if is_local k then key_gen_mech k else ULONG_MINUS_1)))
      else if t = CKA_MODULUS \<or> t = CKA_PUBLIC_EXPONENT then rsa_pub_answer env (t = CKA_MODULUS) st k
      else if is_private_part t then Some (if obj_class k = CKO_PRIVATE_KEY then AttrSensitive else AttrNotFound)
      else Some AttrNotFound)"

fun give_attr :: "attr_answer \<Rightarrow> nat option \<Rightarrow> CK_RV \<times> attr_out" where
  "give_attr (AttrValue bs) None = (CKR_OK, Some (length bs), [])"
| "give_attr (AttrValue bs) (Some cap) =
     (if cap \<ge> length bs then (CKR_OK, Some (length bs), bs) else (CKR_BUFFER_TOO_SMALL, Some (length bs), []))"
| "give_attr AttrNotFound buf = (CKR_ATTRIBUTE_TYPE_INVALID, None, [])"
| "give_attr AttrSensitive buf = (CKR_ATTRIBUTE_SENSITIVE, None, [])"

definition update_worst :: "CK_RV \<Rightarrow> CK_RV \<Rightarrow> CK_RV" where
  "update_worst worst err =
     (if err = CKR_ATTRIBUTE_TYPE_INVALID then CKR_ATTRIBUTE_TYPE_INVALID
      else if err = CKR_ATTRIBUTE_SENSITIVE \<and> worst \<noteq> CKR_ATTRIBUTE_TYPE_INVALID then CKR_ATTRIBUTE_SENSITIVE
      else if err = CKR_BUFFER_TOO_SMALL \<and> worst \<noteq> CKR_ATTRIBUTE_TYPE_INVALID \<and> worst \<noteq> CKR_ATTRIBUTE_SENSITIVE
      then CKR_BUFFER_TOO_SMALL
      else worst)"

fun get_attrs ::
  "'d crypto_env \<Rightarrow> 'd wp11_state \<Rightarrow> wp11_key_obj \<Rightarrow> (nat \<times> nat option) list \<Rightarrow> CK_RV \<Rightarrow> (CK_RV \<times> attr_out list) option" where
  "get_attrs env st k [] worst = Some (worst, [])"
| "get_attrs env st k ((t, buf) # rest) worst =
     (case attr_answer env st k t of
        None \<Rightarrow> None
      | Some a \<Rightarrow>
          (case give_attr a buf of
             (err, out) \<Rightarrow> map_option (apsnd (Cons out)) (get_attrs env st k rest (update_worst worst err))))"

definition C_GetAttributeValue ::
  "'d crypto_env \<Rightarrow> nat \<Rightarrow> nat \<Rightarrow> (nat \<times> nat option) list option \<Rightarrow> 'd wp11_state \<Rightarrow> (CK_RV \<times> attr_out list) option" where
  "C_GetAttributeValue env hSession hObject pTemplate st =
     (if \<not> g_lock_ready st \<or> \<not> g_initialized st then Some (CKR_CRYPTOKI_NOT_INITIALIZED, [])
      else case session_get st hSession of
        None \<Rightarrow> Some (CKR_SESSION_HANDLE_INVALID, [])
      | Some i \<Rightarrow>
          (case pTemplate of
             None \<Rightarrow> Some (CKR_ARGUMENTS_BAD, [])
           | Some reqs \<Rightarrow>
               (case key_get st hObject of
                  None \<Rightarrow> Some (CKR_OBJECT_HANDLE_INVALID, [])
                | Some j \<Rightarrow>
                    if k_slot_id (g_keys st ! j) \<noteq> s_slot_id (g_sessions st ! i) then Some (CKR_OBJECT_HANDLE_INVALID, [])
                    else get_attrs env st (g_keys st ! j) reqs CKR_OK)))"

section \<open>What is stored and what is read\<close>

lemma new_object_simps [simp]:
  "k_in_use (new_object sl cls lbl c k)" "k_slot_id (new_object sl cls lbl c k) = sl" "obj_class (new_object sl cls lbl c k) = cls"
  "secret (new_object sl cls lbl c k) = value_of c" "cert_der (new_object sl cls lbl c k) = cert_der k"
  "is_private (new_object sl cls lbl c k) = ca_private c"
  by (auto simp: new_object_def Let_def split: option.split)

lemma not_hidden_new:
  assumes "cls = CKO_DATA \<or> is_key_class cls"
  shows "\<not> value_hidden (new_object sl cls lbl c k)"
  using assms by (auto simp: value_hidden_def is_key_class_def new_object_def Let_def CKO_DATA_def CKO_SECRET_KEY_def CKO_PUBLIC_KEY_def
      CKO_PRIVATE_KEY_def split: option.splits)

lemma free_key_Some: "free_key st = Some i \<Longrightarrow> i < length (g_keys st) \<and> \<not> k_in_use (g_keys st ! i)"
  using first_index_Some by (fastforce simp: free_key_def)

lemma create_object_ok:
  assumes "C_CreateObject behind ok h (Some as) ph st = Some (st', CKR_OK, r)"
  obtains i cls lbl gi where "session_get st h = Some i" "free_key st = Some gi" "r = Some (gi + 1)"
    "cls = CKO_DATA \<or> is_key_class cls" "g_lock_ready st" "g_initialized st"
    "st' = st\<lparr>g_keys := (g_keys st)[gi := new_object (s_slot_id (g_sessions st ! i)) cls lbl (scan_attrs behind 0 as default_attrs) (g_keys st ! gi)]\<rparr>"
  using assms by (auto simp: C_CreateObject_def Let_def split: if_splits option.splits)

lemma scan_attrs_value:
  "[a \<leftarrow> as. a_type a = CKA_VALUE \<and> a_value a \<noteq> None] = [] \<Longrightarrow> ca_val (scan_attrs behind i as c) = ca_val c"
  by (induction as arbitrary: i c) (auto simp: create_attr_def cka_defs cka_more split: option.splits if_splits)

lemma scan_attrs_one_value:
  assumes "[a \<leftarrow> as. a_type a = CKA_VALUE \<and> a_value a \<noteq> None] = [\<lparr>a_type = CKA_VALUE, a_value = Some v\<rparr>]"
  shows "ca_val (scan_attrs behind i as c) = Some v"
  using assms
proof (induction as arbitrary: i c)
  case (Cons a as)
  show ?case
  proof (cases "a_type a = CKA_VALUE \<and> a_value a \<noteq> None")
    case True
    with Cons.prems have "a = \<lparr>a_type = CKA_VALUE, a_value = Some v\<rparr>"
      "[a \<leftarrow> as. a_type a = CKA_VALUE \<and> a_value a \<noteq> None] = []" by auto
    then show ?thesis by (simp only: scan_attrs.simps scan_attrs_value) (simp add: create_attr_def cka_defs cka_more)
  next
    case False
    then show ?thesis using Cons by (simp only: scan_attrs.simps) auto
  qed
qed simp

lemma get_value_of:
  assumes "g_lock_ready st" "g_initialized st" "session_get st h = Some i" "key_get st ob = Some j"
    "k_slot_id (g_keys st ! j) = s_slot_id (g_sessions st ! i)"
  shows "C_GetAttributeValue env h ob (Some [(CKA_VALUE, buf)]) st =
    (case give_attr (value_answer (g_keys st ! j)) buf of (err, out) \<Rightarrow> Some (update_worst CKR_OK err, [out]))"
  using assms by (simp add: C_GetAttributeValue_def attr_answer_def cka_defs cka_more split: prod.split)

lemma session_get_keys [simp]: "session_get (st\<lparr>g_keys := ks\<rparr>) h = session_get st h"
  by (simp add: session_get_def session_handle_valid_def)

lemma read_created:
  assumes "C_CreateObject behind ok h (Some as) True st = Some (st', CKR_OK, Some ob)" "tables_ok st"
    "[a \<leftarrow> as. a_type a = CKA_VALUE \<and> a_value a \<noteq> None] = [\<lparr>a_type = CKA_VALUE, a_value = Some v\<rparr>]" "v \<noteq> []"
  shows "C_GetAttributeValue env h ob (Some [(CKA_VALUE, buf)]) st' =
    (case give_attr (AttrValue (case cert_der (g_keys st ! (ob - 1)) of None \<Rightarrow> v | Some d \<Rightarrow> d)) buf of
       (err, out) \<Rightarrow> Some (update_worst CKR_OK err, [out]))"
proof -
  obtain i cls lbl gi where c: "session_get st h = Some i" "free_key st = Some gi" "Some ob = Some (gi + 1)"
    "cls = CKO_DATA \<or> is_key_class cls" "g_lock_ready st" "g_initialized st"
    "st' = st\<lparr>g_keys := (g_keys st)[gi := new_object (s_slot_id (g_sessions st ! i)) cls lbl (scan_attrs behind 0 as default_attrs) (g_keys st ! gi)]\<rparr>"
    using assms(1) by (rule create_object_ok)
  define k where "k = new_object (s_slot_id (g_sessions st ! i)) cls lbl (scan_attrs behind 0 as default_attrs) (g_keys st ! gi)"
  have gi: "gi < MAX_KEYS" "gi < length (g_keys st)" using free_key_Some [OF c(2)] assms(2) by (auto simp: tables_ok_def)
  have st': "st' = st\<lparr>g_keys := (g_keys st)[gi := k]\<rparr>" using c(7) by (simp add: k_def)
  have val: "value_of (scan_attrs behind 0 as default_attrs) = Some v"
    using scan_attrs_one_value [OF assms(3)] assms(4) by (simp add: value_of_def)
  have va: "value_answer k = AttrValue (case cert_der (g_keys st ! gi) of None \<Rightarrow> v | Some d \<Rightarrow> d)"
    using not_hidden_new [OF c(4)] by (simp add: value_answer_def k_def val split: option.split)
  have kg: "key_get st' ob = Some gi" using gi c(3) by (simp add: key_get_Some st' k_def)
  have nth: "g_keys st' ! gi = k" using gi by (simp add: st')
  have obs: "ob - 1 = gi" using c(3) by simp
  have "C_GetAttributeValue env h ob (Some [(CKA_VALUE, buf)]) st' =
    (case give_attr (value_answer k) buf of (err, out) \<Rightarrow> Some (update_worst CKR_OK err, [out]))"
    unfolding nth [symmetric] by (rule get_value_of [where i = i]) (use c kg gi in \<open>simp_all add: st' k_def\<close>)
  then show ?thesis unfolding va obs .
qed

lemma copy_object_ok:
  assumes "C_CopyObject mallocs h ob (Some as) ph st = (st', CKR_OK, r)"
  obtains j gi k where "key_get st ob = Some j" "free_key st = Some gi" "r = Some (gi + 1)" "copy_attrs mallocs 0 as (g_keys st ! j) = Some k"
    "st' = st\<lparr>g_keys := (g_keys st)[gi := k]\<rparr>"
  using assms by (auto simp: C_CopyObject_def Let_def split: if_splits option.splits)

text \<open>The value a copy gets: the last \<open>CKA_VALUE\<close> of the template, or the value of the original.\<close>

definition copied_value :: "byte list \<Rightarrow> CK_ATTRIBUTE list \<Rightarrow> byte list" where
  "copied_value v as = last (v # List.map_filter (\<lambda>a. if a_type a = CKA_VALUE then a_value a else None) as)"

lemma copied_value_simps [simp]:
  "copied_value v [] = v"
  "copied_value v (a # as) = copied_value (if a_type a = CKA_VALUE \<and> a_value a \<noteq> None then the (a_value a) else v) as"
  by (auto simp: copied_value_def List.map_filter_simps split: option.split)

lemma copy_attr_frame:
  assumes "copy_attr m a k = Some k'" "secret k = Some v"
  shows "secret k' = Some (if a_type a = CKA_VALUE \<and> a_value a \<noteq> None then the (a_value a) else v)"
    "cert_der k' = cert_der k" "value_hidden k' = value_hidden k" "k_slot_id k' = k_slot_id k" "k_in_use k' = k_in_use k"
  using assms by (auto simp: copy_attr_def value_hidden_def cka_defs cka_more split: option.splits if_splits)

lemma copy_attrs_frame:
  assumes "copy_attrs mallocs i as k = Some k'" "secret k = Some v"
  shows "secret k' = Some (copied_value v as)"
    "cert_der k' = cert_der k" "value_hidden k' = value_hidden k" "k_slot_id k' = k_slot_id k" "k_in_use k' = k_in_use k"
proof -
  have "secret k' = Some (copied_value v as) \<and> cert_der k' = cert_der k \<and> value_hidden k' = value_hidden k \<and> k_slot_id k' = k_slot_id k
    \<and> k_in_use k' = k_in_use k" using assms
  proof (induction as arbitrary: i k v)
    case (Cons a as)
    obtain k1 where k1: "copy_attr (mallocs (i + 1)) a k = Some k1" "copy_attrs mallocs (Suc i) as k1 = Some k'"
      using Cons.prems(1) by (auto split: option.splits)
    note f = copy_attr_frame [OF k1(1) Cons.prems(2)]
    from Cons.IH [OF k1(2) f(1)] f(2-5) show ?case by simp
  qed simp
  then show "secret k' = Some (copied_value v as)"
    "cert_der k' = cert_der k" "value_hidden k' = value_hidden k" "k_slot_id k' = k_slot_id k" "k_in_use k' = k_in_use k" by auto
qed

lemma read_copy:
  assumes "C_CopyObject mallocs h' ob (Some as) ph st = (st', CKR_OK, Some ob')" "tables_ok st"
    and "key_get st ob = Some j" "secret (g_keys st ! j) = Some v" "cert_der (g_keys st ! j) = None" "\<not> value_hidden (g_keys st ! j)"
    and "g_lock_ready st" "g_initialized st" "session_get st h = Some i" "k_slot_id (g_keys st ! j) = s_slot_id (g_sessions st ! i)"
  shows "ob' \<noteq> ob"
    "C_GetAttributeValue env h ob' (Some [(CKA_VALUE, buf)]) st' =
       (case give_attr (AttrValue (copied_value v as)) buf of (err, out) \<Rightarrow> Some (update_worst CKR_OK err, [out]))"
    "C_GetAttributeValue env h ob (Some [(CKA_VALUE, buf)]) st' = C_GetAttributeValue env h ob (Some [(CKA_VALUE, buf)]) st"
proof -
  obtain gi k where c: "free_key st = Some gi" "Some ob' = Some (gi + 1)" "copy_attrs mallocs 0 as (g_keys st ! j) = Some k"
    "st' = st\<lparr>g_keys := (g_keys st)[gi := k]\<rparr>"
    using copy_object_ok [OF assms(1)] assms(3) by (metis option.inject)
  note f = copy_attrs_frame [OF c(3) assms(4)]
  have gi: "gi < MAX_KEYS" "gi < length (g_keys st)" "\<not> k_in_use (g_keys st ! gi)" using free_key_Some [OF c(1)] assms(2) by (auto simp: tables_ok_def)
  have j: "ob = j + 1" "k_in_use (g_keys st ! j)" "j < MAX_KEYS" using assms(3) by (auto simp: key_get_Some)
  then have ne: "j \<noteq> gi" using gi(3) by auto
  show "ob' \<noteq> ob" using c(2) j(1) ne by simp
  have nth: "g_keys st' ! gi = k" "g_keys st' ! j = g_keys st ! j" using gi ne by (simp_all add: c(4))
  have kg: "key_get st' ob' = Some gi" "key_get st' ob = Some j" using gi j ne c(2) f(5) by (auto simp: key_get_Some c(4))
  have va: "value_answer k = AttrValue (copied_value v as)" "value_answer (g_keys st ! j) = AttrValue v"
    using f assms(4-6) by (simp_all add: value_answer_def)
  have run: "g_lock_ready st'" "g_initialized st'" "session_get st' h = Some i" using assms(7-9) by (simp_all add: c(4))
  have slot: "k_slot_id (g_keys st' ! gi) = s_slot_id (g_sessions st' ! i)" "k_slot_id (g_keys st' ! j) = s_slot_id (g_sessions st' ! i)"
    using assms(10) f(4) nth by (simp_all add: c(4))
  show "C_GetAttributeValue env h ob' (Some [(CKA_VALUE, buf)]) st' =
       (case give_attr (AttrValue (copied_value v as)) buf of (err, out) \<Rightarrow> Some (update_worst CKR_OK err, [out]))"
    using get_value_of [OF run kg(1) slot(1), of env buf] by (simp only: nth va)
  show "C_GetAttributeValue env h ob (Some [(CKA_VALUE, buf)]) st' = C_GetAttributeValue env h ob (Some [(CKA_VALUE, buf)]) st"
    using get_value_of [OF run kg(2) slot(2), of env buf] get_value_of [OF assms(7-9,3,10), of env buf] by (simp only: nth)
qed

text \<open>C18. What is stored is read back: the value of an object that \<open>C_CreateObject\<close> has made from a template with one, non-empty,
  \<open>CKA_VALUE\<close>, of any supported class and whatever its other attributes are (\<open>CKA_SENSITIVE\<close> included, which does not hide an imported value), is
  answered by \<open>C_GetAttributeValue\<close> exactly, provided the unused entry of the table it takes holds no certificate of a destroyed object; every
  other object is left alone; and a copy by \<open>C_CopyObject\<close> with any template is a different object beside the original, which
  keeps its value, and answers the last \<open>CKA_VALUE\<close> of that template, or the original's value when it has none.\<close>
theorem object_value_roundtrip:
  assumes "C_CreateObject behind ok h (Some as) True st = Some (st', CKR_OK, Some ob)" "tables_ok st"
    "[a \<leftarrow> as. a_type a = CKA_VALUE \<and> a_value a \<noteq> None] = [\<lparr>a_type = CKA_VALUE, a_value = Some v\<rparr>]" "v \<noteq> []" "length v \<le> cap"
    "cert_der (g_keys st ! (ob - 1)) = None"
  shows "C_GetAttributeValue env h ob (Some [(CKA_VALUE, Some cap)]) st' = Some (CKR_OK, [(Some (length v), v)])
    \<and> key_get st ob = None \<and> key_get st' ob = Some (ob - 1)
    \<and> (\<forall>j. j \<noteq> ob - 1 \<longrightarrow> g_keys st' ! j = g_keys st ! j) \<and> g_sessions st' = g_sessions st
    \<and> (\<forall>mallocs h2 cas st2 ob2. C_CopyObject mallocs h2 ob (Some cas) True st' = (st2, CKR_OK, Some ob2) \<longrightarrow>
         ob2 \<noteq> ob \<and> C_GetAttributeValue env h ob (Some [(CKA_VALUE, Some cap)]) st2 = Some (CKR_OK, [(Some (length v), v)])
         \<and> (length (copied_value v cas) \<le> cap \<longrightarrow>
              C_GetAttributeValue env h ob2 (Some [(CKA_VALUE, Some cap)]) st2 = Some (CKR_OK, [(Some (length (copied_value v cas)), copied_value v cas)])))"
proof -
  have get: "C_GetAttributeValue env h ob (Some [(CKA_VALUE, Some cap)]) st' = Some (CKR_OK, [(Some (length v), v)])"
    using read_created [OF assms(1-4)] assms(5,6) by (simp add: update_worst_def)
  obtain i cls lbl gi where c: "session_get st h = Some i" "free_key st = Some gi" "Some ob = Some (gi + 1)"
    "cls = CKO_DATA \<or> is_key_class cls" "g_lock_ready st" "g_initialized st"
    "st' = st\<lparr>g_keys := (g_keys st)[gi := new_object (s_slot_id (g_sessions st ! i)) cls lbl (scan_attrs behind 0 as default_attrs) (g_keys st ! gi)]\<rparr>"
    using assms(1) by (rule create_object_ok)
  have gi: "gi < MAX_KEYS" "gi < length (g_keys st)" "\<not> k_in_use (g_keys st ! gi)" using free_key_Some [OF c(2)] assms(2) by (auto simp: tables_ok_def)
  have tab: "tables_ok st'" using assms(2) by (simp add: c(7) tables_ok_def)
  have "key_get st ob = None" using gi c(3) by (simp add: key_get_def key_handle_valid_def)
  moreover have k': "key_get st' ob = Some (ob - 1)" using gi c(3) by (simp add: key_get_Some c(7))
  moreover have "\<forall>j. j \<noteq> ob - 1 \<longrightarrow> g_keys st' ! j = g_keys st ! j" "g_sessions st' = g_sessions st" using c(3) by (simp_all add: c(7))
  moreover have "ob2 \<noteq> ob \<and> C_GetAttributeValue env h ob (Some [(CKA_VALUE, Some cap)]) st2 = Some (CKR_OK, [(Some (length v), v)])
         \<and> (length (copied_value v cas) \<le> cap \<longrightarrow>
              C_GetAttributeValue env h ob2 (Some [(CKA_VALUE, Some cap)]) st2 = Some (CKR_OK, [(Some (length (copied_value v cas)), copied_value v cas)]))"
    if cp: "C_CopyObject mallocs h2 ob (Some cas) True st' = (st2, CKR_OK, Some ob2)" for mallocs h2 cas st2 ob2
  proof -
    have val: "value_of (scan_attrs behind 0 as default_attrs) = Some v"
      using scan_attrs_one_value [OF assms(3)] assms(4) by (simp add: value_of_def)
    have e: "g_keys st' ! (ob - 1) = new_object (s_slot_id (g_sessions st ! i)) cls lbl (scan_attrs behind 0 as default_attrs) (g_keys st ! gi)"
      using gi c(3) by (simp add: c(7))
    have facts: "secret (g_keys st' ! (ob - 1)) = Some v" "cert_der (g_keys st' ! (ob - 1)) = None" "\<not> value_hidden (g_keys st' ! (ob - 1))"
      "g_lock_ready st'" "g_initialized st'" "session_get st' h = Some i" "k_slot_id (g_keys st' ! (ob - 1)) = s_slot_id (g_sessions st' ! i)"
      using not_hidden_new [OF c(4)] val assms(6) c(1,3,5,6) unfolding e by (simp_all add: c(7))
    note rc = read_copy [OF cp tab k' facts]
    show ?thesis using rc(1) rc(2) [of env "Some cap"] rc(3) [of env "Some cap"] get by (auto simp: update_worst_def)
  qed
  ultimately show ?thesis using get by blast
qed

lemma keys_free_priv [simp]: "g_keys (free_key_priv k st) = g_keys st" "g_sessions (free_key_priv k st) = g_sessions st"
  "g_slots (free_key_priv k st) = g_slots st"
  by (auto simp: free_key_priv_def wp11_soft_key_free_def usb_free_key_priv_def
      split: option.split backend_ops.split key_priv.split priv_obj.split)

lemma destroy_object_ok:
  assumes "C_DestroyObject h ob st = (st1, CKR_OK)" "tables_ok st"
  obtains j where "ob = j + 1" "j < MAX_KEYS" "g_keys st1 = (g_keys st)[j := (g_keys st ! j)\<lparr>key_priv := None, secret := None, k_in_use := False\<rparr>]"
    "tables_ok st1"
proof -
  have "0 < ob \<and> ob - 1 < MAX_KEYS \<and> g_keys st1 = (g_keys st)[ob - 1 := (g_keys st ! (ob - 1))\<lparr>key_priv := None, secret := None, k_in_use := False\<rparr>]
    \<and> tables_ok st1"
    using assms by (auto simp: C_DestroyObject_def Let_def key_get_Some tables_ok_def split: if_splits option.splits)
  then show thesis by (intro that [of "ob - 1"]) simp_all
qed

lemma first_index_at: "i < length xs \<Longrightarrow> P (xs ! i) \<Longrightarrow> \<forall>j<i. \<not> P (xs ! j) \<Longrightarrow> first_index P xs = Some i"
proof (induction xs arbitrary: i)
  case (Cons x xs)
  show ?case
  proof (cases i)
    case 0
    then show ?thesis using Cons.prems(2) by simp
  next
    case (Suc k)
    have "\<not> P x" using Cons.prems(3) Suc by (metis nth_Cons_0 zero_less_Suc)
    moreover have "first_index P xs = Some k"
      using Cons.IH [of k] Cons.prems Suc by (metis Suc_less_eq length_Cons nth_Cons_Suc)
    ultimately show ?thesis using Suc by simp
  qed
qed simp

text \<open>C39. A destroyed certificate comes back: \<open>C_DestroyObject\<close> leaves the certificate bytes in the table entry, and the
  next object that \<open>C_CreateObject\<close> puts into the entry answers \<open>CKA_VALUE\<close> with that certificate instead of its own
  value.\<close>
theorem stale_certificate_shadows_value:
  assumes "C_DestroyObject h ob st = (st1, CKR_OK)" "tables_ok st" "cert_der (g_keys st ! (ob - 1)) = Some d"
    "\<forall>j < ob - 1. k_in_use (g_keys st ! j)"
    "C_CreateObject behind ok h' (Some as) True st1 = Some (st2, CKR_OK, Some ob')"
    "[a \<leftarrow> as. a_type a = CKA_VALUE \<and> a_value a \<noteq> None] = [\<lparr>a_type = CKA_VALUE, a_value = Some v\<rparr>]" "v \<noteq> []" "length d \<le> cap"
  shows "ob' = ob \<and> C_GetAttributeValue env h' ob (Some [(CKA_VALUE, Some cap)]) st2 = Some (CKR_OK, [(Some (length d), d)])"
proof -
  obtain j where j: "ob = j + 1" "j < MAX_KEYS" "g_keys st1 = (g_keys st)[j := (g_keys st ! j)\<lparr>key_priv := None, secret := None, k_in_use := False\<rparr>]"
    "tables_ok st1"
    using assms(1,2) by (rule destroy_object_ok)
  have len: "j < length (g_keys st)" using j(2) assms(2) by (simp add: tables_ok_def)
  have "free_key st1 = Some j" unfolding free_key_def
    by (rule first_index_at) (use len assms(4) j(1,3) in auto)
  then have "ob' = ob" using create_object_ok [OF assms(5)] j(1) by fastforce
  moreover have "cert_der (g_keys st1 ! (ob - 1)) = Some d" using j len assms(3) by simp
  ultimately show ?thesis using read_created [OF assms(5) j(4) assms(6,7)] assms(8) by (simp add: update_worst_def)
qed

section \<open>Concrete runs\<close>

text \<open>The template of an imported secret key that asks to be sensitive; a state whose first object is a certificate.\<close>

definition secret_template :: "byte list \<Rightarrow> CK_ATTRIBUTE list" where
  "secret_template v = [\<lparr>a_type = CKA_CLASS, a_value = Some [4, 0, 0, 0, 0, 0, 0, 0]\<rparr>, \<lparr>a_type = CKA_SENSITIVE, a_value = Some [1]\<rparr>,
     \<lparr>a_type = CKA_LABEL, a_value = Some [0x6B, 0]\<rparr>, \<lparr>a_type = CKA_VALUE, a_value = Some v\<rparr>]"

definition cert_state :: "byte list wp11_state" where
  "cert_state = session_state\<lparr>g_keys := (replicate MAX_KEYS zero_key)
     [0 := zero_key\<lparr>k_in_use := True, obj_class := CKO_CERTIFICATE, cert_der := Some [0x30, 0]\<rparr>]\<rparr>"

lemma template_value:
  "[a \<leftarrow> secret_template v. a_type a = CKA_VALUE \<and> a_value a \<noteq> None] = [\<lparr>a_type = CKA_VALUE, a_value = Some v\<rparr>]"
  by (simp add: secret_template_def cka_defs cka_more)

lemma create_demo:
  assumes "g_lock_ready st" "g_initialized st" "session_get st 1 = Some i" "free_key st = Some gi"
  shows "map_option snd (C_CreateObject (\<lambda>i. []) True 1 (Some (secret_template [7, 8])) True st) = Some (CKR_OK, Some (gi + 1))"
  using assms
  by (simp add: C_CreateObject_def secret_template_def cka_defs cka_more read_ulong_def ulong_at_def bslice_def ULONG_MINUS_1_def
      is_key_class_def CKO_SECRET_KEY_def CKO_DATA_def CKO_PUBLIC_KEY_def CKO_PRIVATE_KEY_def create_attr_def bbool_def default_attrs_def
      value_of_def read_label_def Let_def)

lemma session_free: "free_key (session_state :: byte list wp11_state) = Some 0" "session_get (session_state :: byte list wp11_state) 1 = Some 0"
  by code_simp+

lemma snd_the: "map_option snd r = Some (x, y) \<Longrightarrow> r = Some (fst (the r), x, y)"
  by auto

theorem object_value_roundtrip_witness:
  "\<exists>st'. C_CreateObject (\<lambda>i. []) True 1 (Some (secret_template [7, 8])) True (session_state :: byte list wp11_state) = Some (st', CKR_OK, Some 1)
     \<and> C_GetAttributeValue toy_crypto 1 1 (Some [(CKA_VALUE, Some 16)]) st' = Some (CKR_OK, [(Some 2, [7, 8])])"
proof -
  have c: "map_option snd (C_CreateObject (\<lambda>i. []) True 1 (Some (secret_template [7, 8])) True (session_state :: byte list wp11_state)) = Some (CKR_OK, Some 1)"
    using create_demo [OF session_state_simps(1,2) session_free(2,1)] by simp
  show ?thesis
    using snd_the [OF c] object_value_roundtrip [OF snd_the [OF c] session_state_simps(3) template_value, where cap = 16 and env = toy_crypto]
    by (auto simp: MAX_KEYS_def zero_key_def)
qed

lemma cert_facts: "g_lock_ready cert_state" "g_initialized cert_state" "tables_ok cert_state"
  "cert_der (g_keys cert_state ! (1 - 1)) = Some [0x30, 0]" "snd (C_DestroyObject 1 1 cert_state) = CKR_OK"
  "free_key (fst (C_DestroyObject 1 1 cert_state)) = Some 0" "session_get (fst (C_DestroyObject 1 1 cert_state)) 1 = Some 0"
  "g_lock_ready (fst (C_DestroyObject 1 1 cert_state))" "g_initialized (fst (C_DestroyObject 1 1 cert_state))"
  by code_simp+

theorem stale_certificate_shadows_value_witness:
  "\<exists>st2. C_CreateObject (\<lambda>i. []) True 1 (Some (secret_template [7, 8])) True (fst (C_DestroyObject 1 1 cert_state)) = Some (st2, CKR_OK, Some 1)
     \<and> C_GetAttributeValue toy_crypto 1 1 (Some [(CKA_VALUE, Some 16)]) st2 = Some (CKR_OK, [(Some 2, [0x30, 0])])"
proof -
  let ?st1 = "fst (C_DestroyObject 1 1 cert_state)"
  have d: "C_DestroyObject 1 1 cert_state = (?st1, CKR_OK)" using cert_facts(5) by (simp add: prod_eq_iff)
  have c: "map_option snd (C_CreateObject (\<lambda>i. []) True 1 (Some (secret_template [7, 8])) True ?st1) = Some (CKR_OK, Some 1)"
    using create_demo [OF cert_facts(8,9,7,6)] by simp
  show ?thesis
    using snd_the [OF c] stale_certificate_shadows_value [OF d cert_facts(3,4) _ snd_the [OF c] template_value, where cap = 16 and env = toy_crypto]
    by auto
qed

end
