(* ===== verification/KeyGen.thy ===== *)
theory KeyGen imports Attributes begin

text \<open>
  Key generation, key agreement and random numbers of \<open>src/wp11_pkcs11.c\<close>: \<open>C_GenerateKey\<close>, \<open>C_GenerateKeyPair\<close> on a PIV
  card or in software, \<open>soft_slot_save\<close>, \<open>C_DeriveKey\<close>, \<open>C_SeedRandom\<close>, \<open>C_GenerateRandom\<close>.  As in theory Attributes, a
  label is read as a C string of at most 31 bytes, out of the caller's memory if it has no NUL before.
\<close>

section \<open>Constants\<close>

definition CKA_VALUE_LEN :: nat where "CKA_VALUE_LEN = 0x161"
definition CKA_MODULUS_BITS :: nat where "CKA_MODULUS_BITS = 0x121"
definition CKA_EC_PARAMS :: nat where "CKA_EC_PARAMS = 0x180"
definition CKM_RSA_PKCS_KEY_PAIR_GEN :: nat where "CKM_RSA_PKCS_KEY_PAIR_GEN = 0x0000"
definition CKM_DES_KEY_GEN :: nat where "CKM_DES_KEY_GEN = 0x0120"
definition CKM_DES3_KEY_GEN :: nat where "CKM_DES3_KEY_GEN = 0x0131"
definition CKM_EC_KEY_PAIR_GEN :: nat where "CKM_EC_KEY_PAIR_GEN = 0x1040"
definition CKM_EC_EDWARDS_KEY_PAIR_GEN :: nat where "CKM_EC_EDWARDS_KEY_PAIR_GEN = 0x1055"
definition CKM_AES_KEY_GEN :: nat where "CKM_AES_KEY_GEN = 0x1080"
definition PIV_ALG_RSA2048 :: byte where "PIV_ALG_RSA2048 = 0x07"

lemmas keygen_defs = CKA_VALUE_LEN_def CKA_MODULUS_BITS_def CKA_EC_PARAMS_def CKM_RSA_PKCS_KEY_PAIR_GEN_def CKM_DES_KEY_GEN_def
  CKM_DES3_KEY_GEN_def CKM_EC_KEY_PAIR_GEN_def CKM_EC_EDWARDS_KEY_PAIR_GEN_def CKM_AES_KEY_GEN_def

section \<open>Secret keys\<close>

text \<open>\<open>CKA_VALUE_LEN\<close> of the template, 0 without one; key type and length of a mechanism.\<close>

fun template_len :: "CK_ATTRIBUTE list \<Rightarrow> nat \<Rightarrow> nat" where
  "template_len [] n = n"
| "template_len (a # as) n =
     (case a_value a of
        None \<Rightarrow> template_len as n
      | Some v \<Rightarrow> template_len as (if a_type a = CKA_VALUE_LEN \<and> length v = 8 then ulong_at v 0 else n))"

definition secret_key_kind :: "nat \<Rightarrow> CK_ATTRIBUTE list \<Rightarrow> CK_RV + nat \<times> nat" where
  "secret_key_kind mech as =
     (if mech = CKM_AES_KEY_GEN then
        (if template_len as 0 \<notin> {16, 24, 32} then Inl CKR_TEMPLATE_INCOMPLETE else Inr (CKK_AES, template_len as 0))
      else if mech = CKM_DES_KEY_GEN then Inr (CKK_DES, 8)
      else if mech = CKM_DES3_KEY_GEN then Inr (CKK_DES3, 24)
      else Inl CKR_MECHANISM_INVALID)"

definition gen_attr :: "byte list \<Rightarrow> CK_ATTRIBUTE \<Rightarrow> create_attrs \<Rightarrow> create_attrs" where
  "gen_attr beh a c =
     (case a_value a of
        None \<Rightarrow> c
      | Some v \<Rightarrow>
          if a_type a = CKA_SENSITIVE then c\<lparr>ca_sensitive := bbool v (ca_sensitive c)\<rparr>
          else if a_type a = CKA_EXTRACTABLE then c\<lparr>ca_extractable := bbool v (ca_extractable c)\<rparr>
          else if a_type a = CKA_PRIVATE then c\<lparr>ca_private := bbool v (ca_private c)\<rparr>
          else if a_type a = CKA_TOKEN then c\<lparr>ca_token := bbool v (ca_token c)\<rparr>
          else if a_type a = CKA_LABEL then c\<lparr>ca_label := v @ beh\<rparr>
          else c)"

fun scan_gen :: "(nat \<Rightarrow> byte list) \<Rightarrow> nat \<Rightarrow> CK_ATTRIBUTE list \<Rightarrow> create_attrs \<Rightarrow> create_attrs" where
  "scan_gen behind i [] c = c"
| "scan_gen behind i (a # as) c = scan_gen behind (Suc i) as (gen_attr (behind i) a c)"

definition generated_key :: "nat \<Rightarrow> nat \<Rightarrow> nat \<Rightarrow> create_attrs \<Rightarrow> byte list \<Rightarrow> byte list \<Rightarrow> wp11_key_obj \<Rightarrow> wp11_key_obj" where
  "generated_key slot mech kt c key lbl k =
     k\<lparr>k_in_use := True, k_slot_id := slot, obj_class := CKO_SECRET_KEY, k_key_type := kt, is_private := ca_private c,
       is_token := ca_token c, is_sensitive := ca_sensitive c, is_extractable := ca_extractable c,
       always_sensitive := ca_sensitive c, never_extractable := \<not> ca_extractable c, is_local := True, key_gen_mech := mech,
       secret := Some key, ops := None, key_priv := None, k_label := lbl\<rparr>"

definition C_GenerateKey ::
  "'d crypto_env \<Rightarrow> (nat \<Rightarrow> byte list) \<Rightarrow> nat \<Rightarrow> CK_MECHANISM option \<Rightarrow> CK_ATTRIBUTE list option \<Rightarrow> bool \<Rightarrow> 'd wp11_state
     \<Rightarrow> ('d wp11_state \<times> CK_RV \<times> nat option) option" where
  "C_GenerateKey env behind hSession pMechanism pTemplate ph_ok st =
     (if \<not> g_lock_ready st \<or> \<not> g_initialized st then Some (st, CKR_CRYPTOKI_NOT_INITIALIZED, None)
      else case pMechanism of
        None \<Rightarrow> Some (st, CKR_ARGUMENTS_BAD, None)
      | Some m \<Rightarrow>
          (case session_get st hSession of
             None \<Rightarrow> Some (st, CKR_SESSION_HANDLE_INVALID, None)
           | Some i \<Rightarrow>
               (case pTemplate of
                  None \<Rightarrow> Some (st, CKR_ARGUMENTS_BAD, None)
                | Some as \<Rightarrow>
                    if \<not> ph_ok then Some (st, CKR_ARGUMENTS_BAD, None)
                    else case secret_key_kind (mechanism m) as of
                      Inl e \<Rightarrow> Some (st, e, None)
                    | Inr (kt, len) \<Rightarrow>
                        let c = scan_gen behind 0 as default_attrs in
                        if \<not> ce_malloc env 0 then Some (st, CKR_HOST_MEMORY, None)
                        else if \<not> ce_rng_ok env then Some (st, CKR_GENERAL_ERROR, None)
                        else case ce_random env len of
                          None \<Rightarrow> Some (st, CKR_GENERAL_ERROR, None)
                        | Some key \<Rightarrow>
                            (case free_key st of
                               None \<Rightarrow> Some (st, CKR_DEVICE_MEMORY, None)
                             | Some gi \<Rightarrow>
                                 (case read_label (ca_label c) of
                                    None \<Rightarrow> None
                                  | Some lbl \<Rightarrow>
                                      Some (st\<lparr>g_keys := (g_keys st)[gi := generated_key (s_slot_id (g_sessions st ! i)) (mechanism m) kt c key lbl (g_keys st ! gi)]\<rparr>,
                                            CKR_OK, Some (gi + 1)))))))"

section \<open>Saving the persistent soft token\<close>

text \<open>The soft keys of a slot; the array behind \<open>id_len\<close> counts as zero.\<close>

definition saved_entry :: "wp11_key_obj \<Rightarrow> nat \<Rightarrow> byte list \<Rightarrow> wp11_key_entry" where
  "saved_entry k b d =
     \<lparr>key_id = take 16 (k_id k @ replicate 16 0), label = take KS_LABEL_MAX (k_label k),
      key_type = (if k_key_type k = CKK_EC then KEY_TYPE_EC else KEY_TYPE_RSA), der_bytes = Some (b, d), cert_bytes = None\<rparr>"

text \<open>
  The loop over the keys: memory, entries and the buffers still allocated; the flag is \<open>False\<close> after a failed allocation.
  A key that cannot be exported (a derived secret, an Ed25519 key) is left out.
\<close>

fun save_entries ::
  "'d crypto_env \<Rightarrow> 'd wp11_state \<Rightarrow> wp11_key_obj list \<Rightarrow> ks_mem \<Rightarrow> (ks_mem \<times> (nat \<times> wp11_key_entry) list \<times> bool) option" where
  "save_entries env st [] mem = Some (mem, [], True)"
| "save_entries env st (k # ks) mem =
     (case mem_malloc (le_mem env) mem KS_DER_MAX of
        (mem1, None) \<Rightarrow> Some (mem1, [], False)
      | (mem1, Some b) \<Rightarrow>
          (case key_priv k of
             None \<Rightarrow> save_entries env st ks (mem_free mem1 b)
           | Some p \<Rightarrow>
               (case soft_key_at p st of
                  None \<Rightarrow> None
                | Some sk \<Rightarrow>
                    (case wp11_soft_key_export_priv_der env sk KS_DER_MAX of
                       None \<Rightarrow> save_entries env st ks (mem_free mem1 b)
                     | Some d \<Rightarrow>
                         if d = [] then save_entries env st ks (mem_free mem1 b)
                         else map_option (apsnd (apfst (Cons (b, saved_entry k b d)))) (save_entries env st ks (mem_write mem1 b))))))"

definition free_der_blks :: "nat list \<Rightarrow> ks_mem \<Rightarrow> ks_mem" where
  "free_der_blks bs mem = fold (\<lambda>b m. mem_free (wp11_zero_blk m b) b) bs mem"

text \<open>The result has the file systems after each operation; \<open>mkdir\<close> of the parent directory changes no file.\<close>

definition soft_slot_save ::
  "'d crypto_env \<Rightarrow> create_io \<Rightarrow> nat \<Rightarrow> files \<Rightarrow> 'd wp11_state \<Rightarrow> ('d wp11_state \<times> files list \<times> bool) option" where
  "soft_slot_save env cio slot_id fs st =
     (let sl = g_slots st ! slot_id; ks = filter (soft_key_of slot_id) (g_keys st);
          create = (\<lambda>keys n mem. wp11_keystore_create (le_mem env) (le_width env) (le_crypto env) cio True (keystore_path sl) (soft_pin sl) keys n mem fs) in
      if soft_pin sl = [] then Some (st, [], False)
      else if keystore_path sl = [] then Some (st, [], False)
      else if ks = [] then
        map_option (\<lambda>(mem, trace, r). (st\<lparr>heap := mem\<rparr>, trace, is_ok r)) (create None 0 (heap st))
      else if \<not> ce_malloc env 0 \<or> \<not> ce_malloc env 1 then Some (st, [], False)
      else case save_entries env st ks (heap st) of
        None \<Rightarrow> None
      | Some (mem, es, False) \<Rightarrow> Some (st\<lparr>heap := free_der_blks (map fst es) mem\<rparr>, [], False)
      | Some (mem, es, True) \<Rightarrow>
          map_option (\<lambda>(mem', trace, r). (st\<lparr>heap := free_der_blks (map fst es) mem'\<rparr>, trace, is_ok r))
            (create (Some (map snd es)) (length es) mem))"

section \<open>Key pairs\<close>

definition oid_p256 :: "byte list" where "oid_p256 = [0x06, 0x08, 0x2a, 0x86, 0x48, 0xce, 0x3d, 0x03, 0x01, 0x07]"
definition oid_p384 :: "byte list" where "oid_p384 = [0x06, 0x05, 0x2b, 0x81, 0x04, 0x00, 0x22]"

text \<open>Modulus bits and whether the curve is P-384, from the public template.\<close>

fun parse_pub :: "CK_ATTRIBUTE list \<Rightarrow> nat \<times> bool \<Rightarrow> CK_RV + nat \<times> bool" where
  "parse_pub [] r = Inr r"
| "parse_pub (a # as) (bits, p384) =
     (case a_value a of
        None \<Rightarrow> parse_pub as (bits, p384)
      | Some v \<Rightarrow>
          if a_type a = CKA_MODULUS_BITS then parse_pub as (if length v = 8 then ulong_at v 0 else bits, p384)
          else if a_type a = CKA_EC_PARAMS then
            (if v = oid_p384 then parse_pub as (bits, True)
             else if v = oid_p256 then parse_pub as (bits, False)
             else Inl CKR_ATTRIBUTE_VALUE_INVALID)
          else parse_pub as (bits, p384))"

text \<open>The memory at the label and \<open>CKA_PRIVATE\<close>, from the private template.\<close>

fun parse_priv :: "(nat \<Rightarrow> byte list) \<Rightarrow> nat \<Rightarrow> CK_ATTRIBUTE list \<Rightarrow> byte list \<times> bool \<Rightarrow> byte list \<times> bool" where
  "parse_priv behind i [] r = r"
| "parse_priv behind i (a # as) (lbl, priv) =
     parse_priv behind (Suc i) as
       (case a_value a of
          None \<Rightarrow> (lbl, priv)
        | Some v \<Rightarrow>
            if a_type a = CKA_LABEL \<and> v \<noteq> [] then (v @ behind i, priv)
            else if a_type a = CKA_PRIVATE then (lbl, bbool v priv)
            else (lbl, priv))"

text \<open>The PIV slot that the first usable \<open>CKA_ID\<close> selects.\<close>

definition piv_target :: "CK_ATTRIBUTE list \<Rightarrow> byte" where
  "piv_target as =
     (case find (\<lambda>a. a_type a = CKA_ID \<and> a_value a \<noteq> None \<and> a_value a \<noteq> Some []) as of
        None \<Rightarrow> PIV_SLOT_AUTH
      | Some a \<Rightarrow>
          (let kid = the (a_value a) ! 0 in
           if kid = 0x02 then PIV_SLOT_SIGN else if kid = 0x03 then PIV_SLOT_KEYMGMT
           else if kid = 0x04 then PIV_SLOT_CARDAUTH else PIV_SLOT_AUTH))"

definition is_piv_key :: "nat \<Rightarrow> byte \<Rightarrow> wp11_key_obj \<Rightarrow> bool" where
  "is_piv_key slot_id tgt k \<longleftrightarrow> usb_key_of slot_id k \<and> (case key_priv k of Some (UsbKey p c ps alg) \<Rightarrow> ps = tgt | _ \<Rightarrow> False)"

text \<open>The key object of the slot: the existing one, or a new one whose private part is not complete yet.\<close>

definition piv_pair_object ::
  "'d crypto_env \<Rightarrow> nat \<Rightarrow> nat \<Rightarrow> byte \<Rightarrow> byte \<Rightarrow> 'd wp11_state \<Rightarrow> 'd wp11_state \<times> nat option" where
  "piv_pair_object env slot_id c tgt alg st =
     (case first_index (is_piv_key slot_id tgt) (g_keys st) of
        Some gi \<Rightarrow> (st, Some gi)
      | None \<Rightarrow>
          (case free_key st of
             None \<Rightarrow> (st, None)
           | Some gi \<Rightarrow>
               let p = priv_next st; st1 = st\<lparr>priv_next := p + 1\<rparr> in
               if \<not> le_kp_malloc env p then (st1, None)
               else (st1\<lparr>privs := (privs st)(p \<mapsto> UsbObj),
                       g_keys := (g_keys st)[gi := (g_keys st ! gi)\<lparr>k_in_use := True, k_slot_id := slot_id, obj_class := CKO_PRIVATE_KEY,
                         key_priv := Some (UsbKey p c tgt alg), ops := Some wp11_backend_usb_ops, is_private := True, is_token := True\<rparr>]\<rparr>,
                     Some gi)))"

definition set_piv_alg :: "byte \<Rightarrow> wp11_key_obj \<Rightarrow> wp11_key_obj" where
  "set_piv_alg alg k =
     k\<lparr>key_priv := (case key_priv k of Some (UsbKey p c ps a) \<Rightarrow> Some (UsbKey p c ps alg) | r \<Rightarrow> r),
       k_key_type := (if alg = PIV_ALG_EC_P256 then CKK_EC else CKK_RSA),
       sig_len_max := (if alg = PIV_ALG_EC_P256 then 72 else 256)\<rparr>"

definition piv_pair ::
  "'d crypto_env \<Rightarrow> nat \<Rightarrow> nat \<Rightarrow> CK_ATTRIBUTE list \<Rightarrow> byte list \<Rightarrow> 'd wp11_state
     \<Rightarrow> ('d wp11_state \<times> CK_RV \<times> (nat \<times> nat) option) option" where
  "piv_pair env slot_id mech priv lbl st =
     (case ccid (g_slots st ! slot_id) of
        None \<Rightarrow> Some (st, CKR_USER_NOT_LOGGED_IN, None)
      | Some c \<Rightarrow>
          if mech \<noteq> CKM_EC_KEY_PAIR_GEN \<and> mech \<noteq> CKM_RSA_PKCS_KEY_PAIR_GEN then Some (st, CKR_MECHANISM_INVALID, None)
          else let alg = (if mech = CKM_EC_KEY_PAIR_GEN then PIV_ALG_EC_P256 else PIV_ALG_RSA2048); tgt = piv_target priv in
            (case ccids st c of
               None \<Rightarrow> None
             | Some ctx \<Rightarrow>
                 (case wp11_piv_generate_key (ccid_xfer (le_usb env)) True ctx tgt alg False None of
                    (ctx', Inl e) \<Rightarrow> Some (st\<lparr>ccids := (ccids st)(c \<mapsto> ctx')\<rparr>, CKR_DEVICE_ERROR, None)
                  | (ctx', Inr u) \<Rightarrow>
                      (case piv_pair_object env slot_id c tgt alg (st\<lparr>ccids := (ccids st)(c \<mapsto> ctx')\<rparr>) of
                         (st1, None) \<Rightarrow> Some (st1, CKR_DEVICE_MEMORY, None)
                       | (st1, Some gi) \<Rightarrow>
                           (let k = set_piv_alg alg (g_keys st1 ! gi); put = (\<lambda>k. st1\<lparr>g_keys := (g_keys st1)[gi := k]\<rparr>) in
                            if lbl ! 0 = 0 then Some (put k, CKR_OK, Some (gi + 1, gi + 1))
                            else (case read_label lbl of
                               None \<Rightarrow> None
                             | Some l \<Rightarrow> Some (put (k\<lparr>k_label := l\<rparr>), CKR_OK, Some (gi + 1, gi + 1))))))))"

section \<open>Key pairs in software\<close>

definition two_free :: "'d wp11_state \<Rightarrow> (nat \<times> nat) option" where
  "two_free st =
     (case filter (\<lambda>i. \<not> k_in_use (g_keys st ! i)) [0..<MAX_KEYS] of
        a # b # r \<Rightarrow> Some (a, b) | _ \<Rightarrow> None)"

text \<open>The size is cast to \<open>int\<close>; the table below gives key type and maximal signature length.\<close>

definition new_pair_key :: "'d crypto_env \<Rightarrow> nat \<Rightarrow> nat \<Rightarrow> bool \<Rightarrow> 'd wp11_state \<Rightarrow> 'd wp11_state \<times> nat option" where
  "new_pair_key env mech bits p384 st =
     (if mech = CKM_RSA_PKCS_KEY_PAIR_GEN then wp11_soft_key_new_rsa env (sint (word_of_nat bits :: 32 word)) st
      else if mech = CKM_EC_EDWARDS_KEY_PAIR_GEN then wp11_soft_key_new_ed25519 env st
      else if p384 then wp11_soft_key_new_ecc_p384 env st
      else wp11_soft_key_new_ecc_p256 env st)"

definition pair_kind :: "nat \<Rightarrow> nat \<Rightarrow> bool \<Rightarrow> nat \<times> nat" where
  "pair_kind mech bits p384 =
     (if mech = CKM_RSA_PKCS_KEY_PAIR_GEN then (CKK_RSA, bits div 8)
      else if mech = CKM_EC_EDWARDS_KEY_PAIR_GEN then (CKK_EC_EDWARDS, 64)
      else (CKK_EC, if p384 then 104 else 72))"

definition pair_object :: "nat \<Rightarrow> nat \<Rightarrow> bool \<Rightarrow> nat \<Rightarrow> nat \<times> nat \<Rightarrow> byte list \<Rightarrow> wp11_key_obj \<Rightarrow> wp11_key_obj" where
  "pair_object slot cls priv p kind lbl k =
     k\<lparr>k_in_use := True, k_slot_id := slot, obj_class := cls, is_private := priv, is_token := True, is_local := True,
       key_priv := Some (SoftKey p), ops := Some wp11_backend_soft_ops, k_key_type := fst kind, sig_len_max := snd kind, k_label := lbl\<rparr>"

text \<open>The identifier both objects share; a failed random generator leaves the bytes of the private entry.\<close>

definition pair_id :: "'d crypto_env \<Rightarrow> wp11_key_obj \<Rightarrow> byte list" where
  "pair_id env k =
     (case wp11_keystore_gen_id (ce_rng_ok env) (ce_random env 16) of
        Inl e \<Rightarrow> take 16 (k_id k @ replicate 16 0) | Inr b \<Rightarrow> b)"

definition soft_pair ::
  "wp11_cfg \<Rightarrow> 'd crypto_env \<Rightarrow> create_io \<Rightarrow> files \<Rightarrow> nat \<Rightarrow> nat \<Rightarrow> nat \<times> bool \<Rightarrow> bool \<Rightarrow> byte list \<Rightarrow> 'd wp11_state
     \<Rightarrow> ('d wp11_state \<times> files list \<times> CK_RV \<times> (nat \<times> nat) option) option" where
  "soft_pair cfg env cio fs slot_id mech dims priv lbl st =
     (case two_free st of
        None \<Rightarrow> Some (st, [], CKR_DEVICE_MEMORY, None)
      | Some (gi_pub, gi) \<Rightarrow>
          (case new_pair_key env mech (fst dims) (snd dims) st of
             (st1, None) \<Rightarrow> Some (st1, [], CKR_DEVICE_MEMORY, None)
           | (st1, Some p) \<Rightarrow>
               (case read_label lbl of
                  None \<Rightarrow> None
                | Some l \<Rightarrow>
                    let kind = pair_kind mech (fst dims) (snd dims);
                        st2 = wp11_soft_key_ref p st1;
                        kpub = pair_object slot_id CKO_PUBLIC_KEY False p kind l (g_keys st ! gi_pub);
                        kpriv = pair_object slot_id CKO_PRIVATE_KEY priv p kind l (g_keys st ! gi);
                        ids = (if CFG_USB_FLASH cfg then (\<lambda>k. k\<lparr>k_id := pair_id env kpriv\<rparr>) else id);
                        st3 = st2\<lparr>g_keys := (g_keys st)[gi_pub := ids kpub, gi := ids kpriv]\<rparr>;
                        sl = g_slots st ! slot_id in
                    if CFG_USB_FLASH cfg \<and> keystore_path sl \<noteq> [] \<and> soft_pin sl \<noteq> [] then
                      map_option (\<lambda>(st4, trace, saved). (st4, trace, CKR_OK, Some (gi_pub + 1, gi + 1))) (soft_slot_save env cio slot_id fs st3)
                    else Some (st3, [], CKR_OK, Some (gi_pub + 1, gi + 1)))))"

definition pair_needs_login :: "wp11_cfg \<Rightarrow> wp11_slot \<Rightarrow> bool" where
  "pair_needs_login cfg sl \<longleftrightarrow> sl_proto sl = PROTO_PIV \<or> (CFG_USB_FLASH cfg \<and> keystore_path sl \<noteq> [])"

text \<open>A template is \<open>None\<close> for \<open>NULL\<close> with a positive count.  The result has the two handles, public first.\<close>

definition C_GenerateKeyPair ::
  "wp11_cfg \<Rightarrow> 'd crypto_env \<Rightarrow> create_io \<Rightarrow> files \<Rightarrow> (nat \<Rightarrow> byte list) \<Rightarrow> nat \<Rightarrow> CK_MECHANISM option \<Rightarrow> CK_ATTRIBUTE list option
     \<Rightarrow> CK_ATTRIBUTE list option \<Rightarrow> bool \<Rightarrow> 'd wp11_state \<Rightarrow> ('d wp11_state \<times> files list \<times> CK_RV \<times> (nat \<times> nat) option) option" where
  "C_GenerateKeyPair cfg env cio fs behind hSession pMechanism pPub pPriv ph_ok st =
     (let fail = (\<lambda>rv. Some (st, [], rv, None)) in
      if \<not> g_lock_ready st \<or> \<not> g_initialized st then fail CKR_CRYPTOKI_NOT_INITIALIZED
      else case (pMechanism, pPub, pPriv) of
        (Some m, Some pub, Some prv) \<Rightarrow>
          if \<not> ph_ok then fail CKR_ARGUMENTS_BAD
          else (case session_get st hSession of
             None \<Rightarrow> fail CKR_SESSION_HANDLE_INVALID
           | Some i \<Rightarrow>
               (case parse_pub pub (2048, False) of
                  Inl e \<Rightarrow> fail e
                | Inr dims \<Rightarrow>
                    let (lbl, priv) = parse_priv behind 0 prv ([0], True);
                        s = g_sessions st ! i; slot = s_slot_id s; sl = g_slots st ! slot in
                    if s_logged_in s = 0 \<and> priv \<and> pair_needs_login cfg sl then fail CKR_USER_NOT_LOGGED_IN
                    else if CFG_FSDIR cfg \<and> sl_proto sl = PROTO_FSDIR then fail CKR_FUNCTION_NOT_SUPPORTED
                    else if CFG_USB cfg \<and> sl_proto sl = PROTO_PIV then
                      map_option (\<lambda>(st', rv, hs). (st', [], rv, hs)) (piv_pair env slot (mechanism m) prv lbl st)
                    else if sl_proto sl \<noteq> PROTO_SOFT then fail CKR_FUNCTION_NOT_SUPPORTED
                    else if mechanism m \<notin> {CKM_EC_KEY_PAIR_GEN, CKM_RSA_PKCS_KEY_PAIR_GEN, CKM_EC_EDWARDS_KEY_PAIR_GEN}
                    then fail CKR_MECHANISM_INVALID
                    else soft_pair cfg env cio fs slot (mechanism m) dims priv lbl st))
      | _ \<Rightarrow> fail CKR_ARGUMENTS_BAD)"

section \<open>Key agreement and random numbers\<close>

text \<open>What \<open>pParameter\<close> points to; the value is \<open>None\<close> for a \<open>NULL\<close> pointer.\<close>

record CK_ECDH1_DERIVE_PARAMS =
  kdf :: nat
  pPublicData :: "byte list option"

definition CKD_NULL :: nat where "CKD_NULL = 1"

definition derived_key :: "nat \<Rightarrow> backend_ops \<Rightarrow> byte list \<Rightarrow> wp11_key_obj" where
  "derived_key slot t shared =
     zero_key\<lparr>k_in_use := True, k_slot_id := slot, obj_class := CKO_SECRET_KEY, k_key_type := CKK_GENERIC_SECRET, is_token := True,
       secret := Some shared, ops := Some t\<rparr>"

definition C_DeriveKey ::
  "'d crypto_env \<Rightarrow> CK_ECDH1_DERIVE_PARAMS \<Rightarrow> nat \<Rightarrow> CK_MECHANISM option \<Rightarrow> nat \<Rightarrow> bool \<Rightarrow> 'd wp11_state
     \<Rightarrow> ('d wp11_state \<times> CK_RV \<times> nat option) option" where
  "C_DeriveKey env params hSession pMechanism hBaseKey ph_ok st =
     (case pMechanism of
        None \<Rightarrow> Some (st, CKR_ARGUMENTS_BAD, None)
      | Some m \<Rightarrow>
          if \<not> ph_ok then Some (st, CKR_ARGUMENTS_BAD, None)
          else if \<not> g_lock_ready st \<or> \<not> g_initialized st then Some (st, CKR_CRYPTOKI_NOT_INITIALIZED, None)
          else case session_get st hSession of
            None \<Rightarrow> Some (st, CKR_SESSION_HANDLE_INVALID, None)
          | Some i \<Rightarrow>
              if mechanism m \<noteq> CKM_ECDH1_DERIVE then Some (st, CKR_MECHANISM_INVALID, None)
              else if pParameter m = None \<or> ulParameterLen m \<noteq> 40 then Some (st, CKR_MECHANISM_PARAM_INVALID, None)
              else if kdf params \<noteq> CKD_NULL then Some (st, CKR_MECHANISM_PARAM_INVALID, None)
              else if pPublicData params = None \<or> pPublicData params = Some [] then Some (st, CKR_MECHANISM_PARAM_INVALID, None)
              else (case key_get st hBaseKey of
                 None \<Rightarrow> Some (st, CKR_KEY_HANDLE_INVALID, None)
               | Some j \<Rightarrow>
                   (case ops (g_keys st ! j) of
                      None \<Rightarrow> Some (st, CKR_KEY_TYPE_INCONSISTENT, None)
                    | Some t \<Rightarrow>
                        if \<not> has_derive t then Some (st, CKR_KEY_TYPE_INCONSISTENT, None)
                        else (case backend_derive env t (key_priv (g_keys st ! j)) (mechanism m) (the (pPublicData params)) 64 st of
                           None \<Rightarrow> None
                         | Some (st1, Inl e) \<Rightarrow> Some (st1, backend_err_to_rv e, None)
                         | Some (st1, Inr shared) \<Rightarrow>
                             (case free_key st1 of
                                None \<Rightarrow> Some (st1, CKR_HOST_MEMORY, None)
                              | Some ki \<Rightarrow>
                                  if \<not> ce_malloc env 0 then Some (st1, CKR_HOST_MEMORY, None)
                                  else Some (st1\<lparr>g_keys := (g_keys st1)[ki := derived_key (s_slot_id (g_sessions st ! i)) t shared]\<rparr>,
                                             CKR_OK, Some (ki + 1)))))))"

definition C_SeedRandom :: "nat \<Rightarrow> bool \<Rightarrow> 'd wp11_state \<Rightarrow> CK_RV" where
  "C_SeedRandom hSession seed_ok st =
     (if \<not> g_lock_ready st \<or> \<not> g_initialized st then CKR_CRYPTOKI_NOT_INITIALIZED
      else if \<not> seed_ok then CKR_ARGUMENTS_BAD
      else if session_get st hSession = None then CKR_SESSION_HANDLE_INVALID
      else CKR_RANDOM_SEED_NOT_SUPPORTED)"

definition C_GenerateRandom :: "'d crypto_env \<Rightarrow> nat \<Rightarrow> bool \<Rightarrow> nat \<Rightarrow> 'd wp11_state \<Rightarrow> CK_RV \<times> byte list" where
  "C_GenerateRandom env hSession out_ok n st =
     (if \<not> g_lock_ready st \<or> \<not> g_initialized st then (CKR_CRYPTOKI_NOT_INITIALIZED, [])
      else if \<not> out_ok then (CKR_ARGUMENTS_BAD, [])
      else if session_get st hSession = None then (CKR_SESSION_HANDLE_INVALID, [])
      else if n > 0xFFFFFFFF then (CKR_ARGUMENTS_BAD, [])
      else if n = 0 then (CKR_OK, [])
      else if \<not> ce_rng_ok env then (CKR_GENERAL_ERROR, [])
      else case ce_random env n of None \<Rightarrow> (CKR_GENERAL_ERROR, []) | Some bs \<Rightarrow> (CKR_OK, bs))"

section \<open>Key agreement\<close>

lemma soft_key_at_keys [simp]: "soft_key_at p (st\<lparr>g_keys := ks\<rparr>) = soft_key_at p st"
  by (simp add: soft_key_at_def split: key_priv.split)

lemma derive_ok:
  assumes "C_DeriveKey env params h (Some m) hk True st = Some (st', CKR_OK, r)" "key_get st hk = Some j" "ops (g_keys st ! j) = Some wp11_backend_soft_ops"
    "key_priv (g_keys st ! j) = Some p" "soft_key_at p st = Some k" "pPublicData params = Some peer"
  obtains i pe shared ki where "g_lock_ready st" "g_initialized st" "session_get st h = Some i" "ce_import_x963 env peer = Some pe"
    "ce_ecdh env (sk_image k) pe 64 = Some shared" "free_key st = Some ki" "r = Some (ki + 1)"
    "st' = st\<lparr>g_keys := (g_keys st)[ki := derived_key (s_slot_id (g_sessions st ! i)) wp11_backend_soft_ops shared]\<rparr>"
  using assms by (auto simp: C_DeriveKey_def backend_derive_def soft_derive_def with_soft_key_def soft_derive_key_def or_general_def Let_def
      split: if_splits option.splits)

lemma read_derived:
  assumes "g_lock_ready st" "g_initialized st" "session_get st h = Some i" "key_get st ob = Some j"
    "g_keys st ! j = derived_key (s_slot_id (g_sessions st ! i)) t shared" "length shared \<le> cap"
  shows "C_GetAttributeValue env h ob (Some [(CKA_VALUE, Some cap)]) st = Some (CKR_OK, [(Some (length shared), shared)])"
  using assms
  by (subst get_value_of [where i = i and j = j])
    (simp_all add: derived_key_def value_answer_def value_hidden_def zero_key_def update_worst_def)

text \<open>The law of Diffie-Hellman: each side computes the same from its own key and the other's public point.\<close>

definition dh_law :: "'d crypto_env \<Rightarrow> (wc_ctx \<Rightarrow> byte list) \<Rightarrow> bool" where
  "dh_law env x963 \<longleftrightarrow> (\<forall>a b pa pb n. ce_import_x963 env (x963 a) = Some pa \<and> ce_import_x963 env (x963 b) = Some pb \<longrightarrow>
     ce_ecdh env a pb n = ce_ecdh env b pa n)"

text \<open>C14. Key agreement agrees: when \<open>C_DeriveKey\<close> derives one secret from a key of the token and the public point of another,
  and a second one from that other key and the public point of the first, both succeed in one session, logged in or not,
  then the two new objects are different and \<open>C_GetAttributeValue\<close> reads the same shared secret from both.\<close>
theorem derive_agreement:
  assumes "dh_law env x963" "tables_ok st"
    and "key_get st ha = Some a" "ops (g_keys st ! a) = Some wp11_backend_soft_ops" "key_priv (g_keys st ! a) = Some pa" "soft_key_at pa st = Some ka"
    and "key_get st hb = Some b" "ops (g_keys st ! b) = Some wp11_backend_soft_ops" "key_priv (g_keys st ! b) = Some pb" "soft_key_at pb st = Some kb"
    and "C_DeriveKey env pubB h (Some m) ha True st = Some (st1, CKR_OK, Some k1)" "pPublicData pubB = Some (x963 (sk_image kb))"
    and "C_DeriveKey env pubA h (Some m') hb True st1 = Some (st2, CKR_OK, Some k2)" "pPublicData pubA = Some (x963 (sk_image ka))"
  shows "k1 \<noteq> k2 \<and> (\<exists>shared. \<forall>cap \<ge> length shared.
    C_GetAttributeValue env h k1 (Some [(CKA_VALUE, Some cap)]) st2 = Some (CKR_OK, [(Some (length shared), shared)])
    \<and> C_GetAttributeValue env h k2 (Some [(CKA_VALUE, Some cap)]) st2 = Some (CKR_OK, [(Some (length shared), shared)]))"
proof -
  obtain i pe shared ki where d: "g_lock_ready st" "g_initialized st" "session_get st h = Some i" "ce_import_x963 env (x963 (sk_image kb)) = Some pe"
    "ce_ecdh env (sk_image ka) pe 64 = Some shared" "free_key st = Some ki" "Some k1 = Some (ki + 1)"
    "st1 = st\<lparr>g_keys := (g_keys st)[ki := derived_key (s_slot_id (g_sessions st ! i)) wp11_backend_soft_ops shared]\<rparr>"
    using assms(11,3-6,12) by (rule derive_ok)
  have ki: "ki < length (g_keys st)" "\<not> k_in_use (g_keys st ! ki)" using free_key_Some [OF d(6)] by auto
  have "b \<noteq> ki" using assms(7) ki(2) by (auto simp: key_get_Some)
  then have b: "key_get st1 hb = Some b" "ops (g_keys st1 ! b) = Some wp11_backend_soft_ops" "key_priv (g_keys st1 ! b) = Some pb" "soft_key_at pb st1 = Some kb"
    using assms(7-10) by (auto simp: d(8) key_get_Some)
  obtain i' pe' shared' ki' where e: "g_lock_ready st1" "g_initialized st1" "session_get st1 h = Some i'" "ce_import_x963 env (x963 (sk_image ka)) = Some pe'"
    "ce_ecdh env (sk_image kb) pe' 64 = Some shared'" "free_key st1 = Some ki'" "Some k2 = Some (ki' + 1)"
    "st2 = st1\<lparr>g_keys := (g_keys st1)[ki' := derived_key (s_slot_id (g_sessions st1 ! i')) wp11_backend_soft_ops shared']\<rparr>"
    using assms(13) b assms(14) by (rule derive_ok)
  have ki': "ki' < length (g_keys st1)" "\<not> k_in_use (g_keys st1 ! ki')" using free_key_Some [OF e(6)] by auto
  have [simp]: "i' = i" using d(3) e(3) by (simp add: d(8))
  have ne: "ki \<noteq> ki'" using ki'(2) ki(1) by (auto simp: d(8) derived_key_def)
  have eq: "shared' = shared" using assms(1) d(4,5) e(4,5) unfolding dh_law_def by (metis option.inject)
  have len: "ki < MAX_KEYS" "ki' < MAX_KEYS" using ki(1) ki'(1) assms(2) by (simp_all add: d(8) tables_ok_def)
  have st2: "g_lock_ready st2" "g_initialized st2" "session_get st2 h = Some i" "g_sessions st2 = g_sessions st"
    using d(1-3) by (simp_all add: e(8) d(8))
  have k: "g_keys st2 ! ki = derived_key (s_slot_id (g_sessions st2 ! i)) wp11_backend_soft_ops shared"
    "g_keys st2 ! ki' = derived_key (s_slot_id (g_sessions st2 ! i)) wp11_backend_soft_ops shared"
    using ki(1) ki'(1) ne eq by (simp_all add: e(8) d(8))
  have h: "key_get st2 k1 = Some ki" "key_get st2 k2 = Some ki'"
    using d(7) e(7) len k by (auto simp: key_get_Some derived_key_def)
  have "k1 \<noteq> k2" using d(7) e(7) ne by simp
  with read_derived [OF st2(1-3) h(1) k(1)] read_derived [OF st2(1-3) h(2) k(2)] show ?thesis by blast
qed

lemma derive_run:
  assumes "g_lock_ready st" "g_initialized st" "session_get st h = Some i" "key_get st hk = Some j" "ops (g_keys st ! j) = Some wp11_backend_soft_ops"
    "key_priv (g_keys st ! j) = Some p" "soft_key_at p st = Some k" "sk_key_type k = WP11_SOFT_KEY_ECC"
    "mechanism m = CKM_ECDH1_DERIVE" "pParameter m \<noteq> None" "ulParameterLen m = 40" "kdf params = CKD_NULL"
    "pPublicData params = Some peer" "peer \<noteq> []" "length peer < 4294967296" "ce_set_rng_ok env" "ce_init_ok env" "ce_malloc env 0"
    "ce_import_x963 env peer = Some pe" "ce_ecdh env (sk_image k) pe 64 = Some shared" "free_key st = Some ki"
  shows "C_DeriveKey env params h (Some m) hk True st =
    Some (st\<lparr>g_keys := (g_keys st)[ki := derived_key (s_slot_id (g_sessions st ! i)) wp11_backend_soft_ops shared]\<rparr>, CKR_OK, Some (ki + 1))"
  using assms by (simp add: C_DeriveKey_def backend_derive_def soft_derive_def with_soft_key_def soft_derive_key_def or_general_def FITS_U32_def Let_def)

text \<open>Key agreement needs no login: with a private elliptic curve key of a soft token, in a session that is not logged in,
  \<open>C_SignInit\<close> refuses the key, but \<open>C_DeriveKey\<close> uses it, and the derived secret is a public, readable object.\<close>
theorem derive_key_needs_no_login:
  assumes "g_lock_ready st" "g_initialized st" "tables_ok st" "session_get st h = Some i" "s_logged_in (g_sessions st ! i) = 0" "\<not> sign_active (g_sessions st ! i)"
    "key_get st hk = Some j" "is_private (g_keys st ! j)" "obj_class (g_keys st ! j) = CKO_PRIVATE_KEY" "ops (g_keys st ! j) = Some wp11_backend_soft_ops"
    "key_priv (g_keys st ! j) = Some p" "soft_key_at p st = Some k" "sk_key_type k = WP11_SOFT_KEY_ECC"
    "mechanism m = CKM_ECDH1_DERIVE" "pParameter m \<noteq> None" "ulParameterLen m = 40" "kdf params = CKD_NULL"
    "pPublicData params = Some peer" "peer \<noteq> []" "length peer < 4294967296" "ce_set_rng_ok env" "ce_init_ok env" "ce_malloc env 0"
    "ce_import_x963 env peer = Some pe" "ce_ecdh env (sk_image k) pe 64 = Some shared" "free_key st = Some ki" "length shared \<le> cap"
  shows "snd (C_SignInit h (Some sm) hk st) = CKR_USER_NOT_LOGGED_IN
    \<and> (\<exists>st'. C_DeriveKey env params h (Some m) hk True st = Some (st', CKR_OK, Some (ki + 1))
         \<and> C_GetAttributeValue env h (ki + 1) (Some [(CKA_VALUE, Some cap)]) st' = Some (CKR_OK, [(Some (length shared), shared)]))"
proof -
  let ?st' = "st\<lparr>g_keys := (g_keys st)[ki := derived_key (s_slot_id (g_sessions st ! i)) wp11_backend_soft_ops shared]\<rparr>"
  have ki: "ki < length (g_keys st)" "ki < MAX_KEYS" using free_key_Some [OF assms(26)] assms(3) by (simp_all add: tables_ok_def)
  have "C_GetAttributeValue env h (ki + 1) (Some [(CKA_VALUE, Some cap)]) ?st' = Some (CKR_OK, [(Some (length shared), shared)])"
    by (rule read_derived [where i = i and j = ki]) (use assms(1,2,4,27) ki in \<open>simp_all add: key_get_Some derived_key_def\<close>)
  moreover have "snd (C_SignInit h (Some sm) hk st) = CKR_USER_NOT_LOGGED_IN"
    using assms(1,2,4-9) by (simp add: C_SignInit_def Let_def CKO_PRIVATE_KEY_def CKO_CERTIFICATE_def)
  ultimately show ?thesis using derive_run [OF assms(1,2,4,7,10-26)] by blast
qed

text \<open>Two private elliptic curve keys in a session without login.\<close>

definition ecc_state :: "byte list wp11_state" where
  "ecc_state = session_state\<lparr>privs := (\<lambda>a. if a < 2 then Some (SoftObj \<lparr>sk_ref_count = 1, sk_key_type = WP11_SOFT_KEY_ECC, sk_image = [of_nat a + 3]\<rparr>) else None),
     g_keys := map (\<lambda>a. if a < 2 then zero_key\<lparr>k_in_use := True, obj_class := CKO_PRIVATE_KEY, k_key_type := CKK_EC, is_private := True,
         ops := Some wp11_backend_soft_ops, key_priv := Some (SoftKey a)\<rparr> else zero_key) [0..<MAX_KEYS]\<rparr>"

definition ecdh_mech :: CK_MECHANISM where
  "ecdh_mech = \<lparr>mechanism = CKM_ECDH1_DERIVE, pParameter = Some (replicate 40 0), ulParameterLen = 40\<rparr>"

definition peer_params :: "byte list \<Rightarrow> CK_ECDH1_DERIVE_PARAMS" where
  "peer_params p = \<lparr>kdf = CKD_NULL, pPublicData = Some p\<rparr>"

lemma toy_dh: "dh_law toy_crypto id"
  by (auto simp: dh_law_def toy_simps zip_commute [of _ "[]"] intro: nth_equalityI)

lemma ecc_state_simps:
  "g_lock_ready ecc_state" "g_initialized ecc_state" "tables_ok ecc_state" "session_get ecc_state 1 = Some 0" "length (g_keys ecc_state) = MAX_KEYS"
  "key_get ecc_state 1 = Some 0" "key_get ecc_state 2 = Some 1" "free_key ecc_state = Some 2"
  by (simp_all add: ecc_state_def tables_ok_def session_state_def state0_def table_sizes session_get_Some key_get_Some free_key_def upt_rec zero_session_def zero_key_def)

lemma ecc_keys:
  assumes "a < 2"
  shows "g_keys ecc_state ! a = zero_key\<lparr>k_in_use := True, obj_class := CKO_PRIVATE_KEY, k_key_type := CKK_EC, is_private := True,
      ops := Some wp11_backend_soft_ops, key_priv := Some (SoftKey a)\<rparr>"
    "soft_key_at (SoftKey a) ecc_state = Some \<lparr>sk_ref_count = 1, sk_key_type = WP11_SOFT_KEY_ECC, sk_image = [of_nat a + 3]\<rparr>"
  using assms by (simp_all add: ecc_state_def MAX_KEYS_def soft_key_at_def)

lemmas ecc_key0 = ecc_keys [of 0, simplified] and ecc_key1 = ecc_keys [of 1, simplified]

lemma ecc_session: "g_sessions ecc_state ! 0 = zero_session\<lparr>s_in_use := True, s_flags := 6, s_state := CKS_RW_PUBLIC_SESSION\<rparr>"
  by (simp add: ecc_state_def session_state_def MAX_SESSIONS_def)

lemma demo_params [simp]:
  "mechanism ecdh_mech = CKM_ECDH1_DERIVE" "pParameter ecdh_mech \<noteq> None" "ulParameterLen ecdh_mech = 40"
  "kdf (peer_params p) = CKD_NULL" "pPublicData (peer_params p) = Some p"
  by (simp_all add: ecdh_mech_def peer_params_def)

lemma toy_ecdh [simp]:
  "ce_import_x963 toy_crypto = Some" "ce_ecdh toy_crypto k p n = Some (map2 (+) k p)" "ce_set_rng_ok toy_crypto" "ce_init_ok toy_crypto" "ce_malloc toy_crypto n"
  by (simp_all add: toy_simps)

theorem derive_key_needs_no_login_witness:
  "snd (C_SignInit 1 (Some ecdh_mech) 1 ecc_state) = CKR_USER_NOT_LOGGED_IN
   \<and> (\<exists>st'. C_DeriveKey toy_crypto (peer_params [4]) 1 (Some ecdh_mech) 1 True ecc_state = Some (st', CKR_OK, Some (2 + 1))
        \<and> C_GetAttributeValue toy_crypto 1 (2 + 1) (Some [(CKA_VALUE, Some 8)]) st' = Some (CKR_OK, [(Some (length [7 :: byte]), [7])]))"
  by (rule derive_key_needs_no_login [OF ecc_state_simps(1-4) _ _ ecc_state_simps(6) _ _ _ _ ecc_key0(2), where ki = 2 and peer = "[4]" and pe = "[4]"])
    (simp_all add: ecc_key0 ecc_session zero_session_def zero_key_def ecc_state_simps)

definition ecc_derived :: "byte list wp11_state" where
  "ecc_derived = ecc_state\<lparr>g_keys := (g_keys ecc_state)[2 := derived_key 0 wp11_backend_soft_ops [7]]\<rparr>"

lemma ecc_derived_simps:
  "g_lock_ready ecc_derived" "g_initialized ecc_derived" "session_get ecc_derived 1 = Some 0" "key_get ecc_derived 2 = Some 1"
  "soft_key_at p ecc_derived = soft_key_at p ecc_state" "g_sessions ecc_derived = g_sessions ecc_state"
  "g_keys ecc_derived ! Suc 0 = g_keys ecc_state ! Suc 0"
  using ecc_state_simps ecc_key1(1) by (simp_all add: ecc_derived_def key_get_Some)

lemma ecc_derived_free: "free_key ecc_derived = Some 3"
  by (simp add: ecc_derived_def ecc_state_def free_key_def upt_rec MAX_KEYS_def derived_key_def zero_key_def)

lemma ecc_derive:
  "C_DeriveKey toy_crypto (peer_params [4]) 1 (Some ecdh_mech) 1 True ecc_state = Some (ecc_derived, CKR_OK, Some (2 + 1))"
  "\<exists>st'. C_DeriveKey toy_crypto (peer_params [3]) 1 (Some ecdh_mech) 2 True ecc_derived = Some (st', CKR_OK, Some (3 + 1))"
proof -
  have e: "ecc_derived = ecc_state\<lparr>g_keys := (g_keys ecc_state)[2 := derived_key (s_slot_id (g_sessions ecc_state ! 0)) wp11_backend_soft_ops [7]]\<rparr>"
    by (simp add: ecc_derived_def ecc_session zero_session_def)
  show "C_DeriveKey toy_crypto (peer_params [4]) 1 (Some ecdh_mech) 1 True ecc_state = Some (ecc_derived, CKR_OK, Some (2 + 1))"
    unfolding e by (rule derive_run [OF ecc_state_simps(1,2,4,6) _ _ ecc_key0(2), where peer = "[4]" and pe = "[4]"],
      simp_all add: ecc_key0 ecc_state_simps)
  show "\<exists>st'. C_DeriveKey toy_crypto (peer_params [3]) 1 (Some ecdh_mech) 2 True ecc_derived = Some (st', CKR_OK, Some (3 + 1))"
    by (rule exI, rule derive_run [OF ecc_derived_simps(1-4) _ _ trans [OF ecc_derived_simps(5) ecc_key1(2)], where peer = "[3]" and pe = "[3]" and shared = "[7]"])
      (simp_all add: ecc_derived_simps ecc_key1 ecc_derived_free)
qed

theorem derive_agreement_witness:
  "\<exists>st2 shared. C_DeriveKey toy_crypto (peer_params [3]) 1 (Some ecdh_mech) 2 True ecc_derived = Some (st2, CKR_OK, Some 4)
     \<and> (\<forall>cap \<ge> length shared. C_GetAttributeValue toy_crypto 1 3 (Some [(CKA_VALUE, Some cap)]) st2 = Some (CKR_OK, [(Some (length shared), shared)])
          \<and> C_GetAttributeValue toy_crypto 1 4 (Some [(CKA_VALUE, Some cap)]) st2 = Some (CKR_OK, [(Some (length shared), shared)]))"
proof -
  obtain st2 where d2: "C_DeriveKey toy_crypto (peer_params [3]) 1 (Some ecdh_mech) 2 True ecc_derived = Some (st2, CKR_OK, Some (3 + 1))"
    using ecc_derive(2) ..
  show ?thesis
    using derive_agreement [OF toy_dh ecc_state_simps(3,6) _ _ ecc_key0(2) ecc_state_simps(7) _ _ ecc_key1(2) ecc_derive(1) _ d2] d2
    by (auto simp: ecc_key0(1) ecc_key1(1))
qed

end
