(* ===== verification/SignVerify.thy ===== *)
theory SignVerify imports Backend begin

text \<open>
  Signatures of \<open>src/wp11_pkcs11.c\<close>: \<open>C_Sign\<close>, \<open>C_VerifyInit\<close> and \<open>C_Verify\<close> (\<open>C_SignInit\<close> is in \<open>Objects\<close>), over
  the backends, and HMAC over wolfCrypt.  \<open>None\<close> is a call with undefined behaviour.
\<close>

section \<open>Signing\<close>

definition sign_done :: "wp11_session \<Rightarrow> wp11_session" where
  "sign_done s = s\<lparr>sign_active := False\<rparr>"

definition secret_bytes :: "wp11_key_obj \<Rightarrow> byte list" where
  "secret_bytes obj = (case secret obj of None \<Rightarrow> [] | Some v \<Rightarrow> v)"

text \<open>\<open>wc_HmacSetKey\<close>, \<open>wc_HmacUpdate\<close> and \<open>wc_HmacFinal\<close> with their 32-bit lengths.\<close>

definition hmac_of :: "'d crypto_env \<Rightarrow> nat \<Rightarrow> wp11_key_obj \<Rightarrow> byte list \<Rightarrow> byte list option" where
  "hmac_of env mech obj d = ce_hmac env mech (as_word32 (secret_bytes obj)) (as_word32 d)"

definition hmac_sign ::
  "'d crypto_env \<Rightarrow> nat \<Rightarrow> wp11_session \<Rightarrow> wp11_key_obj \<Rightarrow> byte list \<Rightarrow> bool \<Rightarrow> nat \<Rightarrow> 'd wp11_state \<Rightarrow> 'd op_result" where
  "hmac_sign env i s obj d sig_ok cap st =
     (let out_size = mech_hmac_output_size (sign_mech s) in
      if out_size = 0 then (upd_session i sign_done st, CKR_MECHANISM_INVALID, Some cap, [])
      else if \<not> sig_ok then (st, CKR_OK, Some out_size, [])
      else if cap < out_size then (st, CKR_BUFFER_TOO_SMALL, Some out_size, [])
      else case hmac_of env (sign_mech s) obj d of
        None \<Rightarrow> (upd_session i sign_done st, CKR_FUNCTION_FAILED, Some cap, [])
      | Some mac \<Rightarrow> (upd_session i sign_done st, CKR_OK, Some out_size, mac))"

text \<open>RSA-PSS goes to the soft key directly, whatever backend the key object belongs to.\<close>

definition pss_sign_op ::
  "'d crypto_env \<Rightarrow> nat \<Rightarrow> wp11_session \<Rightarrow> wp11_key_obj \<Rightarrow> byte list \<Rightarrow> nat \<Rightarrow> 'd wp11_state \<Rightarrow> 'd op_result option" where
  "pss_sign_op env i s obj d cap st =
     (case key_priv obj of
        None \<Rightarrow> Some (upd_session i sign_done st, CKR_KEY_TYPE_INCONSISTENT, Some cap, [])
      | Some p \<Rightarrow>
          if k_key_type obj \<noteq> CKK_RSA then Some (upd_session i sign_done st, CKR_KEY_TYPE_INCONSISTENT, Some cap, [])
          else if \<not> FITS_U32 (length d) \<or> \<not> FITS_U32 cap then Some (upd_session i sign_done st, CKR_DATA_LEN_RANGE, Some cap, [])
          else case soft_key_at p st of
            None \<Rightarrow> None
          | Some k \<Rightarrow>
              (case wp11_soft_key_rsa_pss_sign env k d cap (pss_sign s) of
                 None \<Rightarrow> Some (upd_session i sign_done st, CKR_FUNCTION_FAILED, Some cap, [])
               | Some sig \<Rightarrow> Some (upd_session i sign_done st, CKR_OK, Some (length sig), sig)))"

definition backend_sign_op ::
  "'d crypto_env \<Rightarrow> nat \<Rightarrow> wp11_session \<Rightarrow> wp11_key_obj \<Rightarrow> byte list \<Rightarrow> bool \<Rightarrow> nat \<Rightarrow> 'd wp11_state \<Rightarrow> 'd op_result option" where
  "backend_sign_op env i s obj d sig_ok cap st =
     (if \<not> sig_ok then Some (st, CKR_OK, Some (if sig_len_max obj \<noteq> 0 then sig_len_max obj else 512), [])
      else if sig_len_max obj \<noteq> 0 \<and> cap < sig_len_max obj then Some (st, CKR_BUFFER_TOO_SMALL, Some (sig_len_max obj), [])
      else if sign_mech s = CKM_RSA_PKCS_PSS then pss_sign_op env i s obj d cap st
      else case ops obj of
        None \<Rightarrow> Some (st, CKR_FUNCTION_FAILED, Some cap, [])
      | Some t \<Rightarrow>
          (case backend_sign env t (key_priv obj) (sign_mech s mod 4294967296) d cap st of
             None \<Rightarrow> None
           | Some (st1, Inl e) \<Rightarrow> Some (upd_session i sign_done st1, backend_err_to_rv e, Some cap, [])
           | Some (st1, Inr sig) \<Rightarrow> Some (upd_session i sign_done st1, CKR_OK, Some (length sig), sig)))"

definition C_Sign ::
  "'d crypto_env \<Rightarrow> nat \<Rightarrow> byte list option \<Rightarrow> bool \<Rightarrow> nat option \<Rightarrow> 'd wp11_state \<Rightarrow> 'd op_result option" where
  "C_Sign env hSession pData sig_ok pulLen st =
     (if \<not> g_lock_ready st \<or> \<not> g_initialized st then Some (st, CKR_CRYPTOKI_NOT_INITIALIZED, pulLen, [])
      else case (pData, pulLen) of
        (Some d, Some cap) \<Rightarrow>
          (case session_get st hSession of
             None \<Rightarrow> Some (st, CKR_SESSION_HANDLE_INVALID, pulLen, [])
           | Some i \<Rightarrow>
               let s = g_sessions st ! i in
               if \<not> sign_active s then Some (st, CKR_OPERATION_NOT_INITIALIZED, pulLen, [])
               else case key_get st (sign_key s) of
                 None \<Rightarrow> Some (upd_session i sign_done st, CKR_KEY_HANDLE_INVALID, pulLen, [])
               | Some j \<Rightarrow>
                   if mech_is_hmac (sign_mech s) then Some (hmac_sign env i s (g_keys st ! j) d sig_ok cap st)
                   else backend_sign_op env i s (g_keys st ! j) d sig_ok cap st)
      | _ \<Rightarrow> Some (st, CKR_ARGUMENTS_BAD, pulLen, []))"

section \<open>Verifying\<close>

text \<open>The mechanism checks are those of \<open>C_SignInit\<close>.\<close>

definition C_VerifyInit :: "nat \<Rightarrow> CK_MECHANISM option \<Rightarrow> nat \<Rightarrow> 'd wp11_state \<Rightarrow> 'd wp11_state \<times> CK_RV" where
  "C_VerifyInit hSession pMechanism hKey st =
     (if \<not> g_lock_ready st \<or> \<not> g_initialized st then (st, CKR_CRYPTOKI_NOT_INITIALIZED)
      else case pMechanism of
        None \<Rightarrow> (st, CKR_ARGUMENTS_BAD)
      | Some m \<Rightarrow>
          (case session_get st hSession of
             None \<Rightarrow> (st, CKR_SESSION_HANDLE_INVALID)
           | Some i \<Rightarrow>
               let s = g_sessions st ! i; fail = (\<lambda>rv. (upd_session i (\<lambda>s. s\<lparr>verify_active := False\<rparr>) st, rv)) in
               if verify_active s then (st, CKR_OPERATION_ACTIVE)
               else case key_get st hKey of
                 None \<Rightarrow> fail CKR_KEY_HANDLE_INVALID
               | Some j \<Rightarrow>
                   let obj = g_keys st ! j in
                   if obj_class obj = CKO_CERTIFICATE then fail CKR_KEY_HANDLE_INVALID
                   else if s_logged_in s = 0 \<and> is_private obj then fail CKR_USER_NOT_LOGGED_IN
                   else (case sign_mech_check m obj of
                      Inl e \<Rightarrow> fail e
                    | Inr pss \<Rightarrow>
                        (upd_session i (\<lambda>s. s\<lparr>verify_active := True, verify_mech := mechanism m, verify_key := hKey,
                           pss_verify := (if pss = None then pss_verify s else pss)\<rparr>) st, CKR_OK))))"

definition verify_done :: "wp11_session \<Rightarrow> wp11_session" where
  "verify_done s = s\<lparr>verify_active := False\<rparr>"

text \<open>The timing-safe comparison: the differences of all bytes are accumulated.\<close>

definition mac_neq :: "byte list \<Rightarrow> byte list \<Rightarrow> nat \<Rightarrow> byte" where
  "mac_neq computed sig n = fold (\<lambda>k neq. or neq (xor (computed ! k) (sig ! k))) [0..<n] 0"

definition hmac_verify ::
  "'d crypto_env \<Rightarrow> nat \<Rightarrow> wp11_session \<Rightarrow> wp11_key_obj \<Rightarrow> byte list \<Rightarrow> byte list \<Rightarrow> 'd wp11_state \<Rightarrow> 'd wp11_state \<times> CK_RV" where
  "hmac_verify env i s obj d sig st =
     (let out_size = mech_hmac_output_size (verify_mech s) in
      if length sig \<noteq> out_size then (upd_session i verify_done st, CKR_SIGNATURE_LEN_RANGE)
      else case hmac_of env (verify_mech s) obj d of
        None \<Rightarrow> (upd_session i verify_done st, CKR_FUNCTION_FAILED)
      | Some computed \<Rightarrow>
          (upd_session i verify_done st, if mac_neq computed sig out_size \<noteq> 0 then CKR_SIGNATURE_INVALID else CKR_OK))"

definition pss_verify_op ::
  "'d crypto_env \<Rightarrow> nat \<Rightarrow> wp11_session \<Rightarrow> wp11_key_obj \<Rightarrow> byte list \<Rightarrow> byte list \<Rightarrow> 'd wp11_state \<Rightarrow> ('d wp11_state \<times> CK_RV) option" where
  "pss_verify_op env i s obj d sig st =
     (case key_priv obj of
        None \<Rightarrow> Some (upd_session i verify_done st, CKR_KEY_TYPE_INCONSISTENT)
      | Some p \<Rightarrow>
          if k_key_type obj \<noteq> CKK_RSA then Some (upd_session i verify_done st, CKR_KEY_TYPE_INCONSISTENT)
          else if \<not> FITS_U32 (length sig) \<or> \<not> FITS_U32 (length d) then Some (upd_session i verify_done st, CKR_DATA_LEN_RANGE)
          else case soft_key_at p st of
            None \<Rightarrow> None
          | Some k \<Rightarrow>
              Some (upd_session i verify_done st,
                if wp11_soft_key_rsa_pss_verify env k sig d (pss_verify s) then CKR_OK else CKR_SIGNATURE_INVALID))"

definition verify_err_to_rv :: "backend_err \<Rightarrow> CK_RV" where
  "verify_err_to_rv e =
     (if e = BACKEND_ERR_GENERAL \<or> e = BACKEND_ERR_SIG_INVALID then CKR_SIGNATURE_INVALID else backend_err_to_rv e)"

definition backend_verify_op ::
  "'d crypto_env \<Rightarrow> nat \<Rightarrow> wp11_session \<Rightarrow> wp11_key_obj \<Rightarrow> byte list \<Rightarrow> byte list \<Rightarrow> 'd wp11_state \<Rightarrow> ('d wp11_state \<times> CK_RV) option" where
  "backend_verify_op env i s obj d sig st =
     (if verify_mech s = CKM_RSA_PKCS \<and> sig_len_max obj > 0 \<and> length sig \<noteq> sig_len_max obj
      then Some (upd_session i verify_done st, CKR_SIGNATURE_LEN_RANGE)
      else if verify_mech s = CKM_RSA_PKCS_PSS then pss_verify_op env i s obj d sig st
      else case ops obj of
        None \<Rightarrow> Some (st, CKR_FUNCTION_FAILED)
      | Some t \<Rightarrow>
          (case backend_verify env t (key_priv obj) (verify_mech s mod 4294967296) d sig st of
             None \<Rightarrow> None
           | Some r \<Rightarrow> Some (upd_session i verify_done st, case r of Inl e \<Rightarrow> verify_err_to_rv e | Inr u \<Rightarrow> CKR_OK)))"

definition C_Verify ::
  "'d crypto_env \<Rightarrow> nat \<Rightarrow> byte list option \<Rightarrow> byte list option \<Rightarrow> 'd wp11_state \<Rightarrow> ('d wp11_state \<times> CK_RV) option" where
  "C_Verify env hSession pData pSignature st =
     (if \<not> g_lock_ready st \<or> \<not> g_initialized st then Some (st, CKR_CRYPTOKI_NOT_INITIALIZED)
      else case (pData, pSignature) of
        (Some d, Some sig) \<Rightarrow>
          (case session_get st hSession of
             None \<Rightarrow> Some (st, CKR_SESSION_HANDLE_INVALID)
           | Some i \<Rightarrow>
               let s = g_sessions st ! i in
               if \<not> verify_active s then Some (st, CKR_OPERATION_NOT_INITIALIZED)
               else if sig = [] then Some (upd_session i verify_done st, CKR_SIGNATURE_LEN_RANGE)
               else case key_get st (verify_key s) of
                 None \<Rightarrow> Some (upd_session i verify_done st, CKR_KEY_HANDLE_INVALID)
               | Some j \<Rightarrow>
                   if mech_is_hmac (verify_mech s) then Some (hmac_verify env i s (g_keys st ! j) d sig st)
                   else backend_verify_op env i s (g_keys st ! j) d sig st)
      | _ \<Rightarrow> Some (st, CKR_ARGUMENTS_BAD))"

section \<open>The comparison\<close>

lemma xor_byte_zero: "xor u v = 0 \<longleftrightarrow> u = v" for u v :: byte
proof
  assume "xor u v = 0"
  then have "xor u (xor u v) = u" by simp
  then show "u = v" by (simp add: xor.assoc [symmetric])
qed simp

lemma mac_neq_acc: "fold (\<lambda>k neq. or neq (xor (a ! k) (b ! k))) ks (x :: byte) = 0 \<longleftrightarrow> x = 0 \<and> (\<forall>k \<in> set ks. a ! k = b ! k)"
proof (induction ks arbitrary: x)
  case (Cons k ks)
  have "or x (xor (a ! k) (b ! k)) = 0 \<longleftrightarrow> x = 0 \<and> a ! k = b ! k"
    by (simp add: or_eq_0_iff xor_byte_zero)
  with Cons.IH show ?case by (simp only: fold_simps list.set ball_simps conj_assoc)
qed simp

lemma mac_neq_zero:
  assumes "length a = n" "length b = n"
  shows "mac_neq a b n = 0 \<longleftrightarrow> a = b"
proof -
  have "mac_neq a b n = 0 \<longleftrightarrow> (\<forall>k < n. a ! k = b ! k)" unfolding mac_neq_def mac_neq_acc by (simp add: Ball_def)
  also have "\<dots> \<longleftrightarrow> a = b" using assms by (metis nth_equalityI)
  finally show ?thesis .
qed

section \<open>Inversion and frames\<close>

lemma sign_mech_check_error [simp]: "sign_mech_check m obj \<noteq> Inl CKR_OK"
  by (auto simp: sign_mech_check_def parse_pss_def validate_mechanism_params_def split: option.split)

text \<open>What a successful initialisation has checked and stored.\<close>

lemma sign_init_ok:
  assumes "C_SignInit h (Some m) hk st = (st1, CKR_OK)"
  obtains i j pss where "g_lock_ready st" "g_initialized st" "session_get st h = Some i" "key_get st hk = Some j"
    "sign_mech_check m (g_keys st ! j) = Inr pss"
    "st1 = upd_session i (\<lambda>s. s\<lparr>sign_active := True, sign_mech := mechanism m, sign_key := hk,
             pss_sign := (if pss = None then pss_sign s else pss)\<rparr>) st"
  using assms
  by (auto simp: C_SignInit_def Let_def upd_session_def split: if_splits option.splits sum.splits intro: that)

lemma verify_init_ok:
  assumes "C_VerifyInit h (Some m) hk st = (st1, CKR_OK)"
  obtains i j pss where "g_lock_ready st" "g_initialized st" "session_get st h = Some i" "key_get st hk = Some j"
    "sign_mech_check m (g_keys st ! j) = Inr pss"
    "st1 = upd_session i (\<lambda>s. s\<lparr>verify_active := True, verify_mech := mechanism m, verify_key := hk,
             pss_verify := (if pss = None then pss_verify s else pss)\<rparr>) st"
  using assms
  by (auto simp: C_VerifyInit_def Let_def upd_session_def split: if_splits option.splits sum.splits intro: that)

lemma done_simps [simp]:
  "s_in_use (sign_done s) = s_in_use s" "s_in_use (verify_done s) = s_in_use s" "sign_active (sign_done s) = False"
  "verify_active (verify_done s) = False" "verify_active (sign_done s) = verify_active s" "sign_active (verify_done s) = sign_active s"
  by (simp_all add: sign_done_def verify_done_def)

text \<open>A session in the middle of a signature or verification, and the one call that ends it.\<close>

lemma C_Sign_active:
  assumes "g_lock_ready st" "g_initialized st" "session_get st h = Some i" "sign_active (g_sessions st ! i)"
    "key_get st (sign_key (g_sessions st ! i)) = Some j"
  shows "C_Sign env h (Some d) sig_ok (Some cap) st =
    (if mech_is_hmac (sign_mech (g_sessions st ! i)) then Some (hmac_sign env i (g_sessions st ! i) (g_keys st ! j) d sig_ok cap st)
     else backend_sign_op env i (g_sessions st ! i) (g_keys st ! j) d sig_ok cap st)"
  using assms by (simp add: C_Sign_def Let_def)

lemma C_Verify_active:
  assumes "g_lock_ready st" "g_initialized st" "session_get st h = Some i" "verify_active (g_sessions st ! i)" "sig \<noteq> []"
    "key_get st (verify_key (g_sessions st ! i)) = Some j"
  shows "C_Verify env h (Some d) (Some sig) st =
    (if mech_is_hmac (verify_mech (g_sessions st ! i)) then Some (hmac_verify env i (g_sessions st ! i) (g_keys st ! j) d sig st)
     else backend_verify_op env i (g_sessions st ! i) (g_keys st ! j) d sig st)"
  using assms by (simp add: C_Verify_def Let_def)

lemma hmac_size_pos: "mech_is_hmac m \<Longrightarrow> mech_hmac_output_size m > 0"
  by (auto simp: mech_is_hmac_def mech_hmac_output_size_def mech_defs)

lemma soft_key_upd_session [simp]: "soft_key_at p (upd_session i f st) = soft_key_at p st"
  by (simp add: soft_key_at_def upd_session_def split: key_priv.split)

section \<open>HMAC\<close>

text \<open>What is known of wolfCrypt's HMAC: the result has the length of the hash, and is a function of key and data.\<close>

definition hmac_law :: "'d crypto_env \<Rightarrow> 'd crypto_env \<Rightarrow> bool" where
  "hmac_law env env' \<longleftrightarrow> ce_hmac env' = ce_hmac env \<and>
     (\<forall>m k d mac. ce_hmac env m k d = Some mac \<longrightarrow> length mac = mech_hmac_output_size m)"

lemma hmac_verify_result:
  assumes "hmac_law env env'" "hmac_of env (verify_mech s) obj d = Some mac"
  shows "hmac_verify env' i s obj d sig st =
    (upd_session i verify_done st, if sig = mac then CKR_OK else if length sig \<noteq> length mac then CKR_SIGNATURE_LEN_RANGE else CKR_SIGNATURE_INVALID)"
proof -
  have n: "length mac = mech_hmac_output_size (verify_mech s)" and e: "hmac_of env' (verify_mech s) obj d = Some mac"
    using assms unfolding hmac_law_def hmac_of_def by auto
  show ?thesis using mac_neq_zero [OF n, of sig] by (auto simp: hmac_verify_def Let_def e n)
qed

text \<open>C15. HMAC signatures verify exactly: when \<open>C_Sign\<close> has produced a MAC, \<open>C_Verify\<close> in the same session and with the same
  key and mechanism answers \<open>CKR_OK\<close> for that MAC and for nothing else, \<open>CKR_SIGNATURE_LEN_RANGE\<close> for another length
  and \<open>CKR_SIGNATURE_INVALID\<close> for any other bytes of the right length.\<close>
theorem hmac_sign_verify:
  assumes "hmac_law env env'" "tables_ok st" "mech_is_hmac (mechanism m)"
    and "C_SignInit h (Some m) hk st = (st1, CKR_OK)" "C_Sign env h (Some d) True (Some cap) st1 = Some (st2, CKR_OK, n, mac)"
    and "C_VerifyInit h (Some m) hk st2 = (st3, CKR_OK)"
  shows "\<exists>st4. C_Verify env' h (Some d) (Some sig) st3 = Some (st4,
    if sig = mac then CKR_OK else if length sig \<noteq> length mac then CKR_SIGNATURE_LEN_RANGE else CKR_SIGNATURE_INVALID)"
proof -
  obtain i j pss where a: "g_lock_ready st" "g_initialized st" "session_get st h = Some i" "key_get st hk = Some j"
    "st1 = upd_session i (\<lambda>s. s\<lparr>sign_active := True, sign_mech := mechanism m, sign_key := hk,
             pss_sign := (if pss = None then pss_sign s else pss)\<rparr>) st"
    using assms(4) by (rule sign_init_ok)
  note b = session_get_bound [OF a(3) assms(2)]
  have "hmac_sign env i (g_sessions st1 ! i) (g_keys st ! j) d True cap st1 = (st2, CKR_OK, n, mac)"
    using assms(5,3) a b by (simp add: C_Sign_active)
  then have mac: "hmac_of env (mechanism m) (g_keys st ! j) d = Some mac" and st2: "st2 = upd_session i sign_done st1"
    using a b by (auto simp: hmac_sign_def Let_def split: if_splits option.splits)
  obtain i' j' pss' where v: "session_get st2 h = Some i'" "key_get st2 hk = Some j'"
    "st3 = upd_session i' (\<lambda>s. s\<lparr>verify_active := True, verify_mech := mechanism m, verify_key := hk,
             pss_verify := (if pss' = None then pss_verify s else pss')\<rparr>) st2"
    using assms(6) by (rule verify_init_ok)
  have [simp]: "i' = i" "j' = j" using v(1,2) a by (simp_all add: st2)
  have n: "length mac = mech_hmac_output_size (mechanism m)" using mac assms(1) by (simp add: hmac_law_def hmac_of_def)
  show ?thesis
  proof (cases "sig = []")
    case True
    moreover have "mac \<noteq> []" using n hmac_size_pos [OF assms(3)] by auto
    ultimately show ?thesis using v a b by (simp add: C_Verify_def Let_def st2)
  next
    case False
    then show ?thesis
      using v a b assms(3) mac by (simp add: C_Verify_active hmac_verify_result [OF assms(1), where mac = mac] st2)
  qed
qed

section \<open>Soft keys\<close>

text \<open>What wolfCrypt promises of the signatures it makes, over the two environments of the signing and the verifying call.\<close>

definition pk_law :: "'d crypto_env \<Rightarrow> 'd crypto_env \<Rightarrow> bool" where
  "pk_law env env' \<longleftrightarrow>
     (\<forall>img d cap sig. ce_ecc_sign env img d cap = Some sig \<longrightarrow> ce_ecc_verify env' img sig d = Some True)
     \<and> (\<forall>img d cap sig. ce_ed_sign env img d cap = Some sig \<longrightarrow> ce_ed_verify env' img sig d = Some True)
     \<and> (\<forall>img d cap sig. ce_rsa_sign env img d cap = Some sig \<longrightarrow> ce_rsa_verify env' img sig RSA4096_BYTES = Some d)
     \<and> ce_sha256 env' = ce_sha256 env \<and> ce_init_ok env'"

lemma pk_lawD:
  assumes "pk_law env env'"
  shows "ce_ecc_sign env img d cap = Some sig \<Longrightarrow> ce_ecc_verify env' img sig d = Some True"
    "ce_ed_sign env img d cap = Some sig \<Longrightarrow> ce_ed_verify env' img sig d = Some True"
    "ce_rsa_sign env img d cap = Some sig \<Longrightarrow> ce_rsa_verify env' img sig RSA4096_BYTES = Some d"
    "ce_sha256 env' = ce_sha256 env" "ce_init_ok env'"
  using assms unfolding pk_law_def by blast+

lemma or_general_Inr [simp]: "or_general r = Inr x \<longleftrightarrow> r = Some x"
  by (simp add: or_general_def split: option.split)

lemma soft_sign_verify_key:
  assumes "pk_law env env'" "soft_sign_key env mech d cap k = Inr sig" "FITS_U32 (length sig)"
  shows "soft_verify_key env' mech d sig k = Inr ()"
proof -
  note law = pk_lawD [OF assms(1)]
  have w: "as_word32 sig = sig" using assms(3) by (simp add: FITS_U32_def)
  consider "mech = CKM_ECDSA" | "mech = CKM_ECDSA_SHA256" | "mech = CKM_RSA_PKCS" | "mech = CKM_EDDSA"
    using assms(2) by (auto simp: soft_sign_key_def Let_def split: if_splits)
  then show ?thesis
  proof cases
    case 1
    then show ?thesis using assms(2,3) law(1)
      by (auto simp: soft_sign_key_def soft_verify_key_def Let_def verified_def split: if_splits)
  next
    case 2
    then have "mech \<noteq> CKM_ECDSA" by (simp add: mech_defs)
    with 2 show ?thesis using assms(2,3) law(1,4,5)
      by (auto simp: soft_sign_key_def soft_verify_key_def Let_def verified_def split: if_splits option.splits)
  next
    case 3
    then have "mech \<noteq> CKM_ECDSA" "mech \<noteq> CKM_ECDSA_SHA256" by (simp_all add: mech_defs)
    with 3 show ?thesis using assms(2) law(3)
      by (auto simp: soft_sign_key_def soft_verify_key_def Let_def verified_def w split: if_splits)
  next
    case 4
    then have "mech \<noteq> CKM_ECDSA" "mech \<noteq> CKM_ECDSA_SHA256" "mech \<noteq> CKM_RSA_PKCS" by (simp_all add: mech_defs)
    with 4 show ?thesis using assms(2,3) law(2)
      by (auto simp: soft_sign_key_def soft_verify_key_def Let_def verified_def split: if_splits)
  qed
qed

lemma soft_sign_op_inv:
  assumes "backend_sign_op env i s obj d True cap st = Some (st', CKR_OK, n, sig)" "ops obj = Some wp11_backend_soft_ops"
    "sign_mech s \<noteq> CKM_RSA_PKCS_PSS"
  obtains p k where "key_priv obj = Some p" "soft_key_at p st = Some k"
    "soft_sign_key env (sign_mech s mod 4294967296) d cap k = Inr sig" "st' = upd_session i sign_done st" "n = Some (length sig)"
proof -
  have "rv \<noteq> CKR_OK" if "rv = backend_err_to_rv e" for rv e using that by (cases e) simp_all
  then show thesis using assms
    by (auto simp: backend_sign_op_def soft_sign_def with_soft_key_def split: if_splits option.splits sum.splits intro: that)
qed

lemma soft_verifies:
  assumes "pk_law env env'" "tables_ok st" "mechanism m \<in> {CKM_ECDSA, CKM_ECDSA_SHA256, CKM_RSA_PKCS, CKM_EDDSA}"
    and "C_SignInit h (Some m) hk st = (st1, CKR_OK)" "C_Sign env h (Some d) True (Some cap) st1 = Some (st2, CKR_OK, n, sig)"
    and "C_VerifyInit h (Some m) hv st2 = (st3, CKR_OK)"
    and "key_get st hk = Some j" "ops (g_keys st ! j) = Some wp11_backend_soft_ops"
    and "key_get st hv = Some v" "ops (g_keys st ! v) = Some wp11_backend_soft_ops" "key_priv (g_keys st ! v) = key_priv (g_keys st ! j)"
    and "sig \<noteq> []" "length sig \<le> 4294967295"
  shows "\<exists>st4. C_Verify env' h (Some d) (Some sig) st3 = Some (st4,
     if mechanism m = CKM_RSA_PKCS \<and> sig_len_max (g_keys st ! v) \<notin> {0, length sig} then CKR_SIGNATURE_LEN_RANGE else CKR_OK)"
proof -
  obtain i pss where a: "g_lock_ready st" "g_initialized st" "session_get st h = Some i"
    "st1 = upd_session i (\<lambda>s. s\<lparr>sign_active := True, sign_mech := mechanism m, sign_key := hk,
             pss_sign := (if pss = None then pss_sign s else pss)\<rparr>) st"
    using assms(4) by (rule sign_init_ok)
  note b = session_get_bound [OF a(3) assms(2)]
  have m: "\<not> mech_is_hmac (mechanism m)" "mechanism m \<noteq> CKM_RSA_PKCS_PSS" "mechanism m mod 4294967296 = mechanism m"
    using assms(3) by (auto simp: mech_is_hmac_def mech_defs)
  have "backend_sign_op env i (g_sessions st1 ! i) (g_keys st ! j) d True cap st1 = Some (st2, CKR_OK, n, sig)"
    using assms(5,7) a b m by (simp add: C_Sign_active)
  then obtain p k where p: "key_priv (g_keys st ! j) = Some p" "soft_key_at p st1 = Some k"
    "soft_sign_key env (mechanism m) d cap k = Inr sig" "st2 = upd_session i sign_done st1"
    using assms(8) m a b by (auto elim!: soft_sign_op_inv)
  have ver: "soft_verify_key env' (mechanism m) d sig k = Inr ()"
    by (rule soft_sign_verify_key [OF assms(1) p(3)]) (use assms(13) in \<open>simp add: FITS_U32_def\<close>)
  obtain i' v' pss' where w: "session_get st2 h = Some i'" "key_get st2 hv = Some v'"
    "st3 = upd_session i' (\<lambda>s. s\<lparr>verify_active := True, verify_mech := mechanism m, verify_key := hv,
             pss_verify := (if pss' = None then pss_verify s else pss')\<rparr>) st2"
    using assms(6) by (rule verify_init_ok)
  have [simp]: "i' = i" "v' = v" using w(1,2) a assms(9) by (simp_all add: p(4))
  show ?thesis
    using w a b m p(1,2) ver assms(9-12)
    by (auto simp: C_Verify_active backend_verify_op_def soft_verify_def with_soft_key_def p(4))
qed

text \<open>C12. A signature that \<open>C_Sign\<close> makes with a soft key is accepted by \<open>C_Verify\<close> through any object that shares the
  key, in particular the public object of the pair: for ECDSA with or without hashing, RSA PKCS#1 and Ed25519 (not RSA-PSS), whatever the data;
  with the one exception the code makes: for RSA PKCS#1 an object whose \<open>sig_len_max\<close> is neither 0 nor the length of the signature answers
  \<open>CKR_SIGNATURE_LEN_RANGE\<close>.\<close>
theorem soft_sign_verify:
  assumes "pk_law env env'" "tables_ok st" "mechanism m \<in> {CKM_ECDSA, CKM_ECDSA_SHA256, CKM_RSA_PKCS, CKM_EDDSA}"
    and "C_SignInit h (Some m) hk st = (st1, CKR_OK)" "C_Sign env h (Some d) True (Some cap) st1 = Some (st2, CKR_OK, n, sig)"
    and "C_VerifyInit h (Some m) hv st2 = (st3, CKR_OK)"
    and "key_get st hk = Some j" "ops (g_keys st ! j) = Some wp11_backend_soft_ops"
    and "key_get st hv = Some v" "ops (g_keys st ! v) = Some wp11_backend_soft_ops" "key_priv (g_keys st ! v) = key_priv (g_keys st ! j)"
    and "sig \<noteq> []" "length sig \<le> 4294967295"
  shows "\<exists>st4. C_Verify env' h (Some d) (Some sig) st3 = Some (st4,
     if mechanism m = CKM_RSA_PKCS \<and> sig_len_max (g_keys st ! v) \<notin> {0, length sig} then CKR_SIGNATURE_LEN_RANGE else CKR_OK)"
  using assms by (rule soft_verifies)

section \<open>A session that can never sign again\<close>

text \<open>A signature operation over a key without a backend (an imported private or public key, or a secret key with an
  asymmetric mechanism) cannot be ended: \<open>C_SignInit\<close> accepts it, every \<open>C_Sign\<close> with a large enough buffer then fails with
  \<open>CKR_FUNCTION_FAILED\<close> and changes nothing, and every \<open>C_SignInit\<close> answers \<open>CKR_OPERATION_ACTIVE\<close>.\<close>
theorem sign_operation_stuck:
  assumes "tables_ok st" "C_SignInit h (Some m) hk st = (st1, CKR_OK)" "mechanism m \<in> {CKM_ECDSA, CKM_ECDSA_SHA256, CKM_RSA_PKCS, CKM_EDDSA}"
    and "key_get st hk = Some j" "ops (g_keys st ! j) = None" "sig_len_max (g_keys st ! j) \<le> cap"
  shows "C_Sign env h (Some d) True (Some cap) st1 = Some (st1, CKR_FUNCTION_FAILED, Some cap, [])
    \<and> C_SignInit h (Some m') hk' st1 = (st1, CKR_OPERATION_ACTIVE)"
proof -
  obtain i pss where a: "g_lock_ready st" "g_initialized st" "session_get st h = Some i"
    "st1 = upd_session i (\<lambda>s. s\<lparr>sign_active := True, sign_mech := mechanism m, sign_key := hk,
             pss_sign := (if pss = None then pss_sign s else pss)\<rparr>) st"
    using assms(2) by (rule sign_init_ok)
  note b = session_get_bound [OF a(3) assms(1)]
  have "\<not> mech_is_hmac (mechanism m)" "mechanism m \<noteq> CKM_RSA_PKCS_PSS"
    using assms(3) by (auto simp: mech_is_hmac_def mech_defs)
  then show ?thesis using a b assms(4-6) by (simp add: C_Sign_active backend_sign_op_def C_SignInit_def Let_def)
qed

text \<open>C40. RSA-PSS with a key of a keystore or USB token is undefined behaviour: \<open>C_SignInit\<close> accepts the key and \<open>C_Sign\<close>
  reads its private part, which is not a soft key, as one.\<close>
theorem pss_sign_type_confusion:
  assumes "tables_ok st" "C_SignInit h (Some m) hk st = (st1, CKR_OK)" "mechanism m = CKM_RSA_PKCS_PSS"
    and "key_get st hk = Some j" "key_priv (g_keys st ! j) = Some p" "\<forall>a. p \<noteq> SoftKey a"
    and "sig_len_max (g_keys st ! j) \<le> cap" "cap \<le> 4294967295" "length d \<le> 4294967295"
  shows "C_Sign env h (Some d) True (Some cap) st1 = None"
proof -
  obtain i j' pss where a: "g_lock_ready st" "g_initialized st" "session_get st h = Some i" "key_get st hk = Some j'"
    "sign_mech_check m (g_keys st ! j') = Inr pss"
    "st1 = upd_session i (\<lambda>s. s\<lparr>sign_active := True, sign_mech := mechanism m, sign_key := hk,
             pss_sign := (if pss = None then pss_sign s else pss)\<rparr>) st"
    using assms(2) by (rule sign_init_ok)
  note b = session_get_bound [OF a(3) assms(1)]
  have j: "j' = j" using a(4) assms(4) by simp
  have "k_key_type (g_keys st ! j) = CKK_RSA" "\<not> mech_is_hmac (mechanism m)"
    using a(5) assms(3) unfolding j by (auto simp: sign_mech_check_def mech_is_hmac_def mech_defs split: if_splits)
  moreover have "soft_key_at p st1 = None" using assms(6) by (simp add: soft_key_at_def split: key_priv.split)
  ultimately show ?thesis using a b assms(3-9) by (simp add: C_Sign_active backend_sign_op_def pss_sign_op_def FITS_U32_def)
qed

section \<open>Concrete runs\<close>

text \<open>A session with a soft key at handles 1 (private) and 2 (public), a secret key at 3, an imported key at 4 and a PIV key at 5.\<close>

definition keys_state :: "byte list wp11_state" where
  "keys_state = session_state\<lparr>privs := (\<lambda>a. if a = 0 then Some (SoftObj \<lparr>sk_ref_count = 2, sk_key_type = WP11_SOFT_KEY_RSA, sk_image = [8]\<rparr>)
       else if a = 1 then Some UsbObj else None),
     g_keys := (replicate MAX_KEYS zero_key)
      [0 := zero_key\<lparr>k_in_use := True, obj_class := CKO_PRIVATE_KEY, k_key_type := CKK_RSA, ops := Some wp11_backend_soft_ops, key_priv := Some (SoftKey 0)\<rparr>,
       1 := zero_key\<lparr>k_in_use := True, obj_class := CKO_PUBLIC_KEY, k_key_type := CKK_RSA, ops := Some wp11_backend_soft_ops, key_priv := Some (SoftKey 0)\<rparr>,
       2 := zero_key\<lparr>k_in_use := True, obj_class := CKO_SECRET_KEY, k_key_type := CKK_GENERIC_SECRET, secret := Some [1, 2]\<rparr>,
       3 := zero_key\<lparr>k_in_use := True, obj_class := CKO_PRIVATE_KEY, k_key_type := CKK_RSA\<rparr>,
       4 := zero_key\<lparr>k_in_use := True, obj_class := CKO_PRIVATE_KEY, k_key_type := CKK_RSA, ops := Some wp11_backend_usb_ops,
              key_priv := Some (UsbKey 1 0 0x9A 0x07)\<rparr>]\<rparr>"

definition plain_mech :: "nat \<Rightarrow> CK_MECHANISM" where
  "plain_mech m = \<lparr>mechanism = m, pParameter = None, ulParameterLen = 0\<rparr>"

text \<open>Hash SHA-256, MGF1 with SHA-256, salt length 32.\<close>

definition pss_mech :: CK_MECHANISM where
  "pss_mech = \<lparr>mechanism = CKM_RSA_PKCS_PSS, pParameter = Some [0x50, 2, 0, 0, 0, 0, 0, 0, 2, 0, 0, 0, 0, 0, 0, 0, 32, 0, 0, 0, 0, 0, 0, 0], ulParameterLen = 24\<rparr>"

lemma keys_state_simps:
  "g_lock_ready keys_state" "g_initialized keys_state" "tables_ok keys_state" "session_get keys_state 1 = Some 0"
  "g_sessions keys_state ! 0 = zero_session\<lparr>s_in_use := True, s_flags := 6, s_state := CKS_RW_PUBLIC_SESSION\<rparr>"
  "key_get keys_state 1 = Some 0" "key_get keys_state 2 = Some 1" "key_get keys_state 3 = Some 2" "key_get keys_state 4 = Some 3" "key_get keys_state 5 = Some 4"
  by code_simp+

lemma keys_state_more:
  "session_get keys_state (Suc 0) = Some 0" "key_get keys_state (Suc 0) = Some 0" "length (g_sessions keys_state) = 8"
  "soft_key_at (SoftKey 0) keys_state = Some \<lparr>sk_ref_count = 2, sk_key_type = WP11_SOFT_KEY_RSA, sk_image = [8]\<rparr>"
  by code_simp+

lemma keys_state_keys:
  "g_keys keys_state ! 0 = zero_key\<lparr>k_in_use := True, obj_class := CKO_PRIVATE_KEY, k_key_type := CKK_RSA, ops := Some wp11_backend_soft_ops, key_priv := Some (SoftKey 0)\<rparr>"
  "g_keys keys_state ! (Suc 0) = zero_key\<lparr>k_in_use := True, obj_class := CKO_PUBLIC_KEY, k_key_type := CKK_RSA, ops := Some wp11_backend_soft_ops, key_priv := Some (SoftKey 0)\<rparr>"
  "g_keys keys_state ! 2 = zero_key\<lparr>k_in_use := True, obj_class := CKO_SECRET_KEY, k_key_type := CKK_GENERIC_SECRET, secret := Some [1, 2]\<rparr>"
  "g_keys keys_state ! 3 = zero_key\<lparr>k_in_use := True, obj_class := CKO_PRIVATE_KEY, k_key_type := CKK_RSA\<rparr>"
  "g_keys keys_state ! 4 = zero_key\<lparr>k_in_use := True, obj_class := CKO_PRIVATE_KEY, k_key_type := CKK_RSA, ops := Some wp11_backend_usb_ops,
              key_priv := Some (UsbKey 1 0 0x9A 0x07)\<rparr>"
  by (simp_all add: keys_state_def MAX_KEYS_def)

text \<open>The three calls before the verification, on the concrete state.\<close>

definition demo_init :: "nat \<Rightarrow> nat \<Rightarrow> byte list wp11_state" where
  "demo_init m hk = fst (C_SignInit 1 (Some (plain_mech m)) hk keys_state)"

definition demo_signed :: "nat \<Rightarrow> nat \<Rightarrow> byte list wp11_state" where
  "demo_signed m hk = fst (the (C_Sign toy_crypto 1 (Some [5]) True (Some 64) (demo_init m hk)))"

definition demo_verify :: "nat \<Rightarrow> nat \<Rightarrow> nat \<Rightarrow> byte list wp11_state" where
  "demo_verify m hk hv = fst (C_VerifyInit 1 (Some (plain_mech m)) hv (demo_signed m hk))"

lemmas demo_simps = keys_state_simps keys_state_more keys_state_keys demo_init_def demo_signed_def demo_verify_def plain_mech_def zero_session_def zero_key_def
  C_SignInit_def C_VerifyInit_def sign_mech_check_def validate_mechanism_params_def mech_is_hmac_def mech_hmac_output_size_def mech_defs
  CKK_RSA_def CKK_GENERIC_SECRET_def CKO_SECRET_KEY_def CKO_PRIVATE_KEY_def CKO_PUBLIC_KEY_def CKO_CERTIFICATE_def Let_def

lemma toy_laws: "hmac_law toy_crypto toy_crypto" "pk_law toy_crypto toy_crypto"
proof -
  have "mech_hmac_output_size m \<le> 64" for m by (simp add: mech_hmac_output_size_def)
  then have "length (take (mech_hmac_output_size m) (k @ d @ replicate 64 (0 :: byte))) = mech_hmac_output_size m" for m k d
    by (subst length_take) (metis le_add2 le_trans length_append length_replicate min.absorb2)
  then show "hmac_law toy_crypto toy_crypto" by (auto simp: hmac_law_def toy_simps)
  show "pk_law toy_crypto toy_crypto" by (simp add: pk_law_def toy_simps)
qed

lemma demo_calls:
  assumes "snd (C_SignInit 1 (Some (plain_mech m)) hk keys_state) = CKR_OK"
    "map_option snd (C_Sign toy_crypto 1 (Some [5]) True (Some 64) (demo_init m hk)) = Some (CKR_OK, n, sig)"
    "snd (C_VerifyInit 1 (Some (plain_mech m)) hv (demo_signed m hk)) = CKR_OK"
  shows "C_SignInit 1 (Some (plain_mech m)) hk keys_state = (demo_init m hk, CKR_OK)"
    "C_Sign toy_crypto 1 (Some [5]) True (Some 64) (demo_init m hk) = Some (demo_signed m hk, CKR_OK, n, sig)"
    "C_VerifyInit 1 (Some (plain_mech m)) hv (demo_signed m hk) = (demo_verify m hk hv, CKR_OK)"
  using assms by (auto simp: demo_init_def demo_signed_def demo_verify_def prod_eq_iff)

lemma demo_hmac:
  "snd (C_SignInit 1 (Some (plain_mech CKM_SHA256_HMAC)) 3 keys_state) = CKR_OK"
  "map_option snd (C_Sign toy_crypto 1 (Some [5]) True (Some 64) (demo_init CKM_SHA256_HMAC 3)) = Some (CKR_OK, Some 32, [1, 2, 5] @ replicate 29 0)"
  "snd (C_VerifyInit 1 (Some (plain_mech CKM_SHA256_HMAC)) 3 (demo_signed CKM_SHA256_HMAC 3)) = CKR_OK"
  "mech_is_hmac (mechanism (plain_mech CKM_SHA256_HMAC))"
  by (simp_all add: demo_simps C_Sign_active hmac_sign_def hmac_of_def secret_bytes_def toy_simps)

theorem hmac_sign_verify_witness:
  "\<exists>st4. C_Verify toy_crypto 1 (Some [5]) (Some ([1, 2, 5] @ replicate 29 0)) (demo_verify CKM_SHA256_HMAC 3 3) = Some (st4, CKR_OK)"
  using hmac_sign_verify [OF toy_laws(1) keys_state_simps(3) demo_hmac(4) demo_calls [OF demo_hmac(1-3)], of "[1, 2, 5] @ replicate 29 0"]
  by simp

lemma demo_rsa:
  "snd (C_SignInit 1 (Some (plain_mech CKM_RSA_PKCS)) 1 keys_state) = CKR_OK"
  "map_option snd (C_Sign toy_crypto 1 (Some [5]) True (Some 64) (demo_init CKM_RSA_PKCS 1)) = Some (CKR_OK, Some 2, [2, 5])"
  "snd (C_VerifyInit 1 (Some (plain_mech CKM_RSA_PKCS)) 2 (demo_signed CKM_RSA_PKCS 1)) = CKR_OK"
  "ops (g_keys keys_state ! 0) = Some wp11_backend_soft_ops" "ops (g_keys keys_state ! 1) = Some wp11_backend_soft_ops"
  "key_priv (g_keys keys_state ! 1) = key_priv (g_keys keys_state ! 0)" "sig_len_max (g_keys keys_state ! Suc 0) = 0"
  by (simp_all add: demo_simps C_Sign_active backend_sign_op_def soft_sign_def with_soft_key_def soft_sign_key_def or_general_def FITS_U32_def
      WP11_SOFT_KEY_RSA_def toy_simps)

theorem soft_sign_verify_witness:
  "\<exists>st4. C_Verify toy_crypto 1 (Some [5]) (Some [2, 5]) (demo_verify CKM_RSA_PKCS 1 2) = Some (st4, CKR_OK)"
  using soft_sign_verify [OF toy_laws(2) keys_state_simps(3) _ demo_calls [OF demo_rsa(1-3)] keys_state_simps(6) demo_rsa(4)
        keys_state_simps(7) demo_rsa(5,6)]
  by (simp add: plain_mech_def demo_rsa(7))

lemma demo_stuck:
  "snd (C_SignInit 1 (Some (plain_mech CKM_ECDSA)) 4 keys_state) = CKR_OK" "ops (g_keys keys_state ! 3) = None"
  "sig_len_max (g_keys keys_state ! 3) = 0"
  by (simp_all add: demo_simps)

theorem sign_operation_stuck_witness:
  "C_Sign toy_crypto 1 (Some [5]) True (Some 64) (demo_init CKM_ECDSA 4) = Some (demo_init CKM_ECDSA 4, CKR_FUNCTION_FAILED, Some 64, [])
   \<and> C_SignInit 1 (Some (plain_mech CKM_SHA256_HMAC)) 3 (demo_init CKM_ECDSA 4) = (demo_init CKM_ECDSA 4, CKR_OPERATION_ACTIVE)"
proof -
  have "C_SignInit 1 (Some (plain_mech CKM_ECDSA)) 4 keys_state = (demo_init CKM_ECDSA 4, CKR_OK)"
    using demo_stuck(1) by (simp add: demo_init_def prod_eq_iff)
  from sign_operation_stuck [OF keys_state_simps(3) this _ keys_state_simps(9) demo_stuck(2), of 64] show ?thesis
    by (simp add: plain_mech_def demo_stuck(3))
qed

lemma demo_pss_params:
  "ulong_at [0x50, 2, 0, 0, 0, 0, 0, 0, 2, 0, 0, 0, 0, 0, 0, 0, 32, 0, 0, 0, 0, 0, 0, 0] 0 = 592"
  "ulong_at [0x50, 2, 0, 0, 0, 0, 0, 0, 2, 0, 0, 0, 0, 0, 0, 0, 32, 0, 0, 0, 0, 0, 0, 0] (Suc 0) = 2"
  by (simp_all add: ulong_at_def bslice_def)

lemma parse_pss_ok:
  "pParameter m = Some bs \<Longrightarrow> \<not> ulParameterLen m < 24 \<Longrightarrow> ck_hash_to_wc (ulong_at bs 0) = Some hs \<Longrightarrow>
     ck_mgf_to_wc (ulong_at bs 1) = Some g \<Longrightarrow> \<exists>p. parse_pss m = Inr p"
  by (simp add: parse_pss_def)

lemma demo_pss:
  "snd (C_SignInit 1 (Some pss_mech) 5 keys_state) = CKR_OK" "key_priv (g_keys keys_state ! 4) = Some (UsbKey 1 0 0x9A 0x07)"
  "sig_len_max (g_keys keys_state ! 4) = 0"
proof -
  have "\<exists>p. parse_pss pss_mech = Inr p"
    by (rule parse_pss_ok [of _ _ WC_HASH_SHA256 WC_MGF1SHA256])
      (auto simp: pss_mech_def demo_pss_params ck_hash_to_wc_def ck_mgf_to_wc_def mech_defs)
  then obtain p where p: "parse_pss pss_mech = Inr p" ..
  have "sign_mech_check pss_mech (g_keys keys_state ! 4) = Inr (Some p)"
    unfolding sign_mech_check_def p by (simp add: keys_state_keys pss_mech_def mech_defs)
  then show "snd (C_SignInit 1 (Some pss_mech) 5 keys_state) = CKR_OK"
    by (simp add: C_SignInit_def keys_state_simps keys_state_more keys_state_keys Let_def zero_session_def zero_key_def CKO_PRIVATE_KEY_def CKO_CERTIFICATE_def)
qed (simp_all add: demo_simps)

theorem pss_sign_type_confusion_witness:
  "C_Sign toy_crypto 1 (Some [5]) True (Some 64) (fst (C_SignInit 1 (Some pss_mech) 5 keys_state)) = None"
proof -
  have i: "C_SignInit 1 (Some pss_mech) 5 keys_state = (fst (C_SignInit 1 (Some pss_mech) 5 keys_state), CKR_OK)"
    using demo_pss(1) by (simp add: prod_eq_iff)
  show ?thesis
    by (rule pss_sign_type_confusion [OF keys_state_simps(3) i _ keys_state_simps(10) demo_pss(2)]) (simp_all add: pss_mech_def demo_pss(3))
qed

end
