(* ===== verification/Cipher.thy ===== *)
theory Cipher imports SignVerify begin

text \<open>
  Encryption and decryption of \<open>src/wp11_pkcs11.c\<close>: block ciphers in one call or in parts, AES-GCM, RSA PKCS#1 and RSA-OAEP
  (\<open>C_EncryptInit\<close> to \<open>C_EncryptFinal\<close>, \<open>C_DecryptInit\<close> to \<open>C_DecryptFinal\<close>).  wolfCrypt's ciphers are parameters;
  \<open>None\<close> is a call with undefined behaviour.
\<close>

section \<open>Parameters\<close>

definition WP11_GCM_IV_MAX :: nat where "WP11_GCM_IV_MAX = 16"
definition WP11_GCM_AAD_MAX :: nat where "WP11_GCM_AAD_MAX = 64"

text \<open>
  The parameter structures with the buffers their pointers lead to (\<open>None\<close> for \<open>NULL\<close>), on a 64-bit target 48 and 40
  bytes; \<open>param_view\<close> is what \<open>pParameter\<close> reads as under each of the two casts.
\<close>

record CK_GCM_PARAMS =
  pIv :: "byte list option"
  ulIvLen :: nat
  pAAD :: "byte list option"
  ulAADLen :: nat
  ulTagBits :: nat

record CK_RSA_PKCS_OAEP_PARAMS =
  op_hashAlg :: nat
  op_mgf :: nat
  pSourceData :: "byte list option"
  ulSourceDataLen :: nat

record param_view =
  as_gcm :: CK_GCM_PARAMS
  as_oaep :: CK_RSA_PKCS_OAEP_PARAMS

text \<open>
  A pointer in these parameters is the memory from there on, as far as the caller's buffer goes; the code copies the given number of
  bytes from it.  A caller that states a length beyond its buffer breaks the interface, and what \<open>memcpy\<close> then reads is outside of the model.
\<close>

definition gcm_parse :: "param_view \<Rightarrow> CK_MECHANISM \<Rightarrow> CK_RV + gcm_params" where
  "gcm_parse pv m =
     (let gp = as_gcm pv; bad = Inl CKR_MECHANISM_PARAM_INVALID in
      if pParameter m = None \<or> ulParameterLen m < 48 then bad
      else case pIv gp of
        None \<Rightarrow> bad
      | Some iv \<Rightarrow>
          if ulIvLen gp = 0 \<or> ulIvLen gp > WP11_GCM_IV_MAX then bad
          else if ulTagBits gp = 0 \<or> ulTagBits gp > 128 \<or> ulTagBits gp mod 8 \<noteq> 0 \<or> ulTagBits gp < 32 then bad
          else if ulAADLen gp > WP11_GCM_AAD_MAX then bad
          else if ulAADLen gp > 0 \<and> pAAD gp = None then bad
          else Inr \<lparr>gcm_iv = take (ulIvLen gp) iv, gcm_aad = (case pAAD gp of None \<Rightarrow> [] | Some a \<Rightarrow> take (ulAADLen gp) a),
                 gcm_tag_bits = ulTagBits gp\<rparr>)"

definition oaep_parse :: "param_view \<Rightarrow> CK_MECHANISM \<Rightarrow> CK_RV + wc_hash \<times> wc_mgf \<times> byte list" where
  "oaep_parse pv m =
     (let p = as_oaep pv; bad = Inl CKR_MECHANISM_PARAM_INVALID in
      if pParameter m = None \<or> ulParameterLen m < 40 then bad
      else case (ck_hash_to_wc (op_hashAlg p), ck_mgf_to_wc (op_mgf p)) of
        (Some h, Some g) \<Rightarrow>
          if ulSourceDataLen p > WP11_OAEP_LABEL_MAX then bad
          else Inr (h, g, case pSourceData p of None \<Rightarrow> [] | Some l \<Rightarrow> take (ulSourceDataLen p) l)
      | _ \<Rightarrow> bad)"

section \<open>wolfCrypt's ciphers\<close>

text \<open>
  Keys and IVs into a context (with the return code, \<open>True\<close> for 0), and data through one; the flag is \<open>True\<close> for
  encryption.  A GCM encryption gives ciphertext and tag.
\<close>

record wc_cipher =
  wc_setkey :: "nat \<Rightarrow> bool \<Rightarrow> byte list \<Rightarrow> byte list option \<Rightarrow> bool \<times> wc_ctx"
  wc_crypt :: "nat \<Rightarrow> bool \<Rightarrow> wc_ctx \<Rightarrow> byte list \<Rightarrow> wc_ctx \<times> byte list option"
  wc_gcm_setkey :: "byte list \<Rightarrow> bool \<times> wc_ctx"
  wc_gcm_encrypt :: "wc_ctx \<Rightarrow> byte list \<Rightarrow> byte list \<Rightarrow> byte list \<Rightarrow> nat \<Rightarrow> wc_ctx \<times> (byte list \<times> byte list) option"
  wc_gcm_decrypt :: "wc_ctx \<Rightarrow> byte list \<Rightarrow> byte list \<Rightarrow> byte list \<Rightarrow> byte list \<Rightarrow> wc_ctx \<times> byte list option"

definition is_block_mech :: "nat \<Rightarrow> bool" where
  "is_block_mech m \<longleftrightarrow> m \<in> {CKM_AES_ECB, CKM_AES_CBC, CKM_DES_ECB, CKM_DES_CBC, CKM_DES3_ECB, CKM_DES3_CBC}"

text \<open>
  The key setup.  The DES functions have no key length argument: they read 8 or 24 bytes of a secret that may be shorter,
  and their return codes are ignored.
\<close>

definition sym_setup :: "wc_cipher \<Rightarrow> nat \<Rightarrow> bool \<Rightarrow> byte list \<Rightarrow> byte list option \<Rightarrow> (bool \<times> wc_ctx) option" where
  "sym_setup w mech enc key iv =
     (if mech = CKM_AES_ECB \<or> mech = CKM_AES_CBC then Some (wc_setkey w mech enc (as_word32 key) iv)
      else let n = (if mech = CKM_DES_ECB \<or> mech = CKM_DES_CBC then 8 else 24) in
        if length key < n then None else Some (True, snd (wc_setkey w mech enc (take n key) iv)))"

definition iv_bad :: "CK_MECHANISM \<Rightarrow> bool" where
  "iv_bad m \<longleftrightarrow> mech_has_iv (mechanism m) \<and> (pParameter m = None \<or> ulParameterLen m \<noteq> mech_block_size (mechanism m))"

definition iv_of :: "CK_MECHANISM \<Rightarrow> byte list option" where
  "iv_of m = (if mech_has_iv (mechanism m) then pParameter m else None)"

definition no_secret :: "wp11_key_obj \<Rightarrow> bool" where
  "no_secret obj \<longleftrightarrow> secret_bytes obj = []"

text \<open>Return code and change of the session, for the initialisation of one mechanism.\<close>

type_synonym init_result = "(CK_RV \<times> (wp11_session \<Rightarrow> wp11_session)) option"

definition init_fail :: "CK_RV \<Rightarrow> init_result" where
  "init_fail rv = Some (rv, id)"

section \<open>C_EncryptInit\<close>

definition enc_init_gcm :: "wc_cipher \<Rightarrow> param_view \<Rightarrow> CK_MECHANISM \<Rightarrow> wp11_key_obj \<Rightarrow> init_result" where
  "enc_init_gcm w pv m obj =
     (if k_key_type obj \<noteq> CKK_AES then init_fail CKR_KEY_TYPE_INCONSISTENT
      else if no_secret obj then init_fail CKR_KEY_HANDLE_INVALID
      else case gcm_parse pv m of
        Inl e \<Rightarrow> init_fail e
      | Inr g \<Rightarrow>
          (case wc_gcm_setkey w (as_word32 (secret_bytes obj)) of
             (ok, c) \<Rightarrow> if ok then Some (CKR_OK, \<lambda>s. s\<lparr>enc_ctx := c, gcm_enc := g\<rparr>)
                        else Some (CKR_KEY_SIZE_RANGE, \<lambda>s. s\<lparr>enc_ctx := c\<rparr>)))"

definition enc_init_block :: "wc_cipher \<Rightarrow> CK_MECHANISM \<Rightarrow> wp11_key_obj \<Rightarrow> init_result" where
  "enc_init_block w m obj =
     (case mech_required_key_type (mechanism m) of
        None \<Rightarrow>
          if mechanism m = CKM_ECDSA \<or> mechanism m = CKM_ECDSA_SHA256 then init_fail CKR_KEY_TYPE_INCONSISTENT
          else init_fail CKR_MECHANISM_INVALID
      | Some req_kt \<Rightarrow>
          if k_key_type obj \<noteq> req_kt then init_fail CKR_KEY_TYPE_INCONSISTENT
          else if iv_bad m then init_fail CKR_MECHANISM_PARAM_INVALID
          else if no_secret obj then init_fail CKR_KEY_HANDLE_INVALID
          else (case sym_setup w (mechanism m) True (secret_bytes obj) (iv_of m) of
             None \<Rightarrow> None
           | Some (ok, c) \<Rightarrow> Some (if ok then CKR_OK else CKR_KEY_SIZE_RANGE, \<lambda>s. s\<lparr>enc_ctx := c\<rparr>)))"

definition enc_init :: "wc_cipher \<Rightarrow> param_view \<Rightarrow> CK_MECHANISM \<Rightarrow> wp11_key_obj \<Rightarrow> init_result" where
  "enc_init w pv m obj =
     (if mechanism m = CKM_RSA_PKCS then
        (if k_key_type obj \<noteq> CKK_RSA then init_fail CKR_KEY_TYPE_INCONSISTENT else Some (validate_mechanism_params m, id))
      else if mechanism m = CKM_RSA_PKCS_OAEP then
        (if k_key_type obj \<noteq> CKK_RSA then init_fail CKR_KEY_TYPE_INCONSISTENT
         else case oaep_parse pv m of Inl e \<Rightarrow> init_fail e | Inr p \<Rightarrow> Some (CKR_OK, \<lambda>s. s\<lparr>oaep_enc := Some p\<rparr>))
      else if mechanism m = CKM_AES_GCM then enc_init_gcm w pv m obj
      else enc_init_block w m obj)"

definition encrypt_start :: "CK_MECHANISM \<Rightarrow> nat \<Rightarrow> wp11_session \<Rightarrow> wp11_session" where
  "encrypt_start m hKey s =
     s\<lparr>encrypt_active := True, encrypt_oneshot := False, encrypt_multipart := False, encrypt_mech := mechanism m, encrypt_key := hKey\<rparr>"

definition encrypt_stop :: "wp11_session \<Rightarrow> wp11_session" where
  "encrypt_stop s = s\<lparr>encrypt_active := False\<rparr>"

definition encrypt_done :: "wp11_session \<Rightarrow> wp11_session" where
  "encrypt_done s = s\<lparr>encrypt_active := False, encrypt_oneshot := False, encrypt_multipart := False\<rparr>"

definition C_EncryptInit ::
  "wc_cipher \<Rightarrow> param_view \<Rightarrow> nat \<Rightarrow> CK_MECHANISM option \<Rightarrow> nat \<Rightarrow> 'd wp11_state \<Rightarrow> ('d wp11_state \<times> CK_RV) option" where
  "C_EncryptInit w pv hSession pMechanism hKey st =
     (if \<not> g_lock_ready st \<or> \<not> g_initialized st then Some (st, CKR_CRYPTOKI_NOT_INITIALIZED)
      else case pMechanism of
        None \<Rightarrow> Some (st, CKR_ARGUMENTS_BAD)
      | Some m \<Rightarrow>
          (case session_get st hSession of
             None \<Rightarrow> Some (st, CKR_SESSION_HANDLE_INVALID)
           | Some i \<Rightarrow>
               let s = g_sessions st ! i; fail = (\<lambda>rv. Some (upd_session i encrypt_stop st, rv)) in
               if encrypt_active s then Some (st, CKR_OPERATION_ACTIVE)
               else case key_get st hKey of
                 None \<Rightarrow> fail CKR_KEY_HANDLE_INVALID
               | Some j \<Rightarrow>
                   if s_logged_in s = 0 \<and> is_private (g_keys st ! j) then fail CKR_USER_NOT_LOGGED_IN
                   else case enc_init w pv m (g_keys st ! j) of
                     None \<Rightarrow> None
                   | Some (rv, f) \<Rightarrow> Some (upd_session i (\<lambda>s. (if rv = CKR_OK then encrypt_start m hKey else encrypt_stop) (f s)) st, rv)))"

section \<open>C_Encrypt\<close>

definition rsa_encrypt_op ::
  "'d crypto_env \<Rightarrow> nat \<Rightarrow> wp11_session \<Rightarrow> byte list \<Rightarrow> bool \<Rightarrow> nat \<Rightarrow> 'd wp11_state \<Rightarrow> 'd op_result option" where
  "rsa_encrypt_op env i s d out_ok cap st =
     (case key_get st (encrypt_key s) of
        None \<Rightarrow> Some (upd_session i encrypt_stop st, CKR_KEY_HANDLE_INVALID, Some cap, [])
      | Some j \<Rightarrow>
          (case key_priv (g_keys st ! j) of
             None \<Rightarrow> Some (upd_session i encrypt_stop st, CKR_KEY_HANDLE_INVALID, Some cap, [])
           | Some p \<Rightarrow>
               (case soft_key_at p st of
                  None \<Rightarrow> None
                | Some k \<Rightarrow>
                    (case wp11_soft_key_rsa_encrypt env k (as_word32 d) out_ok (cap mod 4294967296) of
                       None \<Rightarrow> Some (upd_session i encrypt_stop st, CKR_FUNCTION_FAILED, Some cap, [])
                     | Some (n, out) \<Rightarrow>
                         Some (upd_session i (if out_ok then encrypt_done else (\<lambda>s. s\<lparr>encrypt_oneshot := True\<rparr>)) st, CKR_OK, Some n, out)))))"

text \<open>The soft key of RSA-OAEP: the object's own, or a temporary one made from a keystore entry.\<close>

definition oaep_key ::
  "'d crypto_env \<Rightarrow> wp11_key_obj \<Rightarrow> key_priv \<Rightarrow> 'd wp11_state \<Rightarrow> ('d wp11_state \<times> (CK_RV + wp11_soft_key \<times> nat option)) option" where
  "oaep_key env obj p st =
     (if ops obj = Some wp11_backend_soft_ops then map_option (\<lambda>k. (st, Inr (k, None))) (soft_key_at p st)
      else if ops obj = Some wp11_backend_flash_ops \<or> ops obj = Some wp11_backend_fsdir_ops then
        (case ks_entry p st of
           None \<Rightarrow> None
         | Some e \<Rightarrow>
             (case wp11_soft_key_new_from_der (login_env.truncate env) (map_option snd (der_bytes e)) (key_type e) st of
                (st1, None) \<Rightarrow> Some (st1, Inl CKR_DEVICE_MEMORY)
              | (st1, Some a) \<Rightarrow> map_option (\<lambda>k. (st1, Inr (k, Some a))) (soft_key_at (SoftKey a) st1)))
      else Some (st, Inl CKR_MECHANISM_INVALID))"

definition free_tmp :: "nat option \<Rightarrow> 'd wp11_state \<Rightarrow> 'd wp11_state" where
  "free_tmp t st = (case t of None \<Rightarrow> st | Some a \<Rightarrow> wp11_soft_key_free a st)"

definition hash_mgf :: "(wc_hash \<times> wc_mgf \<times> byte list) option \<Rightarrow> (wc_hash \<times> wc_mgf) option" where
  "hash_mgf p = map_option (\<lambda>(h, g, l). (h, g)) p"

definition oaep_label :: "(wc_hash \<times> wc_mgf \<times> byte list) option \<Rightarrow> byte list" where
  "oaep_label p = (case p of None \<Rightarrow> [] | Some (h, g, l) \<Rightarrow> l)"

definition oaep_encrypt_op ::
  "'d crypto_env \<Rightarrow> nat \<Rightarrow> wp11_session \<Rightarrow> byte list \<Rightarrow> bool \<Rightarrow> nat \<Rightarrow> 'd wp11_state \<Rightarrow> 'd op_result option" where
  "oaep_encrypt_op env i s d out_ok cap st =
     (case key_get st (encrypt_key s) of
        None \<Rightarrow> Some (upd_session i encrypt_stop st, CKR_KEY_HANDLE_INVALID, Some cap, [])
      | Some j \<Rightarrow>
          (case key_priv (g_keys st ! j) of
             None \<Rightarrow> Some (upd_session i encrypt_stop st, CKR_KEY_HANDLE_INVALID, Some cap, [])
           | Some p \<Rightarrow>
               (case oaep_key env (g_keys st ! j) p st of
                  None \<Rightarrow> None
                | Some (st1, Inl rv) \<Rightarrow> Some (upd_session i encrypt_stop st1, rv, Some cap, [])
                | Some (st1, Inr (k, t)) \<Rightarrow>
                    (case wp11_soft_key_rsa_oaep_encrypt env k (as_word32 d) out_ok (cap mod 4294967296) (hash_mgf (oaep_enc s))
                            (oaep_label (oaep_enc s)) of
                       None \<Rightarrow> Some (upd_session i encrypt_stop (free_tmp t st1), CKR_FUNCTION_FAILED, Some cap, [])
                     | Some (n, out) \<Rightarrow>
                         Some (upd_session i (if out_ok then encrypt_done else (\<lambda>s. s\<lparr>encrypt_oneshot := True\<rparr>)) (free_tmp t st1),
                           CKR_OK, Some n, out)))))"

text \<open>Ciphertext and tag behind it.\<close>

definition gcm_encrypt_op :: "wc_cipher \<Rightarrow> nat \<Rightarrow> wp11_session \<Rightarrow> byte list \<Rightarrow> bool \<Rightarrow> nat \<Rightarrow> 'd wp11_state \<Rightarrow> 'd op_result" where
  "gcm_encrypt_op w i s d out_ok cap st =
     (let taglen = gcm_tag_bits (gcm_enc s) div 8; outlen_needed = length d + taglen in
      if \<not> out_ok then (upd_session i (\<lambda>s. s\<lparr>encrypt_oneshot := True\<rparr>) st, CKR_OK, Some outlen_needed, [])
      else if cap < outlen_needed then (st, CKR_BUFFER_TOO_SMALL, Some outlen_needed, [])
      else if \<not> FITS_U32 (length d) \<or> \<not> FITS_U32 taglen \<or> length (gcm_iv (gcm_enc s)) > WP11_GCM_IV_MAX
      then (upd_session i encrypt_stop st, CKR_DATA_LEN_RANGE, Some cap, [])
      else case wc_gcm_encrypt w (enc_ctx s) (gcm_iv (gcm_enc s)) (gcm_aad (gcm_enc s)) d taglen of
        (c, None) \<Rightarrow> (upd_session i (\<lambda>s. encrypt_stop (s\<lparr>enc_ctx := c\<rparr>)) st, CKR_FUNCTION_FAILED, Some cap, [])
      | (c, Some (ct, tag)) \<Rightarrow> (upd_session i (\<lambda>s. encrypt_done (s\<lparr>enc_ctx := c\<rparr>)) st, CKR_OK, Some outlen_needed, ct @ tag))"

definition sym_encrypt_op :: "wc_cipher \<Rightarrow> nat \<Rightarrow> wp11_session \<Rightarrow> byte list \<Rightarrow> bool \<Rightarrow> nat \<Rightarrow> 'd wp11_state \<Rightarrow> 'd op_result" where
  "sym_encrypt_op w i s d out_ok cap st =
     (let mech = encrypt_mech s; blksz = mech_block_size mech in
      if blksz > 0 \<and> length d mod blksz \<noteq> 0 then (upd_session i encrypt_stop st, CKR_DATA_LEN_RANGE, Some cap, [])
      else if \<not> out_ok then (upd_session i (\<lambda>s. s\<lparr>encrypt_oneshot := True\<rparr>) st, CKR_OK, Some (length d), [])
      else if cap < length d then (st, CKR_BUFFER_TOO_SMALL, Some (length d), [])
      else if \<not> is_block_mech mech then (upd_session i encrypt_stop st, CKR_MECHANISM_INVALID, Some cap, [])
      else case wc_crypt w mech True (enc_ctx s) (as_word32 d) of
        (c, None) \<Rightarrow> (upd_session i (\<lambda>s. encrypt_stop (s\<lparr>enc_ctx := c\<rparr>)) st, CKR_FUNCTION_FAILED, Some cap, [])
      | (c, Some out) \<Rightarrow> (upd_session i (\<lambda>s. encrypt_done (s\<lparr>enc_ctx := c\<rparr>)) st, CKR_OK, Some (length d), out))"

definition C_Encrypt ::
  "'d crypto_env \<Rightarrow> wc_cipher \<Rightarrow> nat \<Rightarrow> byte list option \<Rightarrow> bool \<Rightarrow> nat option \<Rightarrow> 'd wp11_state \<Rightarrow> 'd op_result option" where
  "C_Encrypt env w hSession pData out_ok pulLen st =
     (if \<not> g_lock_ready st \<or> \<not> g_initialized st then Some (st, CKR_CRYPTOKI_NOT_INITIALIZED, pulLen, [])
      else case session_get st hSession of
        None \<Rightarrow> Some (st, CKR_SESSION_HANDLE_INVALID, pulLen, [])
      | Some i \<Rightarrow>
          let s = g_sessions st ! i in
          if \<not> encrypt_active s then Some (st, CKR_OPERATION_NOT_INITIALIZED, pulLen, [])
          else if encrypt_multipart s then Some (upd_session i encrypt_stop st, CKR_OPERATION_ACTIVE, pulLen, [])
          else (case (pData, pulLen) of
             (Some d, Some cap) \<Rightarrow>
               if encrypt_mech s = CKM_RSA_PKCS then rsa_encrypt_op env i s d out_ok cap st
               else if encrypt_mech s = CKM_RSA_PKCS_OAEP then oaep_encrypt_op env i s d out_ok cap st
               else if encrypt_mech s = CKM_AES_GCM then Some (gcm_encrypt_op w i s d out_ok cap st)
               else Some (sym_encrypt_op w i s d out_ok cap st)
           | _ \<Rightarrow> Some (upd_session i encrypt_stop st, CKR_ARGUMENTS_BAD, pulLen, [])))"

definition C_EncryptUpdate ::
  "wc_cipher \<Rightarrow> nat \<Rightarrow> byte list option \<Rightarrow> bool \<Rightarrow> nat option \<Rightarrow> 'd wp11_state \<Rightarrow> 'd op_result" where
  "C_EncryptUpdate w hSession pPart out_ok pulLen st =
     (if \<not> g_lock_ready st \<or> \<not> g_initialized st then (st, CKR_CRYPTOKI_NOT_INITIALIZED, pulLen, [])
      else case session_get st hSession of
        None \<Rightarrow> (st, CKR_SESSION_HANDLE_INVALID, pulLen, [])
      | Some i \<Rightarrow>
          let s = g_sessions st ! i; mech = encrypt_mech s; blksz = mech_block_size mech;
              stop = (\<lambda>rv. (upd_session i encrypt_stop st, rv, pulLen, [])) in
          if \<not> encrypt_active s then (st, CKR_OPERATION_NOT_INITIALIZED, pulLen, [])
          else if encrypt_oneshot s then stop CKR_OPERATION_ACTIVE
          else (case (pPart, pulLen) of
             (Some d, Some cap) \<Rightarrow>
               if blksz > 0 \<and> length d mod blksz \<noteq> 0 then stop CKR_DATA_LEN_RANGE
               else if \<not> out_ok then stop CKR_ARGUMENTS_BAD
               else if cap < length d then (st, CKR_BUFFER_TOO_SMALL, Some (length d), [])
               else if \<not> is_block_mech mech then stop CKR_MECHANISM_INVALID
               else (case wc_crypt w mech True (enc_ctx s) (as_word32 d) of
                  (c, None) \<Rightarrow> (upd_session i (\<lambda>s. encrypt_stop (s\<lparr>enc_ctx := c\<rparr>)) st, CKR_FUNCTION_FAILED, pulLen, [])
                | (c, Some out) \<Rightarrow> (upd_session i (\<lambda>s. s\<lparr>enc_ctx := c, encrypt_multipart := True\<rparr>) st, CKR_OK, Some (length d), out))
           | _ \<Rightarrow> stop CKR_ARGUMENTS_BAD))"

text \<open>The last part is always empty: no mechanism pads.\<close>

definition C_EncryptFinal :: "nat \<Rightarrow> bool \<Rightarrow> nat option \<Rightarrow> 'd wp11_state \<Rightarrow> 'd op_result" where
  "C_EncryptFinal hSession out_ok pulLen st =
     (if \<not> g_lock_ready st \<or> \<not> g_initialized st then (st, CKR_CRYPTOKI_NOT_INITIALIZED, pulLen, [])
      else if \<not> out_ok \<or> pulLen = None then (st, CKR_ARGUMENTS_BAD, pulLen, [])
      else case session_get st hSession of
        None \<Rightarrow> (st, CKR_SESSION_HANDLE_INVALID, pulLen, [])
      | Some i \<Rightarrow>
          if \<not> encrypt_active (g_sessions st ! i) then (upd_session i encrypt_stop st, CKR_OPERATION_NOT_INITIALIZED, pulLen, [])
          else (upd_session i encrypt_done st, CKR_OK, Some 0, []))"

section \<open>C_DecryptInit\<close>

text \<open>The checks of the symmetric ciphers come in another order than in \<open>C_EncryptInit\<close>.\<close>

definition dec_init_block :: "wc_cipher \<Rightarrow> CK_MECHANISM \<Rightarrow> wp11_key_obj \<Rightarrow> init_result" where
  "dec_init_block w m obj =
     (if iv_bad m then init_fail CKR_MECHANISM_PARAM_INVALID
      else case sym_setup w (mechanism m) False (secret_bytes obj) (iv_of m) of
        None \<Rightarrow> None
      | Some (ok, c) \<Rightarrow> Some (if ok then CKR_OK else CKR_KEY_SIZE_RANGE, \<lambda>s. s\<lparr>dec_ctx := c\<rparr>))"

definition dec_init_gcm :: "wc_cipher \<Rightarrow> param_view \<Rightarrow> CK_MECHANISM \<Rightarrow> wp11_key_obj \<Rightarrow> init_result" where
  "dec_init_gcm w pv m obj =
     (case gcm_parse pv m of
        Inl e \<Rightarrow> init_fail e
      | Inr g \<Rightarrow>
          (case wc_gcm_setkey w (as_word32 (secret_bytes obj)) of
             (ok, c) \<Rightarrow> if ok then Some (CKR_OK, \<lambda>s. s\<lparr>dec_ctx := c, gcm_dec := g\<rparr>)
                        else Some (CKR_KEY_SIZE_RANGE, \<lambda>s. s\<lparr>dec_ctx := c\<rparr>)))"

definition dec_init :: "wc_cipher \<Rightarrow> param_view \<Rightarrow> CK_MECHANISM \<Rightarrow> wp11_key_obj \<Rightarrow> init_result" where
  "dec_init w pv m obj =
     (case mech_required_key_type (mechanism m) of
        Some req_kt \<Rightarrow>
          if k_key_type obj \<noteq> req_kt then init_fail CKR_KEY_TYPE_INCONSISTENT
          else if no_secret obj then init_fail CKR_KEY_HANDLE_INVALID
          else if mechanism m = CKM_AES_GCM then dec_init_gcm w pv m obj
          else dec_init_block w m obj
      | None \<Rightarrow>
          if mechanism m = CKM_RSA_PKCS then
            (if k_key_type obj \<noteq> CKK_RSA then init_fail CKR_KEY_TYPE_INCONSISTENT else Some (validate_mechanism_params m, id))
          else if mechanism m = CKM_RSA_PKCS_OAEP then
            (if k_key_type obj \<noteq> CKK_RSA then init_fail CKR_KEY_TYPE_INCONSISTENT
             else case oaep_parse pv m of Inl e \<Rightarrow> init_fail e | Inr p \<Rightarrow> Some (CKR_OK, \<lambda>s. s\<lparr>oaep_dec := Some p\<rparr>))
          else if mechanism m = CKM_ECDSA \<or> mechanism m = CKM_ECDSA_SHA256 then init_fail CKR_KEY_TYPE_INCONSISTENT
          else init_fail CKR_MECHANISM_INVALID)"

definition decrypt_start :: "CK_MECHANISM \<Rightarrow> nat \<Rightarrow> wp11_session \<Rightarrow> wp11_session" where
  "decrypt_start m hKey s =
     s\<lparr>decrypt_active := True, decrypt_oneshot := False, decrypt_multipart := False, decrypt_mech := mechanism m, decrypt_key := hKey\<rparr>"

definition decrypt_stop :: "wp11_session \<Rightarrow> wp11_session" where
  "decrypt_stop s = s\<lparr>decrypt_active := False\<rparr>"

definition decrypt_done :: "wp11_session \<Rightarrow> wp11_session" where
  "decrypt_done s = s\<lparr>decrypt_active := False, decrypt_oneshot := False, decrypt_multipart := False\<rparr>"

definition C_DecryptInit ::
  "wc_cipher \<Rightarrow> param_view \<Rightarrow> nat \<Rightarrow> CK_MECHANISM option \<Rightarrow> nat \<Rightarrow> 'd wp11_state \<Rightarrow> ('d wp11_state \<times> CK_RV) option" where
  "C_DecryptInit w pv hSession pMechanism hKey st =
     (if \<not> g_lock_ready st \<or> \<not> g_initialized st then Some (st, CKR_CRYPTOKI_NOT_INITIALIZED)
      else case pMechanism of
        None \<Rightarrow> Some (st, CKR_ARGUMENTS_BAD)
      | Some m \<Rightarrow>
          (case session_get st hSession of
             None \<Rightarrow> Some (st, CKR_SESSION_HANDLE_INVALID)
           | Some i \<Rightarrow>
               let s = g_sessions st ! i; fail = (\<lambda>rv. Some (upd_session i decrypt_stop st, rv)) in
               (case key_get st hKey of
                  None \<Rightarrow> fail CKR_KEY_HANDLE_INVALID
                | Some j \<Rightarrow>
                    if obj_class (g_keys st ! j) = CKO_CERTIFICATE then fail CKR_KEY_HANDLE_INVALID
                    else if s_logged_in s = 0 \<and> is_private (g_keys st ! j) then fail CKR_USER_NOT_LOGGED_IN
                    else if decrypt_active s then Some (st, CKR_OPERATION_ACTIVE)
                    else case dec_init w pv m (g_keys st ! j) of
                      None \<Rightarrow> None
                    | Some (rv, f) \<Rightarrow> Some (upd_session i (\<lambda>s. (if rv = CKR_OK then decrypt_start m hKey else decrypt_stop) (f s)) st, rv))))"

section \<open>C_Decrypt\<close>

definition oaep_decrypt_op ::
  "'d crypto_env \<Rightarrow> nat \<Rightarrow> wp11_session \<Rightarrow> wp11_key_obj \<Rightarrow> byte list \<Rightarrow> bool \<Rightarrow> nat \<Rightarrow> 'd wp11_state \<Rightarrow> 'd op_result option" where
  "oaep_decrypt_op env i s obj d out_ok cap st =
     (case key_priv obj of
        None \<Rightarrow> Some (upd_session i decrypt_stop st, CKR_KEY_HANDLE_INVALID, Some cap, [])
      | Some p \<Rightarrow>
          (case oaep_key env obj p st of
             None \<Rightarrow> None
           | Some (st1, Inl rv) \<Rightarrow> Some (upd_session i decrypt_stop st1, rv, Some cap, [])
           | Some (st1, Inr (k, t)) \<Rightarrow>
               if \<not> out_ok then
                 (case wp11_soft_key_rsa_oaep_decrypt env k [] False 0 (hash_mgf (oaep_dec s)) [] of
                    None \<Rightarrow> Some (upd_session i decrypt_stop (free_tmp t st1), CKR_FUNCTION_FAILED, Some cap, [])
                  | Some (n, out) \<Rightarrow> Some (upd_session i (\<lambda>s. s\<lparr>decrypt_oneshot := True\<rparr>) (free_tmp t st1), CKR_OK, Some n, []))
               else if \<not> FITS_U32 (length d) \<or> \<not> FITS_U32 cap
               then Some (upd_session i decrypt_stop (free_tmp t st1), CKR_ENCRYPTED_DATA_LEN_RANGE, Some cap, [])
               else (case wp11_soft_key_rsa_oaep_decrypt env k d True cap (hash_mgf (oaep_dec s)) (oaep_label (oaep_dec s)) of
                  None \<Rightarrow> Some (upd_session i decrypt_stop (free_tmp t st1), CKR_ENCRYPTED_DATA_INVALID, Some cap, [])
                | Some (n, out) \<Rightarrow> Some (upd_session i decrypt_done (free_tmp t st1), CKR_OK, Some n, out))))"

text \<open>Ciphertext with the tag behind it.\<close>

definition gcm_decrypt_op :: "wc_cipher \<Rightarrow> nat \<Rightarrow> wp11_session \<Rightarrow> byte list \<Rightarrow> bool \<Rightarrow> nat \<Rightarrow> 'd wp11_state \<Rightarrow> 'd op_result" where
  "gcm_decrypt_op w i s d out_ok cap st =
     (let taglen = gcm_tag_bits (gcm_dec s) div 8; pt_len = length d - taglen in
      if length d < taglen then (upd_session i decrypt_stop st, CKR_ENCRYPTED_DATA_LEN_RANGE, Some cap, [])
      else if \<not> out_ok then (upd_session i (\<lambda>s. s\<lparr>decrypt_oneshot := True\<rparr>) st, CKR_OK, Some pt_len, [])
      else if cap < pt_len then (st, CKR_BUFFER_TOO_SMALL, Some pt_len, [])
      else if \<not> FITS_U32 (length d) \<or> \<not> FITS_U32 taglen
      then (upd_session i decrypt_stop st, CKR_ENCRYPTED_DATA_LEN_RANGE, Some cap, [])
      else case wc_gcm_decrypt w (dec_ctx s) (gcm_iv (gcm_dec s)) (gcm_aad (gcm_dec s)) (take pt_len d) (drop pt_len d) of
        (c, None) \<Rightarrow> (upd_session i (\<lambda>s. decrypt_stop (s\<lparr>dec_ctx := c\<rparr>)) st, CKR_ENCRYPTED_DATA_INVALID, Some cap, [])
      | (c, Some pt) \<Rightarrow> (upd_session i (\<lambda>s. decrypt_done (s\<lparr>dec_ctx := c\<rparr>)) st, CKR_OK, Some pt_len, pt))"

definition sym_decrypt_op :: "wc_cipher \<Rightarrow> nat \<Rightarrow> wp11_session \<Rightarrow> byte list \<Rightarrow> nat \<Rightarrow> 'd wp11_state \<Rightarrow> 'd op_result" where
  "sym_decrypt_op w i s d cap st =
     (let mech = decrypt_mech s; blksz = mech_block_size mech in
      if blksz > 0 \<and> length d mod blksz \<noteq> 0 then (upd_session i decrypt_stop st, CKR_ENCRYPTED_DATA_LEN_RANGE, Some cap, [])
      else if cap < length d then (st, CKR_BUFFER_TOO_SMALL, Some (length d), [])
      else if \<not> is_block_mech mech then (upd_session i decrypt_stop st, CKR_MECHANISM_INVALID, Some cap, [])
      else case wc_crypt w mech False (dec_ctx s) (as_word32 d) of
        (c, None) \<Rightarrow> (upd_session i (\<lambda>s. decrypt_stop (s\<lparr>dec_ctx := c\<rparr>)) st, CKR_FUNCTION_FAILED, Some cap, [])
      | (c, Some out) \<Rightarrow> (upd_session i (\<lambda>s. decrypt_done (s\<lparr>dec_ctx := c\<rparr>)) st, CKR_OK, Some (length d), out))"

text \<open>An operation of a backend leaves \<open>decrypt_oneshot\<close> as it is.\<close>

definition backend_decrypt_op ::
  "'d crypto_env \<Rightarrow> nat \<Rightarrow> wp11_session \<Rightarrow> wp11_key_obj \<Rightarrow> backend_ops \<Rightarrow> byte list \<Rightarrow> nat \<Rightarrow> 'd wp11_state \<Rightarrow> 'd op_result option" where
  "backend_decrypt_op env i s obj t d cap st =
     (if sig_len_max obj \<noteq> 0 \<and> cap < sig_len_max obj then Some (st, CKR_BUFFER_TOO_SMALL, Some (sig_len_max obj), [])
      else case backend_decrypt env t (key_priv obj) (decrypt_mech s mod 4294967296) d cap st of
        None \<Rightarrow> None
      | Some (Inl e) \<Rightarrow> Some (upd_session i decrypt_stop st, backend_err_to_rv e, Some cap, [])
      | Some (Inr out) \<Rightarrow> Some (upd_session i decrypt_stop st, CKR_OK, Some (length out), out))"

definition C_Decrypt ::
  "'d crypto_env \<Rightarrow> wc_cipher \<Rightarrow> nat \<Rightarrow> byte list option \<Rightarrow> bool \<Rightarrow> nat option \<Rightarrow> 'd wp11_state \<Rightarrow> 'd op_result option" where
  "C_Decrypt env w hSession pEncryptedData out_ok pulLen st =
     (if \<not> g_lock_ready st \<or> \<not> g_initialized st then Some (st, CKR_CRYPTOKI_NOT_INITIALIZED, pulLen, [])
      else case session_get st hSession of
        None \<Rightarrow> Some (st, CKR_SESSION_HANDLE_INVALID, pulLen, [])
      | Some i \<Rightarrow>
          let s = g_sessions st ! i; stop = (\<lambda>rv. Some (upd_session i decrypt_stop st, rv, pulLen, [])) in
          if \<not> decrypt_active s then Some (st, CKR_OPERATION_NOT_INITIALIZED, pulLen, [])
          else (case (pEncryptedData, pulLen) of
             (Some d, Some cap) \<Rightarrow>
               (case key_get st (decrypt_key s) of
                  None \<Rightarrow> stop CKR_KEY_HANDLE_INVALID
                | Some j \<Rightarrow>
                    let obj = g_keys st ! j in
                    if decrypt_multipart s then stop CKR_OPERATION_ACTIVE
                    else if decrypt_mech s = CKM_RSA_PKCS_OAEP then oaep_decrypt_op env i s obj d out_ok cap st
                    else if decrypt_mech s = CKM_AES_GCM then Some (gcm_decrypt_op w i s d out_ok cap st)
                    else if \<not> out_ok then Some (upd_session i (\<lambda>s. s\<lparr>decrypt_oneshot := True\<rparr>) st, CKR_OK, Some (length d), [])
                    else (case ops obj of
                       None \<Rightarrow> Some (sym_decrypt_op w i s d cap st)
                     | Some t \<Rightarrow> backend_decrypt_op env i s obj t d cap st))
           | _ \<Rightarrow> stop CKR_ARGUMENTS_BAD))"

definition C_DecryptUpdate ::
  "wc_cipher \<Rightarrow> nat \<Rightarrow> byte list option \<Rightarrow> bool \<Rightarrow> nat option \<Rightarrow> 'd wp11_state \<Rightarrow> 'd op_result" where
  "C_DecryptUpdate w hSession pPart out_ok pulLen st =
     (if \<not> g_lock_ready st \<or> \<not> g_initialized st then (st, CKR_CRYPTOKI_NOT_INITIALIZED, pulLen, [])
      else case session_get st hSession of
        None \<Rightarrow> (st, CKR_SESSION_HANDLE_INVALID, pulLen, [])
      | Some i \<Rightarrow>
          let s = g_sessions st ! i; mech = decrypt_mech s; blksz = mech_block_size mech;
              stop = (\<lambda>rv. (upd_session i decrypt_stop st, rv, pulLen, [])) in
          if \<not> decrypt_active s then (st, CKR_OPERATION_NOT_INITIALIZED, pulLen, [])
          else if decrypt_oneshot s then stop CKR_OPERATION_ACTIVE
          else (case (pPart, pulLen) of
             (Some d, Some cap) \<Rightarrow>
               if blksz > 0 \<and> length d mod blksz \<noteq> 0 then stop CKR_DATA_LEN_RANGE
               else if \<not> out_ok then stop CKR_ARGUMENTS_BAD
               else if cap < length d then (st, CKR_BUFFER_TOO_SMALL, Some (length d), [])
               else if \<not> is_block_mech mech then stop CKR_MECHANISM_INVALID
               else (case wc_crypt w mech False (dec_ctx s) (as_word32 d) of
                  (c, None) \<Rightarrow> (upd_session i (\<lambda>s. decrypt_stop (s\<lparr>dec_ctx := c\<rparr>)) st, CKR_FUNCTION_FAILED, pulLen, [])
                | (c, Some out) \<Rightarrow> (upd_session i (\<lambda>s. s\<lparr>dec_ctx := c, decrypt_multipart := True\<rparr>) st, CKR_OK, Some (length d), out))
           | _ \<Rightarrow> stop CKR_ARGUMENTS_BAD))"

definition C_DecryptFinal :: "nat \<Rightarrow> bool \<Rightarrow> nat option \<Rightarrow> 'd wp11_state \<Rightarrow> 'd op_result" where
  "C_DecryptFinal hSession out_ok pulLen st =
     (if \<not> g_lock_ready st \<or> \<not> g_initialized st then (st, CKR_CRYPTOKI_NOT_INITIALIZED, pulLen, [])
      else if \<not> out_ok \<or> pulLen = None then (st, CKR_ARGUMENTS_BAD, pulLen, [])
      else case session_get st hSession of
        None \<Rightarrow> (st, CKR_SESSION_HANDLE_INVALID, pulLen, [])
      | Some i \<Rightarrow>
          if \<not> decrypt_active (g_sessions st ! i) then (upd_session i decrypt_stop st, CKR_OPERATION_NOT_INITIALIZED, pulLen, [])
          else (upd_session i decrypt_done st, CKR_OK, Some 0, []))"

section \<open>What the code relies on\<close>

text \<open>
  wolfCrypt's documentation of the block modes: consecutive calls on whole blocks are one call, and a context set up for
  decryption with the same key and IV inverts the one set up for encryption.  The output has the length of the input.
\<close>

definition cipher_streams :: "wc_cipher \<Rightarrow> bool" where
  "cipher_streams w \<longleftrightarrow> (\<forall>m enc c a b. length a mod mech_block_size m = 0 \<longrightarrow>
     wc_crypt w m enc c (a @ b) =
       (case wc_crypt w m enc c a of
          (c1, None) \<Rightarrow> (c1, None)
        | (c1, Some x) \<Rightarrow> (case wc_crypt w m enc c1 b of (c2, None) \<Rightarrow> (c2, None) | (c2, Some y) \<Rightarrow> (c2, Some (x @ y)))))
     \<and> (\<forall>m enc c. wc_crypt w m enc c [] = (c, Some []))"

definition cipher_inverse :: "wc_cipher \<Rightarrow> bool" where
  "cipher_inverse w \<longleftrightarrow>
     (\<forall>m k iv d out c'. wc_crypt w m True (snd (wc_setkey w m True k iv)) d = (c', Some out) \<longrightarrow> is_block_mech m \<longrightarrow>
        length out = length d \<and> snd (wc_crypt w m False (snd (wc_setkey w m False k iv)) out) = Some d)
     \<and> (\<forall>k iv aad d n c' ct tag. wc_gcm_encrypt w (snd (wc_gcm_setkey w k)) iv aad d n = (c', Some (ct, tag)) \<longrightarrow>
        length ct = length d \<and> length tag = n \<and> snd (wc_gcm_decrypt w (snd (wc_gcm_setkey w k)) iv aad ct tag) = Some d)"

lemma cipher_inverseD:
  assumes "cipher_inverse w"
  shows "wc_crypt w m True (snd (wc_setkey w m True k iv)) d = (c', Some out) \<Longrightarrow> is_block_mech m \<Longrightarrow>
      length out = length d \<and> snd (wc_crypt w m False (snd (wc_setkey w m False k iv)) out) = Some d"
    "wc_gcm_encrypt w (snd (wc_gcm_setkey w k)) nonce aad d n = (c', Some (ct, tag)) \<Longrightarrow>
      length ct = length d \<and> length tag = n \<and> snd (wc_gcm_decrypt w (snd (wc_gcm_setkey w k)) nonce aad ct tag) = Some d"
  using assms unfolding cipher_inverse_def by blast+

section \<open>Inversion of the initialisations\<close>

lemma init_fail_eq [simp]: "init_fail e = Some (rv, f) \<longleftrightarrow> rv = e \<and> f = id"
  by (auto simp: init_fail_def)

lemma parse_error [simp]: "gcm_parse pv m \<noteq> Inl CKR_OK" "oaep_parse pv m \<noteq> Inl CKR_OK"
  by (auto simp: gcm_parse_def oaep_parse_def Let_def split: option.split)

lemma encrypt_init_ok:
  assumes "C_EncryptInit w pv h (Some m) hk st = Some (st1, CKR_OK)"
  obtains i j f where "g_lock_ready st" "g_initialized st" "session_get st h = Some i" "key_get st hk = Some j"
    "enc_init w pv m (g_keys st ! j) = Some (CKR_OK, f)" "st1 = upd_session i (\<lambda>s. encrypt_start m hk (f s)) st"
  using assms by (auto simp: C_EncryptInit_def Let_def split: if_splits option.splits intro: that)

lemma decrypt_init_ok:
  assumes "C_DecryptInit w pv h (Some m) hk st = Some (st1, CKR_OK)"
  obtains i j f where "g_lock_ready st" "g_initialized st" "session_get st h = Some i" "key_get st hk = Some j"
    "dec_init w pv m (g_keys st ! j) = Some (CKR_OK, f)" "st1 = upd_session i (\<lambda>s. decrypt_start m hk (f s)) st"
  using assms by (auto simp: C_DecryptInit_def Let_def split: if_splits option.splits intro: that)

text \<open>What the initialisation of a block cipher or of GCM leaves in the session.\<close>

lemma sym_setup_ok:
  assumes "sym_setup w m enc key iv = Some (True, c)"
  obtains k where "c = snd (wc_setkey w m enc k iv)"
    "k = (if m = CKM_AES_ECB \<or> m = CKM_AES_CBC then as_word32 key else take (if m = CKM_DES_ECB \<or> m = CKM_DES_CBC then 8 else 24) key)"
  using assms by (auto simp: sym_setup_def Let_def split: if_splits intro: that)

definition block_key :: "nat \<Rightarrow> byte list \<Rightarrow> byte list" where
  "block_key m key =
     (if m = CKM_AES_ECB \<or> m = CKM_AES_CBC then as_word32 key else take (if m = CKM_DES_ECB \<or> m = CKM_DES_CBC then 8 else 24) key)"

lemma sym_setup_ctx: "sym_setup w m enc key iv = Some (True, c) \<Longrightarrow> c = snd (wc_setkey w m enc (block_key m key) iv)"
  by (erule sym_setup_ok) (simp add: block_key_def)

lemma block_mech_neq:
  assumes "is_block_mech m"
  shows "m \<noteq> CKM_RSA_PKCS" "m \<noteq> CKM_RSA_PKCS_OAEP" "m \<noteq> CKM_AES_GCM" "mech_block_size m > 0" "mech_required_key_type m \<noteq> None"
  using assms by (auto simp: is_block_mech_def mech_block_size_def mech_required_key_type_def mech_defs)

lemma enc_init_block_ok:
  assumes "enc_init w pv m obj = Some (CKR_OK, f)" "is_block_mech (mechanism m)"
  shows "f = (\<lambda>s. s\<lparr>enc_ctx := snd (wc_setkey w (mechanism m) True (block_key (mechanism m) (secret_bytes obj)) (iv_of m))\<rparr>)"
  using assms block_mech_neq [OF assms(2)]
  by (auto simp: enc_init_def enc_init_block_def split: if_splits option.splits dest: sym_setup_ctx)

lemma dec_init_block_ok:
  assumes "dec_init w pv m obj = Some (CKR_OK, f)" "is_block_mech (mechanism m)"
  shows "f = (\<lambda>s. s\<lparr>dec_ctx := snd (wc_setkey w (mechanism m) False (block_key (mechanism m) (secret_bytes obj)) (iv_of m))\<rparr>)"
  using assms block_mech_neq [OF assms(2)]
  by (auto simp: dec_init_def dec_init_block_def split: if_splits option.splits dest: sym_setup_ctx)

lemma gcm_init_ok:
  assumes "mechanism m = CKM_AES_GCM"
  shows "enc_init w pv m obj = Some (CKR_OK, f) \<Longrightarrow>
      \<exists>g. gcm_parse pv m = Inr g \<and> f = (\<lambda>s. s\<lparr>enc_ctx := snd (wc_gcm_setkey w (as_word32 (secret_bytes obj))), gcm_enc := g\<rparr>)"
    "dec_init w pv m obj = Some (CKR_OK, f) \<Longrightarrow>
      \<exists>g. gcm_parse pv m = Inr g \<and> f = (\<lambda>s. s\<lparr>dec_ctx := snd (wc_gcm_setkey w (as_word32 (secret_bytes obj))), gcm_dec := g\<rparr>)"
  using assms
  by (auto simp: enc_init_def enc_init_gcm_def dec_init_def dec_init_gcm_def mech_required_key_type_def mech_defs
      split: if_splits option.splits sum.splits prod.splits)

lemma start_stop_simps [simp]:
  "s_in_use (encrypt_start m h s) = s_in_use s" "s_in_use (encrypt_stop s) = s_in_use s" "s_in_use (encrypt_done s) = s_in_use s"
  "s_in_use (decrypt_start m h s) = s_in_use s" "s_in_use (decrypt_stop s) = s_in_use s" "s_in_use (decrypt_done s) = s_in_use s"
  "enc_ctx (encrypt_start m h s) = enc_ctx s" "gcm_enc (encrypt_start m h s) = gcm_enc s"
  "dec_ctx (decrypt_start m h s) = dec_ctx s" "gcm_dec (decrypt_start m h s) = gcm_dec s"
  "encrypt_active (encrypt_start m h s)" "\<not> encrypt_oneshot (encrypt_start m h s)" "\<not> encrypt_multipart (encrypt_start m h s)"
  "encrypt_mech (encrypt_start m h s) = mechanism m" "encrypt_key (encrypt_start m h s) = h"
  "decrypt_active (decrypt_start m h s)" "\<not> decrypt_oneshot (decrypt_start m h s)" "\<not> decrypt_multipart (decrypt_start m h s)"
  "decrypt_mech (decrypt_start m h s) = mechanism m" "decrypt_key (decrypt_start m h s) = h"
  by (simp_all add: encrypt_start_def encrypt_stop_def encrypt_done_def decrypt_start_def decrypt_stop_def decrypt_done_def)

section \<open>Decryption inverts encryption\<close>

text \<open>The single call of \<open>C_Encrypt\<close> and \<open>C_Decrypt\<close> in a session that has just been initialised.\<close>

lemma C_Encrypt_active:
  assumes "g_lock_ready st" "g_initialized st" "session_get st h = Some i" "encrypt_active (g_sessions st ! i)"
    "\<not> encrypt_multipart (g_sessions st ! i)" "encrypt_mech (g_sessions st ! i) \<noteq> CKM_RSA_PKCS"
    "encrypt_mech (g_sessions st ! i) \<noteq> CKM_RSA_PKCS_OAEP"
  shows "C_Encrypt env w h (Some d) True (Some cap) st =
    (if encrypt_mech (g_sessions st ! i) = CKM_AES_GCM then Some (gcm_encrypt_op w i (g_sessions st ! i) d True cap st)
     else Some (sym_encrypt_op w i (g_sessions st ! i) d True cap st))"
  using assms by (simp add: C_Encrypt_def Let_def)

lemma C_Decrypt_active:
  assumes "g_lock_ready st" "g_initialized st" "session_get st h = Some i" "decrypt_active (g_sessions st ! i)"
    "\<not> decrypt_multipart (g_sessions st ! i)" "decrypt_mech (g_sessions st ! i) \<noteq> CKM_RSA_PKCS_OAEP"
    "key_get st (decrypt_key (g_sessions st ! i)) = Some j" "ops (g_keys st ! j) = None"
  shows "C_Decrypt env w h (Some d) True (Some cap) st =
    (if decrypt_mech (g_sessions st ! i) = CKM_AES_GCM then Some (gcm_decrypt_op w i (g_sessions st ! i) d True cap st)
     else Some (sym_decrypt_op w i (g_sessions st ! i) d cap st))"
  using assms by (simp add: C_Decrypt_def Let_def)

lemma sym_encrypt_ok:
  assumes "sym_encrypt_op w i s d True cap st = (st', CKR_OK, n, out)" "length d < 4294967296"
  obtains c where "wc_crypt w (encrypt_mech s) True (enc_ctx s) d = (c, Some out)" "n = Some (length d)"
    "st' = upd_session i (\<lambda>s. encrypt_done (s\<lparr>enc_ctx := c\<rparr>)) st" "mech_block_size (encrypt_mech s) > 0 \<longrightarrow> length d mod mech_block_size (encrypt_mech s) = 0"
  using assms by (auto simp: sym_encrypt_op_def Let_def split: if_splits prod.splits option.splits intro: that)

lemma gcm_encrypt_ok:
  assumes "gcm_encrypt_op w i s d True cap st = (st', CKR_OK, n, out)"
  obtains c ct tag where "wc_gcm_encrypt w (enc_ctx s) (gcm_iv (gcm_enc s)) (gcm_aad (gcm_enc s)) d (gcm_tag_bits (gcm_enc s) div 8) = (c, Some (ct, tag))"
    "out = ct @ tag" "st' = upd_session i (\<lambda>s. encrypt_done (s\<lparr>enc_ctx := c\<rparr>)) st"
  using assms by (auto simp: gcm_encrypt_op_def Let_def split: if_splits prod.splits option.splits intro: that)

lemma sym_decrypt_run:
  assumes "snd (wc_crypt w (decrypt_mech s) False (dec_ctx s) ct) = Some d" "length ct = length d" "length d < 4294967296" "length d \<le> cap"
    "is_block_mech (decrypt_mech s)" "length d mod mech_block_size (decrypt_mech s) = 0"
  shows "\<exists>st'. sym_decrypt_op w i s ct cap st = (st', CKR_OK, Some (length d), d)"
  using assms by (cases "wc_crypt w (decrypt_mech s) False (dec_ctx s) ct") (simp add: sym_decrypt_op_def Let_def)

lemma gcm_decrypt_run:
  assumes "snd (wc_gcm_decrypt w (dec_ctx s) (gcm_iv (gcm_dec s)) (gcm_aad (gcm_dec s)) ct tag) = Some d" "length ct = length d"
    "length tag = gcm_tag_bits (gcm_dec s) div 8" "length (ct @ tag) \<le> 4294967295" "length d \<le> cap"
  shows "\<exists>st'. gcm_decrypt_op w i s (ct @ tag) True cap st = (st', CKR_OK, Some (length d), d)"
  using assms
  by (cases "wc_gcm_decrypt w (dec_ctx s) (gcm_iv (gcm_dec s)) (gcm_aad (gcm_dec s)) ct tag") (simp add: gcm_decrypt_op_def Let_def FITS_U32_def)

text \<open>C11. Decryption inverts encryption through the whole interface: for DES, triple DES and AES in ECB and CBC mode and
  for AES-GCM, what \<open>C_EncryptInit\<close> and \<open>C_Encrypt\<close> produce, \<open>C_DecryptInit\<close> with the same mechanism, parameters and
  key and \<open>C_Decrypt\<close> turn back into the data, whatever the data (below 4 GiB) and the key.\<close>
theorem decrypt_inverts_encrypt:
  assumes "cipher_inverse w" "tables_ok st" "is_block_mech (mechanism m) \<or> mechanism m = CKM_AES_GCM"
    and "C_EncryptInit w pv h (Some m) hk st = Some (st1, CKR_OK)" "C_Encrypt env w h (Some d) True (Some cap) st1 = Some (st2, CKR_OK, n, ct)"
    and "C_DecryptInit w pv h (Some m) hk st2 = Some (st3, CKR_OK)"
    and "key_get st hk = Some j" "ops (g_keys st ! j) = None" "length d < 4294967296" "length ct \<le> 4294967295" "length d \<le> cap'"
  shows "\<exists>st4. C_Decrypt env' w h (Some ct) True (Some cap') st3 = Some (st4, CKR_OK, Some (length d), d)"
proof -
  obtain i j' f where a: "g_lock_ready st" "g_initialized st" "session_get st h = Some i" "key_get st hk = Some j'"
    "enc_init w pv m (g_keys st ! j') = Some (CKR_OK, f)" "st1 = upd_session i (\<lambda>s. encrypt_start m hk (f s)) st"
    using assms(4) by (rule encrypt_init_ok)
  note b = session_get_bound [OF a(3) assms(2)]
  have [simp]: "j' = j" using a(4) assms(7) by simp
  have ne: "mechanism m \<noteq> CKM_RSA_PKCS" "mechanism m \<noteq> CKM_RSA_PKCS_OAEP" using assms(3) block_mech_neq by (auto simp: mech_defs)
  obtain i' j'' f' where v: "session_get st2 h = Some i'" "key_get st2 hk = Some j''"
    "dec_init w pv m (g_keys st2 ! j'') = Some (CKR_OK, f')" "st3 = upd_session i' (\<lambda>s. decrypt_start m hk (f' s)) st2"
    using assms(6) by (rule decrypt_init_ok)
  from assms(3) show ?thesis
  proof
    assume blk: "is_block_mech (mechanism m)"
    note neq = block_mech_neq [OF blk] and f = enc_init_block_ok [OF a(5) blk]
    have "sym_encrypt_op w i (g_sessions st1 ! i) d True cap st1 = (st2, CKR_OK, n, ct)"
      using assms(5) a b ne neq by (simp add: C_Encrypt_active f)
    then obtain c where c: "wc_crypt w (mechanism m) True (snd (wc_setkey w (mechanism m) True (block_key (mechanism m) (secret_bytes (g_keys st ! j))) (iv_of m))) d = (c, Some ct)"
      "st2 = upd_session i (\<lambda>s. encrypt_done (s\<lparr>enc_ctx := c\<rparr>)) st1" "length d mod mech_block_size (mechanism m) = 0"
      using neq(4) a(6) b by (auto simp: f elim!: sym_encrypt_ok [OF _ assms(9)])
    have [simp]: "i' = i" "j'' = j" using v(1,2) a assms(7) by (simp_all add: c(2) f)
    note inv = cipher_inverseD(1) [OF assms(1) c(1) blk]
    have f': "f' = (\<lambda>s. s\<lparr>dec_ctx := snd (wc_setkey w (mechanism m) False (block_key (mechanism m) (secret_bytes (g_keys st ! j))) (iv_of m))\<rparr>)"
      using dec_init_block_ok [OF v(3) blk] by (simp add: c(2) a(6))
    have "\<exists>st4. sym_decrypt_op w i (g_sessions st3 ! i) ct cap' st3 = (st4, CKR_OK, Some (length d), d)"
      by (rule sym_decrypt_run) (use inv assms(9,11) blk c(3) in \<open>simp_all add: v(4) c(2) a(6) b f'\<close>)
    then show ?thesis using a b v(4) assms(8) neq ne assms(7) by (simp add: C_Decrypt_active c(2) f f')
  next
    assume gcm: "mechanism m = CKM_AES_GCM"
    obtain g where g: "gcm_parse pv m = Inr g" "f = (\<lambda>s. s\<lparr>enc_ctx := snd (wc_gcm_setkey w (as_word32 (secret_bytes (g_keys st ! j)))), gcm_enc := g\<rparr>)"
      using gcm_init_ok(1) [OF gcm a(5)] by auto
    have "gcm_encrypt_op w i (g_sessions st1 ! i) d True cap st1 = (st2, CKR_OK, n, ct)"
      using assms(5) a b ne gcm by (simp add: C_Encrypt_active g(2))
    then obtain c x tag where c: "wc_gcm_encrypt w (snd (wc_gcm_setkey w (as_word32 (secret_bytes (g_keys st ! j))))) (gcm_iv g) (gcm_aad g) d (gcm_tag_bits g div 8) = (c, Some (x, tag))"
      "ct = x @ tag" "st2 = upd_session i (\<lambda>s. encrypt_done (s\<lparr>enc_ctx := c\<rparr>)) st1"
      using a(6) b g(2) by (auto elim!: gcm_encrypt_ok)
    have [simp]: "i' = i" "j'' = j" using v(1,2) a assms(7) by (simp_all add: c(3) g(2))
    note inv = cipher_inverseD(2) [OF assms(1) c(1)]
    have f': "f' = (\<lambda>s. s\<lparr>dec_ctx := snd (wc_gcm_setkey w (as_word32 (secret_bytes (g_keys st ! j)))), gcm_dec := g\<rparr>)"
      using gcm_init_ok(2) [OF gcm v(3)] g(1) by (auto simp: c(3) a(6))
    have "\<exists>st4. gcm_decrypt_op w i (g_sessions st3 ! i) (x @ tag) True cap' st3 = (st4, CKR_OK, Some (length d), d)"
      by (rule gcm_decrypt_run) (use inv assms(10,11) in \<open>simp_all add: v(4) c(2,3) a(6) b f'\<close>)
    then show ?thesis using a b v(4) assms(8) gcm ne assms(7) by (simp add: C_Decrypt_active c(2,3) g(2) f')
  qed
qed

section \<open>In parts or at once\<close>

text \<open>The outputs of consecutive updates; \<open>None\<close> when one of them fails.\<close>

fun encrypt_parts :: "wc_cipher \<Rightarrow> nat \<Rightarrow> byte list list \<Rightarrow> 'd wp11_state \<Rightarrow> 'd wp11_state \<times> byte list option" where
  "encrypt_parts w h [] st = (st, Some [])"
| "encrypt_parts w h (p # ps) st =
     (case C_EncryptUpdate w h (Some p) True (Some (length p)) st of
        (st1, rv, n, out) \<Rightarrow>
          if rv \<noteq> CKR_OK then (st1, None)
          else (case encrypt_parts w h ps st1 of (st2, r) \<Rightarrow> (st2, map_option ((@) out) r)))"

definition encrypting :: "nat \<Rightarrow> nat \<Rightarrow> nat \<Rightarrow> wc_ctx \<Rightarrow> 'd wp11_state \<Rightarrow> bool" where
  "encrypting h i m c st \<longleftrightarrow> g_lock_ready st \<and> g_initialized st \<and> tables_ok st \<and> session_get st h = Some i
     \<and> encrypt_active (g_sessions st ! i) \<and> \<not> encrypt_oneshot (g_sessions st ! i) \<and> encrypt_mech (g_sessions st ! i) = m
     \<and> is_block_mech m \<and> enc_ctx (g_sessions st ! i) = c"

lemma streams_split:
  assumes "cipher_streams w" "wc_crypt w m enc c (a @ b) = (c2, Some out)" "length a mod mech_block_size m = 0"
  obtains c1 x y where "wc_crypt w m enc c a = (c1, Some x)" "wc_crypt w m enc c1 b = (c2, Some y)" "out = x @ y"
proof -
  have e: "wc_crypt w m enc c (a @ b) = (case wc_crypt w m enc c a of
          (c1, None) \<Rightarrow> (c1, None)
        | (c1, Some x) \<Rightarrow> (case wc_crypt w m enc c1 b of (c2, None) \<Rightarrow> (c2, None) | (c2, Some y) \<Rightarrow> (c2, Some (x @ y))))"
    by (rule conjunct1 [OF assms(1) [unfolded cipher_streams_def], rule_format, OF assms(3)])
  from assms(2) show thesis unfolding e by (auto split: prod.splits option.splits intro: that)
qed

lemma encrypting_update:
  assumes "encrypting h i m c st" "wc_crypt w m True c p = (c1, Some x)" "length p < 4294967296" "length p mod mech_block_size m = 0"
  obtains st1 where "C_EncryptUpdate w h (Some p) True (Some (length p)) st = (st1, CKR_OK, Some (length p), x)" "encrypting h i m c1 st1"
proof -
  have "i < length (g_sessions st)" using assms(1) session_get_bound [of st h i] by (simp add: encrypting_def)
  then show thesis using assms
    by (intro that [of "upd_session i (\<lambda>s. s\<lparr>enc_ctx := c1, encrypt_multipart := True\<rparr>) st"])
      (simp_all add: encrypting_def C_EncryptUpdate_def Let_def)
qed

lemma encrypt_parts_run:
  assumes "cipher_streams w" "encrypting h i m c st" "wc_crypt w m True c (concat ps) = (c', Some out)"
    "\<forall>p \<in> set ps. length p < 4294967296 \<and> length p mod mech_block_size m = 0"
  shows "\<exists>st'. encrypt_parts w h ps st = (st', Some out) \<and> encrypting h i m c' st'"
  using assms(2-4)
proof (induction ps arbitrary: c st out)
  case Nil
  have "wc_crypt w m True c [] = (c, Some [])" using assms(1) by (simp add: cipher_streams_def)
  with Nil show ?case by simp
next
  case (Cons p ps)
  obtain c1 x y where s: "wc_crypt w m True c p = (c1, Some x)" "wc_crypt w m True c1 (concat ps) = (c', Some y)" "out = x @ y"
    by (rule streams_split [OF assms(1) Cons.prems(2) [unfolded concat.simps]]) (use Cons.prems(3) in auto)
  obtain st1 where u: "C_EncryptUpdate w h (Some p) True (Some (length p)) st = (st1, CKR_OK, Some (length p), x)" "encrypting h i m c1 st1"
    by (rule encrypting_update [OF Cons.prems(1) s(1)]) (use Cons.prems(3) in auto)
  from Cons.IH [OF u(2) s(2)] Cons.prems(3) obtain st' where "encrypt_parts w h ps st1 = (st', Some y)" "encrypting h i m c' st'" by auto
  then show ?case using u(1) s(3) by simp
qed

text \<open>C16. Encryption in parts equals encryption at once: for every block cipher, when \<open>C_Encrypt\<close> turns the concatenation of
  some parts, each a whole number of blocks, into a ciphertext, then \<open>C_EncryptUpdate\<close> on the parts, each with an output
  buffer of exactly its length, puts out that ciphertext piece by piece, and \<open>C_EncryptFinal\<close> ends with success and no bytes.\<close>
theorem encrypt_parts_equal_oneshot:
  assumes "cipher_streams w" "tables_ok st" "is_block_mech (mechanism m)"
    and "C_EncryptInit w pv h (Some m) hk st = Some (st1, CKR_OK)" "C_Encrypt env w h (Some (concat ps)) True (Some cap) st1 = Some (st2, CKR_OK, n, out)"
    and "length (concat ps) < 4294967296" "\<forall>p \<in> set ps. length p mod mech_block_size (mechanism m) = 0"
  shows "\<exists>st3 st4. encrypt_parts w h ps st1 = (st3, Some out) \<and> C_EncryptFinal h True (Some cap') st3 = (st4, CKR_OK, Some 0, [])"
proof -
  obtain i j f where a: "g_lock_ready st" "g_initialized st" "session_get st h = Some i" "key_get st hk = Some j"
    "enc_init w pv m (g_keys st ! j) = Some (CKR_OK, f)" "st1 = upd_session i (\<lambda>s. encrypt_start m hk (f s)) st"
    using assms(4) by (rule encrypt_init_ok)
  note b = session_get_bound [OF a(3) assms(2)] and f = enc_init_block_ok [OF a(5) assms(3)] and neq = block_mech_neq [OF assms(3)]
  have e: "encrypting h i (mechanism m) (enc_ctx (f (g_sessions st ! i))) st1"
    using a b assms(2,3) by (simp add: encrypting_def f)
  have "sym_encrypt_op w i (g_sessions st1 ! i) (concat ps) True cap st1 = (st2, CKR_OK, n, out)"
    using assms(5) a b neq by (simp add: C_Encrypt_active f)
  then obtain c where c: "wc_crypt w (mechanism m) True (enc_ctx (f (g_sessions st ! i))) (concat ps) = (c, Some out)"
    using a(6) b by (auto simp: f elim!: sym_encrypt_ok [OF _ assms(6)])
  have "length p < 4294967296" if "p \<in> set ps" for p
    using split_list [OF that] assms(6) by auto
  with encrypt_parts_run [OF assms(1) e c] assms(7) obtain st3 where "encrypt_parts w h ps st1 = (st3, Some out)" "encrypting h i (mechanism m) c st3"
    by blast
  then show ?thesis by (auto simp: encrypting_def C_EncryptFinal_def)
qed

section \<open>Keys that are too short\<close>

text \<open>A DES key shorter than eight bytes is read beyond its end: \<open>C_EncryptInit\<close> and \<open>C_DecryptInit\<close> do not check the length
  of an imported secret, and the calls have undefined behaviour.\<close>
theorem short_des_key_undefined:
  assumes "g_lock_ready st" "g_initialized st" "session_get st h = Some i" "key_get st hk = Some j"
    and "\<not> encrypt_active (g_sessions st ! i)" "\<not> decrypt_active (g_sessions st ! i)" "\<not> is_private (g_keys st ! j)"
    and "obj_class (g_keys st ! j) = CKO_SECRET_KEY" "k_key_type (g_keys st ! j) = CKK_DES" "secret (g_keys st ! j) = Some sec"
    and "sec \<noteq> []" "length sec < 8" "mechanism m = CKM_DES_ECB"
  shows "C_EncryptInit w pv h (Some m) hk st = None \<and> C_DecryptInit w pv h (Some m) hk st = None"
  using assms
  by (simp add: C_EncryptInit_def C_DecryptInit_def Let_def enc_init_def enc_init_block_def dec_init_def dec_init_block_def mech_required_key_type_def
      iv_bad_def mech_has_iv_def no_secret_def secret_bytes_def sym_setup_def CKO_SECRET_KEY_def CKO_CERTIFICATE_def mech_defs)

section \<open>Concrete runs\<close>

text \<open>A cipher that adds the first key byte, in a session with an AES key at handle 1 and a short DES key at handle 2.\<close>

definition toy_cipher :: wc_cipher where
  "toy_cipher = \<lparr>wc_setkey = (\<lambda>m enc k iv. (True, k)), wc_crypt = (\<lambda>m enc c d. (c, Some (map (\<lambda>b. if enc then b + c ! 0 else b - c ! 0) d))),
     wc_gcm_setkey = (\<lambda>k. (True, k)), wc_gcm_encrypt = (\<lambda>c iv aad d n. (c, Some (map (\<lambda>b. b + c ! 0) d, replicate n (c ! 0)))),
     wc_gcm_decrypt = (\<lambda>c iv aad d t. (c, if t = replicate (length t) (c ! 0) then Some (map (\<lambda>b. b - c ! 0) d) else None))\<rparr>"

lemma toy_cipher_laws: "cipher_inverse toy_cipher" "cipher_streams toy_cipher"
proof -
  show "cipher_inverse toy_cipher" by (auto simp: cipher_inverse_def toy_cipher_def comp_def)
  show "cipher_streams toy_cipher" by (simp add: cipher_streams_def toy_cipher_def)
qed

definition cipher_state :: "byte list wp11_state" where
  "cipher_state = session_state\<lparr>g_keys := (replicate MAX_KEYS zero_key)
      [0 := zero_key\<lparr>k_in_use := True, obj_class := CKO_SECRET_KEY, k_key_type := CKK_AES, secret := Some (replicate 16 3)\<rparr>,
       1 := zero_key\<lparr>k_in_use := True, obj_class := CKO_SECRET_KEY, k_key_type := CKK_DES, secret := Some [1, 2]\<rparr>]\<rparr>"

lemma cipher_state_simps:
  "g_lock_ready cipher_state" "g_initialized cipher_state" "tables_ok cipher_state" "session_get cipher_state (Suc 0) = Some 0"
  "session_get cipher_state 1 = Some 0" "key_get cipher_state (Suc 0) = Some 0" "key_get cipher_state 1 = Some 0" "key_get cipher_state 2 = Some 1"
  "g_sessions cipher_state ! 0 = zero_session\<lparr>s_in_use := True, s_flags := 6, s_state := CKS_RW_PUBLIC_SESSION\<rparr>" "length (g_sessions cipher_state) = 8"
  by code_simp+

lemma cipher_state_keys:
  "g_keys cipher_state ! 0 = zero_key\<lparr>k_in_use := True, obj_class := CKO_SECRET_KEY, k_key_type := CKK_AES, secret := Some (replicate 16 3)\<rparr>"
  "g_keys cipher_state ! (Suc 0) = zero_key\<lparr>k_in_use := True, obj_class := CKO_SECRET_KEY, k_key_type := CKK_DES, secret := Some [1, 2]\<rparr>"
  by (simp_all add: cipher_state_def MAX_KEYS_def)

definition no_view :: param_view where
  "no_view = \<lparr>as_gcm = \<lparr>pIv = None, ulIvLen = 0, pAAD = None, ulAADLen = 0, ulTagBits = 0\<rparr>,
     as_oaep = \<lparr>op_hashAlg = 0, op_mgf = 0, pSourceData = None, ulSourceDataLen = 0\<rparr>\<rparr>"

definition aes_init :: "byte list wp11_state" where
  "aes_init = fst (the (C_EncryptInit toy_cipher no_view 1 (Some (plain_mech CKM_AES_ECB)) 1 cipher_state))"

definition aes_encrypted :: "byte list \<Rightarrow> byte list wp11_state" where
  "aes_encrypted d = fst (the (C_Encrypt toy_crypto toy_cipher 1 (Some d) True (Some 64) aes_init))"

definition aes_decrypt :: "byte list \<Rightarrow> byte list wp11_state" where
  "aes_decrypt d = fst (the (C_DecryptInit toy_cipher no_view 1 (Some (plain_mech CKM_AES_ECB)) 1 (aes_encrypted d)))"

lemma aes_init: "C_EncryptInit toy_cipher no_view 1 (Some (plain_mech CKM_AES_ECB)) 1 cipher_state = Some (aes_init, CKR_OK)"
  by (simp add: aes_init_def C_EncryptInit_def cipher_state_simps cipher_state_keys enc_init_def enc_init_block_def mech_required_key_type_def
      iv_bad_def mech_has_iv_def no_secret_def secret_bytes_def sym_setup_def toy_cipher_def plain_mech_def zero_session_def zero_key_def mech_defs Let_def)

lemma aes_block: "is_block_mech (mechanism (plain_mech CKM_AES_ECB))" "mech_block_size (mechanism (plain_mech CKM_AES_ECB)) = 16"
  by code_simp+

lemma aes_session:
  obtains s where "g_sessions aes_init ! 0 = s" "encrypt_active s" "\<not> encrypt_multipart s" "\<not> decrypt_active s" "s_logged_in s = 0"
    "encrypt_mech s = CKM_AES_ECB" "enc_ctx s = replicate 16 3" "length (g_sessions aes_init) = 8" "g_keys aes_init = g_keys cipher_state"
    "g_lock_ready aes_init" "g_initialized aes_init" "session_get aes_init (Suc 0) = Some 0"
proof -
  obtain i j f where a: "session_get cipher_state 1 = Some i" "key_get cipher_state 1 = Some j"
    "enc_init toy_cipher no_view (plain_mech CKM_AES_ECB) (g_keys cipher_state ! j) = Some (CKR_OK, f)"
    "aes_init = upd_session i (\<lambda>s. encrypt_start (plain_mech CKM_AES_ECB) 1 (f s)) cipher_state"
    using aes_init by (rule encrypt_init_ok)
  have ij: "i = 0" "j = 0" using a(1,2) by (simp_all add: cipher_state_simps)
  have f: "f = (\<lambda>s. s\<lparr>enc_ctx := replicate 16 3\<rparr>)"
    using enc_init_block_ok [OF a(3) aes_block(1)] by (simp add: ij cipher_state_keys toy_cipher_def secret_bytes_def block_key_def plain_mech_def)
  show thesis by (rule that [OF refl]) (simp_all add: a(4) f ij cipher_state_simps zero_session_def plain_mech_def encrypt_start_def)
qed

lemma aes_encrypt:
  assumes "length d = 16"
  shows "C_Encrypt toy_crypto toy_cipher 1 (Some d) True (Some 64) aes_init = Some (aes_encrypted d, CKR_OK, Some 16, map (\<lambda>b. b + 3) d)"
  by (rule aes_session)
    (simp add: aes_encrypted_def C_Encrypt_def Let_def mech_defs sym_encrypt_op_def mech_block_size_def is_block_mech_def toy_cipher_def assms)

lemma aes_decrypt:
  assumes "length d = 16"
  shows "C_DecryptInit toy_cipher no_view 1 (Some (plain_mech CKM_AES_ECB)) 1 (aes_encrypted d) = Some (aes_decrypt d, CKR_OK)"
proof (rule aes_session)
  fix s
  assume s: "g_sessions aes_init ! 0 = s" "encrypt_active s" "\<not> encrypt_multipart s" "\<not> decrypt_active s" "s_logged_in s = 0"
    "encrypt_mech s = CKM_AES_ECB" "enc_ctx s = replicate 16 3" "length (g_sessions aes_init) = 8" "g_keys aes_init = g_keys cipher_state"
    "g_lock_ready aes_init" "g_initialized aes_init" "session_get aes_init (Suc 0) = Some 0"
  have e: "aes_encrypted d = upd_session 0 (\<lambda>s. encrypt_done (s\<lparr>enc_ctx := replicate 16 3\<rparr>)) aes_init"
    using s by (simp add: aes_encrypted_def C_Encrypt_def Let_def mech_defs sym_encrypt_op_def mech_block_size_def is_block_mech_def toy_cipher_def assms)
  have k: "key_get aes_init (Suc 0) = Some 0" using s(9) by (simp add: key_get_Some cipher_state_keys MAX_KEYS_def)
  show ?thesis
    using s by (simp add: aes_decrypt_def e C_DecryptInit_def k cipher_state_keys dec_init_def dec_init_block_def mech_required_key_type_def
      iv_bad_def mech_has_iv_def no_secret_def secret_bytes_def sym_setup_def toy_cipher_def plain_mech_def zero_key_def mech_defs Let_def
      encrypt_done_def CKO_SECRET_KEY_def CKO_CERTIFICATE_def)
qed

theorem decrypt_inverts_encrypt_witness:
  "\<exists>st4. C_Decrypt toy_crypto toy_cipher 1 (Some (replicate 16 10)) True (Some 64) (aes_decrypt (replicate 16 7)) = Some (st4, CKR_OK, Some 16, replicate 16 7)"
proof -
  have l: "length (replicate 16 (7 :: byte)) = 16" by simp
  have ops: "ops (g_keys cipher_state ! 0) = None" by (simp add: cipher_state_keys zero_key_def)
  show ?thesis
    using decrypt_inverts_encrypt [OF toy_cipher_laws(1) cipher_state_simps(3) disjI1 [OF aes_block(1)] aes_init aes_encrypt [OF l] aes_decrypt [OF l]
        cipher_state_simps(7) ops, of 64 toy_crypto]
    by simp
qed

theorem encrypt_parts_equal_oneshot_witness:
  "\<exists>st3 st4. encrypt_parts toy_cipher 1 [replicate 16 1, [], replicate 16 2] aes_init = (st3, Some (replicate 16 4 @ replicate 16 5))
     \<and> C_EncryptFinal 1 True (Some 64) st3 = (st4, CKR_OK, Some 0, [])"
proof -
  let ?ps = "[replicate 16 1, [], replicate 16 2] :: byte list list"
  have "\<exists>st2. C_Encrypt toy_crypto toy_cipher 1 (Some (concat ?ps)) True (Some 64) aes_init = Some (st2, CKR_OK, Some 32, replicate 16 4 @ replicate 16 5)"
    by (rule aes_session)
      (simp add: C_Encrypt_def Let_def mech_defs sym_encrypt_op_def mech_block_size_def is_block_mech_def toy_cipher_def)
  then obtain st2 where "C_Encrypt toy_crypto toy_cipher 1 (Some (concat ?ps)) True (Some 64) aes_init = Some (st2, CKR_OK, Some 32, replicate 16 4 @ replicate 16 5)" ..
  from encrypt_parts_equal_oneshot [OF toy_cipher_laws(2) cipher_state_simps(3) aes_block(1) aes_init this] show ?thesis
    by (simp add: aes_block(2))
qed

theorem short_des_key_undefined_witness:
  "C_EncryptInit toy_cipher no_view 1 (Some (plain_mech CKM_DES_ECB)) 2 cipher_state = None
   \<and> C_DecryptInit toy_cipher no_view 1 (Some (plain_mech CKM_DES_ECB)) 2 cipher_state = None"
  by (rule short_des_key_undefined [where sec = "[1, 2]", OF cipher_state_simps(1,2,5,8)])
    (simp_all add: cipher_state_simps cipher_state_keys zero_session_def zero_key_def plain_mech_def)

end
