(* ===== verification/Digest.thy ===== *)
theory Digest imports Objects begin

text \<open>
  Message digests of \<open>src/wp11_pkcs11.c\<close>: \<open>C_DigestInit\<close>, \<open>C_Digest\<close>, \<open>C_DigestUpdate\<close>, \<open>C_DigestKey\<close>,
  \<open>C_DigestFinal\<close>.  wolfCrypt's hash functions are parameters; the code ignores their return codes.
\<close>

record wc_digest =
  wc_init :: "nat \<Rightarrow> wc_ctx"
  wc_update :: "nat \<Rightarrow> wc_ctx \<Rightarrow> byte list \<Rightarrow> wc_ctx"
  wc_final :: "nat \<Rightarrow> wc_ctx \<Rightarrow> wc_ctx \<times> byte list"

definition is_digest_mech :: "nat \<Rightarrow> bool" where
  "is_digest_mech m \<longleftrightarrow> m \<in> {CKM_MD5, CKM_SHA_1, CKM_SHA256, CKM_SHA384, CKM_SHA512}"

section \<open>The operations\<close>

definition C_DigestInit :: "wc_digest \<Rightarrow> nat \<Rightarrow> CK_MECHANISM option \<Rightarrow> 'd wp11_state \<Rightarrow> 'd wp11_state \<times> CK_RV" where
  "C_DigestInit w hSession pMechanism st =
     (if \<not> g_lock_ready st \<or> \<not> g_initialized st then (st, CKR_CRYPTOKI_NOT_INITIALIZED)
      else case pMechanism of
        None \<Rightarrow> (st, CKR_ARGUMENTS_BAD)
      | Some m \<Rightarrow>
          (case session_get st hSession of
             None \<Rightarrow> (st, CKR_SESSION_HANDLE_INVALID)
           | Some i \<Rightarrow>
               if digest_active (g_sessions st ! i) then (st, CKR_OPERATION_ACTIVE)
               else if \<not> is_digest_mech (mechanism m) then (upd_session i (\<lambda>s. s\<lparr>digest_active := False\<rparr>) st, CKR_MECHANISM_INVALID)
               else (upd_session i (\<lambda>s. s\<lparr>dig_ctx := wc_init w (mechanism m), digest_active := True, digest_oneshot := False,
                       digest_multipart := False, digest_mech := mechanism m\<rparr>) st, CKR_OK)))"

definition digest_done :: "wp11_session \<Rightarrow> wp11_session" where
  "digest_done s = s\<lparr>digest_active := False, digest_oneshot := False, digest_multipart := False\<rparr>"

definition C_Digest :: "wc_digest \<Rightarrow> nat \<Rightarrow> byte list option \<Rightarrow> bool \<Rightarrow> nat option \<Rightarrow> 'd wp11_state \<Rightarrow> 'd op_result" where
  "C_Digest w hSession pData out_ok pulLen st =
     (if \<not> g_lock_ready st \<or> \<not> g_initialized st then (st, CKR_CRYPTOKI_NOT_INITIALIZED, pulLen, [])
      else case session_get st hSession of
        None \<Rightarrow> (st, CKR_SESSION_HANDLE_INVALID, pulLen, [])
      | Some i \<Rightarrow>
          let s = g_sessions st ! i; out_size = mech_digest_output_size (digest_mech s) in
          if \<not> digest_active s then (st, CKR_OPERATION_NOT_INITIALIZED, pulLen, [])
          else if digest_multipart s then (upd_session i digest_done st, CKR_OPERATION_ACTIVE, pulLen, [])
          else (case (pData, pulLen) of
             (Some d, Some cap) \<Rightarrow>
               if \<not> out_ok then (upd_session i (\<lambda>s. s\<lparr>digest_oneshot := True\<rparr>) st, CKR_OK, Some out_size, [])
               else if cap < out_size then (st, CKR_BUFFER_TOO_SMALL, Some out_size, [])
               else if \<not> is_digest_mech (digest_mech s)
               then (upd_session i (\<lambda>s. s\<lparr>digest_active := False\<rparr>) st, CKR_MECHANISM_INVALID, pulLen, [])
               else (case wc_final w (digest_mech s) (wc_update w (digest_mech s) (dig_ctx s) (as_word32 d)) of
                  (ctx, out) \<Rightarrow> (upd_session i (\<lambda>s. digest_done (s\<lparr>dig_ctx := ctx\<rparr>)) st, CKR_OK, Some out_size, out))
           | _ \<Rightarrow> (upd_session i (\<lambda>s. s\<lparr>digest_active := False\<rparr>) st, CKR_ARGUMENTS_BAD, pulLen, [])))"

definition digest_feed :: "wc_digest \<Rightarrow> nat \<Rightarrow> byte list \<Rightarrow> 'd wp11_state \<Rightarrow> 'd wp11_state \<times> CK_RV" where
  "digest_feed w i d st =
     (let m = digest_mech (g_sessions st ! i) in
      if \<not> is_digest_mech m then (upd_session i (\<lambda>s. s\<lparr>digest_active := False\<rparr>) st, CKR_MECHANISM_INVALID)
      else (upd_session i (\<lambda>s. s\<lparr>dig_ctx := wc_update w m (dig_ctx s) (as_word32 d), digest_multipart := True\<rparr>) st, CKR_OK))"

definition C_DigestUpdate :: "wc_digest \<Rightarrow> nat \<Rightarrow> byte list option \<Rightarrow> 'd wp11_state \<Rightarrow> 'd wp11_state \<times> CK_RV" where
  "C_DigestUpdate w hSession pPart st =
     (if \<not> g_lock_ready st \<or> \<not> g_initialized st then (st, CKR_CRYPTOKI_NOT_INITIALIZED)
      else case pPart of
        None \<Rightarrow> (st, CKR_ARGUMENTS_BAD)
      | Some d \<Rightarrow>
          (case session_get st hSession of
             None \<Rightarrow> (st, CKR_SESSION_HANDLE_INVALID)
           | Some i \<Rightarrow>
               if \<not> digest_active (g_sessions st ! i) then (st, CKR_OPERATION_NOT_INITIALIZED) else digest_feed w i d st))"

definition C_DigestKey :: "wc_digest \<Rightarrow> nat \<Rightarrow> nat \<Rightarrow> 'd wp11_state \<Rightarrow> 'd wp11_state \<times> CK_RV" where
  "C_DigestKey w hSession hKey st =
     (if \<not> g_lock_ready st \<or> \<not> g_initialized st then (st, CKR_CRYPTOKI_NOT_INITIALIZED)
      else case session_get st hSession of
        None \<Rightarrow> (st, CKR_SESSION_HANDLE_INVALID)
      | Some i \<Rightarrow>
          if \<not> digest_active (g_sessions st ! i) then (st, CKR_OPERATION_NOT_INITIALIZED)
          else case key_get st hKey of
            None \<Rightarrow> (st, CKR_KEY_HANDLE_INVALID)
          | Some j \<Rightarrow>
              (case secret (g_keys st ! j) of
                 None \<Rightarrow> (st, CKR_KEY_INDIGESTIBLE)
               | Some sec \<Rightarrow> if sec = [] then (st, CKR_KEY_INDIGESTIBLE) else digest_feed w i sec st))"

definition C_DigestFinal :: "wc_digest \<Rightarrow> nat \<Rightarrow> bool \<Rightarrow> nat option \<Rightarrow> 'd wp11_state \<Rightarrow> 'd op_result" where
  "C_DigestFinal w hSession out_ok pulLen st =
     (if \<not> g_lock_ready st \<or> \<not> g_initialized st then (st, CKR_CRYPTOKI_NOT_INITIALIZED, pulLen, [])
      else case session_get st hSession of
        None \<Rightarrow> (st, CKR_SESSION_HANDLE_INVALID, pulLen, [])
      | Some i \<Rightarrow>
          let s = g_sessions st ! i; out_size = mech_digest_output_size (digest_mech s) in
          if \<not> digest_active s then (st, CKR_OPERATION_NOT_INITIALIZED, pulLen, [])
          else if digest_oneshot s then (upd_session i digest_done st, CKR_OPERATION_ACTIVE, pulLen, [])
          else (case pulLen of
             None \<Rightarrow> (upd_session i (\<lambda>s. s\<lparr>digest_active := False\<rparr>) st, CKR_ARGUMENTS_BAD, None, [])
           | Some cap \<Rightarrow>
               if \<not> out_ok then (st, CKR_OK, Some out_size, [])
               else if cap < out_size then (st, CKR_BUFFER_TOO_SMALL, Some out_size, [])
               else if \<not> is_digest_mech (digest_mech s)
               then (upd_session i (\<lambda>s. s\<lparr>digest_active := False\<rparr>) st, CKR_MECHANISM_INVALID, pulLen, [])
               else (case wc_final w (digest_mech s) (dig_ctx s) of
                  (ctx, out) \<Rightarrow> (upd_session i (\<lambda>s. digest_done (s\<lparr>dig_ctx := ctx\<rparr>)) st, CKR_OK, Some out_size, out))))"

section \<open>In parts or at once\<close>

text \<open>What wolfCrypt documents of its hash contexts: the data of consecutive updates is one message.\<close>

definition hash_streams :: "wc_digest \<Rightarrow> bool" where
  "hash_streams w \<longleftrightarrow> (\<forall>m c a b. wc_update w m (wc_update w m c a) b = wc_update w m c (a @ b)) \<and> (\<forall>m c. wc_update w m c [] = c)"

definition digest_parts :: "wc_digest \<Rightarrow> nat \<Rightarrow> byte list list \<Rightarrow> 'd wp11_state \<Rightarrow> 'd wp11_state" where
  "digest_parts w h ps st = fold (\<lambda>p st. fst (C_DigestUpdate w h (Some p) st)) ps st"

text \<open>A session in the middle of a digest.\<close>

definition digesting :: "wc_digest \<Rightarrow> nat \<Rightarrow> nat \<Rightarrow> nat \<Rightarrow> wc_ctx \<Rightarrow> 'd wp11_state \<Rightarrow> bool" where
  "digesting w h i m c st \<longleftrightarrow> g_lock_ready st \<and> g_initialized st \<and> tables_ok st \<and> session_get st h = Some i
     \<and> digest_active (g_sessions st ! i) \<and> \<not> digest_oneshot (g_sessions st ! i) \<and> digest_mech (g_sessions st ! i) = m
     \<and> is_digest_mech m \<and> dig_ctx (g_sessions st ! i) = c"

lemma digesting_init:
  assumes "C_DigestInit w h (Some mch) st = (st1, CKR_OK)" "tables_ok st"
  obtains i where "digesting w h i (mechanism mch) (wc_init w (mechanism mch)) st1" "\<not> digest_multipart (g_sessions st1 ! i)"
proof -
  obtain i where i: "g_lock_ready st" "g_initialized st" "session_get st h = Some i" "is_digest_mech (mechanism mch)"
    "st1 = upd_session i (\<lambda>s. s\<lparr>dig_ctx := wc_init w (mechanism mch), digest_active := True, digest_oneshot := False,
                       digest_multipart := False, digest_mech := mechanism mch\<rparr>) st"
    using assms(1) by (auto simp: C_DigestInit_def split: if_splits option.splits)
  note b = session_get_bound [OF i(3) assms(2)]
  show thesis using i b assms(2) by (intro that [of i]) (simp_all add: digesting_def)
qed

lemma digesting_update:
  assumes "digesting w h i m c st" "length p < 4294967296"
  shows "digesting w h i m (wc_update w m c p) (fst (C_DigestUpdate w h (Some p) st))"
  using assms session_get_bound [of st h i] by (simp add: digesting_def C_DigestUpdate_def digest_feed_def)

lemma digesting_parts:
  assumes "hash_streams w" "\<forall>p \<in> set ps. length p < 4294967296" "digesting w h i m c st"
  shows "digesting w h i m (wc_update w m c (concat ps)) (digest_parts w h ps st)"
  using assms(2,3)
proof (induction ps arbitrary: c st)
  case Nil
  then show ?case using assms(1) by (simp add: digest_parts_def hash_streams_def)
next
  case (Cons p ps)
  have "digesting w h i m (wc_update w m (wc_update w m c p) (concat ps)) (digest_parts w h ps (fst (C_DigestUpdate w h (Some p) st)))"
    using Cons.prems by (intro Cons.IH digesting_update) auto
  then show ?case using assms(1) by (simp add: digest_parts_def hash_streams_def)
qed

text \<open>C17. A digest in parts equals the digest at once: after a successful \<open>C_DigestInit\<close>, feeding any parts (each, and all
  together, below 4 GiB) by \<open>C_DigestUpdate\<close> and closing with \<open>C_DigestFinal\<close> gives return code, length and digest of
  \<open>C_Digest\<close> over the concatenation.\<close>
theorem digest_parts_equal_oneshot:
  assumes "hash_streams w" "tables_ok st" "C_DigestInit w h (Some mch) st = (st1, CKR_OK)"
    and "\<forall>p \<in> set ps. length p < 4294967296" "length (concat ps) < 4294967296" "mech_digest_output_size (mechanism mch) \<le> cap"
  shows "snd (C_DigestFinal w h True (Some cap) (digest_parts w h ps st1)) = snd (C_Digest w h (Some (concat ps)) True (Some cap) st1)
    \<and> snd (C_Digest w h (Some (concat ps)) True (Some cap) st1) =
        (CKR_OK, Some (mech_digest_output_size (mechanism mch)),
         snd (wc_final w (mechanism mch) (wc_update w (mechanism mch) (wc_init w (mechanism mch)) (concat ps))))"
proof -
  obtain i where d: "digesting w h i (mechanism mch) (wc_init w (mechanism mch)) st1" "\<not> digest_multipart (g_sessions st1 ! i)"
    by (rule digesting_init [OF assms(3,2)])
  from digesting_parts [OF assms(1,4) d(1)] d assms(5,6) show ?thesis
    by (simp add: digesting_def C_DigestFinal_def C_Digest_def Let_def split: prod.split)
qed

definition toy_digest :: wc_digest where
  "toy_digest = \<lparr>wc_init = (\<lambda>m. []), wc_update = (\<lambda>m c d. c @ d),
     wc_final = (\<lambda>m c. ([], take (mech_digest_output_size m) (c @ replicate 64 0)))\<rparr>"

definition sha256_mech :: CK_MECHANISM where
  "sha256_mech = \<lparr>mechanism = CKM_SHA256, pParameter = None, ulParameterLen = 0\<rparr>"

lemma digest_init_demo: "C_DigestInit toy_digest 1 (Some sha256_mech) (session_state :: unit wp11_state) =
    (fst (C_DigestInit toy_digest 1 (Some sha256_mech) session_state), CKR_OK)"
  by (simp add: C_DigestInit_def zero_session_def is_digest_mech_def sha256_mech_def)

theorem digest_parts_equal_oneshot_witness:
  "snd (C_DigestFinal toy_digest 1 True (Some 64) (digest_parts toy_digest 1 [[1, 2], [], [3]]
      (fst (C_DigestInit toy_digest 1 (Some sha256_mech) (session_state :: unit wp11_state)))))
   = (CKR_OK, Some 32, [1, 2, 3] @ replicate 29 0)"
proof -
  let ?ps = "[[1, 2], [], [3]] :: byte list list"
  have h: "hash_streams toy_digest" by (simp add: hash_streams_def toy_digest_def)
  have e: "snd (wc_final toy_digest (mechanism sha256_mech)
      (wc_update toy_digest (mechanism sha256_mech) (wc_init toy_digest (mechanism sha256_mech)) (concat ?ps))) = [1, 2, 3] @ replicate 29 0"
    and n: "mech_digest_output_size (mechanism sha256_mech) = 32" by code_simp+
  have "mech_digest_output_size (mechanism sha256_mech) \<le> 64" unfolding n by simp
  from digest_parts_equal_oneshot [OF h session_state_simps(3) digest_init_demo _ _ this, of ?ps]
  show ?thesis unfolding e n by simp
qed

text \<open>\<open>C_Digest\<close> hashes only the data length modulo 4 GiB: the length is cast to 32 bits without a check, so two
  messages that agree in their first bytes, one of them 4 GiB longer, have the same digest.\<close>
theorem digest_length_wraps:
  assumes "length d = 4294967296 + n" "n < 4294967296"
  shows "C_Digest w h (Some d) out_ok pulLen st = C_Digest w h (Some (take n d)) out_ok pulLen st"
proof -
  have "as_word32 d = as_word32 (take n d)" using assms by (simp add: as_word32_def)
  then show ?thesis by (simp add: C_Digest_def Let_def split: option.split)
qed

theorem digest_length_wraps_witness:
  "C_Digest toy_digest 1 (Some (replicate 4294967298 7)) True (Some 64) (session_state :: unit wp11_state)
   = C_Digest toy_digest 1 (Some (take 2 (replicate 4294967298 7))) True (Some 64) session_state"
  by (rule digest_length_wraps) simp_all

end
