(* ===== verification/KeyFrame.thy ===== *)
theory KeyFrame imports LoginInv KeyGen Cipher Digest begin

text \<open>
  What an operation leaves alone.  A plain object is an entry in use without a backend: what \<open>C_CreateObject\<close>, \<open>C_CopyObject\<close>
  and \<open>C_GenerateKey\<close> make.  No operation but \<open>C_DestroyObject\<close> and \<open>C_SetAttributeValue\<close> changes the entry of a plain
  object; most keep the login view too, and the two together are the relation \<open>calm\<close>.
\<close>

section \<open>The two frames\<close>

definition is_plain :: "wp11_key_obj \<Rightarrow> bool" where
  "is_plain k \<longleftrightarrow> k_in_use k \<and> ops k = None"

definition keeps_plain :: "'d wp11_state \<Rightarrow> 'd wp11_state \<Rightarrow> bool" where
  "keeps_plain st st' \<longleftrightarrow> (\<forall>j < length (g_keys st). is_plain (g_keys st ! j) \<longrightarrow> j < length (g_keys st') \<and> g_keys st' ! j = g_keys st ! j)"

definition calm :: "'d wp11_state \<Rightarrow> 'd wp11_state \<Rightarrow> bool" where
  "calm st st' \<longleftrightarrow> same_view st st' \<and> keeps_plain st st'"

lemma keeps_plainD: "keeps_plain st st' \<Longrightarrow> j < length (g_keys st) \<Longrightarrow> is_plain (g_keys st ! j) \<Longrightarrow> g_keys st' ! j = g_keys st ! j"
  by (simp add: keeps_plain_def)

lemma plain_eq: "g_keys st' = g_keys st \<Longrightarrow> keeps_plain st st'"
  by (simp add: keeps_plain_def)

lemma plain_refl [simp, intro!]: "keeps_plain st st"
  by (simp add: keeps_plain_def)

lemma plain_trans [trans]: "keeps_plain a b \<Longrightarrow> keeps_plain b c \<Longrightarrow> keeps_plain a c"
  unfolding keeps_plain_def by metis

lemma plain_cong: "g_keys st' = g_keys st2 \<Longrightarrow> keeps_plain st st2 \<Longrightarrow> keeps_plain st st'"
  by (simp add: keeps_plain_def)

lemma plain_upd: "\<not> is_plain (g_keys st ! i) \<Longrightarrow> keeps_plain st (st\<lparr>g_keys := (g_keys st)[i := k]\<rparr>)"
  by (auto simp: keeps_plain_def) (metis nth_list_update_neq)

lemma calm_refl [simp, intro!]: "calm st st"
  by (simp add: calm_def)

lemma calm_trans [trans]: "calm a b \<Longrightarrow> calm b c \<Longrightarrow> calm a c"
  unfolding calm_def using same_view_trans plain_trans by blast

lemma calm_heap [simp]:
  "calm st (st\<lparr>heap := h\<rparr>)" "calm st (st\<lparr>ccids := c\<rparr>)" "calm st (st\<lparr>privs := p\<rparr>)" "calm st (st\<lparr>priv_next := n\<rparr>)"
  "calm st (st\<lparr>priv_next := n, privs := p\<rparr>)"
  by (simp_all add: calm_def plain_eq)

lemma calm_session: "(\<And>s. sess_core (f s) = sess_core s) \<Longrightarrow> calm st (upd_session i f st)"
  by (simp add: calm_def view_upd_session plain_eq)

lemma calm_session2: "calm st st1 \<Longrightarrow> (\<And>s. sess_core (f s) = sess_core s) \<Longrightarrow> calm st (upd_session i f st1)"
  using calm_trans calm_session by blast

lemma calm_key: "\<not> is_plain (g_keys st ! i) \<Longrightarrow> calm st (st\<lparr>g_keys := (g_keys st)[i := k]\<rparr>)"
  by (simp add: calm_def plain_upd)

lemma free_not_plain: "free_key st = Some i \<Longrightarrow> \<not> is_plain (g_keys st ! i)"
  using free_key_Some by (auto simp: is_plain_def)

section \<open>Digests\<close>

lemma calm_digest:
  "calm st (fst (C_DigestInit w h m st))" "calm st (fst (C_Digest w h d ok n st))" "calm st (fst (C_DigestUpdate w h d st))"
  "calm st (fst (C_DigestKey w h k st))" "calm st (fst (C_DigestFinal w h ok n st))"
  by (auto simp: C_DigestInit_def C_Digest_def C_DigestUpdate_def C_DigestKey_def C_DigestFinal_def digest_done_def digest_feed_def sess_core_def Let_def
      split: option.split prod.split intro!: calm_session)

section \<open>Signatures\<close>

lemma calm_ccids: "st' = st\<lparr>ccids := c\<rparr> \<Longrightarrow> calm st st'"
  by simp

lemma core_done [simp]: "sess_core (sign_done s) = sess_core s" "sess_core (verify_done s) = sess_core s"
  "sess_core (encrypt_stop s) = sess_core s" "sess_core (encrypt_done s) = sess_core s" "sess_core (encrypt_start m k s) = sess_core s"
  "sess_core (decrypt_stop s) = sess_core s" "sess_core (decrypt_done s) = sess_core s" "sess_core (decrypt_start m k s) = sess_core s"
  by (simp_all add: sess_core_def sign_done_def verify_done_def encrypt_stop_def encrypt_done_def encrypt_start_def decrypt_stop_def
      decrypt_done_def decrypt_start_def)

lemma calm_backend_sign_op: "backend_sign_op env i s obj d ok cap st = Some (st', r) \<Longrightarrow> calm st st'"
  by (auto simp: backend_sign_op_def pss_sign_op_def split: if_splits option.splits sum.splits
      dest!: backend_sign_frame calm_ccids intro!: calm_session2)

lemma calm_sign: "C_Sign env h d ok n st = Some (st', r) \<Longrightarrow> calm st st'"
  by (auto simp: C_Sign_def hmac_sign_def Let_def split: if_splits option.splits dest: calm_backend_sign_op intro!: calm_session)

lemma calm_inits: "calm st (fst (C_SignInit h m k st))" "calm st (fst (C_VerifyInit h m k st))"
  by (auto simp: C_SignInit_def C_VerifyInit_def sess_core_def Let_def split: option.split sum.split intro!: calm_session)

lemma calm_verify: "C_Verify env h d sg st = Some (st', rv) \<Longrightarrow> calm st st'"
  by (auto simp: C_Verify_def hmac_verify_def backend_verify_op_def pss_verify_op_def Let_def split: if_splits option.splits intro!: calm_session)

section \<open>Ciphers\<close>

lemma core_init:
  "enc_init w pv m obj = Some (rv, f) \<Longrightarrow> sess_core (f s) = sess_core s"
  "dec_init w pv m obj = Some (rv, f) \<Longrightarrow> sess_core (f s) = sess_core s"
  by (auto simp: enc_init_def enc_init_gcm_def enc_init_block_def dec_init_def dec_init_gcm_def dec_init_block_def init_fail_def sess_core_def
      split: if_splits option.splits sum.splits prod.splits)

lemma calm_cipher_inits:
  "C_EncryptInit w pv h m k st = Some (st', rv) \<Longrightarrow> calm st st'" "C_DecryptInit w pv h m k st = Some (st', rv) \<Longrightarrow> calm st st'"
  by (auto simp: C_EncryptInit_def C_DecryptInit_def Let_def core_init split: if_splits option.splits intro!: calm_session)

lemma calm_soft_free [simp]: "calm st (wp11_soft_key_free p st)"
  by (auto simp: wp11_soft_key_free_def split: option.split priv_obj.split)

lemma calm_free_tmp: "calm st st1 \<Longrightarrow> calm st (free_tmp t st1)"
  using calm_trans [OF _ calm_soft_free] by (auto simp: free_tmp_def split: option.split)

lemma calm_new_from_der: "wp11_soft_key_new_from_der env der t st = (st', r) \<Longrightarrow> calm st st'"
  by (auto simp: wp11_soft_key_new_from_der_def split: option.splits if_splits)

lemma calm_oaep_key: "oaep_key env obj p st = Some (st', r) \<Longrightarrow> calm st st'"
  by (auto simp: oaep_key_def split: if_splits option.splits prod.splits dest: calm_new_from_der)

lemma core_flags [simp]:
  "sess_core (s\<lparr>encrypt_oneshot := b\<rparr>) = sess_core s" "sess_core (s\<lparr>decrypt_oneshot := b\<rparr>) = sess_core s"
  "sess_core (s\<lparr>enc_ctx := c\<rparr>) = sess_core s" "sess_core (s\<lparr>dec_ctx := c\<rparr>) = sess_core s"
  "sess_core (s\<lparr>enc_ctx := c, encrypt_multipart := b\<rparr>) = sess_core s" "sess_core (s\<lparr>dec_ctx := c, decrypt_multipart := b\<rparr>) = sess_core s"
  by (simp_all add: sess_core_def)

lemma calm_encrypt_ops:
  "rsa_encrypt_op env i s d ok cap st = Some (st', r) \<Longrightarrow> calm st st'" "oaep_encrypt_op env i s d ok cap st = Some (st', r) \<Longrightarrow> calm st st'"
  "gcm_encrypt_op w i s d ok cap st = (st', r) \<Longrightarrow> calm st st'" "sym_encrypt_op w i s d ok cap st = (st', r) \<Longrightarrow> calm st st'"
  by (auto simp: rsa_encrypt_op_def oaep_encrypt_op_def gcm_encrypt_op_def sym_encrypt_op_def Let_def
      split: if_splits option.splits sum.splits prod.splits dest!: calm_oaep_key intro!: calm_session2 calm_free_tmp)

lemma calm_encrypt: "C_Encrypt env w h d ok n st = Some (st', r) \<Longrightarrow> calm st st'"
  by (auto simp: C_Encrypt_def Let_def split: if_splits option.splits dest: calm_encrypt_ops intro!: calm_session2)

lemma calm_decrypt_ops:
  "oaep_decrypt_op env i s obj d ok cap st = Some (st', r) \<Longrightarrow> calm st st'" "gcm_decrypt_op w i s d ok cap st = (st', r) \<Longrightarrow> calm st st'"
  "sym_decrypt_op w i s d cap st = (st', r) \<Longrightarrow> calm st st'" "backend_decrypt_op env i s obj t d cap st = Some (st', r) \<Longrightarrow> calm st st'"
  by (auto simp: oaep_decrypt_op_def gcm_decrypt_op_def sym_decrypt_op_def backend_decrypt_op_def Let_def
      split: if_splits option.splits sum.splits prod.splits dest!: calm_oaep_key intro!: calm_session2 calm_free_tmp)

lemma calm_decrypt: "C_Decrypt env w h d ok n st = Some (st', r) \<Longrightarrow> calm st st'"
  by (auto simp: C_Decrypt_def Let_def split: if_splits option.splits dest: calm_decrypt_ops intro!: calm_session2)

lemma calm_cipher_parts:
  "calm st (fst (C_EncryptUpdate w h d ok n st))" "calm st (fst (C_EncryptFinal h ok n st))"
  "calm st (fst (C_DecryptUpdate w h d ok n st))" "calm st (fst (C_DecryptFinal h ok n st))"
  by (auto simp: C_EncryptUpdate_def C_EncryptFinal_def C_DecryptUpdate_def C_DecryptFinal_def Let_def split: option.split prod.split
      intro!: calm_session2)

section \<open>New objects\<close>

lemma calm_create: "C_CreateObject beh ok h tmpl ph st = Some (st', r) \<Longrightarrow> calm st st'"
  by (auto simp: C_CreateObject_def Let_def free_not_plain split: if_splits option.splits intro!: calm_key)

lemma calm_generate: "C_GenerateKey env beh h m tmpl ph st = Some (st', r) \<Longrightarrow> calm st st'"
  by (auto simp: C_GenerateKey_def Let_def free_not_plain split: if_splits option.splits sum.splits intro!: calm_key)

lemma calm_copy: "calm st (fst (C_CopyObject mallocs h ob tmpl ph st))"
  by (auto simp: C_CopyObject_def Let_def free_not_plain split: option.split prod.split intro!: calm_key)

lemma calm_derive_backend: "backend_derive env t p m peer n st = Some (st', r) \<Longrightarrow> calm st st'"
  using backend_derive_frame calm_ccids by blast

lemma calm_key2: "calm st a \<Longrightarrow> \<not> is_plain (g_keys a ! i) \<Longrightarrow> calm st (a\<lparr>g_keys := (g_keys a)[i := k]\<rparr>)"
  using calm_trans calm_key by blast

lemma calm_derive: "C_DeriveKey env params h m hk ph st = Some (st', r) \<Longrightarrow> calm st st'"
  by (auto simp: C_DeriveKey_def free_not_plain split: if_splits option.splits sum.splits dest!: calm_derive_backend intro!: calm_key2)

section \<open>Key pairs\<close>

lemma calm_keys2:
  "\<not> is_plain (g_keys st ! a) \<Longrightarrow> \<not> is_plain (g_keys st ! b) \<Longrightarrow> calm st (st\<lparr>g_keys := (g_keys st)[a := x, b := y]\<rparr>)"
  by (auto simp: calm_def keeps_plain_def) (metis nth_list_update_neq)

lemma calm_save: "soft_slot_save env cio slot fs st = Some (st', r) \<Longrightarrow> calm st st'"
  by (auto simp: soft_slot_save_def Let_def split: if_splits option.splits prod.splits bool.splits)

lemma calm_new_pair: "new_pair_key env mech bits p384 st = (st1, r) \<Longrightarrow> calm st st1 \<and> g_keys st1 = g_keys st"
  by (auto simp: new_pair_key_def wp11_soft_key_new_rsa_def wp11_soft_key_new_ed25519_def wp11_soft_key_new_ecc_p384_def
      wp11_soft_key_new_ecc_p256_def soft_key_new_def Let_def split: if_splits option.splits)

lemma calm_ref [simp]: "calm st (wp11_soft_key_ref p st)" "g_keys (wp11_soft_key_ref p st) = g_keys st"
  by (simp_all add: wp11_soft_key_ref_def split: option.split priv_obj.split)

lemma two_free_plain: "two_free st = Some (a, b) \<Longrightarrow> \<not> is_plain (g_keys st ! a) \<and> \<not> is_plain (g_keys st ! b)"
proof -
  assume "two_free st = Some (a, b)"
  then obtain r where r: "filter (\<lambda>i. \<not> k_in_use (g_keys st ! i)) [0..<MAX_KEYS] = a # b # r" by (auto simp: two_free_def split: list.splits)
  have "a \<in> set (filter (\<lambda>i. \<not> k_in_use (g_keys st ! i)) [0..<MAX_KEYS])" "b \<in> set (filter (\<lambda>i. \<not> k_in_use (g_keys st ! i)) [0..<MAX_KEYS])"
    unfolding r by simp_all
  then show ?thesis by (simp add: is_plain_def)
qed

lemma calm_soft_pair:
  assumes "soft_pair cfg env cio fs slot mech dims priv lbl st = Some (st', r)"
  shows "calm st st'"
proof (cases "two_free st")
  case None
  then show ?thesis using assms by (simp add: soft_pair_def)
next
  case (Some ab)
  obtain a b where ab: "two_free st = Some (a, b)" using Some by (cases ab) auto
  obtain st1 p where n: "new_pair_key env mech (fst dims) (snd dims) st = (st1, p)" by fastforce
  note c = calm_new_pair [OF n]
  have two: "calm st ((wp11_soft_key_ref q st1)\<lparr>g_keys := (g_keys st)[a := x, b := y]\<rparr>)" for q x y
  proof -
    have k: "g_keys (wp11_soft_key_ref q st1) = g_keys st" using c by simp
    have "calm (wp11_soft_key_ref q st1) ((wp11_soft_key_ref q st1)\<lparr>g_keys := (g_keys (wp11_soft_key_ref q st1))[a := x, b := y]\<rparr>)"
      by (rule calm_keys2) (use two_free_plain [OF ab] k in simp_all)
    then show ?thesis unfolding k using c calm_trans calm_ref(1) by blast
  qed
  show ?thesis
    using assms ab n c two by (auto simp: soft_pair_def Let_def split: option.splits if_splits dest!: calm_save intro: calm_trans)
qed

lemma calm_piv_object:
  assumes "piv_pair_object env slot c tgt alg st = (st1, r)"
  shows "calm st st1 \<and> (case r of None \<Rightarrow> True | Some gi \<Rightarrow> \<not> is_plain (g_keys st1 ! gi))"
proof (cases "first_index (is_piv_key slot tgt) (g_keys st)")
  case (Some gi)
  then have "is_piv_key slot tgt (g_keys st ! gi)" using first_index_Some by fastforce
  then have "\<not> is_plain (g_keys st ! gi)" by (auto simp: is_piv_key_def usb_key_of_def is_plain_def)
  moreover have "st1 = st" "r = Some gi" using Some assms by (simp_all add: piv_pair_object_def)
  ultimately show ?thesis by simp
next
  case None
  have u: "calm st (st\<lparr>priv_next := n, privs := p, g_keys := (g_keys st)[gi := k]\<rparr>)" if "free_key st = Some gi" for n p gi k
    using calm_key2 [OF calm_heap(5) [of st p n], of gi k] free_not_plain [OF that] by simp
  show ?thesis using assms None free_key_Some [of st]
    by (auto simp: piv_pair_object_def Let_def is_plain_def u split: option.splits if_splits)
qed

lemma calm_piv_pair: "piv_pair env slot mech prv lbl st = Some (st', r) \<Longrightarrow> calm st st'"
  by (auto simp: piv_pair_def Let_def split: if_splits option.splits sum.splits prod.splits dest!: calm_piv_object
      intro: calm_trans [OF calm_heap(2)] intro!: calm_key2)

lemma calm_pair: "C_GenerateKeyPair cfg env cio fs beh h m pub prv ph st = Some (st', r) \<Longrightarrow> calm st st'"
  by (auto simp: C_GenerateKeyPair_def Let_def split: if_splits option.splits sum.splits prod.splits dest: calm_soft_pair calm_piv_pair)

section \<open>Login, logout and events\<close>

text \<open>These change the login view, but no plain object: the tables they fill and clear belong to a backend.\<close>

lemma plain_out [simp]:
  "keeps_plain st (upd_slot i f s) = keeps_plain st s" "keeps_plain st (upd_session i g s) = keeps_plain st s"
  "keeps_plain st (on_slot_sessions i g s) = keeps_plain st s" "keeps_plain st (s\<lparr>heap := h\<rparr>) = keeps_plain st s"
  "keeps_plain st (s\<lparr>ccids := c\<rparr>) = keeps_plain st s" "keeps_plain st (s\<lparr>ccid_next := n\<rparr>) = keeps_plain st s"
  "keeps_plain st (s\<lparr>privs := p\<rparr>) = keeps_plain st s" "keeps_plain st (s\<lparr>priv_next := n\<rparr>) = keeps_plain st s"
  "keeps_plain st (s\<lparr>priv_next := n, privs := p\<rparr>) = keeps_plain st s" "keeps_plain st (s\<lparr>g_sessions := ss\<rparr>) = keeps_plain st s"
  "keeps_plain st (keystore_release k s) = keeps_plain st s" "keeps_plain st (hotplug_push_event e a s) = keeps_plain st s"
  by (simp_all add: keeps_plain_def upd_slot_def upd_session_def on_slot_sessions_def keystore_release_def hotplug_push_event_def)

lemma plain_ccid_close [simp]: "keeps_plain st (ccid_close c s) = keeps_plain st s"
  by (simp add: ccid_close_def split: option.split)

lemma keys_release [simp]: "g_keys (release_keys P st) = g_keys st"
proof -
  have "g_keys (fold (\<lambda>k s. if P k then free_key_priv k s else s) ks s) = g_keys s" for ks and s :: "'a wp11_state"
    by (induction ks arbitrary: s) simp_all
  then show ?thesis by (simp add: release_keys_def)
qed

lemma plain_wipe: "(\<And>k. P k \<Longrightarrow> \<not> is_plain k) \<Longrightarrow> keeps_plain st (wipe_keys P st)"
  by (auto simp: keeps_plain_def wipe_keys_def)

lemma plain_clear:
  "keeps_plain st s \<Longrightarrow> keeps_plain st (piv_slot_clear_keys i s)" "keeps_plain st s \<Longrightarrow> keeps_plain st (soft_slot_clear_keys i s)"
  "keeps_plain st s \<Longrightarrow> keeps_plain st (ks_slot_clear_keys i s)"
  unfolding piv_slot_clear_keys_def soft_slot_clear_keys_def ks_slot_clear_keys_def
  by (erule plain_trans, rule plain_trans [OF plain_eq [OF keys_release] plain_wipe] plain_wipe,
      auto simp: usb_key_of_def soft_key_of_def ks_key_of_def is_plain_def split: option.splits)+

lemma plain_put: "put_key f st = Some st' \<Longrightarrow> keeps_plain st st'"
  using first_index_Some [of "\<lambda>k. \<not> k_in_use k" "g_keys st"] by (auto simp: put_key_def is_plain_def split: option.splits intro!: plain_upd)

lemma plain_put2: "put_key f s = Some st' \<Longrightarrow> keeps_plain st s \<Longrightarrow> keeps_plain st st'"
  using plain_put plain_trans by blast

lemma plain_new_from_der: "wp11_soft_key_new_from_der env der t s = (st', r) \<Longrightarrow> keeps_plain st s \<Longrightarrow> keeps_plain st st'"
  using calm_new_from_der plain_trans unfolding calm_def by blast

lemma plain_populate:
  "keeps_plain st s \<Longrightarrow> keeps_plain st (fst (ks_populate env i b t es s))" "keeps_plain st s \<Longrightarrow> keeps_plain st (fst (soft_populate env i es s))"
  "keeps_plain st s \<Longrightarrow> keeps_plain st (fst (piv_make_keys env i c rs s))" "keeps_plain st s \<Longrightarrow> keeps_plain st (snd (piv_make_certs env i rs ctx s))"
proof -
  show "keeps_plain st s \<Longrightarrow> keeps_plain st (fst (ks_populate env i b t es s))"
    by (induction es arbitrary: s) (auto split: option.split dest: plain_put2)
  show "keeps_plain st s \<Longrightarrow> keeps_plain st (fst (soft_populate env i es s))"
    by (induction es arbitrary: s) (auto split: option.split prod.split dest!: plain_put2 plain_new_from_der)
  show "keeps_plain st s \<Longrightarrow> keeps_plain st (fst (piv_make_keys env i c rs s))"
    by (induction rs arbitrary: s) (auto simp: Let_def split: option.split dest: plain_put2)
  show "keeps_plain st s \<Longrightarrow> keeps_plain st (snd (piv_make_certs env i rs ctx s))"
    by (induction rs arbitrary: s ctx) (auto split: option.split prod.split sum.split dest: plain_put2)
qed

lemma plain_piv_login: "keeps_plain st (fst (piv_login env i pin st))"
proof -
  have k: "keeps_plain st st1" if "piv_make_keys env i c rows (st\<lparr>ccid_next := n\<rparr>) = (st1, b)" for c rows n st1 b
    using plain_populate(3) [of st "st\<lparr>ccid_next := n\<rparr>" env i c rows] that by simp
  then have "keeps_plain st st2" if "piv_make_keys env i c rows (st\<lparr>ccid_next := n\<rparr>) = (st1, b)" "piv_make_certs env i rows' ctx st1 = (ctx', st2)" for c rows n st1 b rows' ctx ctx' st2
    using plain_populate(4) [OF k [OF that(1)], of env i rows' ctx] that(2) by simp
  with k show ?thesis
    by (auto simp: piv_login_def Let_def split: option.split prod.split sum.split bool.split intro: plain_clear(1))
qed

lemma plain_load: "keystore_load_path env n p pin st = Some (st', r) \<Longrightarrow> keeps_plain st st'"
  by (auto simp: keystore_load_path_def split: option.splits)

lemma plain_keystore_login:
  assumes "keystore_login env n i t pin st = Some (st', rv)"
  shows "keeps_plain st st'"
proof -
  obtain st1 r where l: "keystore_load_path env n (keystore_path (g_slots st ! i)) pin st = Some (st1, r)"
    using assms by (auto simp: keystore_login_def split: option.splits)
  have "keeps_plain st (fst (ks_slot_populate_keys env i ks t (upd_slot i (\<lambda>s. s\<lparr>keystore := Some ks\<rparr>) st1)))" for ks
    unfolding ks_slot_populate_keys_def by (rule plain_populate(1)) (simp add: plain_load [OF l])
  then show ?thesis
    using assms l plain_load [OF l]
    by (auto simp: keystore_login_def split: sum.splits if_splits prod.splits intro: plain_clear(3)) (metis fst_conv plain_clear(3))+
qed

lemma plain_soft_login:
  assumes "soft_login env i pin st = Some (st', rv)"
  shows "keeps_plain st st'"
proof -
  obtain st1 r where l: "keystore_load_path env 0 (keystore_path (g_slots st ! i)) pin st = Some (st1, r)"
    using assms by (auto simp: soft_login_def split: option.splits)
  have "keeps_plain st (fst (soft_slot_populate_keys env i ks (upd_slot i (\<lambda>s. s\<lparr>soft_pin_locked := True, soft_pin := p\<rparr>) st1)))" for ks p
    unfolding soft_slot_populate_keys_def by (rule plain_populate(2)) (simp add: plain_load [OF l])
  then show ?thesis
    using assms l plain_load [OF l]
    by (auto simp: soft_login_def Let_def split: sum.splits if_splits prod.splits intro: plain_clear(2)) (metis fst_conv plain_clear(2))+
qed

lemma plain_parts:
  "flash_part cfg env i pin st = Some (st', rv) \<Longrightarrow> keeps_plain st st'"
  "fsdir_part cfg env i pin st = Some (st', rv) \<Longrightarrow> keeps_plain st st'"
  by (auto simp: flash_part_def fsdir_part_def split: if_splits option.splits dest: plain_keystore_login plain_soft_login)

lemma plain_login_user:
  assumes "login_user cfg env i pin st = Some (st', rv)"
  shows "keeps_plain st st'"
proof -
  have p: "keeps_plain st st1" if "(if CFG_USB cfg \<and> sl_proto (g_slots st ! i) = PROTO_PIV then Some (piv_login env i pin st) else Some (st, CKR_OK)) = Some (st1, r)"
    for st1 r using that plain_piv_login [of st env i pin] by (auto split: if_splits)
  show ?thesis
    using assms [unfolded login_user_def]
  proof (elim rv_thenE)
    fix a b c
    assume first: "(if CFG_USB cfg \<and> sl_proto (g_slots st ! i) = PROTO_PIV then Some (piv_login env i pin st) else Some (st, CKR_OK)) = Some (a, CKR_OK)"
      and parts: "flash_part cfg env i pin a = Some (b, CKR_OK)" "fsdir_part cfg env i pin b = Some (c, CKR_OK)"
      and last: "Some (on_slot_sessions i mark_user c, CKR_OK) = Some (st', rv)"
    have "keeps_plain st c"
      by (rule plain_trans [OF plain_trans [OF p [OF first] plain_parts(1) [OF parts(1)]] plain_parts(2) [OF parts(2)]])
    with last show ?thesis by auto
  qed (auto dest!: p plain_parts intro: plain_trans)
qed

lemma plain_so_check: "so_check cfg env i pin st = Some (st', rv) \<Longrightarrow> keeps_plain st st'"
  by (auto simp: so_check_def Let_def split: if_splits option.splits prod.splits sum.splits dest!: plain_load)

lemma plain_count: "count_pin_failure i (st1, rv) = (st', rv') \<Longrightarrow> keeps_plain st st1 \<Longrightarrow> keeps_plain st st'"
  by (auto simp: count_pin_failure_def split: if_splits)

lemma plain_login: "C_Login cfg env h u pin st = Some (st', rv) \<Longrightarrow> keeps_plain st st'"
  by (auto simp: C_Login_def Let_def split: if_splits option.splits elim!: rv_thenE dest: plain_login_user plain_so_check elim!: plain_count)

lemma plain_logout: "keeps_plain st (fst (C_Logout cfg h st))"
proof -
  have "keeps_plain st s \<Longrightarrow> keeps_plain st (logout_piv cfg i s)" "keeps_plain st s \<Longrightarrow> keeps_plain st (logout_soft cfg i s)"
    "keeps_plain st s \<Longrightarrow> keeps_plain st (logout_keystore cfg i s)" for i s
    by (auto simp: logout_piv_def logout_soft_def logout_keystore_def split: option.split intro: plain_clear)
  then show ?thesis by (simp add: C_Logout_def Let_def split: option.split)
qed

lemma plain_sessions:
  "keeps_plain st (fst (C_OpenSession slot flags ok st))" "keeps_plain st (fst (C_CloseSession h st))" "keeps_plain st (fst (C_CloseAllSessions slot st))"
  "keeps_plain st (fst (C_FindObjectsInit h tmpl st))" "keeps_plain st (fst (C_FindObjects h ok n st))" "keeps_plain st (fst (C_FindObjectsFinal h st))"
  by (auto simp: C_OpenSession_def C_CloseSession_def C_CloseAllSessions_def C_FindObjectsInit_def C_FindObjects_def C_FindObjectsFinal_def Let_def
      split: option.split prod.split sum.split)

lemma plain_initpin: "C_InitPIN cfg env cio h pin fs st = Some (st', tr, rv) \<Longrightarrow> keeps_plain st st'"
  by (auto simp: C_InitPIN_def Let_def split: if_splits option.splits sum.splits prod.splits dest!: plain_load)

lemma plain_events:
  "keeps_plain st (fst (slot_add v p st))" "keeps_plain st (fst (slot_remove v p st))" "keeps_plain st (fst (slot_add_keystore path pr st))"
  "keeps_plain st (depart_keystore i st)" "keeps_plain st (fst (slot_remove_keystore path st))"
  by (auto simp: slot_add_def slot_remove_def slot_add_keystore_def depart_keystore_def slot_remove_keystore_def Let_def
      split: option.split intro!: plain_clear)

lemma plain_push_slot [simp]: "keeps_plain st (push_slot_event a r) = keeps_plain st (fst r)"
  by (auto simp: push_slot_event_def split: prod.split option.split)

lemma plain_files:
  "keeps_plain st (flash_file_arrived p st)" "keeps_plain st (flash_file_departed p st)"
  "keeps_plain st (fsdir_file_arrived p st)" "keeps_plain st (fsdir_file_departed p st)"
  by (simp_all add: flash_file_arrived_def flash_file_departed_def fsdir_file_arrived_def fsdir_file_departed_def plain_events)

lemma plain_remove_flash_dir: "keeps_plain st (slot_remove_flash_dir dir st)"
  unfolding slot_remove_flash_dir_def
  by (rule fold_inv [where P = "keeps_plain st"]) (auto simp: Let_def intro: plain_trans [OF _ plain_events(4)])

lemma plain_hotplug:
  assumes "hotplug_cb lk desc a st = Some st'"
  shows "keeps_plain st st'"
proof -
  have add: "keeps_plain st st1" if "slot_add v p st = (st1, r)" for v p st1 r using plain_events(1) [of st v p] that by auto
  have remove: "keeps_plain st st1" if "slot_remove v p st = (st1, r)" for v p st1 r using plain_events(2) [of st v p] that by auto
  show ?thesis using assms by (auto simp: hotplug_cb_def Let_def split: option.splits if_splits prod.splits dest: add remove)
qed

lemma plain_wait: "C_WaitForSlotEvent fl ok st = Some (st', r) \<Longrightarrow> keeps_plain st st'"
  by (auto simp: C_WaitForSlotEvent_def split: if_splits option.splits intro: plain_eq)

lemmas calm_ops = calm_digest calm_inits calm_cipher_parts calm_copy
lemmas calm_opsD = calm_sign calm_verify calm_cipher_inits calm_encrypt calm_decrypt calm_create calm_generate calm_derive calm_pair

end
