(* ===== verification/Pkcs11Steps.thy ===== *)
theory Pkcs11Steps imports KeyFrame begin

text \<open>
  The library as a transition system: one step is one public function, one libusb event or one file event, in any order
  and with any arguments, environment and outcome of the system calls.  Every lock-protected section runs alone, so the
  steps of concurrent threads are some sequence of these.
\<close>

section \<open>The step relation\<close>

inductive pkcs11_step :: "wp11_cfg \<Rightarrow> 'd wp11_state \<Rightarrow> 'd wp11_state \<Rightarrow> bool" for cfg :: wp11_cfg where
  initialize: "C_Initialize cfg ie st = Some (st', rv) \<Longrightarrow> pkcs11_step cfg st st'"
| finalize: "pkcs11_step cfg st (fst (C_Finalize cfg ok st))"
| open_session: "pkcs11_step cfg st (fst (C_OpenSession slot flags ok st))"
| close_session: "pkcs11_step cfg st (fst (C_CloseSession h st))"
| close_all: "pkcs11_step cfg st (fst (C_CloseAllSessions slot st))"
| login: "C_Login cfg env h u pin st = Some (st', rv) \<Longrightarrow> pkcs11_step cfg st st'"
| logout: "pkcs11_step cfg st (fst (C_Logout cfg h st))"
| init_pin: "C_InitPIN cfg env cio h pin fs st = Some (st', trace, rv) \<Longrightarrow> pkcs11_step cfg st st'"
| find_init: "pkcs11_step cfg st (fst (C_FindObjectsInit h tmpl st))"
| find: "pkcs11_step cfg st (fst (C_FindObjects h ok n st))"
| find_final: "pkcs11_step cfg st (fst (C_FindObjectsFinal h st))"
| destroy: "pkcs11_step cfg st (fst (C_DestroyObject h ob st))"
| set_attribute: "pkcs11_step cfg st (fst (C_SetAttributeValue h ob tmpl st))"
| sign_init: "pkcs11_step cfg st (fst (C_SignInit h m ob st))"
| digest_init: "pkcs11_step cfg st (fst (C_DigestInit wd h m st))"
| digest: "pkcs11_step cfg st (fst (C_Digest wd h d ok n st))"
| digest_update: "pkcs11_step cfg st (fst (C_DigestUpdate wd h d st))"
| digest_key: "pkcs11_step cfg st (fst (C_DigestKey wd h ob st))"
| digest_final: "pkcs11_step cfg st (fst (C_DigestFinal wd h ok n st))"
| sign: "C_Sign env h d ok n st = Some (st', r) \<Longrightarrow> pkcs11_step cfg st st'"
| verify_init: "pkcs11_step cfg st (fst (C_VerifyInit h m ob st))"
| verify: "C_Verify env h d sg st = Some (st', rv) \<Longrightarrow> pkcs11_step cfg st st'"
| encrypt_init: "C_EncryptInit w pv h m ob st = Some (st', rv) \<Longrightarrow> pkcs11_step cfg st st'"
| encrypt: "C_Encrypt env w h d ok n st = Some (st', r) \<Longrightarrow> pkcs11_step cfg st st'"
| encrypt_update: "pkcs11_step cfg st (fst (C_EncryptUpdate w h d ok n st))"
| encrypt_final: "pkcs11_step cfg st (fst (C_EncryptFinal h ok n st))"
| decrypt_init: "C_DecryptInit w pv h m ob st = Some (st', rv) \<Longrightarrow> pkcs11_step cfg st st'"
| decrypt: "C_Decrypt env w h d ok n st = Some (st', r) \<Longrightarrow> pkcs11_step cfg st st'"
| decrypt_update: "pkcs11_step cfg st (fst (C_DecryptUpdate w h d ok n st))"
| decrypt_final: "pkcs11_step cfg st (fst (C_DecryptFinal h ok n st))"
| create_object: "C_CreateObject beh ok h tmpl ph st = Some (st', r) \<Longrightarrow> pkcs11_step cfg st st'"
| copy_object: "pkcs11_step cfg st (fst (C_CopyObject mallocs h ob tmpl ph st))"
| generate_key: "C_GenerateKey env beh h m tmpl ph st = Some (st', r) \<Longrightarrow> pkcs11_step cfg st st'"
| generate_pair: "C_GenerateKeyPair cfg env cio fs beh h m pub prv ph st = Some (st', r) \<Longrightarrow> pkcs11_step cfg st st'"
| derive_key: "C_DeriveKey env params h m ob ph st = Some (st', r) \<Longrightarrow> pkcs11_step cfg st st'"
| wait_event: "C_WaitForSlotEvent fl ok st = Some (st', r) \<Longrightarrow> pkcs11_step cfg st st'"
| usb_event: "CFG_USB cfg \<Longrightarrow> hotplug_cb False desc arrived st = Some st' \<Longrightarrow> pkcs11_step cfg st st'"
| flash_arrived: "CFG_USB_FLASH cfg \<Longrightarrow> pkcs11_step cfg st (flash_file_arrived path st)"
| flash_departed: "CFG_USB_FLASH cfg \<Longrightarrow> pkcs11_step cfg st (flash_file_departed path st)"
| flash_dir_gone: "CFG_USB_FLASH cfg \<Longrightarrow> pkcs11_step cfg st (slot_remove_flash_dir dir st)"
| fsdir_arrived: "CFG_FSDIR cfg \<Longrightarrow> pkcs11_step cfg st (fsdir_file_arrived path st)"
| fsdir_departed: "CFG_FSDIR cfg \<Longrightarrow> pkcs11_step cfg st (fsdir_file_departed path st)"

inductive pkcs11_reachable :: "wp11_cfg \<Rightarrow> 'd wp11_state \<Rightarrow> bool" for cfg :: wp11_cfg where
  boot: "pkcs11_reachable cfg state0"
| step: "pkcs11_reachable cfg st \<Longrightarrow> pkcs11_step cfg st st' \<Longrightarrow> pkcs11_reachable cfg st'"

section \<open>Only C_Initialize makes the library ready\<close>

lemma view_init: "same_view st st' \<Longrightarrow> g_initialized st' = g_initialized st"
  by (simp add: same_view_def)

lemma init_simps [simp]:
  "g_initialized (upd_slot i f st) = g_initialized st" "g_initialized (on_slot_sessions i g st) = g_initialized st"
  "g_initialized (upd_session i g st) = g_initialized st"
  by (simp_all add: upd_slot_def on_slot_sessions_def upd_session_def)

lemmas init_view_simps [simp] = view_push [THEN view_init] view_clear(1) [THEN view_init] view_clear(3) [THEN view_init] view_ccid_close [THEN view_init]

lemma init_events [simp]:
  "g_initialized (fst (slot_add v p st)) = g_initialized st" "g_initialized (fst (slot_remove v p st)) = g_initialized st"
  "g_initialized (fst (slot_add_keystore path pr st)) = g_initialized st"
  "g_initialized (depart_keystore i st) = g_initialized st"
  "g_initialized (fst (slot_remove_keystore path st)) = g_initialized st"
  by (simp_all add: slot_add_def slot_remove_def slot_add_keystore_def slot_remove_keystore_def depart_keystore_def Let_def split: option.split)

lemma init_push_slot_event [simp]: "g_initialized (push_slot_event a r) = g_initialized (fst r)"
  by (simp add: push_slot_event_def split: prod.split option.split)

lemma init_files [simp]:
  "g_initialized (flash_file_arrived p st) = g_initialized st" "g_initialized (flash_file_departed p st) = g_initialized st"
  "g_initialized (fsdir_file_arrived p st) = g_initialized st" "g_initialized (fsdir_file_departed p st) = g_initialized st"
  by (simp_all add: flash_file_arrived_def flash_file_departed_def fsdir_file_arrived_def fsdir_file_departed_def)

lemma init_remove_flash_dir [simp]: "g_initialized (slot_remove_flash_dir dir st) = g_initialized st"
  unfolding slot_remove_flash_dir_def
  by (rule fold_inv [where P = "\<lambda>s. g_initialized s = g_initialized st"]) (simp_all add: Let_def)

lemma init_hotplug_cb: "hotplug_cb lk desc a st = Some st' \<Longrightarrow> g_initialized st' = g_initialized st"
  using init_events(1,2) by (auto simp: hotplug_cb_def Let_def split: option.splits if_splits prod.splits) (metis fst_conv init_events(1,2))+

section \<open>The login invariant in every reachable state\<close>

lemma login_inv_cong:
  "g_sessions st' = g_sessions st \<Longrightarrow> g_slots st' = g_slots st \<Longrightarrow> g_keys st' = g_keys st \<Longrightarrow> login_inv st' = login_inv st"
  unfolding login_inv_def by (simp only:)

lemma login_inv_update [simp]:
  "login_inv (st\<lparr>g_initialized := b\<rparr>) = login_inv st" "login_inv (st\<lparr>g_lock_ready := b\<rparr>) = login_inv st"
  "login_inv (st\<lparr>g_hotplug_mutex_ready := b, hq := q\<rparr>) = login_inv st"
  by (rule login_inv_cong; simp)+

definition ready_inv :: "'d wp11_state \<Rightarrow> bool" where
  "ready_inv st \<longleftrightarrow> (g_initialized st \<longrightarrow> login_inv st)"

lemma ready_view: "same_view st st' \<Longrightarrow> ready_inv st \<Longrightarrow> ready_inv st'"
  using login_inv_view view_init unfolding ready_inv_def by blast

lemma ready_op: "(login_inv st \<Longrightarrow> login_inv st') \<Longrightarrow> (\<not> g_initialized st \<Longrightarrow> \<not> g_initialized st') \<Longrightarrow> ready_inv st \<Longrightarrow> ready_inv st'"
  unfolding ready_inv_def by blast

lemma ready_objects:
  assumes "ready_inv st"
  shows "ready_inv (fst (C_FindObjectsInit h tm st))" "ready_inv (fst (C_FindObjects h ok n st))" "ready_inv (fst (C_FindObjectsFinal h st))"
    "ready_inv (fst (C_SetAttributeValue h ob tm st))" "ready_inv (fst (C_SignInit h m k st))" "ready_inv (fst (C_DestroyObject h ob st))"
  by (rule ready_view [OF _ assms], rule view_objects view_destroy)+

lemma ready_sessions:
  assumes "ready_inv st"
  shows "ready_inv (fst (C_OpenSession slot flags ok st))" "ready_inv (fst (C_CloseSession h st))" "ready_inv (fst (C_CloseAllSessions slot st))"
    "ready_inv (fst (C_Logout cfg h st))"
  by (rule ready_op [OF inv_open _ assms] ready_op [OF inv_close _ assms] ready_op [OF inv_close_all _ assms] ready_op [OF inv_logout _ assms],
      assumption, simp add: C_OpenSession_def C_CloseSession_def C_CloseAllSessions_def C_Logout_def)+

lemma ready_login: "C_Login cfg env h u pin st = Some (st', rv) \<Longrightarrow> ready_inv st \<Longrightarrow> ready_inv st'"
  by (rule ready_op [OF inv_login]) (auto simp: C_Login_def)

lemma ready_hotplug: "hotplug_cb lk desc a st = Some st' \<Longrightarrow> ready_inv st \<Longrightarrow> ready_inv st'"
  by (rule ready_op [OF inv_hotplug_cb]) (auto dest: init_hotplug_cb)

lemma ready_files:
  assumes "ready_inv st"
  shows "ready_inv (flash_file_arrived p st)" "ready_inv (flash_file_departed p st)" "ready_inv (slot_remove_flash_dir p st)"
    "ready_inv (fsdir_file_arrived p st)" "ready_inv (fsdir_file_departed p st)"
  by (rule ready_op [OF _ _ assms], erule inv_files inv_remove_flash_dir, simp)+

lemma login_inv_fresh:
  "login_inv (st\<lparr>g_sessions := replicate MAX_SESSIONS zero_session, g_keys := replicate MAX_KEYS zero_key,
     g_slots := (replicate MAX_SLOTS zero_slot)[0 := init_slot0 cfg ie]\<rparr>)"
  by (simp add: login_inv_def zero_session_def init_slot0_def zero_slot_def table_sizes)

lemma view_start:
  "start_usb ie st = Some st' \<Longrightarrow> same_view st st'" "same_view st (start_flash ie st)" "same_view st (start_fsdir ie st)"
  by (auto simp: start_usb_def start_flash_def start_fsdir_def enumerate_held same_view_def Let_def split: if_splits)

lemma ready_initialize:
  assumes "C_Initialize cfg ie st = Some (st', rv)" "ready_inv st"
  shows "ready_inv st'"
proof -
  define st0 where "st0 = st\<lparr>g_lock_ready := True\<rparr>"
  define st1 where "st1 = st0\<lparr>g_sessions := replicate MAX_SESSIONS zero_session, g_keys := replicate MAX_KEYS zero_key,
     g_slots := (replicate MAX_SLOTS zero_slot)[0 := init_slot0 cfg ie]\<rparr>"
  have fresh: "login_inv st1" unfolding st1_def by (rule login_inv_fresh)
  define st2 where "st2 = st1\<lparr>g_hotplug_mutex_ready := True, hq := (hq st1)\<lparr>g_hotplug_head := 0, g_hotplug_tail := 0, g_hotplug_dropped := 0\<rparr>\<rparr>"
  have fresh2: "login_inv st2" using fresh by (simp add: st2_def)
  show ?thesis
  proof (cases "ie_reserved_null ie \<and> (g_lock_ready st \<or> ie_mutex_ok ie) \<and> \<not> g_initialized st \<and> ie_hq_mutex_ok ie \<and> ie_hq_cond_ok ie")
    case False
    then consider "\<not> ie_reserved_null ie" | "ie_reserved_null ie" "\<not> g_lock_ready st" "\<not> ie_mutex_ok ie"
      | "ie_reserved_null ie" "g_lock_ready st \<or> ie_mutex_ok ie" "g_initialized st"
      | "ie_reserved_null ie" "g_lock_ready st \<or> ie_mutex_ok ie" "\<not> g_initialized st" "\<not> ie_hq_mutex_ok ie \<or> \<not> ie_hq_cond_ok ie"
      by blast
    then have "st' = st \<or> st' = st0 \<or> st' = st1"
      using assms(1) by cases (auto simp: C_Initialize_def Let_def st0_def st1_def)
    then show ?thesis using assms(2) fresh by (auto simp: ready_inv_def st0_def)
  next
    case True
    then obtain s where s: "(if CFG_USB cfg then start_usb ie st2 else Some st2) = Some s"
      and st': "st' = (let st4 = (if CFG_USB_FLASH cfg then start_flash ie s else s) in
         let st5 = (if CFG_FSDIR cfg then start_fsdir ie st4 else st4) in st5\<lparr>g_initialized := True\<rparr>)"
      using assms(1) unfolding C_Initialize_def Let_def st0_def [symmetric] st1_def [symmetric] st2_def [symmetric]
      by (auto simp: st0_def split: option.splits)
    from s have "login_inv s" using login_inv_view [OF view_start(1) fresh2] fresh2 by (auto split: if_splits)
    then have "login_inv (if CFG_USB_FLASH cfg then start_flash ie s else s)" using login_inv_view [OF view_start(2)] by auto
    then have "login_inv (let st4 = (if CFG_USB_FLASH cfg then start_flash ie s else s) in (if CFG_FSDIR cfg then start_fsdir ie st4 else st4))"
      unfolding Let_def by (cases "CFG_FSDIR cfg") (auto intro: login_inv_view [OF view_start(3)])
    then show ?thesis unfolding st' Let_def by (simp add: ready_inv_def)
  qed
qed

lemma init_finalize [simp]:
  "g_initialized (finalize_keys st) = g_initialized st" "g_initialized (finalize_keystores P st) = g_initialized st"
  "g_initialized (finalize_cleanup cfg st) = g_initialized st"
proof -
  show "g_initialized (finalize_keystores P st) = g_initialized st"
    unfolding finalize_keystores_def
    by (rule fold_inv [where P = "\<lambda>s. g_initialized s = g_initialized st"])
      (simp_all add: Let_def view_keystore_release [THEN view_init] split: option.split)
qed (simp_all add: finalize_keys_def finalize_cleanup_def Let_def view_release [THEN view_init])

lemma ready_finalize: "ready_inv st \<Longrightarrow> ready_inv (fst (C_Finalize cfg ok st))"
  by (simp add: C_Finalize_def ready_inv_def Let_def)

lemma ready_calm: "calm st st' \<Longrightarrow> ready_inv st \<Longrightarrow> ready_inv st'"
  using ready_view by (auto simp: calm_def)

lemma step_ready:
  assumes "pkcs11_step cfg st st'" "ready_inv st"
  shows "ready_inv st'"
  using assms(1)
proof cases
  case (initialize ie rv)
  then show ?thesis using assms(2) by (rule ready_initialize)
next
  case (login env h u pin rv)
  then show ?thesis using assms(2) by (rule ready_login)
next
  case (init_pin env cio h pin fs tr rv)
  show ?thesis by (rule ready_view [OF view_initpin [OF init_pin] assms(2)])
next
  case (wait_event fl ok r)
  show ?thesis by (rule ready_view [OF inv_wait [OF wait_event] assms(2)])
next
  case (usb_event desc arrived)
  show ?thesis by (rule ready_hotplug [OF usb_event(2) assms(2)])
qed (simp_all add: assms(2) ready_objects ready_sessions ready_files ready_finalize calm_ops [THEN ready_calm]
    calm_opsD [THEN ready_calm])

lemma reachable_ready: "pkcs11_reachable cfg st \<Longrightarrow> ready_inv st"
  by (induction rule: pkcs11_reachable.induct) (simp add: ready_inv_def state0_def, rule step_ready)

lemma session_info_session:
  assumes "C_GetSessionInfo h ok st = Inr (slot, sta, flags)"
  obtains s where "s \<in> set (g_sessions st) \<or> length (g_sessions st) \<noteq> MAX_SESSIONS" "s_in_use s" "s_slot_id s = slot"
    "s_state s = sta" "s_flags s = flags" "g_initialized st"
proof -
  obtain i where i: "session_get st h = Some i" "s_slot_id (g_sessions st ! i) = slot" "s_state (g_sessions st ! i) = sta"
    "s_flags (g_sessions st ! i) = flags" "g_initialized st"
    using assms by (auto simp: C_GetSessionInfo_def Let_def split: if_splits option.splits)
  then have "i < MAX_SESSIONS" "s_in_use (g_sessions st ! i)"
    by (auto simp: session_get_def session_handle_valid_def split: if_splits)
  then show thesis
    using i by (intro that [of "g_sessions st ! i"]) (auto simp: nth_mem)
qed

text \<open>C8. In every state that any interleaving of public calls, USB events and file events reaches, what
  \<open>C_GetSessionInfo\<close> reports is consistent: the slot exists and its token is present, the state is the one PKCS#11 gives
  the session's flags and the token's login, a security officer is logged in only while every session of the token is
  read-write, and all sessions of one token agree on who is logged in.\<close>
theorem session_info_consistent:
  assumes "pkcs11_reachable cfg st" "C_GetSessionInfo h ok st = Inr (slot, sta, flags)"
  shows "slot_valid st slot \<and> token_present (g_slots st ! slot)
    \<and> (\<exists>login \<le> 2. sta = state_for flags login
        \<and> (\<forall>h' ok' sta' flags'. C_GetSessionInfo h' ok' st = Inr (slot, sta', flags') \<longrightarrow>
             sta' = state_for flags' login \<and> (login = 2 \<longrightarrow> flags' AND CKF_RW_SESSION \<noteq> 0)))"
proof -
  obtain s where s: "s \<in> set (g_sessions st) \<or> length (g_sessions st) \<noteq> MAX_SESSIONS" "s_in_use s" "s_slot_id s = slot" "s_state s = sta" "s_flags s = flags" "g_initialized st"
    using assms(2) by (rule session_info_session)
  have inv: "login_inv st" using reachable_ready [OF assms(1)] s(6) by (simp add: ready_inv_def)
  note d = login_invD [OF inv]
  have mem: "s \<in> set (g_sessions st)" using s(1) d(1) by simp
  from d(4) [OF mem s(2)] have ok: "sess_ok (g_slots st) s" .
  have others: "sta' = state_for flags' (s_logged_in s) \<and> (s_logged_in s = 2 \<longrightarrow> flags' AND CKF_RW_SESSION \<noteq> 0)"
    if i: "C_GetSessionInfo h' ok' st = Inr (slot, sta', flags')" for h' ok' sta' flags'
  proof -
    obtain t where t: "t \<in> set (g_sessions st) \<or> length (g_sessions st) \<noteq> MAX_SESSIONS" "s_in_use t" "s_slot_id t = slot" "s_state t = sta'" "s_flags t = flags'"
      using i by (rule session_info_session)
    have tmem: "t \<in> set (g_sessions st)" using t(1) d(1) by simp
    have "s_logged_in t = s_logged_in s" by (rule d(5) [OF tmem mem t(2) s(2)]) (simp add: t s)
    with d(4) [OF tmem t(2)] t show ?thesis by (simp add: sess_ok_def is_rw_def)
  qed
  have "slot_valid st slot \<and> token_present (g_slots st ! slot)" "s_logged_in s \<le> 2"
    using ok s(3) by (simp_all add: sess_ok_def slot_valid_def)
  moreover have "sta = state_for flags (s_logged_in s)" using others [OF assms(2)] by blast
  ultimately show ?thesis using others by blast
qed

definition plain_cfg :: wp11_cfg where
  "plain_cfg = \<lparr>CFG_USB = False, CFG_USB_FLASH = False, CFG_FSDIR = False\<rparr>"

definition ready_state :: "byte list wp11_state" where
  "ready_state = fst (the (C_Initialize plain_cfg (sample_ie []) state0))"

lemma initialize_plain: "C_Initialize plain_cfg (sample_ie []) (state0 :: byte list wp11_state) = Some (ready_state, CKR_OK)"
  by (simp add: ready_state_def C_Initialize_def plain_cfg_def sample_ie_def state0_def Let_def)

lemma ready_reachable: "pkcs11_reachable plain_cfg ready_state"
  by (rule pkcs11_reachable.step [OF pkcs11_reachable.boot pkcs11_step.initialize [OF initialize_plain]])

definition open_state :: "byte list wp11_state" where
  "open_state = fst (C_OpenSession 0 6 True ready_state)"

lemma open_reachable: "pkcs11_reachable plain_cfg open_state"
  unfolding open_state_def by (rule pkcs11_reachable.step [OF ready_reachable pkcs11_step.open_session])

lemma open_info: "C_GetSessionInfo 1 True open_state = Inr (0, CKS_RW_PUBLIC_SESSION, 6)"
  by code_simp

theorem session_info_consistent_witness:
  "C_GetSessionInfo 1 True open_state = Inr (0, CKS_RW_PUBLIC_SESSION, 6)
   \<and> slot_valid open_state 0 \<and> token_present (g_slots open_state ! 0)"
  using open_info session_info_consistent [OF open_reachable open_info] by blast

end
