(* ===== verification/Secrecy.thy ===== *)
theory Secrecy imports Pkcs11Steps begin

text \<open>
  The secret keys that \<open>C_GenerateKey\<close> makes, over every run of the library: as long as the object is not destroyed, its
  secret stays the same, a key that was made sensitive or not extractable stays hidden, and neither
  \<open>C_GetAttributeValue\<close> nor \<open>C_CopyObject\<close> gives the value away.
\<close>

section \<open>One step\<close>

definition same_secret :: "wp11_key_obj \<Rightarrow> wp11_key_obj \<Rightarrow> bool" where
  "same_secret k k' \<longleftrightarrow> k_in_use k' = k_in_use k \<and> secret k' = secret k \<and> ops k' = ops k \<and> obj_class k' = obj_class k
     \<and> (value_hidden k \<longrightarrow> value_hidden k')"

lemma same_secret_refl [simp]: "same_secret k k"
  by (simp add: same_secret_def)

lemma same_secret_trans: "same_secret a b \<Longrightarrow> same_secret b c \<Longrightarrow> same_secret a c"
  by (simp add: same_secret_def)

lemma same_secret_set: "same_secret k (fst (set_attrs as k))"
proof (induction as arbitrary: k)
  case (Cons a as)
  have "same_secret k k'" if "set_attr a k = Some k'" for k'
    using that by (auto simp: set_attr_def same_secret_def value_hidden_def split: option.splits if_splits)
  then show ?case using Cons same_secret_trans by (auto split: option.split)
qed simp

text \<open>An entry in use without a backend is kept by a step or is no longer in use after it.\<close>

definition entry_kept :: "nat \<Rightarrow> 'd wp11_state \<Rightarrow> 'd wp11_state \<Rightarrow> bool" where
  "entry_kept j st st' \<longleftrightarrow> j < length (g_keys st') \<and> (k_in_use (g_keys st' ! j) \<longrightarrow> same_secret (g_keys st ! j) (g_keys st' ! j))"

lemma kept_plain: "keeps_plain st st' \<Longrightarrow> j < length (g_keys st) \<Longrightarrow> is_plain (g_keys st ! j) \<Longrightarrow> entry_kept j st st'"
  by (simp add: keeps_plain_def entry_kept_def)

lemma update_kept:
  assumes "k_in_use (ks[i := k] ! j)" "j < length ks" "i = j \<Longrightarrow> k_in_use k \<Longrightarrow> same_secret (ks ! j) k"
  shows "same_secret (ks ! j) (ks[i := k] ! j)"
  using assms by (cases "i = j") auto

lemma kept_destroy: "j < length (g_keys st) \<Longrightarrow> entry_kept j st (fst (C_DestroyObject h ob st))"
  by (auto simp: entry_kept_def C_DestroyObject_def Let_def split: option.split elim!: update_kept)

lemma set_attrs_kept: "set_attrs as k = (k', rv) \<Longrightarrow> same_secret k k'"
  using same_secret_set [of k as] by simp

lemma kept_set_attribute: "j < length (g_keys st) \<Longrightarrow> entry_kept j st (fst (C_SetAttributeValue h ob tmpl st))"
  by (auto simp: entry_kept_def C_SetAttributeValue_def split: option.split prod.split elim!: update_kept dest: set_attrs_kept)

lemma keys_start [simp]:
  "start_usb ie st = Some st' \<Longrightarrow> g_keys st' = g_keys st" "g_keys (start_flash ie st) = g_keys st" "g_keys (start_fsdir ie st) = g_keys st"
  by (auto simp: start_usb_def start_flash_def start_fsdir_def enumerate_held Let_def split: if_splits)

lemma kept_initialize:
  assumes "C_Initialize cfg ie st = Some (st', rv)" "j < MAX_KEYS" "j < length (g_keys st)"
  shows "entry_kept j st st'"
proof -
  have "g_keys st' = g_keys st \<or> g_keys st' = replicate MAX_KEYS zero_key"
    using assms(1) by (auto simp: C_Initialize_def Let_def split: if_splits option.splits)
  then show ?thesis using assms(2,3) by (auto simp: entry_kept_def zero_key_def)
qed

lemma keys_keystores [simp]: "g_keys (finalize_keystores P st) = g_keys st"
  unfolding finalize_keystores_def
  by (rule fold_inv [where P = "\<lambda>s. g_keys s = g_keys st"]) (auto simp: Let_def upd_slot_def keystore_release_def split: option.split)

lemma kept_finalize: "j < length (g_keys st) \<Longrightarrow> entry_kept j st (fst (C_Finalize cfg ok st))"
  by (auto simp: entry_kept_def C_Finalize_def finalize_cleanup_def finalize_keys_def Let_def)

lemma step_kept:
  assumes "pkcs11_step cfg st st'" "j < MAX_KEYS" "j < length (g_keys st)" "is_plain (g_keys st ! j)"
  shows "entry_kept j st st'"
proof -
  note kept = kept_plain [OF _ assms(3,4)]
  have calm: "entry_kept j st st'" if "calm st st'" for st' using that kept by (simp add: calm_def)
  show ?thesis
    using assms(1)
  proof cases
    case (initialize ie rv)
    then show ?thesis using assms(2,3) by (rule kept_initialize)
  qed (auto simp: kept_finalize kept_destroy kept_set_attribute assms(3) kept plain_sessions plain_logout plain_files plain_remove_flash_dir
      calm_ops calm dest: plain_login plain_initpin plain_wait plain_hotplug calm_opsD intro: kept calm)
qed

section \<open>Every run\<close>

text \<open>The runs in which a handle stays valid.\<close>

inductive lives :: "wp11_cfg \<Rightarrow> nat \<Rightarrow> 'd wp11_state \<Rightarrow> 'd wp11_state \<Rightarrow> bool" for cfg :: wp11_cfg and ob :: nat where
  start: "key_get st ob \<noteq> None \<Longrightarrow> lives cfg ob st st"
| next_step: "lives cfg ob st st1 \<Longrightarrow> pkcs11_step cfg st1 st2 \<Longrightarrow> key_get st2 ob \<noteq> None \<Longrightarrow> lives cfg ob st st2"

lemma key_get_index: "key_get st ob \<noteq> None \<Longrightarrow> key_get st ob = Some (ob - 1) \<and> ob - 1 < MAX_KEYS \<and> k_in_use (g_keys st ! (ob - 1))"
  by (auto simp: key_get_Some)

lemma lives_kept:
  assumes "lives cfg ob st st'" "ob - 1 < length (g_keys st)" "is_plain (g_keys st ! (ob - 1))"
  shows "ob - 1 < length (g_keys st') \<and> same_secret (g_keys st ! (ob - 1)) (g_keys st' ! (ob - 1)) \<and> key_get st' ob = Some (ob - 1)"
  using assms
proof (induction rule: lives.induct)
  case (start st)
  then show ?case using key_get_index [of st ob] by simp
next
  case (next_step st st1 st2)
  let ?j = "ob - 1"
  have IH: "?j < length (g_keys st1)" "same_secret (g_keys st ! ?j) (g_keys st1 ! ?j)" "key_get st1 ob = Some ?j" using next_step by simp_all
  have j: "key_get st2 ob = Some ?j" "?j < MAX_KEYS" "k_in_use (g_keys st2 ! ?j)" using key_get_index [OF next_step.hyps(3)] by simp_all
  have "is_plain (g_keys st1 ! ?j)" using IH(2) next_step.prems(2) by (simp add: same_secret_def is_plain_def)
  from step_kept [OF next_step.hyps(2) j(2) IH(1) this] j IH(2) show ?case
    unfolding entry_kept_def using same_secret_trans by blast
qed

lemma get_attrs_out:
  assumes "get_attrs env st k reqs worst = Some (rv, outs)"
  shows "length outs = length reqs \<and> (\<forall>n < length reqs. \<exists>a. attr_answer env st k (fst (reqs ! n)) = Some a \<and> outs ! n = snd (give_attr a (snd (reqs ! n))))"
  using assms
proof (induction reqs arbitrary: worst outs)
  case (Cons r reqs)
  obtain t buf where [simp]: "r = (t, buf)" by fastforce
  from Cons.prems obtain a outs' where a: "attr_answer env st k t = Some a" "outs = snd (give_attr a buf) # outs'"
    "get_attrs env st k reqs (update_worst worst (fst (give_attr a buf))) = Some (rv, outs')"
    by (auto split: option.splits prod.splits)
  from Cons.IH [OF a(3)] a(1,2) show ?case by (auto simp: nth_Cons split: nat.split)
qed simp

lemma hidden_value_out:
  assumes "C_GetAttributeValue env h ob (Some reqs) st = Some (rv, outs)" "key_get st ob = Some j" "value_hidden (g_keys st ! j)"
    "n < length outs" "fst (reqs ! n) = CKA_VALUE"
  shows "outs ! n = (None, [])"
proof -
  have "get_attrs env st (g_keys st ! j) reqs CKR_OK = Some (rv, outs)"
    using assms by (auto simp: C_GetAttributeValue_def split: if_splits option.splits)
  from get_attrs_out [OF this] assms(4) obtain a where "attr_answer env st (g_keys st ! j) CKA_VALUE = Some a" "outs ! n = snd (give_attr a (snd (reqs ! n)))"
    using assms(5) by auto
  then show ?thesis using assms(3) by (simp add: attr_answer_def value_answer_def cka_defs cka_more)
qed

lemma generate_key_ok:
  assumes "C_GenerateKey env beh h (Some m) (Some as) ph st = Some (st', CKR_OK, Some ob)"
  obtains i kt len key lbl gi where "g_initialized st" "session_get st h = Some i" "secret_key_kind (mechanism m) as = Inr (kt, len)"
    "ce_random env len = Some key" "free_key st = Some gi" "ob = gi + 1"
    "st' = st\<lparr>g_keys := (g_keys st)[gi := generated_key (s_slot_id (g_sessions st ! i)) (mechanism m) kt (scan_gen beh 0 as default_attrs) key lbl (g_keys st ! gi)]\<rparr>"
  using assms by (auto simp: C_GenerateKey_def Let_def split: if_splits option.splits sum.splits)

text \<open>C3. A sensitive secret stays in the token: when \<open>C_GenerateKey\<close>, in any reachable state, makes a key whose template asks
  for \<open>CKA_SENSITIVE\<close> true or \<open>CKA_EXTRACTABLE\<close> false, then in every state that any further calls and events reach while
  its handle stays valid, its value is the one the random generator gave, every answer of \<open>C_GetAttributeValue\<close> for
  \<open>CKA_VALUE\<close> is without bytes, whatever is asked beside it and from whichever session, and \<open>C_CopyObject\<close> makes no copy.\<close>
theorem sensitive_secret_confined:
  assumes "pkcs11_reachable cfg st0" "C_GenerateKey env beh h (Some m) (Some as) True st0 = Some (st1, CKR_OK, Some ob)"
    "ca_sensitive (scan_gen beh 0 as default_attrs) \<or> \<not> ca_extractable (scan_gen beh 0 as default_attrs)" "lives cfg ob st1 st2"
  shows "(\<exists>kt len key. secret_key_kind (mechanism m) as = Inr (kt, len) \<and> ce_random env len = Some key \<and> secret (g_keys st2 ! (ob - 1)) = Some key)
    \<and> (\<forall>env' h' reqs rv outs n. C_GetAttributeValue env' h' ob (Some reqs) st2 = Some (rv, outs) \<longrightarrow> n < length outs \<longrightarrow>
         fst (reqs ! n) = CKA_VALUE \<longrightarrow> outs ! n = (None, []))
    \<and> (\<forall>mallocs h' tmpl ph. fst (C_CopyObject mallocs h' ob tmpl ph st2) = st2 \<and> snd (snd (C_CopyObject mallocs h' ob tmpl ph st2)) = None)"
proof -
  obtain i kt len key lbl gi where g: "g_initialized st0" "session_get st0 h = Some i" "secret_key_kind (mechanism m) as = Inr (kt, len)"
    "ce_random env len = Some key" "free_key st0 = Some gi" "ob = gi + 1"
    "st1 = st0\<lparr>g_keys := (g_keys st0)[gi := generated_key (s_slot_id (g_sessions st0 ! i)) (mechanism m) kt (scan_gen beh 0 as default_attrs) key lbl (g_keys st0 ! gi)]\<rparr>"
    using assms(2) by (rule generate_key_ok)
  have gi: "gi < length (g_keys st0)" using free_key_Some [OF g(5)] by simp
  have k1: "is_plain (g_keys st1 ! gi)" "value_hidden (g_keys st1 ! gi)" "secret (g_keys st1 ! gi) = Some key" "obj_class (g_keys st1 ! gi) = CKO_SECRET_KEY"
    using gi assms(3) by (simp_all add: g(7) generated_key_def is_plain_def value_hidden_def)
  have l: "same_secret (g_keys st1 ! gi) (g_keys st2 ! gi)" "key_get st2 ob = Some gi"
    using lives_kept [OF assms(4)] gi k1(1) by (simp_all add: g(6,7))
  then have k2: "value_hidden (g_keys st2 ! gi)" "secret (g_keys st2 ! gi) = Some key" "obj_class (g_keys st2 ! gi) \<noteq> CKO_DATA"
    using k1 by (simp_all add: same_secret_def CKO_SECRET_KEY_def CKO_DATA_def)
  have "fst (C_CopyObject mallocs h' ob tmpl ph st2) = st2 \<and> snd (snd (C_CopyObject mallocs h' ob tmpl ph st2)) = None" for mallocs h' tmpl ph
    using l(2) k2(3) by (simp add: C_CopyObject_def Let_def split: option.split)
  moreover have "outs ! n = (None, [])"
    if "C_GetAttributeValue env' h' ob (Some reqs) st2 = Some (rv, outs)" "n < length outs" "fst (reqs ! n) = CKA_VALUE" for env' h' reqs rv outs n
    by (rule hidden_value_out [OF that(1) l(2) k2(1) that(2,3)])
  ultimately show ?thesis using g(3,4,6) k2(2) by auto
qed

section \<open>A concrete run\<close>

text \<open>A sensitive AES key is made, a read-only session is opened, and that session asks for \<open>CKA_SENSITIVE\<close> false and for the value.\<close>

definition aes_template :: "CK_ATTRIBUTE list" where
  "aes_template = [\<lparr>a_type = CKA_SENSITIVE, a_value = Some [1]\<rparr>, \<lparr>a_type = CKA_VALUE_LEN, a_value = Some [16, 0, 0, 0, 0, 0, 0, 0]\<rparr>]"

definition made_state :: "byte list wp11_state" where
  "made_state = open_state\<lparr>g_keys := (g_keys open_state)[0 := generated_key 0 CKM_AES_KEY_GEN CKK_AES (default_attrs\<lparr>ca_sensitive := True\<rparr>)
     (replicate 16 0x5A) [] zero_key]\<rparr>"

lemma open_simps:
  "g_lock_ready open_state" "g_initialized open_state" "session_get open_state 1 = Some 0" "s_slot_id (g_sessions open_state ! 0) = 0" "g_keys open_state = replicate MAX_KEYS zero_key"
  by code_simp+

lemma aes_template_scan: "scan_gen (\<lambda>n. []) 0 aes_template default_attrs = default_attrs\<lparr>ca_sensitive := True\<rparr>"
  by (simp add: aes_template_def gen_attr_def bbool_def keygen_defs CKA_SENSITIVE_def CKA_EXTRACTABLE_def CKA_PRIVATE_def CKA_TOKEN_def CKA_LABEL_def default_attrs_def)

lemma aes_template_kind: "secret_key_kind CKM_AES_KEY_GEN aes_template = Inr (CKK_AES, 16)"
  by (simp add: secret_key_kind_def aes_template_def keygen_defs CKA_SENSITIVE_def ulong_at_def bslice_def)

lemma made: "C_GenerateKey toy_crypto (\<lambda>n. []) 1 (Some (plain_mech CKM_AES_KEY_GEN)) (Some aes_template) True open_state = Some (made_state, CKR_OK, Some 1)"
proof -
  have "free_key open_state = Some 0" by code_simp
  moreover have "read_label (ca_label (default_attrs\<lparr>ca_sensitive := True\<rparr>)) = Some []" by (simp add: read_label_def cstr_def default_attrs_def)
  ultimately show ?thesis
    using open_simps by (simp add: C_GenerateKey_def plain_mech_def aes_template_kind aes_template_scan toy_simps made_state_def MAX_KEYS_def Let_def)
qed

definition asked_state :: "byte list wp11_state" where
  "asked_state = fst (C_SetAttributeValue 2 1 (Some [\<lparr>a_type = CKA_SENSITIVE, a_value = Some [0]\<rparr>]) (fst (C_OpenSession 0 4 True made_state)))"

lemma made_key: "key_get made_state 1 \<noteq> None" "key_get (fst (C_OpenSession 0 4 True made_state)) 1 \<noteq> None" "key_get asked_state 1 \<noteq> None"
  by code_simp+

lemma asked_lives: "lives plain_cfg 1 made_state asked_state"
  unfolding asked_state_def
  by (rule lives.next_step [OF lives.next_step [OF lives.start [OF made_key(1)] pkcs11_step.open_session made_key(2)] pkcs11_step.set_attribute
        made_key(3) [unfolded asked_state_def]])

lemma asked_simps:
  "g_lock_ready asked_state" "g_initialized asked_state" "session_get asked_state 2 = Some 1" "key_get asked_state 1 = Some 0"
  "k_slot_id (g_keys asked_state ! 0) = s_slot_id (g_sessions asked_state ! 1)" "value_hidden (g_keys asked_state ! 0)"
  by code_simp+

lemma asked_answer:
  "C_GetAttributeValue toy_crypto 2 1 (Some [(CKA_VALUE, Some 64)]) asked_state = Some (CKR_ATTRIBUTE_SENSITIVE, [(None, [])])"
  using get_value_of [OF asked_simps(1-5)] asked_simps(6) by (simp add: value_answer_def update_worst_def)

theorem sensitive_secret_confined_witness:
  "secret (g_keys asked_state ! (1 - 1)) = Some (replicate 16 0x5A)
   \<and> C_GetAttributeValue toy_crypto 2 1 (Some [(CKA_VALUE, Some 64)]) asked_state = Some (CKR_ATTRIBUTE_SENSITIVE, [(None, [])])
   \<and> snd (snd (C_CopyObject (\<lambda>n. True) 2 1 None True asked_state)) = None"
proof -
  have "ca_sensitive (scan_gen (\<lambda>n. []) 0 aes_template default_attrs) \<or> \<not> ca_extractable (scan_gen (\<lambda>n. []) 0 aes_template default_attrs)"
    by (simp add: aes_template_scan)
  note c = sensitive_secret_confined [OF open_reachable made this asked_lives]
  have "ce_random toy_crypto 16 = Some (replicate 16 0x5A)" by (simp add: toy_simps)
  with c asked_answer show ?thesis by (auto simp: plain_mech_def aes_template_kind)
qed

end
