(* ===== verification/TokenInfo.thy ===== *)
theory TokenInfo imports KeyGen Digest Cipher begin

text \<open>
  What the library says of a token and of its mechanisms (\<open>C_GetTokenInfo\<close>, \<open>g_mechs\<close>, \<open>C_GetMechanismList\<close>,
  \<open>C_GetMechanismInfo\<close> in \<open>src/wp11_pkcs11.c\<close>), and how the advertised flags agree with what the operations accept.
\<close>

section \<open>Token information\<close>

definition CKF_RNG :: CK_FLAGS where "CKF_RNG = 0x1"
definition CKF_LOGIN_REQUIRED :: CK_FLAGS where "CKF_LOGIN_REQUIRED = 0x4"
definition CKF_USER_PIN_INITIALIZED :: CK_FLAGS where "CKF_USER_PIN_INITIALIZED = 0x8"
definition CKF_TOKEN_INITIALIZED :: CK_FLAGS where "CKF_TOKEN_INITIALIZED = 0x400"
definition CKF_USER_PIN_COUNT_LOW :: CK_FLAGS where "CKF_USER_PIN_COUNT_LOW = 0x10000"

text \<open>The counts and memory sizes that are always \<open>CK_UNAVAILABLE_INFORMATION\<close>, and the versions, are left out.\<close>

record token_info =
  ti_label :: "byte list"
  ti_manufacturer :: "byte list"
  ti_model :: "byte list"
  ti_serial :: "byte list"
  ti_flags :: CK_FLAGS
  ti_max_sessions :: nat
  ti_max_pin :: nat
  ti_min_pin :: nat

definition token_info_of :: "wp11_slot \<Rightarrow> token_info" where
  "token_info_of s =
     \<lparr>ti_label = pad_string 32 (sl_label s), ti_manufacturer = pad_string 32 (str ''wolfSSL Inc.''),
      ti_model = pad_string 16 (str ''Software''), ti_serial = pad_string 16 (str ''00000000''),
      ti_flags = CKF_TOKEN_INITIALIZED OR CKF_LOGIN_REQUIRED OR CKF_USER_PIN_INITIALIZED OR CKF_RNG
                 OR (if pin_fail_count s > 0 then CKF_USER_PIN_COUNT_LOW else 0),
      ti_max_sessions = MAX_SESSIONS, ti_max_pin = 64, ti_min_pin = 4\<rparr>"

definition C_GetTokenInfo :: "nat \<Rightarrow> bool \<Rightarrow> 'd wp11_state \<Rightarrow> CK_RV + token_info" where
  "C_GetTokenInfo slotID pInfo_ok st =
     (if \<not> g_lock_ready st \<or> \<not> g_initialized st then Inl CKR_CRYPTOKI_NOT_INITIALIZED
      else if \<not> slot_valid st slotID then Inl CKR_SLOT_ID_INVALID
      else if \<not> token_present (g_slots st ! slotID) then Inl CKR_TOKEN_NOT_PRESENT
      else if \<not> pInfo_ok then Inl CKR_ARGUMENTS_BAD
      else Inr (token_info_of (g_slots st ! slotID)))"

section \<open>Mechanisms\<close>

definition CKF_ENCRYPT :: CK_FLAGS where "CKF_ENCRYPT = 0x100"
definition CKF_DECRYPT :: CK_FLAGS where "CKF_DECRYPT = 0x200"
definition CKF_DIGEST :: CK_FLAGS where "CKF_DIGEST = 0x400"
definition CKF_SIGN :: CK_FLAGS where "CKF_SIGN = 0x800"
definition CKF_VERIFY :: CK_FLAGS where "CKF_VERIFY = 0x2000"
definition CKF_GENERATE :: CK_FLAGS where "CKF_GENERATE = 0x8000"
definition CKF_DERIVE :: CK_FLAGS where "CKF_DERIVE = 0x80000"

lemmas ckf_defs = CKF_ENCRYPT_def CKF_DECRYPT_def CKF_DIGEST_def CKF_SIGN_def CKF_VERIFY_def CKF_GENERATE_def CKF_DERIVE_def

definition g_mechs :: "nat list" where
  "g_mechs =
     [CKM_RSA_PKCS, CKM_RSA_PKCS_OAEP, CKM_RSA_PKCS_PSS, CKM_ECDSA, CKM_ECDSA_SHA256, CKM_ECDH1_DERIVE, CKM_EDDSA,
      CKM_DES_KEY_GEN, CKM_DES_ECB, CKM_DES_CBC, CKM_DES3_KEY_GEN, CKM_DES3_ECB, CKM_DES3_CBC,
      CKM_AES_KEY_GEN, CKM_AES_ECB, CKM_AES_CBC, CKM_AES_GCM,
      CKM_MD5, CKM_MD5_HMAC, CKM_SHA_1, CKM_SHA_1_HMAC, CKM_SHA256, CKM_SHA256_HMAC,
      CKM_SHA384, CKM_SHA384_HMAC, CKM_SHA512, CKM_SHA512_HMAC]"

text \<open>The list, the same for every slot; \<open>count\<close> is \<open>*pulCount\<close>.\<close>

definition C_GetMechanismList :: "nat \<Rightarrow> bool \<Rightarrow> nat option \<Rightarrow> 'd wp11_state \<Rightarrow> CK_RV \<times> nat option \<times> nat list" where
  "C_GetMechanismList slotID list_ok count st =
     (if \<not> g_lock_ready st \<or> \<not> g_initialized st then (CKR_CRYPTOKI_NOT_INITIALIZED, count, [])
      else if \<not> slot_valid st slotID then (CKR_SLOT_ID_INVALID, count, [])
      else case count of
        None \<Rightarrow> (CKR_ARGUMENTS_BAD, None, [])
      | Some cap \<Rightarrow>
          if \<not> list_ok then (CKR_OK, Some (length g_mechs), [])
          else if cap < length g_mechs then (CKR_BUFFER_TOO_SMALL, Some (length g_mechs), [])
          else (CKR_OK, Some (length g_mechs), g_mechs))"

text \<open>Minimal and maximal key size and the flags.\<close>

definition mech_info :: "nat \<Rightarrow> (nat \<times> nat \<times> CK_FLAGS) option" where
  "mech_info m =
     (if m = CKM_RSA_PKCS then Some (1024, 4096, CKF_SIGN OR CKF_DECRYPT)
      else if m = CKM_RSA_PKCS_OAEP then Some (1024, 4096, CKF_ENCRYPT OR CKF_DECRYPT)
      else if m = CKM_RSA_PKCS_PSS then Some (1024, 4096, CKF_SIGN OR CKF_VERIFY)
      else if m = CKM_ECDSA \<or> m = CKM_ECDSA_SHA256 then Some (256, 384, CKF_SIGN)
      else if m = CKM_ECDH1_DERIVE then Some (256, 384, CKF_DERIVE)
      else if m = CKM_EDDSA then Some (255, 255, CKF_SIGN OR CKF_VERIFY)
      else if m = CKM_DES_KEY_GEN then Some (64, 64, CKF_GENERATE)
      else if m = CKM_DES_ECB \<or> m = CKM_DES_CBC then Some (64, 64, CKF_ENCRYPT OR CKF_DECRYPT)
      else if m = CKM_DES3_KEY_GEN then Some (192, 192, CKF_GENERATE)
      else if m = CKM_DES3_ECB \<or> m = CKM_DES3_CBC then Some (128, 192, CKF_ENCRYPT OR CKF_DECRYPT)
      else if m = CKM_AES_KEY_GEN then Some (128, 256, CKF_GENERATE)
      else if m = CKM_AES_ECB \<or> m = CKM_AES_CBC \<or> m = CKM_AES_GCM then Some (128, 256, CKF_ENCRYPT OR CKF_DECRYPT)
      else if is_digest_mech m then Some (0, 0, CKF_DIGEST)
      else if mech_is_hmac m then Some (0, 512, CKF_SIGN OR CKF_VERIFY)
      else None)"

definition C_GetMechanismInfo :: "nat \<Rightarrow> nat \<Rightarrow> bool \<Rightarrow> 'd wp11_state \<Rightarrow> CK_RV + nat \<times> nat \<times> CK_FLAGS" where
  "C_GetMechanismInfo slotID m pInfo_ok st =
     (if \<not> g_lock_ready st \<or> \<not> g_initialized st then Inl CKR_CRYPTOKI_NOT_INITIALIZED
      else if \<not> slot_valid st slotID then Inl CKR_SLOT_ID_INVALID
      else if \<not> pInfo_ok then Inl CKR_ARGUMENTS_BAD
      else if m \<notin> set g_mechs then Inl CKR_MECHANISM_INVALID
      else case mech_info m of None \<Rightarrow> Inl CKR_MECHANISM_INVALID | Some i \<Rightarrow> Inr i)"

section \<open>The flags and the operations\<close>

definition advertises :: "CK_FLAGS \<Rightarrow> nat \<Rightarrow> bool" where
  "advertises fl m \<longleftrightarrow> m \<in> set g_mechs \<and> (case mech_info m of None \<Rightarrow> False | Some (lo, hi, flags) \<Rightarrow> flags AND fl \<noteq> 0)"

text \<open>A mechanism an operation accepts in some state, for some key, parameters and behaviour of wolfCrypt.\<close>

definition accepts_sign :: "nat \<Rightarrow> bool" where
  "accepts_sign m \<longleftrightarrow> (\<exists>mech h hk (st :: byte list wp11_state). mechanism mech = m \<and> snd (C_SignInit h (Some mech) hk st) = CKR_OK)"

definition accepts_verify :: "nat \<Rightarrow> bool" where
  "accepts_verify m \<longleftrightarrow> (\<exists>mech h hk (st :: byte list wp11_state). mechanism mech = m \<and> snd (C_VerifyInit h (Some mech) hk st) = CKR_OK)"

definition accepts_digest :: "nat \<Rightarrow> bool" where
  "accepts_digest m \<longleftrightarrow> (\<exists>w mech h (st :: byte list wp11_state). mechanism mech = m \<and> snd (C_DigestInit w h (Some mech) st) = CKR_OK)"

definition accepts_encrypt :: "nat \<Rightarrow> bool" where
  "accepts_encrypt m \<longleftrightarrow> (\<exists>w pv mech h hk (st :: byte list wp11_state) st'. mechanism mech = m \<and> C_EncryptInit w pv h (Some mech) hk st = Some (st', CKR_OK))"

definition accepts_decrypt :: "nat \<Rightarrow> bool" where
  "accepts_decrypt m \<longleftrightarrow> (\<exists>w pv mech h hk (st :: byte list wp11_state) st'. mechanism mech = m \<and> C_DecryptInit w pv h (Some mech) hk st = Some (st', CKR_OK))"

definition accepts_generate :: "nat \<Rightarrow> bool" where
  "accepts_generate m \<longleftrightarrow> (\<exists>env beh h mech as (st :: byte list wp11_state) st' ob.
     mechanism mech = m \<and> C_GenerateKey env beh h (Some mech) (Some as) True st = Some (st', CKR_OK, ob))"

text \<open>A session with one key, and parameters that suit each mechanism.\<close>

definition one_key :: "nat \<Rightarrow> byte list wp11_state" where
  "one_key kt = session_state\<lparr>g_keys := (replicate MAX_KEYS zero_key)
     [0 := zero_key\<lparr>k_in_use := True, obj_class := CKO_SECRET_KEY, k_key_type := kt, secret := Some (replicate 24 1)\<rparr>]\<rparr>"

definition demo_mech :: "nat \<Rightarrow> CK_MECHANISM" where
  "demo_mech m = (if mech_has_iv m then \<lparr>mechanism = m, pParameter = Some (replicate (mech_block_size m) 0), ulParameterLen = mech_block_size m\<rparr>
     else if m = CKM_AES_GCM \<or> m = CKM_RSA_PKCS_OAEP then \<lparr>mechanism = m, pParameter = Some [], ulParameterLen = 48\<rparr>
     else plain_mech m)"

definition demo_view :: param_view where
  "demo_view = \<lparr>as_gcm = \<lparr>pIv = Some [1], ulIvLen = 1, pAAD = None, ulAADLen = 0, ulTagBits = 128\<rparr>,
     as_oaep = \<lparr>op_hashAlg = CKM_SHA256, op_mgf = 2, pSourceData = None, ulSourceDataLen = 0\<rparr>\<rparr>"

lemma one_key_simps:
  "g_lock_ready (one_key kt)" "g_initialized (one_key kt)" "session_get (one_key kt) 1 = Some 0" "session_get (one_key kt) (Suc 0) = Some 0"
  "key_get (one_key kt) 1 = Some 0" "key_get (one_key kt) (Suc 0) = Some 0"
  "g_keys (one_key kt) ! 0 = zero_key\<lparr>k_in_use := True, obj_class := CKO_SECRET_KEY, k_key_type := kt, secret := Some (replicate 24 1)\<rparr>"
  "g_sessions (one_key kt) ! 0 = zero_session\<lparr>s_in_use := True, s_flags := 6, s_state := CKS_RW_PUBLIC_SESSION\<rparr>"
  by code_simp+

lemma secret_class: "CKO_SECRET_KEY \<noteq> CKO_CERTIFICATE"
  by (simp add: CKO_SECRET_KEY_def CKO_CERTIFICATE_def)

definition sign_mechs :: "nat set" where
  "sign_mechs = {CKM_RSA_PKCS, CKM_RSA_PKCS_PSS, CKM_ECDSA, CKM_ECDSA_SHA256, CKM_EDDSA,
     CKM_MD5_HMAC, CKM_SHA_1_HMAC, CKM_SHA256_HMAC, CKM_SHA384_HMAC, CKM_SHA512_HMAC}"

lemma sign_check_mechs: "sign_mech_check mech obj = Inr pss \<Longrightarrow> mechanism mech \<in> sign_mechs"
  by (auto simp: sign_mech_check_def sign_mechs_def mech_is_hmac_def split: if_splits)

lemma sign_check_ok:
  assumes "m \<in> sign_mechs"
  obtains mech kt pss where "mechanism mech = m" "sign_mech_check mech (g_keys (one_key kt) ! 0) = Inr pss"
proof (cases "m = CKM_RSA_PKCS_PSS")
  case True
  have "\<exists>p. parse_pss pss_mech = Inr p"
    by (rule parse_pss_ok [of _ _ WC_HASH_SHA256 WC_MGF1SHA256])
      (auto simp: pss_mech_def demo_pss_params ck_hash_to_wc_def ck_mgf_to_wc_def mech_defs)
  then obtain p where p: "parse_pss pss_mech = Inr p" ..
  show thesis
    by (rule that [of pss_mech CKK_RSA "Some p"]) (use True in \<open>simp_all add: pss_mech_def\<close>,
      use p in \<open>simp add: sign_mech_check_def one_key_simps zero_key_def pss_mech_def mech_defs\<close>)
next
  case False
  show thesis
    by (rule that [of "plain_mech m" CKK_GENERIC_SECRET None])
      (use assms False in \<open>auto simp: sign_mechs_def plain_mech_def sign_mech_check_def validate_mechanism_params_def mech_is_hmac_def one_key_simps zero_key_def\<close>)
qed

lemma accepts_sign_iff: "accepts_sign m \<longleftrightarrow> m \<in> sign_mechs" and accepts_verify_iff: "accepts_verify m \<longleftrightarrow> m \<in> sign_mechs"
proof -
  have "m \<in> sign_mechs" if "snd (C_SignInit h (Some mech) hk (st :: byte list wp11_state)) = CKR_OK" "mechanism mech = m" for h mech hk st
    using sign_init_ok [of h mech hk st "fst (C_SignInit h (Some mech) hk st)"] that sign_check_mechs by (metis prod.collapse)
  moreover have "m \<in> sign_mechs" if "snd (C_VerifyInit h (Some mech) hk (st :: byte list wp11_state)) = CKR_OK" "mechanism mech = m" for h mech hk st
    using verify_init_ok [of h mech hk st "fst (C_VerifyInit h (Some mech) hk st)"] that sign_check_mechs by (metis prod.collapse)
  moreover have "accepts_sign m \<and> accepts_verify m" if m: "m \<in> sign_mechs"
  proof -
    obtain mech kt pss where mech: "mechanism mech = m" "sign_mech_check mech (g_keys (one_key kt) ! 0) = Inr pss"
      using m by (rule sign_check_ok)
    have "snd (C_SignInit 1 (Some mech) 1 (one_key kt)) = CKR_OK" "snd (C_VerifyInit 1 (Some mech) 1 (one_key kt)) = CKR_OK"
      using mech(2) secret_class by (simp_all add: C_SignInit_def C_VerifyInit_def one_key_simps Let_def zero_session_def zero_key_def)
    then show ?thesis using mech(1) unfolding accepts_sign_def accepts_verify_def by blast
  qed
  ultimately show "accepts_sign m \<longleftrightarrow> m \<in> sign_mechs" "accepts_verify m \<longleftrightarrow> m \<in> sign_mechs"
    unfolding accepts_sign_def accepts_verify_def by blast+
qed

lemma accepts_digest_iff: "accepts_digest m \<longleftrightarrow> is_digest_mech m"
proof
  assume "accepts_digest m"
  then show "is_digest_mech m" by (auto simp: accepts_digest_def C_DigestInit_def Let_def split: if_splits option.splits)
next
  assume "is_digest_mech m"
  then have "snd (C_DigestInit toy_digest 1 (Some (plain_mech m)) (one_key 0)) = CKR_OK"
    by (simp add: C_DigestInit_def one_key_simps zero_session_def plain_mech_def)
  then show "accepts_digest m" unfolding accepts_digest_def by (metis CK_MECHANISM.select_convs(1) plain_mech_def)
qed

lemma mech_info_listed: "m \<in> set g_mechs \<longleftrightarrow> mech_info m \<noteq> None"
  unfolding g_mechs_def mech_info_def is_digest_mech_def mech_is_hmac_def by auto

definition cipher_mechs :: "nat set" where
  "cipher_mechs = {CKM_RSA_PKCS, CKM_RSA_PKCS_OAEP, CKM_AES_GCM, CKM_AES_ECB, CKM_AES_CBC, CKM_DES_ECB, CKM_DES_CBC, CKM_DES3_ECB, CKM_DES3_CBC}"

lemma cipher_init_mechs:
  "enc_init w pv mech obj = Some (CKR_OK, f) \<Longrightarrow> mechanism mech \<in> cipher_mechs"
  "dec_init w pv mech obj = Some (CKR_OK, f) \<Longrightarrow> mechanism mech \<in> cipher_mechs"
  by (auto simp: enc_init_def enc_init_block_def dec_init_def cipher_mechs_def mech_required_key_type_def init_fail_def split: if_splits option.splits)

definition cipher_key_type :: "nat \<Rightarrow> nat" where
  "cipher_key_type m = (case mech_required_key_type m of None \<Rightarrow> CKK_RSA | Some kt \<Rightarrow> kt)"

lemma cipher_init_demo:
  assumes "m \<in> cipher_mechs"
  shows "\<exists>f. enc_init toy_cipher demo_view (demo_mech m) (g_keys (one_key (cipher_key_type m)) ! 0) = Some (CKR_OK, f)"
    "\<exists>f. dec_init toy_cipher demo_view (demo_mech m) (g_keys (one_key (cipher_key_type m)) ! 0) = Some (CKR_OK, f)"
  using assms unfolding cipher_mechs_def
  by (auto simp: enc_init_def dec_init_def one_key_simps zero_key_def demo_mech_def plain_mech_def mech_has_iv_def mech_block_size_def cipher_key_type_def
      mech_required_key_type_def mech_defs validate_mechanism_params_def oaep_parse_def demo_view_def ck_hash_to_wc_def ck_mgf_to_wc_def WP11_OAEP_LABEL_MAX_def
      enc_init_gcm_def dec_init_gcm_def gcm_parse_def enc_init_block_def dec_init_block_def iv_bad_def no_secret_def secret_bytes_def sym_setup_def toy_cipher_def
      WP11_GCM_IV_MAX_def WP11_GCM_AAD_MAX_def Let_def)

lemma demo_mech_mechanism [simp]: "mechanism (demo_mech m) = m"
  by (simp add: demo_mech_def plain_mech_def)

lemma accepts_encrypt_iff: "accepts_encrypt m \<longleftrightarrow> m \<in> cipher_mechs" and accepts_decrypt_iff: "accepts_decrypt m \<longleftrightarrow> m \<in> cipher_mechs"
proof -
  have "m \<in> cipher_mechs" if "mechanism mech = m" "C_EncryptInit w pv h (Some mech) hk (st :: byte list wp11_state) = Some (st', CKR_OK)" for w pv mech h hk st st'
    using that(2) by (rule encrypt_init_ok) (use that(1) cipher_init_mechs(1) in blast)
  moreover have "m \<in> cipher_mechs" if "mechanism mech = m" "C_DecryptInit w pv h (Some mech) hk (st :: byte list wp11_state) = Some (st', CKR_OK)" for w pv mech h hk st st'
    using that(2) by (rule decrypt_init_ok) (use that(1) cipher_init_mechs(2) in blast)
  moreover have "accepts_encrypt m \<and> accepts_decrypt m" if m: "m \<in> cipher_mechs"
  proof -
    obtain f f' where f: "enc_init toy_cipher demo_view (demo_mech m) (g_keys (one_key (cipher_key_type m)) ! 0) = Some (CKR_OK, f)"
      "dec_init toy_cipher demo_view (demo_mech m) (g_keys (one_key (cipher_key_type m)) ! 0) = Some (CKR_OK, f')"
      using cipher_init_demo [OF m] by blast
    have "\<exists>st'. C_EncryptInit toy_cipher demo_view 1 (Some (demo_mech m)) 1 (one_key (cipher_key_type m)) = Some (st', CKR_OK)"
      "\<exists>st'. C_DecryptInit toy_cipher demo_view 1 (Some (demo_mech m)) 1 (one_key (cipher_key_type m)) = Some (st', CKR_OK)"
      using f secret_class
      by (simp_all add: C_EncryptInit_def C_DecryptInit_def one_key_simps Let_def zero_session_def zero_key_def)
    then show ?thesis unfolding accepts_encrypt_def accepts_decrypt_def using demo_mech_mechanism by blast
  qed
  ultimately show "accepts_encrypt m \<longleftrightarrow> m \<in> cipher_mechs" "accepts_decrypt m \<longleftrightarrow> m \<in> cipher_mechs"
    unfolding accepts_encrypt_def accepts_decrypt_def by blast+
qed

lemma template_len_16: "template_len [\<lparr>a_type = CKA_VALUE_LEN, a_value = Some [16, 0, 0, 0, 0, 0, 0, 0]\<rparr>] 0 = 16"
  by (simp add: ulong_at_def bslice_def)

lemma accepts_generate_iff: "accepts_generate m \<longleftrightarrow> m \<in> {CKM_AES_KEY_GEN, CKM_DES_KEY_GEN, CKM_DES3_KEY_GEN}"
proof
  assume "accepts_generate m"
  then obtain env beh h mech as and st :: "byte list wp11_state" and st' ob where g:
    "mechanism mech = m" "C_GenerateKey env beh h (Some mech) (Some as) True st = Some (st', CKR_OK, ob)"
    unfolding accepts_generate_def by blast
  then have "\<exists>r. secret_key_kind m as = Inr r"
    by (cases "secret_key_kind m as") (auto simp: C_GenerateKey_def secret_key_kind_def split: if_splits option.splits)
  then show "m \<in> {CKM_AES_KEY_GEN, CKM_DES_KEY_GEN, CKM_DES3_KEY_GEN}"
    by (auto simp: secret_key_kind_def split: if_splits)
next
  assume m: "m \<in> {CKM_AES_KEY_GEN, CKM_DES_KEY_GEN, CKM_DES3_KEY_GEN}"
  let ?as = "[\<lparr>a_type = CKA_VALUE_LEN, a_value = Some [16, 0, 0, 0, 0, 0, 0, 0]\<rparr>]"
  obtain kt len where k: "secret_key_kind m ?as = Inr (kt, len)"
    using m template_len_16 by (auto simp: secret_key_kind_def keygen_defs)
  have c: "gen_attr [] \<lparr>a_type = CKA_VALUE_LEN, a_value = Some [16, 0, 0, 0, 0, 0, 0, 0]\<rparr> default_attrs = default_attrs"
    by (simp add: gen_attr_def keygen_defs CKA_SENSITIVE_def CKA_EXTRACTABLE_def CKA_PRIVATE_def CKA_TOKEN_def CKA_LABEL_def)
  obtain l where lbl: "read_label (ca_label default_attrs) = Some l" by (simp add: read_label_def default_attrs_def)
  obtain gi where free: "free_key (one_key 0) = Some gi" by (simp add: free_key_def one_key_def MAX_KEYS_def zero_key_def numeral_eq_Suc)
  have "\<exists>st' ob. C_GenerateKey toy_crypto (\<lambda>n. []) 1 (Some (plain_mech m)) (Some ?as) True (one_key 0) = Some (st', CKR_OK, ob)"
    by (simp add: C_GenerateKey_def one_key_simps plain_mech_def k c free lbl toy_simps Let_def)
  moreover have "mechanism (plain_mech m) = m" by (simp add: plain_mech_def)
  ultimately show "accepts_generate m" unfolding accepts_generate_def by blast
qed

lemmas accepts_iffs = accepts_sign_iff accepts_verify_iff accepts_digest_iff accepts_encrypt_iff accepts_decrypt_iff accepts_generate_iff

lemma advertises_cases:
  "advertises fl m \<longleftrightarrow>
     (if m = CKM_RSA_PKCS then (CKF_SIGN OR CKF_DECRYPT) AND fl \<noteq> 0
      else if m \<in> cipher_mechs then (CKF_ENCRYPT OR CKF_DECRYPT) AND fl \<noteq> 0
      else if m = CKM_ECDSA \<or> m = CKM_ECDSA_SHA256 then CKF_SIGN AND fl \<noteq> 0
      else if m \<in> sign_mechs then (CKF_SIGN OR CKF_VERIFY) AND fl \<noteq> 0
      else if m = CKM_ECDH1_DERIVE then CKF_DERIVE AND fl \<noteq> 0
      else if m \<in> {CKM_AES_KEY_GEN, CKM_DES_KEY_GEN, CKM_DES3_KEY_GEN} then CKF_GENERATE AND fl \<noteq> 0
      else is_digest_mech m \<and> CKF_DIGEST AND fl \<noteq> 0)"
proof -
  have "advertises fl m \<longleftrightarrow> (case mech_info m of None \<Rightarrow> False | Some (lo, hi, flags) \<Rightarrow> flags AND fl \<noteq> 0)"
    using mech_info_listed [of m] by (cases "mech_info m") (auto simp: advertises_def)
  then show ?thesis
    unfolding mech_info_def is_digest_mech_def mech_is_hmac_def sign_mechs_def cipher_mechs_def
    by (simp add: mech_defs keygen_defs CKM_ECDH1_DERIVE_def)
qed

lemma advertised:
  "advertises CKF_SIGN m \<longleftrightarrow> m \<in> sign_mechs" "advertises CKF_DIGEST m \<longleftrightarrow> is_digest_mech m"
  "advertises CKF_VERIFY m \<longleftrightarrow> m \<in> sign_mechs \<and> m \<notin> {CKM_RSA_PKCS, CKM_ECDSA, CKM_ECDSA_SHA256}"
  "advertises CKF_DECRYPT m \<longleftrightarrow> m \<in> cipher_mechs" "advertises CKF_ENCRYPT m \<longleftrightarrow> m \<in> cipher_mechs \<and> m \<noteq> CKM_RSA_PKCS"
  "advertises CKF_GENERATE m \<longleftrightarrow> m \<in> {CKM_AES_KEY_GEN, CKM_DES_KEY_GEN, CKM_DES3_KEY_GEN}"
  unfolding advertises_cases ckf_defs
  by (simp; auto simp: sign_mechs_def cipher_mechs_def is_digest_mech_def mech_defs keygen_defs CKM_ECDH1_DERIVE_def)+

text \<open>C20. The mechanism tables agree with the operations: \<open>C_GetMechanismInfo\<close> knows exactly the mechanisms that
  \<open>C_GetMechanismList\<close> lists, and a mechanism has the sign, digest, generate or decrypt flag exactly when the function of
  that name accepts it in some state with some key and parameters.  The encrypt flag is missing for RSA PKCS#1 v1.5 and the
  verify flag for RSA PKCS#1 v1.5 and ECDSA, although \<open>C_EncryptInit\<close> and \<open>C_VerifyInit\<close> accept them; otherwise these two
  flags are exact too.\<close>
theorem mechanism_flags_match_operations:
  "((\<exists>i. C_GetMechanismInfo slot m True st = Inr i) \<longleftrightarrow> m \<in> set (snd (snd (C_GetMechanismList slot True (Some 27) st))))
   \<and> (advertises CKF_SIGN m \<longleftrightarrow> accepts_sign m) \<and> (advertises CKF_DIGEST m \<longleftrightarrow> accepts_digest m)
   \<and> (advertises CKF_GENERATE m \<longleftrightarrow> accepts_generate m) \<and> (advertises CKF_DECRYPT m \<longleftrightarrow> accepts_decrypt m)
   \<and> (advertises CKF_ENCRYPT m \<longleftrightarrow> accepts_encrypt m \<and> m \<noteq> CKM_RSA_PKCS)
   \<and> (advertises CKF_VERIFY m \<longleftrightarrow> accepts_verify m \<and> m \<notin> {CKM_RSA_PKCS, CKM_ECDSA, CKM_ECDSA_SHA256})"
proof -
  have l: "length g_mechs = 27" by (simp add: g_mechs_def)
  have listed: "(\<exists>i. C_GetMechanismInfo slot m True st = Inr i) \<longleftrightarrow> m \<in> set (snd (snd (C_GetMechanismList slot True (Some 27) st)))"
    using mech_info_listed [of m] by (auto simp: C_GetMechanismInfo_def C_GetMechanismList_def l split: option.splits)
  then show ?thesis by (simp only: accepts_iffs advertised simp_thms)
qed

end
