(* ===== verification/KeyUse.thy ===== *)
theory KeyUse imports KeyGen Cipher begin

text \<open>
  Keys that the token makes, in use: the two objects of \<open>C_GenerateKeyPair\<close> in \<open>C_Sign\<close> and \<open>C_Verify\<close>, and the secret
  keys of \<open>C_GenerateKey\<close> in \<open>C_Encrypt\<close> and \<open>C_Decrypt\<close>.
\<close>

section \<open>Key pairs\<close>

lemma save_frame: "soft_slot_save env cio slot fs st = Some (st', tr, r) \<Longrightarrow> \<exists>mem. st' = st\<lparr>heap := mem\<rparr>"
  by (auto simp: soft_slot_save_def Let_def split: if_splits option.splits prod.splits bool.splits intro: exI [of _ "heap st"])

lemma two_free_Some:
  assumes "two_free st = Some (a, b)"
  shows "a < b" "b < MAX_KEYS" "\<not> k_in_use (g_keys st ! a)" "\<not> k_in_use (g_keys st ! b)"
proof -
  let ?xs = "filter (\<lambda>i. \<not> k_in_use (g_keys st ! i)) [0..<MAX_KEYS]"
  obtain r where r: "?xs = a # b # r" using assms by (auto simp: two_free_def split: list.splits)
  have "sorted_wrt (<) ?xs" by (rule sorted_wrt_filter) simp
  then show "a < b" unfolding r by simp
  have "a \<in> set ?xs" "b \<in> set ?xs" unfolding r by simp_all
  then show "b < MAX_KEYS" "\<not> k_in_use (g_keys st ! a)" "\<not> k_in_use (g_keys st ! b)" by auto
qed

lemma new_soft_key:
  assumes "new_pair_key env mech bits p384 st = (st1, Some p)"
  shows "\<exists>k. privs st1 = (privs st)(p \<mapsto> SoftObj k) \<and> sk_ref_count k = 1" "g_keys st1 = g_keys st" "g_sessions st1 = g_sessions st"
    "g_slots st1 = g_slots st" "g_lock_ready st1 = g_lock_ready st" "g_initialized st1 = g_initialized st"
  using assms by (auto simp: new_pair_key_def wp11_soft_key_new_rsa_def wp11_soft_key_new_ed25519_def wp11_soft_key_new_ecc_p384_def
      wp11_soft_key_new_ecc_p256_def soft_key_new_def Let_def split: if_splits option.splits)

lemma ref_frame [simp]:
  "g_keys (wp11_soft_key_ref p st) = g_keys st" "g_sessions (wp11_soft_key_ref p st) = g_sessions st" "g_slots (wp11_soft_key_ref p st) = g_slots st"
  "g_lock_ready (wp11_soft_key_ref p st) = g_lock_ready st" "g_initialized (wp11_soft_key_ref p st) = g_initialized st"
  by (simp_all add: wp11_soft_key_ref_def split: option.split priv_obj.split)

text \<open>What a successful generation on a soft token leaves: two objects at entries that were free, sharing one key.\<close>

definition pair_made :: "nat \<Rightarrow> nat \<Rightarrow> 'd wp11_state \<Rightarrow> 'd wp11_state \<Rightarrow> bool" where
  "pair_made a b st st' \<longleftrightarrow> a < b \<and> b < MAX_KEYS \<and> \<not> k_in_use (g_keys st ! a) \<and> \<not> k_in_use (g_keys st ! b)
     \<and> g_sessions st' = g_sessions st \<and> g_slots st' = g_slots st \<and> length (g_keys st') = length (g_keys st)
     \<and> (\<forall>j. j \<noteq> a \<and> j \<noteq> b \<longrightarrow> g_keys st' ! j = g_keys st ! j)
     \<and> k_in_use (g_keys st' ! a) \<and> k_in_use (g_keys st' ! b)
     \<and> obj_class (g_keys st' ! a) = CKO_PUBLIC_KEY \<and> obj_class (g_keys st' ! b) = CKO_PRIVATE_KEY \<and> \<not> is_private (g_keys st' ! a)
     \<and> ops (g_keys st' ! a) = Some wp11_backend_soft_ops \<and> ops (g_keys st' ! b) = Some wp11_backend_soft_ops
     \<and> (\<exists>p k. key_priv (g_keys st' ! a) = Some (SoftKey p) \<and> key_priv (g_keys st' ! b) = Some (SoftKey p)
           \<and> privs st' = (privs st)(p \<mapsto> SoftObj k) \<and> sk_ref_count k = 2)"

lemma soft_pair_made:
  assumes "soft_pair cfg env cio fs slot mech dims priv lbl st = Some (st', tr, CKR_OK, Some (hp, hs))" "tables_ok st"
  obtains a b where "hp = a + 1" "hs = b + 1" "pair_made a b st st'"
proof -
  obtain a b where f: "two_free st = Some (a, b)"
    using assms(1) by (cases "two_free st") (auto simp: soft_pair_def)
  obtain st1 p where n: "new_pair_key env mech (fst dims) (snd dims) st = (st1, Some p)"
    using assms(1) f by (cases "new_pair_key env mech (fst dims) (snd dims) st"; cases "snd (new_pair_key env mech (fst dims) (snd dims) st)") (auto simp: soft_pair_def)
  obtain l where l: "read_label lbl = Some l"
    using assms(1) f n by (cases "read_label lbl") (auto simp: soft_pair_def)
  obtain k where k: "privs st1 = (privs st)(p \<mapsto> SoftObj k)" "sk_ref_count k = 1" using new_soft_key(1) [OF n] by blast
  note ab = two_free_Some [OF f]
  have len: "a < length (g_keys st)" "b < length (g_keys st)" using ab(1,2) assms(2) by (simp_all add: tables_ok_def)
  define kpub where "kpub = pair_object slot CKO_PUBLIC_KEY False p (pair_kind mech (fst dims) (snd dims)) l (g_keys st ! a)"
  define kpriv where "kpriv = pair_object slot CKO_PRIVATE_KEY priv p (pair_kind mech (fst dims) (snd dims)) l (g_keys st ! b)"
  define ids :: "wp11_key_obj \<Rightarrow> wp11_key_obj" where "ids = (if CFG_USB_FLASH cfg then (\<lambda>x. x\<lparr>k_id := pair_id env kpriv\<rparr>) else id)"
  define st3 where "st3 = (wp11_soft_key_ref p st1)\<lparr>g_keys := (g_keys st)[a := ids kpub, b := ids kpriv]\<rparr>"
  have r: "hp = a + 1" "hs = b + 1" "\<exists>mem. st' = st3\<lparr>heap := mem\<rparr>"
    using assms(1) unfolding soft_pair_def f n l prod.case option.case Let_def kpub_def [symmetric] kpriv_def [symmetric] ids_def [symmetric] st3_def [symmetric]
    by (auto dest: save_frame split: if_splits intro: exI [of _ "heap st3"])
  have "pair_made a b st st3"
    unfolding pair_made_def st3_def using ab len k new_soft_key(2-) [OF n]
    by (auto simp: wp11_soft_key_ref_def nth_list_update ids_def kpub_def kpriv_def pair_object_def)
  moreover obtain mem where "st' = st3\<lparr>heap := mem\<rparr>" using r(3) ..
  ultimately have "pair_made a b st st'" by (simp add: pair_made_def)
  with r(1,2) show thesis by (rule that)
qed

lemma generated_pair:
  assumes "C_GenerateKeyPair cfg env cio fs beh h (Some g) (Some pub) (Some prv) True st = Some (st', tr, CKR_OK, Some (hp, hs))"
    "tables_ok st" "session_get st h = Some i" "sl_proto (g_slots st ! s_slot_id (g_sessions st ! i)) = PROTO_SOFT"
  obtains a b where "hp = a + 1" "hs = b + 1" "pair_made a b st st'" "g_lock_ready st" "g_initialized st"
proof -
  obtain dims where d: "parse_pub pub (2048, False) = Inr dims"
    using assms(1,3) by (cases "parse_pub pub (2048, False)") (auto simp: C_GenerateKeyPair_def Let_def split: if_splits)
  have "soft_pair cfg env cio fs (s_slot_id (g_sessions st ! i)) (mechanism g) dims (snd (parse_priv beh 0 prv ([0], True)))
      (fst (parse_priv beh 0 prv ([0], True))) st = Some (st', tr, CKR_OK, Some (hp, hs))" "g_lock_ready st" "g_initialized st"
    using assms(1,3,4) d by (auto simp: C_GenerateKeyPair_def Let_def split: if_splits prod.splits)
  then show thesis using that by (blast elim: soft_pair_made [OF _ assms(2)])
qed

text \<open>C13. A generated pair works: after \<open>C_GenerateKeyPair\<close> on a soft token, the two handles are new and different and name a
  public and a private object that share one key with two references; every other object and soft key, the sessions and the slots are as
  before (a token with a keystore has its file rewritten, which is not part of this statement); and whatever a
  session signs through the private handle with ECDSA, RSA PKCS#1 or Ed25519 (not RSA-PSS), \<open>C_Verify\<close> accepts through the public one, except that it
  answers \<open>CKR_SIGNATURE_LEN_RANGE\<close> to an RSA signature whose length is not the \<open>sig_len_max\<close> of the object (one eighth, rounded down, of the requested
  modulus size, which may differ from the size of the key: \<open>modulus_bits_cast\<close>).\<close>
theorem generated_pair_signs:
  assumes "C_GenerateKeyPair cfg env cio fs beh h (Some g) (Some pub) (Some prv) True st = Some (st0, tr, CKR_OK, Some (hp, hs))"
    "tables_ok st" "session_get st h = Some i" "sl_proto (g_slots st ! s_slot_id (g_sessions st ! i)) = PROTO_SOFT"
    "pk_law env1 env2" "mechanism m \<in> {CKM_ECDSA, CKM_ECDSA_SHA256, CKM_RSA_PKCS, CKM_EDDSA}"
    and "C_SignInit h' (Some m) hs st0 = (st1, CKR_OK)" "C_Sign env1 h' (Some d) True (Some cap) st1 = Some (st2, CKR_OK, n, sig)"
    and "C_VerifyInit h' (Some m) hp st2 = (st3, CKR_OK)" "sig \<noteq> []" "length sig \<le> 4294967295"
  shows "key_get st hp = None \<and> key_get st hs = None \<and> hp \<noteq> hs \<and> pair_made (hp - 1) (hs - 1) st st0
    \<and> (\<exists>st4. C_Verify env2 h' (Some d) (Some sig) st3 = Some (st4,
          if mechanism m = CKM_RSA_PKCS \<and> sig_len_max (g_keys st0 ! (hp - 1)) \<notin> {0, length sig} then CKR_SIGNATURE_LEN_RANGE else CKR_OK))"
proof -
  obtain a b where ab: "hp = a + 1" "hs = b + 1" "pair_made a b st st0" by (rule generated_pair [OF assms(1-4)])
  note p = ab(3) [unfolded pair_made_def]
  have t: "tables_ok st0" using assms(2) p by (simp add: tables_ok_def)
  have k: "key_get st0 hp = Some a" "key_get st0 hs = Some b" using ab(1,2) p by (auto simp: key_get_Some)
  have "\<exists>st4. C_Verify env2 h' (Some d) (Some sig) st3 = Some (st4,
      if mechanism m = CKM_RSA_PKCS \<and> sig_len_max (g_keys st0 ! a) \<notin> {0, length sig} then CKR_SIGNATURE_LEN_RANGE else CKR_OK)"
    by (rule soft_verifies [OF assms(5) t assms(6-9) k(2) _ k(1)]) (use p assms(10,11) ab(1) in auto)
  moreover have "key_get st hp = None" "key_get st hs = None" using p ab(1,2) by (simp_all add: key_get_def key_handle_valid_def)
  ultimately show ?thesis using ab by (auto simp: pair_made_def)
qed

text \<open>\<open>CKA_MODULUS_BITS\<close> 2^32 + 2048: the size of the key is cast to \<open>int\<close> and is 2048, the maximal signature length stored with the
  two objects is computed from the uncast value, so \<open>C_Verify\<close> refuses every signature of this pair for its length.\<close>
lemma modulus_bits_cast:
  "new_pair_key env CKM_RSA_PKCS_KEY_PAIR_GEN (4294967296 + 2048) p384 st = new_pair_key env CKM_RSA_PKCS_KEY_PAIR_GEN 2048 p384 st"
  "snd (pair_kind CKM_RSA_PKCS_KEY_PAIR_GEN (4294967296 + 2048) p384) = 536871168"
proof -
  have "(word_of_nat (4294967296 + 2048) :: 32 word) = word_of_nat 2048" by (rule word_of_nat_eq_iff [THEN iffD2]) (simp add: take_bit_eq_mod)
  then show "new_pair_key env CKM_RSA_PKCS_KEY_PAIR_GEN (4294967296 + 2048) p384 st = new_pair_key env CKM_RSA_PKCS_KEY_PAIR_GEN 2048 p384 st"
    unfolding new_pair_key_def by simp
qed (simp add: pair_kind_def)

section \<open>Concrete runs\<close>

definition soft_token :: "byte list wp11_state" where
  "soft_token = session_state"

definition bare_cfg :: wp11_cfg where
  "bare_cfg = \<lparr>CFG_USB = False, CFG_USB_FLASH = False, CFG_FSDIR = False\<rparr>"

definition public_attr :: CK_ATTRIBUTE where
  "public_attr = \<lparr>a_type = CKA_PRIVATE, a_value = Some [0]\<rparr>"

definition pair_call :: "(byte list wp11_state \<times> files list \<times> CK_RV \<times> (nat \<times> nat) option) option" where
  "pair_call = C_GenerateKeyPair bare_cfg toy_crypto sample_io (\<lambda>p. None) (\<lambda>n. []) 1 (Some (plain_mech CKM_EC_KEY_PAIR_GEN)) (Some []) (Some [public_attr]) True soft_token"

definition pair_state :: "byte list wp11_state" where
  "pair_state = soft_token\<lparr>priv_next := 1, privs := [0 \<mapsto> SoftObj \<lparr>sk_ref_count = 2, sk_key_type = WP11_SOFT_KEY_ECC, sk_image = replicate 32 9\<rparr>],
     g_keys := (g_keys soft_token)[0 := pair_object 0 CKO_PUBLIC_KEY False 0 (CKK_EC, 72) [] zero_key,
       1 := pair_object 0 CKO_PRIVATE_KEY False 0 (CKK_EC, 72) [] zero_key]\<rparr>"

lemma soft_token_simps:
  "g_lock_ready soft_token" "g_initialized soft_token" "tables_ok soft_token" "session_get soft_token 1 = Some 0" "session_get soft_token (Suc 0) = Some 0" "g_keys soft_token = replicate MAX_KEYS zero_key"
  "g_sessions soft_token ! 0 = zero_session\<lparr>s_in_use := True, s_flags := 6, s_state := CKS_RW_PUBLIC_SESSION\<rparr>"
  "sl_proto (g_slots soft_token ! 0) = PROTO_SOFT" "keystore_path (g_slots soft_token ! 0) = []" "privs soft_token = Map.empty" "priv_next soft_token = 0"
  by (simp_all add: soft_token_def session_state_def tables_ok_def table_sizes session_get_Some state0_def zero_slot_def)

lemma pair_gen_neq: "CKM_EC_KEY_PAIR_GEN \<noteq> CKM_RSA_PKCS_KEY_PAIR_GEN" "CKM_EC_KEY_PAIR_GEN \<noteq> CKM_EC_EDWARDS_KEY_PAIR_GEN"
  by (simp_all add: keygen_defs)

lemma pair_call: "\<exists>tr. pair_call = Some (pair_state, tr, CKR_OK, Some (1, 2))"
proof -
  have c: "cstr [0] = []" by (simp add: cstr_def)
  have f: "two_free soft_token = Some (0, 1)" by (simp add: two_free_def soft_token_simps MAX_KEYS_def upt_rec zero_key_def)
  have n: "new_pair_key toy_crypto CKM_EC_KEY_PAIR_GEN 2048 False soft_token =
     (soft_token\<lparr>priv_next := 1, privs := [0 \<mapsto> SoftObj \<lparr>sk_ref_count = 1, sk_key_type = WP11_SOFT_KEY_ECC, sk_image = replicate 32 9\<rparr>]\<rparr>, Some 0)"
    by (simp add: new_pair_key_def keygen_defs wp11_soft_key_new_ecc_p256_def soft_key_new_def toy_simps soft_token_simps Let_def)
  show ?thesis
    by (simp add: pair_call_def C_GenerateKeyPair_def soft_token_simps plain_mech_def bare_cfg_def pair_needs_login_def zero_session_def Let_def
        soft_pair_def f n read_label_def wp11_soft_key_ref_def pair_kind_def pair_gen_neq pair_state_def MAX_KEYS_def c numeral_2_eq_2 public_attr_def bbool_def cka_defs cka_more)
qed

lemma pair_state_simps:
  "g_lock_ready pair_state" "g_initialized pair_state" "session_get pair_state 1 = Some 0" "session_get pair_state (Suc 0) = Some 0"
  "g_keys pair_state ! 0 = pair_object 0 CKO_PUBLIC_KEY False 0 (CKK_EC, 72) [] zero_key"
  "g_keys pair_state ! Suc 0 = pair_object 0 CKO_PRIVATE_KEY False 0 (CKK_EC, 72) [] zero_key"
  "g_sessions pair_state ! 0 = zero_session\<lparr>s_in_use := True, s_flags := 6, s_state := CKS_RW_PUBLIC_SESSION\<rparr>" "length (g_sessions pair_state) = 8"
  "soft_key_at (SoftKey 0) pair_state = Some \<lparr>sk_ref_count = 2, sk_key_type = WP11_SOFT_KEY_ECC, sk_image = replicate 32 9\<rparr>"
  "key_get pair_state 1 = Some 0" "key_get pair_state (Suc 0) = Some 0" "key_get pair_state 2 = Some 1"
  by (simp_all add: pair_state_def soft_token_simps MAX_KEYS_def session_get_Some key_get_Some pair_object_def soft_key_at_def)
    (simp_all add: soft_token_def session_state_def table_sizes)

definition pair_signing :: "byte list wp11_state" where
  "pair_signing = fst (C_SignInit 1 (Some (plain_mech CKM_ECDSA)) 2 pair_state)"

definition pair_signed :: "byte list wp11_state" where
  "pair_signed = fst (the (C_Sign toy_crypto 1 (Some [5]) True (Some 128) pair_signing))"

lemma pair_signs:
  "C_SignInit 1 (Some (plain_mech CKM_ECDSA)) 2 pair_state = (pair_signing, CKR_OK)"
  "C_Sign toy_crypto 1 (Some [5]) True (Some 128) pair_signing = Some (pair_signed, CKR_OK, Some 2, [1, 5])"
  "snd (C_VerifyInit 1 (Some (plain_mech CKM_ECDSA)) 1 pair_signed) = CKR_OK"
proof -
  have i: "C_SignInit 1 (Some (plain_mech CKM_ECDSA)) 2 pair_state =
    (upd_session 0 (\<lambda>s. s\<lparr>sign_active := True, sign_mech := CKM_ECDSA, sign_key := 2\<rparr>) pair_state, CKR_OK)"
    by (simp add: C_SignInit_def pair_state_simps plain_mech_def sign_mech_check_def validate_mechanism_params_def zero_session_def zero_key_def pair_object_def
        CKO_PRIVATE_KEY_def CKO_CERTIFICATE_def Let_def)
  then show "C_SignInit 1 (Some (plain_mech CKM_ECDSA)) 2 pair_state = (pair_signing, CKR_OK)" by (simp add: pair_signing_def)
  have p: "pair_signing = upd_session 0 (\<lambda>s. s\<lparr>sign_active := True, sign_mech := CKM_ECDSA, sign_key := 2\<rparr>) pair_state" using i by (simp add: pair_signing_def)
  have s: "\<exists>st. C_Sign toy_crypto 1 (Some [5]) True (Some 128) pair_signing = Some (st, CKR_OK, Some 2, [1, 5]) \<and> st = upd_session 0 sign_done pair_signing"
    by (simp add: p C_Sign_active pair_state_simps zero_session_def backend_sign_op_def pair_object_def mech_is_hmac_def mech_defs
        soft_sign_def with_soft_key_def soft_sign_key_def or_general_def FITS_U32_def toy_simps Let_def)
  show "C_Sign toy_crypto 1 (Some [5]) True (Some 128) pair_signing = Some (pair_signed, CKR_OK, Some 2, [1, 5])"
    using s by (auto simp: pair_signed_def)
  have q: "pair_signed = upd_session 0 sign_done pair_signing" using s by (auto simp: pair_signed_def)
  show "snd (C_VerifyInit 1 (Some (plain_mech CKM_ECDSA)) 1 pair_signed) = CKR_OK"
    unfolding q p by (simp add: C_VerifyInit_def pair_state_simps plain_mech_def sign_mech_check_def validate_mechanism_params_def zero_session_def pair_object_def
        CKO_PUBLIC_KEY_def CKO_CERTIFICATE_def Let_def)
qed

theorem generated_pair_signs_witness:
  "\<exists>st4. C_Verify toy_crypto 1 (Some [5]) (Some [1, 5]) (fst (C_VerifyInit 1 (Some (plain_mech CKM_ECDSA)) 1 pair_signed)) = Some (st4, CKR_OK)"
proof -
  obtain tr where tr: "pair_call = Some (pair_state, tr, CKR_OK, Some (1, 2))" using pair_call ..
  have v: "C_VerifyInit 1 (Some (plain_mech CKM_ECDSA)) 1 pair_signed = (fst (C_VerifyInit 1 (Some (plain_mech CKM_ECDSA)) 1 pair_signed), CKR_OK)"
    using pair_signs(3) by (simp add: prod_eq_iff)
  show ?thesis
    using generated_pair_signs [OF tr [unfolded pair_call_def] soft_token_simps(3,4) _ toy_laws(2) _ pair_signs(1,2) v]
    by (simp add: soft_token_simps zero_session_def plain_mech_def mech_defs)
qed

end
