(* ===== verification/ObjectSearch.thy ===== *)
theory ObjectSearch imports Attributes begin

text \<open>
  A whole search: \<open>C_FindObjectsInit\<close>, then \<open>C_FindObjects\<close> again and again, each call with room for some number of
  handles.  The search delivers every matching object exactly once, in whatever portions it is read.
\<close>

text \<open>The calls of \<open>C_FindObjects\<close> with the given sizes of the caller's array, and what they deliver.\<close>

fun search :: "nat \<Rightarrow> nat list \<Rightarrow> 'd wp11_state \<Rightarrow> 'd wp11_state \<times> (CK_RV + nat list) list" where
  "search h [] st = (st, [])"
| "search h (n # ns) st =
     (case C_FindObjects h True n st of (st1, r) \<Rightarrow> (case search h ns st1 of (st2, rs) \<Rightarrow> (st2, r # rs)))"

definition delivered :: "(CK_RV + nat list) list \<Rightarrow> nat list" where
  "delivered rs = concat (map (\<lambda>r. case r of Inl e \<Rightarrow> [] | Inr hs \<Rightarrow> hs) rs)"

text \<open>The handles a search is meant to find.\<close>

definition matching :: "'d wp11_state \<Rightarrow> nat \<Rightarrow> wp11_find_attr list \<Rightarrow> nat list" where
  "matching st slot ts = map Suc [j \<leftarrow> [0..<MAX_KEYS]. k_in_use (g_keys st ! j) \<and> k_slot_id (g_keys st ! j) = slot \<and> key_matches_template (g_keys st ! j) ts]"

lemma find_scan_spec:
  "fst (find_scan hit m pos) = take m (map Suc (filter hit [pos..<MAX_KEYS]))
   \<and> map Suc (filter hit [snd (find_scan hit m pos)..<MAX_KEYS]) = drop m (map Suc (filter hit [pos..<MAX_KEYS]))"
proof (induction hit m pos rule: find_scan.induct)
  case (1 hit m pos)
  show ?case
  proof (cases "pos < MAX_KEYS \<and> m > 0")
    case False
    then show ?thesis by (subst (1 2) find_scan.simps) auto
  next
    case True
    have u: "[pos..<MAX_KEYS] = pos # [pos + 1..<MAX_KEYS]" using True by (simp add: upt_conv_Cons)
    obtain m' where m: "m = Suc m'" using True by (cases m) auto
    show ?thesis
    proof (cases "hit pos")
      case True
      obtain hs p where r: "find_scan hit m' (Suc pos) = (hs, p)" by fastforce
      from True 1(1) \<open>pos < MAX_KEYS \<and> m > 0\<close> m r
      have ih: "hs = take m' (map Suc (filter hit [Suc pos..<MAX_KEYS]))"
        "map Suc (filter hit [p..<MAX_KEYS]) = drop m' (map Suc (filter hit [Suc pos..<MAX_KEYS]))" by auto
      have "find_scan hit m pos = (Suc pos # hs, p)"
        using True \<open>pos < MAX_KEYS \<and> m > 0\<close> m r by (subst find_scan.simps) simp
      then show ?thesis unfolding u using True m ih by simp
    next
      case False
      from False 1(2) \<open>pos < MAX_KEYS \<and> m > 0\<close>
      have ih: "fst (find_scan hit m (pos + 1)) = take m (map Suc (filter hit [pos + 1..<MAX_KEYS]))
        \<and> map Suc (filter hit [snd (find_scan hit m (pos + 1))..<MAX_KEYS]) = drop m (map Suc (filter hit [pos + 1..<MAX_KEYS]))" by auto
      have "find_scan hit m pos = find_scan hit m (pos + 1)"
        using False \<open>pos < MAX_KEYS \<and> m > 0\<close> by (subst find_scan.simps) simp
      then show ?thesis unfolding u using False ih by simp
    qed
  qed
qed

text \<open>What is still to be delivered by an active search.\<close>

definition searching :: "nat \<Rightarrow> nat \<Rightarrow> nat list \<Rightarrow> 'd wp11_state \<Rightarrow> bool" where
  "searching h i rest st \<longleftrightarrow> g_lock_ready st \<and> g_initialized st \<and> session_get st h = Some i \<and> i < length (g_sessions st)
     \<and> find_active (g_sessions st ! i)
     \<and> map Suc (filter (find_hit st (g_sessions st ! i)) [find_pos (g_sessions st ! i)..<MAX_KEYS]) = rest"

lemma searching_call:
  assumes "searching h i rest st"
  obtains st1 where "C_FindObjects h True n st = (st1, Inr (take n rest))" "searching h i (drop n rest) st1"
    "g_keys st1 = g_keys st"
proof -
  let ?s = "g_sessions st ! i"
  obtain hs p where f: "find_scan (find_hit st ?s) n (find_pos ?s) = (hs, p)" by fastforce
  let ?st1 = "upd_session i (\<lambda>s. s\<lparr>find_pos := p\<rparr>) st"
  have hit: "find_hit ?st1 (?s\<lparr>find_pos := p\<rparr>) = find_hit st ?s" by (rule ext) (simp add: find_hit_def)
  have hs: "hs = take n rest" "map Suc (filter (find_hit st ?s) [p..<MAX_KEYS]) = drop n rest"
    using find_scan_spec [of "find_hit st ?s" n "find_pos ?s"] assms by (simp_all add: f searching_def)
  have "C_FindObjects h True n st = (?st1, Inr (take n rest))"
    using assms by (simp add: C_FindObjects_def searching_def f hs(1) Let_def)
  moreover have "searching h i (drop n rest) ?st1" using assms hs(2) hit by (simp add: searching_def)
  ultimately show thesis by (rule that) simp
qed

lemma search_delivers:
  assumes "searching h i rest st"
  shows "delivered (snd (search h ns st)) = take (sum_list ns) rest \<and> searching h i (drop (sum_list ns) rest) (fst (search h ns st))
    \<and> g_keys (fst (search h ns st)) = g_keys st"
  using assms
proof (induction ns arbitrary: rest st)
  case Nil
  then show ?case by (simp add: delivered_def)
next
  case (Cons n ns)
  obtain st1 where c: "C_FindObjects h True n st = (st1, Inr (take n rest))" "searching h i (drop n rest) st1" "g_keys st1 = g_keys st"
    using Cons.prems by (rule searching_call)
  from Cons.IH [OF c(2)] c(1,3) show ?case
    by (auto simp: delivered_def take_add drop_drop add.commute split: prod.split)
qed

lemma find_init_searching:
  assumes "C_FindObjectsInit h (Some as) st = (st1, CKR_OK)" "tables_ok st"
  obtains i ts where "session_get st h = Some i" "copy_template as = Some ts"
    "searching h i (matching st (s_slot_id (g_sessions st ! i)) ts) st1" "g_keys st1 = g_keys st"
proof -
  obtain i ts where i: "g_lock_ready st" "g_initialized st" "session_get st h = Some i" "copy_template as = Some ts"
    "st1 = upd_session i (\<lambda>s. s\<lparr>find_tmpl := ts, find_active := True, find_pos := 0\<rparr>) st"
    using assms(1) by (auto simp: C_FindObjectsInit_def Let_def split: if_splits option.splits)
  have "i < length (g_sessions st)" using i(3) assms(2) by (rule session_get_bound)
  moreover have "find_hit st1 (g_sessions st1 ! i) = (\<lambda>j. k_in_use (g_keys st ! j)
      \<and> k_slot_id (g_keys st ! j) = s_slot_id (g_sessions st ! i) \<and> key_matches_template (g_keys st ! j) ts)"
    using i(5) calculation by (intro ext) (simp add: find_hit_def)
  ultimately have "searching h i (matching st (s_slot_id (g_sessions st ! i)) ts) st1"
    using i by (simp add: searching_def matching_def)
  with i show thesis by (intro that) auto
qed

text \<open>C19. A search ends and is complete: after \<open>C_FindObjectsInit\<close> with a template, calls of \<open>C_FindObjects\<close> with arrays of any
  sizes never fail and deliver the handles of exactly the objects of the session's slot that match the template, each once
  and in ascending order, as soon as the arrays have room for all of them; from then on every call delivers nothing, and no
  object is changed.\<close>
theorem search_finds_all:
  assumes "C_FindObjectsInit h (Some as) st = (st1, CKR_OK)" "tables_ok st"
  shows "\<exists>i ts. session_get st h = Some i \<and> copy_template as = Some ts
    \<and> (\<forall>ns st2 rs. search h ns st1 = (st2, rs) \<longrightarrow>
         delivered rs = take (sum_list ns) (matching st (s_slot_id (g_sessions st ! i)) ts)
         \<and> (\<forall>r \<in> set rs. \<exists>hs. r = Inr hs) \<and> g_keys st2 = g_keys st
         \<and> (sum_list ns \<ge> MAX_KEYS \<longrightarrow> delivered rs = matching st (s_slot_id (g_sessions st ! i)) ts \<and> (\<forall>n. snd (C_FindObjects h True n st2) = Inr [])))"
proof -
  obtain i ts where i: "session_get st h = Some i" "copy_template as = Some ts"
    "searching h i (matching st (s_slot_id (g_sessions st ! i)) ts) st1" "g_keys st1 = g_keys st"
    using assms by (rule find_init_searching)
  let ?m = "matching st (s_slot_id (g_sessions st ! i)) ts"
  have len: "length ?m \<le> MAX_KEYS" by (simp add: matching_def) (metis length_filter_le length_upt minus_nat.diff_0)
  have ok: "\<forall>r \<in> set rs. \<exists>hs. r = Inr hs" if "search h ns s = (st2, rs)" "searching h i rest s" for ns rest s st2 rs
    using that
  proof (induction ns arbitrary: rest s rs)
    case (Cons n ns)
    obtain s1 where c: "C_FindObjects h True n s = (s1, Inr (take n rest))" "searching h i (drop n rest) s1" using Cons.prems(2) by (rule searching_call)
    with Cons show ?case by (auto split: prod.splits)
  qed simp
  show ?thesis
  proof (intro exI conjI allI impI)
    fix ns st2 rs n
    assume s: "search h ns st1 = (st2, rs)"
    note d = search_delivers [OF i(3), of ns, unfolded s fst_conv snd_conv]
    show "delivered rs = take (sum_list ns) ?m" "g_keys st2 = g_keys st" using d i(4) by simp_all
    show "\<forall>r \<in> set rs. \<exists>hs. r = Inr hs" using ok [OF s i(3)] .
    assume "sum_list ns \<ge> MAX_KEYS"
    then have "length ?m \<le> sum_list ns" using len by simp
    with d show "delivered rs = ?m" by simp
    from d \<open>length ?m \<le> sum_list ns\<close> have "searching h i [] st2" by simp
    then show "snd (C_FindObjects h True n st2) = Inr []" by (rule searching_call [where n = n]) simp
  qed (use i in simp_all)
qed


text \<open>Two objects with the label \<open>k\<close> and one with another, looked for with room for one handle, then one, then 64.\<close>

definition search_state :: "byte list wp11_state" where
  "search_state = session_state\<lparr>g_keys := (replicate MAX_KEYS zero_key)
     [0 := zero_key\<lparr>k_in_use := True, k_label := [0x6B]\<rparr>, 1 := zero_key\<lparr>k_in_use := True, k_label := [0x6C]\<rparr>,
      2 := zero_key\<lparr>k_in_use := True, k_label := [0x6B]\<rparr>]\<rparr>"

lemma search_state_facts:
  "snd (C_FindObjectsInit 1 (Some [\<lparr>a_type = CKA_LABEL, a_value = Some [0x6B]\<rparr>]) search_state) = CKR_OK"
  "tables_ok search_state" "session_get search_state 1 = Some 0"
  "matching search_state (s_slot_id (g_sessions search_state ! 0)) [\<lparr>fa_type = CKA_LABEL, fa_len = 1, fa_val = [0x6B]\<rparr>] = [1, 3]"
  by code_simp+

theorem search_finds_all_witness:
  "delivered (snd (search 1 [1, 1, 64] (fst (C_FindObjectsInit 1 (Some [\<lparr>a_type = CKA_LABEL, a_value = Some [0x6B]\<rparr>]) search_state)))) = [1, 3]"
proof -
  let ?st1 = "fst (C_FindObjectsInit 1 (Some [\<lparr>a_type = CKA_LABEL, a_value = Some [0x6B]\<rparr>]) search_state)"
  obtain st2 rs where s: "search 1 [1, 1, 64] ?st1 = (st2, rs)" by fastforce
  have i: "C_FindObjectsInit 1 (Some [\<lparr>a_type = CKA_LABEL, a_value = Some [0x6B]\<rparr>]) search_state = (?st1, CKR_OK)"
    using search_state_facts(1) by (simp add: prod_eq_iff)
  have c: "copy_template [\<lparr>a_type = CKA_LABEL, a_value = Some [0x6B]\<rparr>] = Some [\<lparr>fa_type = CKA_LABEL, fa_len = 1, fa_val = [0x6B]\<rparr>]"
    by code_simp
  from search_finds_all [OF i search_state_facts(2)] obtain k ts where k: "session_get search_state 1 = Some k"
    "copy_template [\<lparr>a_type = CKA_LABEL, a_value = Some [0x6B]\<rparr>] = Some ts"
    "sum_list [1, 1, 64] \<ge> MAX_KEYS \<longrightarrow> delivered rs = matching search_state (s_slot_id (g_sessions search_state ! k)) ts"
    using s by blast
  then have "delivered rs = [1, 3]" using search_state_facts(3,4) unfolding c by (simp add: MAX_KEYS_def)
  then show ?thesis unfolding s by simp
qed

end
