(* ===== verification/WolfHsm.thy ===== *)
theory WolfHsm imports Backend begin

text \<open>
  The wolfHSM backend (\<open>src/wp11_backend_wolfhsm.c\<close>, the build with \<open>WOLFP11_CFG_WOLFHSM_BACKEND\<close>): the private part of a key that
  lives on a server, the PKCS#1 v1.5 padding that the client applies and strips, and the operations of the table.  The
  wolfHSM client library is not code of the repository: its functions are the fields of \<open>hsm_api\<close>, over a server state of
  any type; wolfCrypt's are those of \<open>crypto_env\<close>.  The local key structures (\<open>ecc_key\<close>, \<open>RsaKey\<close>) that only carry the
  identifier of the key on the server are that identifier.
\<close>

section \<open>The client library\<close>

datatype wh_err =
    WH_ERROR_NOTREADY | WH_ERROR_TIMEOUT | WH_ERROR_NOTFOUND | WH_ERROR_USAGE | WH_ERROR_NOTIMPL | WH_ERROR_NOHANDLER
  | WH_ERROR_ACCESS | WH_ERROR_OTHER

datatype rsa_op = RSA_PRIVATE_ENCRYPT | RSA_PUBLIC_DECRYPT | RSA_PRIVATE_DECRYPT

text \<open>What \<open>whClientConfig\<close> says of the transport: a shared memory object, or an address and a port (\<open>short\<close>).\<close>

datatype wh_transport = TransportShm "byte list" | TransportTcp "byte list" "16 word"

text \<open>
  A number behind the input is the capacity of the output buffer.  \<open>wh_NvmList\<close> gives the count and the identifier it
  found and \<open>wh_NvmGetMetadata\<close> the length of an object and its label, \<open>None\<close> when either return code is not 0.  The
  functions that make or import a key give its identifier; \<open>wh_KeyExport\<close> the exported bytes.
\<close>

record 's hsm_api =
  wh_set_key_id :: bool
  wh_EccSign :: "'s \<Rightarrow> nat \<Rightarrow> byte list \<Rightarrow> nat \<Rightarrow> 's \<times> (wh_err + byte list)"
  wh_EccVerify :: "'s \<Rightarrow> nat \<Rightarrow> byte list \<Rightarrow> byte list \<Rightarrow> 's \<times> (wh_err + int)"
  wh_RsaFunction :: "'s \<Rightarrow> nat \<Rightarrow> rsa_op \<Rightarrow> byte list \<Rightarrow> nat \<Rightarrow> 's \<times> (wh_err + byte list)"
  wh_EccSharedSecret :: "'s \<Rightarrow> nat \<Rightarrow> wc_ctx \<Rightarrow> nat \<Rightarrow> 's \<times> (wh_err + byte list)"
  wh_KeyEvict :: "'s \<Rightarrow> nat \<Rightarrow> 's"
  wh_NvmList :: "'s \<Rightarrow> nat \<Rightarrow> 's \<times> (nat \<times> nat) option"
  wh_NvmGetMetadata :: "'s \<Rightarrow> nat \<Rightarrow> 's \<times> (nat \<times> byte list) option"
  wh_KeyExport :: "'s \<Rightarrow> nat \<Rightarrow> nat \<Rightarrow> 's \<times> byte list option"
  wh_keyid_is_crypto :: "nat \<Rightarrow> bool"
  wh_label_max :: nat
  wh_Init :: "'s \<Rightarrow> wh_transport \<Rightarrow> 's \<times> bool"
  wh_CommInit :: "'s \<Rightarrow> 's \<times> wh_err option"
  wh_CommClose :: "'s \<Rightarrow> 's"
  wh_Cleanup :: "'s \<Rightarrow> 's"
  wh_EccMakeCacheKey :: "'s \<Rightarrow> byte list \<Rightarrow> 's \<times> nat option"
  wh_RsaMakeCacheKey :: "'s \<Rightarrow> nat \<Rightarrow> byte list \<Rightarrow> 's \<times> nat option"
  wh_ImportKey :: "'s \<Rightarrow> wc_ctx \<Rightarrow> byte list \<Rightarrow> 's \<times> nat option"

fun wh_err_to_backend_err :: "wh_err \<Rightarrow> backend_err" where
  "wh_err_to_backend_err WH_ERROR_NOTREADY = BACKEND_ERR_NOT_READY"
| "wh_err_to_backend_err WH_ERROR_TIMEOUT = BACKEND_ERR_TIMEOUT"
| "wh_err_to_backend_err WH_ERROR_NOTFOUND = BACKEND_ERR_KEY_NOT_FOUND"
| "wh_err_to_backend_err WH_ERROR_USAGE = BACKEND_ERR_USAGE"
| "wh_err_to_backend_err WH_ERROR_NOTIMPL = BACKEND_ERR_NOT_IMPL"
| "wh_err_to_backend_err WH_ERROR_NOHANDLER = BACKEND_ERR_NOT_IMPL"
| "wh_err_to_backend_err _ = BACKEND_ERR_GENERAL"

definition server_answer :: "'s \<times> (wh_err + 'b) \<Rightarrow> 's \<times> (backend_err + 'b)" where
  "server_answer r = (fst r, case snd r of Inl e \<Rightarrow> Inl (wh_err_to_backend_err e) | Inr x \<Rightarrow> Inr x)"

definition FITS_U16 :: "nat \<Rightarrow> bool" where
  "FITS_U16 sz \<longleftrightarrow> sz \<le> 65535"

definition HSM_RSA_MAX_BYTES :: nat where "HSM_RSA_MAX_BYTES = 512"
definition WP11_WOLFHSM_KEY_MAGIC :: u32 where "WP11_WOLFHSM_KEY_MAGIC = 0x57483131"

section \<open>The private part of a key\<close>

text \<open>\<open>hk_ctx\<close> names the connection whose client context the key borrows.\<close>

record wp11_wolfhsm_key_priv =
  hk_magic :: u32
  hk_ctx :: nat
  hk_key_id :: nat
  hk_key_type :: int
  hk_key_size :: nat
  generated_here :: bool

text \<open>\<open>mem_ok\<close> is the outcome of \<open>malloc\<close>.\<close>

definition wp11_wolfhsm_alloc_key_priv :: "bool \<Rightarrow> nat option \<Rightarrow> nat \<Rightarrow> int \<Rightarrow> nat \<Rightarrow> wp11_wolfhsm_key_priv option" where
  "wp11_wolfhsm_alloc_key_priv mem_ok ctx kid typ sz =
     (case ctx of
        None \<Rightarrow> None
      | Some c \<Rightarrow>
          if typ = KEY_TYPE_RSA \<and> sz > 0 \<and> sz < 11 then None
          else if \<not> mem_ok then None
          else Some \<lparr>hk_magic = WP11_WOLFHSM_KEY_MAGIC, hk_ctx = c, hk_key_id = kid, hk_key_type = typ, hk_key_size = sz,
                     generated_here = False\<rparr>)"

definition hsm_entry :: "wp11_wolfhsm_key_priv option \<Rightarrow> wp11_wolfhsm_key_priv option" where
  "hsm_entry priv = (case priv of None \<Rightarrow> None | Some kp \<Rightarrow> if hk_magic kp \<noteq> WP11_WOLFHSM_KEY_MAGIC then None else Some kp)"

definition hsm_free_key_priv :: "'s hsm_api \<Rightarrow> wp11_wolfhsm_key_priv option \<Rightarrow> 's \<Rightarrow> 's" where
  "hsm_free_key_priv api priv s =
     (case priv of None \<Rightarrow> s | Some kp \<Rightarrow> if generated_here kp then wh_KeyEvict api s (hk_key_id kp) else s)"

section \<open>PKCS#1 v1.5 padding\<close>

definition PKCS1_V15_MIN_OVERHEAD :: nat where "PKCS1_V15_MIN_OVERHEAD = 11"
definition PKCS1_V15_MIN_SEP_IDX :: nat where "PKCS1_V15_MIN_SEP_IDX = 10"

definition pkcs1_v15_pad_sign :: "byte list \<Rightarrow> nat \<Rightarrow> byte list option" where
  "pkcs1_v15_pad_sign inp key_size =
     (if key_size < PKCS1_V15_MIN_OVERHEAD then None
      else if length inp > key_size - PKCS1_V15_MIN_OVERHEAD then None
      else Some ([0x00, 0x01] @ replicate (key_size - length inp - 3) 0xFF @ [0x00] @ inp))"

text \<open>The loop over the padding string: the first index from \<open>i\<close> on whose byte is not \<open>0xFF\<close>.\<close>

function skip_ps :: "byte list \<Rightarrow> nat \<Rightarrow> nat" where
  "skip_ps buf i = (if i < length buf \<and> buf ! i = 0xFF then skip_ps buf (i + 1) else i)"
  by pat_completeness auto
termination by (relation "measure (\<lambda>(buf, i). length buf - i)") auto

declare skip_ps.simps [simp del]

definition pkcs1_v15_unpad_verify :: "byte list \<Rightarrow> byte list option" where
  "pkcs1_v15_unpad_verify buf =
     (if length buf < PKCS1_V15_MIN_OVERHEAD then None
      else if buf ! 0 \<noteq> 0x00 \<or> buf ! 1 \<noteq> 0x01 then None
      else let i = skip_ps buf 2 in
        if i < PKCS1_V15_MIN_SEP_IDX \<or> i \<ge> length buf \<or> buf ! i \<noteq> 0x00 then None
        else Some (drop (i + 1) buf))"

text \<open>One round of the constant-time search for the separator; the booleans are the code's 0 and 1.\<close>

definition sep_step :: "byte list \<Rightarrow> nat \<Rightarrow> nat \<Rightarrow> nat" where
  "sep_step buf i sep_idx =
     (let is_zero = of_bool (buf ! i = 0x00); valid_pos = of_bool (i \<ge> PKCS1_V15_MIN_SEP_IDX);
          not_found = of_bool (sep_idx \<ge> length buf); hit = is_zero * valid_pos * not_found in
      hit * i + (1 - hit) * sep_idx)"

text \<open>\<open>cap\<close> is \<open>*ptlen\<close> on entry.\<close>

definition pkcs1_v15_unpad_decrypt :: "byte list \<Rightarrow> nat \<Rightarrow> byte list option" where
  "pkcs1_v15_unpad_decrypt buf cap =
     (if length buf < PKCS1_V15_MIN_OVERHEAD then None
      else let sep_idx = fold (sep_step buf) [2..<length buf] (length buf) in
        if buf ! 0 \<noteq> 0x00 \<or> buf ! 1 \<noteq> 0x02 \<or> sep_idx \<ge> length buf then None
        else if length buf - sep_idx - 1 > cap then None
        else Some (drop (sep_idx + 1) buf))"

section \<open>The operations\<close>

text \<open>The bytes that are signed: the given hash, or the SHA-256 digest computed here.\<close>

definition hsm_hash :: "'d crypto_env \<Rightarrow> nat \<Rightarrow> byte list \<Rightarrow> byte list option" where
  "hsm_hash env mech inp =
     (if mech = CKM_ECDSA_SHA256 then (if \<not> FITS_U32 (length inp) \<or> \<not> ce_init_ok env then None else ce_sha256 env inp)
      else if \<not> FITS_U16 (length inp) then None else Some inp)"

text \<open>\<open>siglen\<close>, \<open>ptlen\<close> and \<open>sharedlen\<close> are the capacities of the caller's buffers; no pointer is \<open>NULL\<close>.\<close>

definition hsm_sign ::
  "'d crypto_env \<Rightarrow> 's hsm_api \<Rightarrow> wp11_wolfhsm_key_priv option \<Rightarrow> nat \<Rightarrow> byte list \<Rightarrow> nat \<Rightarrow> 's \<Rightarrow> 's \<times> (backend_err + byte list)" where
  "hsm_sign env api priv mech inp siglen s =
     (let fail = (s, Inl BACKEND_ERR_GENERAL) in
      case hsm_entry priv of
        None \<Rightarrow> fail
      | Some kp \<Rightarrow>
          if mech = CKM_ECDSA \<or> mech = CKM_ECDSA_SHA256 then
            (if hk_key_type kp \<noteq> KEY_TYPE_EC then fail
             else if \<not> ce_init_ok env \<or> \<not> wh_set_key_id api then fail
             else case hsm_hash env mech inp of
               None \<Rightarrow> fail
             | Some hash \<Rightarrow>
                 if \<not> FITS_U16 siglen then fail else server_answer (wh_EccSign api s (hk_key_id kp) hash siglen))
          else if mech = CKM_RSA_PKCS then
            (if hk_key_type kp \<noteq> KEY_TYPE_RSA then fail
             else if hk_key_size kp = 0 \<or> hk_key_size kp > HSM_RSA_MAX_BYTES then fail
             else if \<not> ce_init_ok env \<or> \<not> wh_set_key_id api then fail
             else case pkcs1_v15_pad_sign inp (hk_key_size kp) of
               None \<Rightarrow> fail
             | Some padded \<Rightarrow>
                 if \<not> FITS_U16 siglen then fail
                 else server_answer (wh_RsaFunction api s (hk_key_id kp) RSA_PRIVATE_ENCRYPT padded siglen))
          else (s, Inl BACKEND_ERR_NOT_IMPL))"

definition hsm_verify ::
  "'d crypto_env \<Rightarrow> 's hsm_api \<Rightarrow> wp11_wolfhsm_key_priv option \<Rightarrow> nat \<Rightarrow> byte list \<Rightarrow> byte list \<Rightarrow> 's \<Rightarrow> 's \<times> (backend_err + unit)" where
  "hsm_verify env api priv mech inp sig s =
     (let fail = (s, Inl BACKEND_ERR_GENERAL) in
      case hsm_entry priv of
        None \<Rightarrow> fail
      | Some kp \<Rightarrow>
          if mech = CKM_ECDSA \<or> mech = CKM_ECDSA_SHA256 then
            (if hk_key_type kp \<noteq> KEY_TYPE_EC then fail
             else if \<not> ce_init_ok env \<or> \<not> wh_set_key_id api then fail
             else case hsm_hash env mech inp of
               None \<Rightarrow> fail
             | Some hash \<Rightarrow>
                 if \<not> FITS_U16 (length sig) then fail
                 else (case server_answer (wh_EccVerify api s (hk_key_id kp) sig hash) of
                    (s1, Inl e) \<Rightarrow> (s1, Inl e)
                  | (s1, Inr stat) \<Rightarrow> (s1, if stat \<noteq> 1 then Inl BACKEND_ERR_SIG_INVALID else Inr ())))
          else if mech = CKM_RSA_PKCS then
            (if hk_key_type kp \<noteq> KEY_TYPE_RSA then fail
             else if \<not> ce_init_ok env \<or> \<not> wh_set_key_id api then fail
             else if \<not> FITS_U16 (length sig) then fail
             else (case server_answer (wh_RsaFunction api s (hk_key_id kp) RSA_PUBLIC_DECRYPT sig HSM_RSA_MAX_BYTES) of
                (s1, Inl e) \<Rightarrow> (s1, Inl e)
              | (s1, Inr out) \<Rightarrow>
                  (s1, case pkcs1_v15_unpad_verify out of
                         None \<Rightarrow> Inl BACKEND_ERR_SIG_INVALID
                       | Some msg \<Rightarrow> if msg \<noteq> inp then Inl BACKEND_ERR_SIG_INVALID else Inr ())))
          else (s, Inl BACKEND_ERR_NOT_IMPL))"

definition hsm_decrypt ::
  "'d crypto_env \<Rightarrow> 's hsm_api \<Rightarrow> wp11_wolfhsm_key_priv option \<Rightarrow> nat \<Rightarrow> byte list \<Rightarrow> nat \<Rightarrow> 's \<Rightarrow> 's \<times> (backend_err + byte list)" where
  "hsm_decrypt env api priv mech ct ptlen s =
     (let fail = (s, Inl BACKEND_ERR_GENERAL) in
      case hsm_entry priv of
        None \<Rightarrow> fail
      | Some kp \<Rightarrow>
          if mech = CKM_RSA_PKCS then
            (if hk_key_type kp \<noteq> KEY_TYPE_RSA then fail
             else if \<not> ce_init_ok env \<or> \<not> wh_set_key_id api then fail
             else if length ct > 65535 then fail
             else (case server_answer (wh_RsaFunction api s (hk_key_id kp) RSA_PRIVATE_DECRYPT ct HSM_RSA_MAX_BYTES) of
                (s1, Inl e) \<Rightarrow> (s1, Inl e)
              | (s1, Inr out) \<Rightarrow> (s1, or_general (pkcs1_v15_unpad_decrypt out ptlen))))
          else (s, Inl BACKEND_ERR_NOT_IMPL))"

definition hsm_derive ::
  "'d crypto_env \<Rightarrow> 's hsm_api \<Rightarrow> wp11_wolfhsm_key_priv option \<Rightarrow> nat \<Rightarrow> byte list \<Rightarrow> nat \<Rightarrow> 's \<Rightarrow> 's \<times> (backend_err + byte list)" where
  "hsm_derive env api priv mech peer sharedlen s =
     (let fail = (s, Inl BACKEND_ERR_GENERAL) in
      case hsm_entry priv of
        None \<Rightarrow> fail
      | Some kp \<Rightarrow>
          if mech \<noteq> CKM_ECDH1_DERIVE then fail
          else if hk_key_type kp \<noteq> KEY_TYPE_EC then fail
          else if \<not> ce_init_ok env \<or> \<not> wh_set_key_id api then fail
          else if \<not> FITS_U32 (length peer) then fail
          else case ce_import_x963 env peer of
            None \<Rightarrow> fail
          | Some pub \<Rightarrow>
              if sharedlen > 65535 then fail
              else server_answer (wh_EccSharedSecret api s (hk_key_id kp) pub sharedlen))"

section \<open>The padding, correct\<close>

lemmas pkcs1_defs = PKCS1_V15_MIN_OVERHEAD_def PKCS1_V15_MIN_SEP_IDX_def

lemma skip_ps_at:
  assumes "i \<le> e" "e \<le> length buf" "\<And>j. i \<le> j \<Longrightarrow> j < e \<Longrightarrow> buf ! j = 0xFF" "e < length buf \<Longrightarrow> buf ! e \<noteq> 0xFF"
  shows "skip_ps buf i = e"
  using assms
proof (induction buf i rule: skip_ps.induct)
  case (1 buf i)
  show ?case
  proof (cases "i = e")
    case True
    with 1(5) show ?thesis by (subst skip_ps.simps) auto
  next
    case False
    with 1(2,3,4) have c: "i < length buf \<and> buf ! i = 0xFF" by auto
    with False 1 have "skip_ps buf (i + 1) = e" by auto
    with c show ?thesis by (subst skip_ps.simps) simp
  qed
qed

lemma unpad_verify_block:
  assumes "n \<ge> 8"
  shows "pkcs1_v15_unpad_verify ([0x00, 0x01] @ replicate n 0xFF @ [0x00] @ msg) = Some msg"
proof -
  have "skip_ps ([0x00, 0x01] @ replicate n 0xFF @ [0x00] @ msg) 2 = n + 2"
    by (rule skip_ps_at) (auto simp: nth_append nth_Cons')
  with assms show ?thesis by (simp add: pkcs1_v15_unpad_verify_def pkcs1_defs Let_def nth_append)
qed

lemma pad_sign_Some:
  assumes "pkcs1_v15_pad_sign inp k = Some blk"
  shows "length blk = k" "blk ! 0 = 0x00" "pkcs1_v15_unpad_verify blk = Some inp"
proof -
  have b: "k \<ge> 11" "length inp \<le> k - 11" "blk = [0x00, 0x01] @ replicate (k - length inp - 3) 0xFF @ [0x00] @ inp"
    using assms by (auto simp: pkcs1_v15_pad_sign_def pkcs1_defs split: if_splits)
  then show "length blk = k" "blk ! 0 = 0x00" by auto
  show "pkcs1_v15_unpad_verify blk = Some inp" unfolding b(3) by (rule unpad_verify_block) (use b(1,2) in simp)
qed

text \<open>The search for the separator as one usually writes it, and the decoding of RFC 8017, section 7.2.2: the padding string ends
  at the first zero byte, and has at least 8 bytes.\<close>

definition first_sep :: "byte list \<Rightarrow> nat \<Rightarrow> nat option" where
  "first_sep buf from = find (\<lambda>i. buf ! i = 0x00) [from..<length buf]"

definition rfc_unpad_decrypt :: "byte list \<Rightarrow> nat \<Rightarrow> byte list option" where
  "rfc_unpad_decrypt buf cap =
     (if length buf < 11 \<or> buf ! 0 \<noteq> 0x00 \<or> buf ! 1 \<noteq> 0x02 then None
      else case first_sep buf 2 of
        None \<Rightarrow> None
      | Some i \<Rightarrow> if i - 2 < 8 \<or> length buf - i - 1 > cap then None else Some (drop (i + 1) buf))"

lemma sep_step_if:
  "sep_step buf i sep = (if buf ! i = 0x00 \<and> i \<ge> 10 \<and> sep \<ge> length buf then i else sep)"
  by (simp add: sep_step_def pkcs1_defs Let_def)

lemma fold_sep_found: "sep < length buf \<Longrightarrow> fold (sep_step buf) is sep = sep"
  by (induction "is") (simp_all add: sep_step_if)

lemma fold_sep:
  "sep \<ge> length buf \<Longrightarrow> set is \<subseteq> {..<length buf} \<Longrightarrow>
     fold (sep_step buf) is sep = (case find (\<lambda>i. buf ! i = 0x00 \<and> i \<ge> 10) is of None \<Rightarrow> sep | Some i \<Rightarrow> i)"
  by (induction "is") (auto simp: sep_step_if fold_sep_found)

lemma find_filter_False: "(\<And>x. x \<in> set xs \<Longrightarrow> \<not> P x) \<Longrightarrow> find P xs = None"
  by (simp add: find_None_iff)

lemma find_append: "find P (xs @ ys) = (case find P xs of None \<Rightarrow> find P ys | Some x \<Rightarrow> Some x)"
  by (induction xs) auto

lemma find_cong_set: "(\<And>x. x \<in> set xs \<Longrightarrow> P x = Q x) \<Longrightarrow> find P xs = find Q xs"
  by (induction xs) auto

lemma upt_split: "i \<le> j \<Longrightarrow> j \<le> k \<Longrightarrow> [i..<k] = [i..<j] @ [j..<k]"
  using upt_add_eq_append [of i j "k - j"] by simp

lemma unpad_decrypt_search:
  "pkcs1_v15_unpad_decrypt buf cap =
     (if length buf < 11 \<or> buf ! 0 \<noteq> 0x00 \<or> buf ! 1 \<noteq> 0x02 then None
      else case first_sep buf 10 of
        None \<Rightarrow> None
      | Some i \<Rightarrow> if length buf - i - 1 > cap then None else Some (drop (i + 1) buf))"
proof (cases "length buf < 11")
  case False
  have s: "[2..<length buf] = [2..<10] @ [10..<length buf]" using False by (intro upt_split) auto
  have "find (\<lambda>i. buf ! i = 0x00 \<and> i \<ge> 10) [2..<length buf] = first_sep buf 10"
    unfolding s find_append first_sep_def by (subst find_filter_False) (auto intro: find_cong_set)
  then have f: "fold (sep_step buf) [2..<length buf] (length buf) = (case first_sep buf 10 of None \<Rightarrow> length buf | Some i \<Rightarrow> i)"
    by (subst fold_sep) auto
  have "i < length buf" if "first_sep buf 10 = Some i" for i using that by (auto simp: first_sep_def find_Some_iff)
  with False f show ?thesis
    by (auto simp: pkcs1_v15_unpad_decrypt_def pkcs1_defs Let_def split: option.split)
qed (simp add: pkcs1_v15_unpad_decrypt_def pkcs1_defs)

lemma first_sep_Some:
  "first_sep buf k = Some i \<longleftrightarrow> k \<le> i \<and> i < length buf \<and> buf ! i = 0 \<and> (\<forall>j. k \<le> j \<longrightarrow> j < i \<longrightarrow> buf ! j \<noteq> 0)"
proof
  assume "first_sep buf k = Some i"
  then obtain n where n: "n < length [k..<length buf]" "buf ! ([k..<length buf] ! n) = 0" "i = [k..<length buf] ! n"
    "\<forall>j < n. buf ! ([k..<length buf] ! j) \<noteq> 0" by (auto simp: first_sep_def find_Some_iff)
  have "buf ! j \<noteq> 0" if "k \<le> j" "j < i" for j
    using n(4) [rule_format, of "j - k"] n(1,3) that by auto
  with n show "k \<le> i \<and> i < length buf \<and> buf ! i = 0 \<and> (\<forall>j. k \<le> j \<longrightarrow> j < i \<longrightarrow> buf ! j \<noteq> 0)" by auto
next
  assume "k \<le> i \<and> i < length buf \<and> buf ! i = 0 \<and> (\<forall>j. k \<le> j \<longrightarrow> j < i \<longrightarrow> buf ! j \<noteq> 0)"
  then show "first_sep buf k = Some i"
    unfolding first_sep_def find_Some_iff by (intro exI [of _ "i - k"]) auto
qed

lemma first_sep_split:
  assumes "length buf \<ge> 10"
  shows "first_sep buf 2 = (case find (\<lambda>i. buf ! i = 0) [2..<10] of None \<Rightarrow> first_sep buf 10 | Some i \<Rightarrow> Some i)"
  unfolding first_sep_def using assms by (simp only: upt_split [of 2 10 "length buf"] find_append)

lemma no_early_zero:
  assumes "\<not> (\<exists>i \<in> {2..<10}. buf ! i = 0)" "length buf \<ge> 11"
  shows "first_sep buf 2 = first_sep buf 10"
  using assms by (subst first_sep_split) (auto simp: find_filter_False)

lemma early_zero_rejected:
  assumes "i \<in> {2..<10}" "buf ! i = 0" "length buf \<ge> 11"
  shows "rfc_unpad_decrypt buf cap = None"
proof -
  have "find (\<lambda>i. buf ! i = 0) [2..<10] \<noteq> None" using assms(1,2) unfolding find_None_iff set_upt by blast
  then obtain j where j: "find (\<lambda>i. buf ! i = 0) [2..<10] = Some j" by blast
  then have "j \<in> set [2..<10]" unfolding find_Some_iff using nth_mem by blast
  then have "2 \<le> j" "j < 10" by (simp_all only: set_upt atLeastLessThan_iff)
  then have "j - 2 < 8" by simp
  moreover have "first_sep buf 2 = Some j" using assms(3) j by (subst first_sep_split) auto
  ultimately show ?thesis by (simp add: rfc_unpad_decrypt_def)
qed

text \<open>C22. The constant-time decoding of an encrypted block agrees with RFC 8017 but in one case, and there it accepts what the RFC
  rejects: a block with the right header whose padding string has a zero byte among its first 8 bytes (so that it is too
  short) is accepted, with the bytes behind the next zero byte from index 10 on, if there is one and they fit.\<close>
theorem unpad_decrypt_vs_rfc:
  "pkcs1_v15_unpad_decrypt buf cap \<noteq> rfc_unpad_decrypt buf cap \<longleftrightarrow>
     length buf \<ge> 11 \<and> buf ! 0 = 0x00 \<and> buf ! 1 = 0x02 \<and> (\<exists>i \<in> {2..<10}. buf ! i = 0x00)
     \<and> (\<exists>j. first_sep buf 10 = Some j \<and> length buf - j - 1 \<le> cap \<and> pkcs1_v15_unpad_decrypt buf cap = Some (drop (j + 1) buf)
            \<and> rfc_unpad_decrypt buf cap = None)"
proof (cases "length buf < 11 \<or> buf ! 0 \<noteq> 0x00 \<or> buf ! 1 \<noteq> 0x02")
  case True
  then show ?thesis by (auto simp: unpad_decrypt_search rfc_unpad_decrypt_def)
next
  case head: False
  show ?thesis
  proof (cases "\<exists>i \<in> {2..<10}. buf ! i = 0x00")
    case True
    with head have "rfc_unpad_decrypt buf cap = None" using early_zero_rejected by (metis leI)
    with True head show ?thesis by (auto simp: unpad_decrypt_search split: option.splits)
  next
    case False
    with head have "first_sep buf 2 = first_sep buf 10" by (intro no_early_zero) auto
    moreover have "i \<ge> 10" if "first_sep buf 10 = Some i" for i using that by (simp add: first_sep_Some)
    ultimately show ?thesis
      using head False by (auto simp: unpad_decrypt_search rfc_unpad_decrypt_def split: option.split)
  qed
qed

text \<open>A well-formed block decodes to its message.\<close>

lemma unpad_decrypt_block:
  assumes "length ps \<ge> 8" "0 \<notin> set ps"
  shows "pkcs1_v15_unpad_decrypt ([0x00, 0x02] @ ps @ [0x00] @ msg) cap = (if length msg \<le> cap then Some msg else None)"
proof -
  let ?b = "[0x00, 0x02] @ ps @ [0x00] @ msg"
  have z: "ps ! k \<noteq> 0" if "k < length ps" for k using assms(2) that nth_mem by metis
  have "first_sep ?b 10 = Some (length ps + 2)"
    unfolding first_sep_Some
  proof (intro conjI allI impI)
    show "?b ! j \<noteq> 0" if "10 \<le> j" "j < length ps + 2" for j
    proof -
      from that(1) obtain m where "j = Suc (Suc m)" by (cases j; cases "j - 1") auto
      with that z [of m] show ?thesis by (simp add: nth_append)
    qed
  qed (use assms in \<open>simp_all add: nth_append\<close>)
  then show ?thesis using assms(1) by (simp add: unpad_decrypt_search)
qed

section \<open>Signatures of an RSA key on the server\<close>

text \<open>
  What is documented of \<open>wh_Client_RsaFunction\<close> for a key with a modulus of \<open>k\<close> bytes: the operations with the private and the
  public key are inverse on blocks of \<open>k\<close> bytes below the modulus (a leading zero byte is enough), results have \<open>k\<close> bytes,
  and a buffer of that size is enough.
\<close>

definition rsa_law :: "'s hsm_api \<Rightarrow> nat \<Rightarrow> nat \<Rightarrow> bool" where
  "rsa_law api kid k \<longleftrightarrow>
     (\<forall>s x cap. length x = k \<longrightarrow> x ! 0 = 0 \<longrightarrow> k \<le> cap \<longrightarrow>
        (\<exists>s' y. wh_RsaFunction api s kid RSA_PRIVATE_ENCRYPT x cap = (s', Inr y) \<and> length y = k
           \<and> (\<forall>s2 cap2. k \<le> cap2 \<longrightarrow> (\<exists>s3. wh_RsaFunction api s2 kid RSA_PUBLIC_DECRYPT y cap2 = (s3, Inr x)))))"

text \<open>C21. With a server that computes RSA, \<open>hsm_sign\<close> makes a signature of the size of the modulus for every input that leaves room
  for the padding, and \<open>hsm_verify\<close>, in any later state of the server, accepts it for exactly this input: any other
  input gives \<open>WP11_BACKEND_ERR_SIG_INVALID\<close>.  A longer input is refused without a call to the server.\<close>
theorem hsm_rsa_sign_verify:
  assumes "hsm_entry priv = Some kp" "hk_key_type kp = KEY_TYPE_RSA" "rsa_law api (hk_key_id kp) (hk_key_size kp)"
    "hk_key_size kp \<noteq> 0" "hk_key_size kp \<le> HSM_RSA_MAX_BYTES" "ce_init_ok env" "wh_set_key_id api" "hk_key_size kp \<le> siglen" "siglen \<le> 65535"
  shows "if length inp + 11 \<le> hk_key_size kp then
      \<exists>s' sig. hsm_sign env api priv CKM_RSA_PKCS inp siglen s = (s', Inr sig) \<and> length sig = hk_key_size kp
        \<and> (\<forall>s2 inp2. snd (hsm_verify env api priv CKM_RSA_PKCS inp2 sig s2) = (if inp2 = inp then Inr () else Inl BACKEND_ERR_SIG_INVALID))
    else hsm_sign env api priv CKM_RSA_PKCS inp siglen s = (s, Inl BACKEND_ERR_GENERAL)"
proof (cases "length inp + 11 \<le> hk_key_size kp")
  case True
  let ?k = "hk_key_size kp"
  obtain blk where b: "pkcs1_v15_pad_sign inp ?k = Some blk" using True
    by (cases "pkcs1_v15_pad_sign inp ?k") (auto simp: pkcs1_v15_pad_sign_def pkcs1_defs split: if_splits)
  note bl = pad_sign_Some [OF b]
  obtain s' y where y: "wh_RsaFunction api s (hk_key_id kp) RSA_PRIVATE_ENCRYPT blk siglen = (s', Inr y)" "length y = ?k"
    "\<And>s2 cap2. ?k \<le> cap2 \<Longrightarrow> \<exists>s3. wh_RsaFunction api s2 (hk_key_id kp) RSA_PUBLIC_DECRYPT y cap2 = (s3, Inr blk)"
    using assms(3,8) bl(1,2) unfolding rsa_law_def by blast
  have sign: "hsm_sign env api priv CKM_RSA_PKCS inp siglen s = (s', Inr y)"
    using assms b y(1) by (simp add: hsm_sign_def server_answer_def FITS_U16_def CKM_ECDSA_def CKM_ECDSA_SHA256_def CKM_RSA_PKCS_def)
  have "snd (hsm_verify env api priv CKM_RSA_PKCS inp2 y s2) = (if inp2 = inp then Inr () else Inl BACKEND_ERR_SIG_INVALID)" for s2 inp2
  proof -
    obtain s3 where "wh_RsaFunction api s2 (hk_key_id kp) RSA_PUBLIC_DECRYPT y HSM_RSA_MAX_BYTES = (s3, Inr blk)"
      using y(3) [OF assms(5)] by blast
    moreover have "length y \<le> 65535" using y(2) assms(5) by (simp add: HSM_RSA_MAX_BYTES_def)
    ultimately show ?thesis
      using assms bl(3)
      by (auto simp: hsm_verify_def server_answer_def FITS_U16_def CKM_ECDSA_def CKM_ECDSA_SHA256_def CKM_RSA_PKCS_def)
  qed
  with True sign y(2) show ?thesis by auto
next
  case False
  then have "pkcs1_v15_pad_sign inp (hk_key_size kp) = None" by (auto simp: pkcs1_v15_pad_sign_def pkcs1_defs)
  with False assms show ?thesis by (simp add: hsm_sign_def CKM_ECDSA_def CKM_ECDSA_SHA256_def CKM_RSA_PKCS_def)
qed

text \<open>A server that counts the calls and whose RSA function is its own inverse.\<close>

definition toy_hsm :: "nat hsm_api" where
  "toy_hsm = \<lparr>wh_set_key_id = True, wh_EccSign = (\<lambda>s k h cap. (s + 1, Inr h)), wh_EccVerify = (\<lambda>s k sig h. (s + 1, Inr (if sig = h then 1 else 0))),
     wh_RsaFunction = (\<lambda>s k f x cap. (s + 1, if length x \<le> cap then Inr (rev x) else Inl WH_ERROR_OTHER)),
     wh_EccSharedSecret = (\<lambda>s k p cap. (s + 1, Inr p)), wh_KeyEvict = (\<lambda>s k. s + 1), wh_NvmList = (\<lambda>s i. (s + 1, if i \<le> 0x1001 then Some (1, 0x1001) else None)),
     wh_NvmGetMetadata = (\<lambda>s i. (s + 1, Some (2, [0x6B]))), wh_KeyExport = (\<lambda>s i cap. (s + 1, Some [0x30, 0])), wh_keyid_is_crypto = (\<lambda>i. i div 0x1000 = 1),
     wh_label_max = 24, wh_Init = (\<lambda>s tr. (s + 1, True)), wh_CommInit = (\<lambda>s. (s + 1, None)), wh_CommClose = (\<lambda>s. s + 1), wh_Cleanup = (\<lambda>s. s + 1),
     wh_EccMakeCacheKey = (\<lambda>s l. (s + 1, Some 0x1002)), wh_RsaMakeCacheKey = (\<lambda>s b l. (s + 1, Some 0x1002)), wh_ImportKey = (\<lambda>s x l. (s + 1, Some 0x1003))\<rparr>"

definition toy_rsa_priv :: wp11_wolfhsm_key_priv where
  "toy_rsa_priv = \<lparr>hk_magic = WP11_WOLFHSM_KEY_MAGIC, hk_ctx = 0, hk_key_id = 0x1001, hk_key_type = KEY_TYPE_RSA, hk_key_size = 64, generated_here = False\<rparr>"

lemma toy_rsa_law: "rsa_law toy_hsm 0x1001 64"
  by (simp add: rsa_law_def toy_hsm_def)

lemma toy_init_ok: "ce_init_ok toy_crypto"
  by (simp add: toy_simps)

theorem hsm_rsa_sign_verify_witness:
  "\<exists>s' sig. hsm_sign toy_crypto toy_hsm (Some toy_rsa_priv) CKM_RSA_PKCS [1, 2, 3] 64 0 = (s', Inr sig)
     \<and> snd (hsm_verify toy_crypto toy_hsm (Some toy_rsa_priv) CKM_RSA_PKCS [1, 2, 3] sig s') = Inr ()
     \<and> snd (hsm_verify toy_crypto toy_hsm (Some toy_rsa_priv) CKM_RSA_PKCS [1, 2] sig s') = Inl BACKEND_ERR_SIG_INVALID"
proof -
  have e: "hsm_entry (Some toy_rsa_priv) = Some toy_rsa_priv" by (simp add: hsm_entry_def toy_rsa_priv_def)
  have "rsa_law toy_hsm (hk_key_id toy_rsa_priv) (hk_key_size toy_rsa_priv)" using toy_rsa_law by (simp add: toy_rsa_priv_def)
  from hsm_rsa_sign_verify [OF e _ this, of toy_crypto 64 "[1, 2, 3]" 0] show ?thesis
    by (auto simp: toy_rsa_priv_def HSM_RSA_MAX_BYTES_def toy_init_ok toy_hsm_def)
qed

end
