(* ===== verification/CliText.thy ===== *)
theory CliText imports Pkcs11State begin

text \<open>
  The text functions of the command line tool (\<open>src/cli/wp11_cli.c\<close>): slot numbers, fixed-width fields, labels, the
  operations of a mechanism, percent encoding and PEM.  A C string is the list of its bytes without the NUL; what a function
  prints on standard output is a list of bytes, what it prints on standard error is left out.
\<close>

unbundle bit_operations_syntax

section \<open>The C library\<close>

definition LF :: byte where "LF = 0x0A"

definition is_space :: "byte \<Rightarrow> bool" where
  "is_space c \<longleftrightarrow> c = 0x20 \<or> 0x09 \<le> c \<and> c \<le> 0x0D"

definition is_digit :: "byte \<Rightarrow> bool" where
  "is_digit c \<longleftrightarrow> 0x30 \<le> c \<and> c \<le> 0x39"

definition digits_value :: "byte list \<Rightarrow> nat" where
  "digits_value ds = fold (\<lambda>d v. v * 10 + (unat d - 0x30)) ds 0"

definition ULONG_MAX :: nat where "ULONG_MAX = 2 ^ 64 - 1"

text \<open>\<open>strtoul(str, &end, 10)\<close>: the value, the rest at \<open>end\<close> (\<open>None\<close> when no digit was found), and whether \<open>errno\<close> is
  \<open>ERANGE\<close>.  White space and a sign may precede the digits; a minus sign negates modulo \<open>2^64\<close>.\<close>

definition strtoul :: "byte list \<Rightarrow> nat \<times> byte list option \<times> bool" where
  "strtoul s =
     (let s1 = dropWhile is_space s;
          neg = (s1 \<noteq> [] \<and> hd s1 = 0x2D);
          s2 = (if s1 \<noteq> [] \<and> (hd s1 = 0x2D \<or> hd s1 = 0x2B) then tl s1 else s1);
          ds = takeWhile is_digit s2; v = digits_value ds in
      if ds = [] then (0, None, False)
      else if v > ULONG_MAX then (ULONG_MAX, Some (dropWhile is_digit s2), True)
      else (if neg \<and> v \<noteq> 0 then 2 ^ 64 - v else v, Some (dropWhile is_digit s2), False))"

text \<open>\<open>%lu\<close>, and \<open>%-nu\<close> and \<open>%-ns\<close> with padding on the right; \<open>%02x\<close> and \<open>%02X\<close> of a byte.\<close>

function dec :: "nat \<Rightarrow> byte list" where
  "dec n = (if n < 10 then [0x30 + word_of_nat n] else dec (n div 10) @ [0x30 + word_of_nat (n mod 10)])"
  by pat_completeness auto
termination by (relation "measure id") auto

declare dec.simps [simp del]

definition pad_right :: "nat \<Rightarrow> byte list \<Rightarrow> byte list" where
  "pad_right n s = s @ replicate (n - length s) 0x20"

definition hex_digit :: "bool \<Rightarrow> nat \<Rightarrow> byte" where
  "hex_digit upper n = (if n < 10 then 0x30 + word_of_nat n else (if upper then 0x37 else 0x57) + word_of_nat n)"

definition hex2 :: "bool \<Rightarrow> byte \<Rightarrow> byte list" where
  "hex2 upper b = [hex_digit upper (unat b div 16), hex_digit upper (unat b mod 16)]"

section \<open>Arguments and fields\<close>

definition parse_slot_id :: "byte list \<Rightarrow> nat option" where
  "parse_slot_id s =
     (case strtoul s of (v, end_, erange) \<Rightarrow>
        if erange \<or> end_ = None \<or> end_ \<noteq> Some [] then None
        else if v \<ge> MAX_SLOTS then None
        else Some v)"

text \<open>A field of a PKCS#11 structure as a C string: the loop turns the trailing spaces into NULs.\<close>

function strip_spaces :: "byte list \<Rightarrow> nat \<Rightarrow> byte list" where
  "strip_spaces buf i = (if i > 0 \<and> buf ! (i - 1) = 0x20 then strip_spaces (buf[i - 1 := 0]) (i - 1) else buf)"
  by pat_completeness auto
termination by (relation "measure snd") auto

declare strip_spaces.simps [simp del]

definition pkcs11_str :: "byte list \<Rightarrow> byte list" where
  "pkcs11_str field = cstr (strip_spaces (field @ [0]) (length field))"

text \<open>\<open>strstr\<close> with a constant needle.\<close>

fun has_substring :: "byte list \<Rightarrow> byte list \<Rightarrow> bool" where
  "has_substring needle [] \<longleftrightarrow> needle = []"
| "has_substring needle (c # s) \<longleftrightarrow> take (length needle) (c # s) = needle \<or> has_substring needle s"

definition slot_type :: "nat \<Rightarrow> byte list \<Rightarrow> byte list" where
  "slot_type slot_id desc =
     (if slot_id = 0 then str ''soft'' else if has_substring (str ''.p11k'') desc then str ''flash'' else str ''hardware'')"

text \<open>\<open>mech_ops\<close> fills a buffer of 64 bytes; \<open>pos < 63\<close> is its test for room.  Bits are those of \<open>CKF_SIGN\<close> and so on.\<close>

definition ops_table :: "(CK_FLAGS \<times> byte list) list" where
  "ops_table = [(0x800, str ''sign''), (0x2000, str ''verify''), (0x200, str ''decrypt''), (0x100, str ''encrypt''), (0x80000, str ''derive'')]"

definition mech_op :: "CK_FLAGS \<Rightarrow> CK_FLAGS \<times> byte list \<Rightarrow> byte list \<Rightarrow> byte list" where
  "mech_op flags op buf =
     (if flags AND fst op = 0 then buf
      else let buf1 = (if length buf > 0 \<and> length buf < 63 then buf @ [0x20] else buf) in buf1 @ take (63 - length buf1) (snd op))"

definition mech_ops :: "CK_FLAGS \<Rightarrow> byte list" where
  "mech_ops flags = fold (mech_op flags) ops_table []"

definition is_pem :: "byte list \<Rightarrow> bool" where
  "is_pem data \<longleftrightarrow> length data \<ge> 10 \<and> take 10 data = str ''-----BEGIN''"

definition is_valid_label :: "byte list \<Rightarrow> bool" where
  "is_valid_label lbl \<longleftrightarrow> lbl \<noteq> [] \<and> length lbl \<le> KS_LABEL_MAX \<and> (\<forall>c \<in> set lbl. \<not> (c < 0x20 \<or> c = 0x7F))"

section \<open>PEM\<close>

definition b64_chars :: "byte list" where
  "b64_chars = str ''ABCDEFGHIJKLMNOPQRSTUVWXYZabcdefghijklmnopqrstuvwxyz0123456789+/''"

text \<open>The four characters for the bytes from the current position on; \<open>bits\<close> joins three bytes, which do not overlap, and \<open>n\<close> is
  their number as an \<open>int\<close>.\<close>

definition b64_quad :: "byte list \<Rightarrow> byte list" where
  "b64_quad rest =
     (let len = length rest; n = sint (word_of_nat len :: 32 word);
          b0 = unat (rest ! 0); b1 = (if len > 1 then unat (rest ! 1) else 0); b2 = (if len > 2 then unat (rest ! 2) else 0);
          bits = b0 * 65536 + b1 * 256 + b2 in
      [b64_chars ! (bits div 262144 mod 64), b64_chars ! (bits div 4096 mod 64),
       if n > 1 then b64_chars ! (bits div 64 mod 64) else 0x3D, if n > 2 then b64_chars ! (bits mod 64) else 0x3D])"

function pem_body :: "byte list \<Rightarrow> nat \<Rightarrow> nat \<Rightarrow> byte list" where
  "pem_body der i col =
     (if i < length der then
        b64_quad (drop i der) @ (if col + 4 \<ge> 64 then LF # pem_body der (i + 3) 0 else pem_body der (i + 3) (col + 4))
      else if col > 0 then [LF] else [])"
  by pat_completeness auto
termination by (relation "measure (\<lambda>(der, i, col). length der - i)") auto

declare pem_body.simps [simp del]

definition print_pem_cert :: "byte list \<Rightarrow> byte list" where
  "print_pem_cert der = str ''-----BEGIN CERTIFICATE-----'' @ [LF] @ pem_body der 0 0 @ str ''-----END CERTIFICATE-----'' @ [LF]"

section \<open>Numbers\<close>

lemma digit_simps:
  assumes "n < 10"
  shows "is_digit (0x30 + word_of_nat n)" "unat (0x30 + word_of_nat n :: byte) = 0x30 + n"
proof -
  have "unat (word_of_nat n :: byte) = n" using assms by (simp add: unat_of_nat)
  then show u: "unat (0x30 + word_of_nat n :: byte) = 0x30 + n" using assms by (subst unat_plus_simple [THEN iffD1]) (auto simp: word_le_nat_alt unat_word_ariths)
  then show "is_digit (0x30 + word_of_nat n)" using assms by (simp add: is_digit_def word_le_nat_alt)
qed

lemma dec_digits: "dec n \<noteq> [] \<and> list_all is_digit (dec n) \<and> digits_value (dec n) = n"
proof (induction n rule: dec.induct)
  case (1 n)
  show ?case
  proof (cases "n < 10")
    case True
    then show ?thesis by (subst dec.simps, subst (2) dec.simps, subst (3) dec.simps) (simp add: digit_simps digits_value_def)
  next
    case False
    with 1 have ih: "list_all is_digit (dec (n div 10))" "digits_value (dec (n div 10)) = n div 10" by auto
    have d: "dec n = dec (n div 10) @ [0x30 + word_of_nat (n mod 10)]" using False by (subst dec.simps) simp
    show ?thesis using ih digit_simps [of "n mod 10"] unfolding d by (simp add: digits_value_def)
  qed
qed

lemma digit_no_space: "is_digit c \<Longrightarrow> \<not> is_space c \<and> c \<noteq> 0x2D \<and> c \<noteq> 0x2B"
  by (auto simp: is_digit_def is_space_def word_le_nat_alt)

lemma strtoul_dec: "n \<le> ULONG_MAX \<Longrightarrow> strtoul (dec n) = (n, Some [], False)"
proof -
  assume n: "n \<le> ULONG_MAX"
  have d: "dec n \<noteq> []" "list_all is_digit (dec n)" "digits_value (dec n) = n" using dec_digits by auto
  then have h: "is_digit (hd (dec n))" by (cases "dec n") auto
  have "dropWhile is_space (dec n) = dec n" using d(1) digit_no_space [OF h] by (cases "dec n") auto
  moreover have t: "takeWhile is_digit (dec n) = dec n" "dropWhile is_digit (dec n) = []"
    using d(2) by (simp_all add: list_all_iff takeWhile_eq_all_conv dropWhile_eq_Nil_conv)
  ultimately show ?thesis using n d digit_no_space [OF h] by (simp add: strtoul_def Let_def t del: takeWhile_eq_all_conv)
qed

lemma parse_slot_dec: "n < MAX_SLOTS \<Longrightarrow> parse_slot_id (dec n) = Some n"
  by (simp add: parse_slot_id_def strtoul_dec ULONG_MAX_def MAX_SLOTS_def)

lemma parse_slot_bound: "parse_slot_id s = Some v \<Longrightarrow> v < MAX_SLOTS"
  by (auto simp: parse_slot_id_def split: prod.splits if_splits)

text \<open>A slot number may carry a sign, and a negative one wraps: this one means slot 1.\<close>

lemma parse_slot_negative: "parse_slot_id (str ''-18446744073709551615'') = Some 1"
  by (simp add: parse_slot_id_def strtoul_def str_def is_space_def is_digit_def digits_value_def ULONG_MAX_def MAX_SLOTS_def)

section \<open>Fields\<close>

lemma strip_spaces_at:
  assumes "i \<le> length s" "k \<le> i" "\<And>j. k \<le> j \<Longrightarrow> j < i \<Longrightarrow> s ! j = 0x20" "k > 0 \<Longrightarrow> s ! (k - 1) \<noteq> 0x20"
  shows "strip_spaces s i = take k s @ replicate (i - k) 0 @ drop i s"
  using assms
proof (induction s i rule: strip_spaces.induct)
  case (1 s i)
  show ?case
  proof (cases "k = i")
    case True
    with 1(5) show ?thesis by (subst strip_spaces.simps) auto
  next
    case False
    with 1(3,4) have c: "i > 0 \<and> s ! (i - 1) = 0x20" by auto
    have "strip_spaces (s[i - 1 := 0]) (i - 1) = take k (s[i - 1 := 0]) @ replicate (i - 1 - k) 0 @ drop (i - 1) (s[i - 1 := 0])"
      by (rule 1(1) [OF c]) (use 1(2-5) False in \<open>auto simp: nth_list_update\<close>)
    also have "\<dots> = take k s @ replicate (i - 1 - k) 0 @ 0 # drop i s"
      using 1(2,3) False c by (simp add: Cons_nth_drop_Suc [symmetric] drop_update_cancel)
    also have "\<dots> = take k s @ replicate (i - k) 0 @ drop i s"
    proof -
      have "i - k = Suc (i - 1 - k)" using 1(3) False by simp
      then show ?thesis by (simp only: replicate_Suc append_Cons replicate_append_same [symmetric] append_assoc) simp
    qed
    finally show ?thesis using c by (subst strip_spaces.simps) simp
  qed
qed

text \<open>Reading a padded field gives back what \<open>pad_string\<close> put there, unless it ended in a space.\<close>

lemma pkcs11_str_pad:
  assumes "length s \<le> n" "0 \<notin> set s" "s \<noteq> [] \<Longrightarrow> last s \<noteq> 0x20"
  shows "pkcs11_str (pad_string n s) = s"
proof -
  have p: "pad_string n s = s @ replicate (n - length s) 0x20" using assms(1) by (simp add: pad_string_def)
  have "strip_spaces (pad_string n s @ [0]) n = take (length s) (pad_string n s @ [0]) @ replicate (n - length s) 0 @ drop n (pad_string n s @ [0])"
    by (rule strip_spaces_at) (use assms in \<open>auto simp: p nth_append last_conv_nth\<close>)
  moreover have "replicate k 0 @ [0] = 0 # replicate k (0 :: byte)" for k by (simp add: replicate_append_same)
  ultimately have "strip_spaces (pad_string n s @ [0]) n = s @ 0 # replicate (n - length s) 0" using assms(1) by (simp add: p)
  moreover have "cstr (s @ 0 # xs) = s" for xs unfolding cstr_def using assms(2) by (subst takeWhile_append2) auto
  ultimately show ?thesis using assms(1) by (simp add: pkcs11_str_def)
qed

lemma mech_op_bound: "length buf \<le> 63 \<Longrightarrow> length (mech_op flags op buf) \<le> 63"
  by (auto simp: mech_op_def Let_def min_def)

lemma mech_ops_bound: "length (mech_ops flags) \<le> 63"
proof -
  have "length buf \<le> 63 \<Longrightarrow> length (fold (mech_op flags) ops buf) \<le> 63" for ops buf
    by (induction ops arbitrary: buf) (simp_all add: mech_op_bound)
  then show ?thesis by (simp add: mech_ops_def)
qed

section \<open>PEM, decoded\<close>

definition b64_val :: "byte \<Rightarrow> nat option" where
  "b64_val c = find (\<lambda>i. b64_chars ! i = c) [0..<64]"

text \<open>Base64 of RFC 4648 with padding, without line ends.\<close>

fun b64_decode :: "byte list \<Rightarrow> byte list option" where
  "b64_decode [] = Some []"
| "b64_decode (c0 # c1 # c2 # c3 # cs) =
     (case (b64_val c0, b64_val c1) of
        (Some x0, Some x1) \<Rightarrow>
          if c3 = 0x3D then
            (if cs \<noteq> [] then None
             else if c2 = 0x3D then Some [word_of_nat (x0 * 4 + x1 div 16)]
             else map_option (\<lambda>x2. [word_of_nat (x0 * 4 + x1 div 16), word_of_nat (x1 mod 16 * 16 + x2 div 4)]) (b64_val c2))
          else (case (b64_val c2, b64_val c3) of
             (Some x2, Some x3) \<Rightarrow>
               map_option (\<lambda>r. word_of_nat (x0 * 4 + x1 div 16) # word_of_nat (x1 mod 16 * 16 + x2 div 4) # word_of_nat (x2 mod 4 * 64 + x3) # r)
                 (b64_decode cs)
           | _ \<Rightarrow> None)
      | _ \<Rightarrow> None)"
| "b64_decode _ = None"

text \<open>Lines of at most 64 characters, each with its line end; \<open>col\<close> characters of the current line are already there.\<close>

fun ok_lines :: "nat \<Rightarrow> byte list \<Rightarrow> bool" where
  "ok_lines col [] \<longleftrightarrow> col = 0"
| "ok_lines col (c # cs) \<longleftrightarrow> (if c = LF then ok_lines 0 cs else col < 64 \<and> ok_lines (col + 1) cs)"

lemma byte_of_char_inj: "(word_of_nat (of_char c) :: byte) = word_of_nat (of_char d) \<longleftrightarrow> c = d"
proof
  assume "(word_of_nat (of_char c) :: byte) = word_of_nat (of_char d)"
  then have "unat (word_of_nat (of_char c) :: byte) = unat (word_of_nat (of_char d) :: byte)" by simp
  then have "(of_char c :: nat) = of_char d" by (simp add: unat_of_nat)
  then show "c = d" by simp
qed simp

lemma b64_distinct: "distinct b64_chars"
  unfolding b64_chars_def str_def distinct_map by (rule conjI) (simp, simp add: inj_on_def byte_of_char_inj)

lemma b64_length: "length b64_chars = 64"
  by (simp add: b64_chars_def str_def)

lemma b64_excluded: "LF \<notin> set b64_chars" "0x3D \<notin> set b64_chars"
  by (simp_all add: b64_chars_def str_def LF_def)

lemma b64_char:
  assumes "x < 64"
  shows "b64_val (b64_chars ! x) = Some x" "b64_chars ! x \<noteq> LF" "b64_chars ! x \<noteq> 0x3D"
proof -
  show "b64_val (b64_chars ! x) = Some x"
    unfolding b64_val_def find_Some_iff using assms b64_distinct b64_length
    by (intro exI [of _ x]) (auto simp: nth_eq_iff_index_eq)
  have "b64_chars ! x \<in> set b64_chars" using assms b64_length by simp
  with b64_excluded show "b64_chars ! x \<noteq> LF" "b64_chars ! x \<noteq> 0x3D" by metis+
qed

lemma bits_split:
  assumes "b0 < 256" "b1 < 256" "(b2::nat) < 256"
  defines "bits \<equiv> b0 * 65536 + b1 * 256 + b2"
  shows "bits div 262144 mod 64 = b0 div 4" "bits div 4096 mod 64 = b0 mod 4 * 16 + b1 div 16"
    "bits div 64 mod 64 = b1 mod 16 * 4 + b2 div 64" "bits mod 64 = b2 mod 64"
proof -
  have d16: "bits div 65536 = b0" using assms(2,3) unfolding bits_def by (intro div_nat_eqI) auto
  have d8: "bits div 256 = b0 * 256 + b1" using assms(3) unfolding bits_def by (intro div_nat_eqI) auto
  have "bits div 262144 = bits div 65536 div 4" by (simp add: div_mult2_eq [symmetric])
  then show "bits div 262144 mod 64 = b0 div 4" using assms(1) d16 by (simp add: less_mult_imp_div_less)
  have "bits div 4096 = bits div 256 div 16" by (simp add: div_mult2_eq [symmetric])
  also have "\<dots> = b0 * 16 + b1 div 16" unfolding d8 by simp
  finally have "bits div 4096 mod (16 * 4) = 16 * ((b0 * 16 + b1 div 16) div 16 mod 4) + (b0 * 16 + b1 div 16) mod 16"
    by (simp only: mod_mult2_eq)
  moreover have "b1 div 16 < 16" using assms(2) by (simp add: less_mult_imp_div_less)
  ultimately show "bits div 4096 mod 64 = b0 mod 4 * 16 + b1 div 16" by simp
  have "bits div 64 = b0 * 1024 + b1 * 4 + b2 div 64" unfolding bits_def by simp
  then have "bits div 64 mod (4 * 16) = 4 * ((b0 * 1024 + b1 * 4 + b2 div 64) div 4 mod 16) + (b0 * 1024 + b1 * 4 + b2 div 64) mod 4"
    by (simp only: mod_mult2_eq)
  moreover have y: "b2 div 64 < 4" using assms(3) by (simp add: less_mult_imp_div_less)
  moreover have "(b0 * 1024 + b1 * 4 + b2 div 64) div 4 = b0 * 256 + b1" using y by (intro div_nat_eqI) auto
  moreover have "(b0 * 1024 + b1 * 4 + b2 div 64) mod 4 = b2 div 64"
    using y mod_mult_self2 [of "b2 div 64" 4 "b0 * 256 + b1"] by (simp add: algebra_simps)
  moreover have "(b0 * 256 + b1) mod 16 = b1 mod 16" using mod_mult_self2 [of b1 16 "b0 * 16"] by (simp add: algebra_simps)
  ultimately show "bits div 64 mod 64 = b1 mod 16 * 4 + b2 div 64" by simp
  show "bits mod 64 = b2 mod 64" unfolding bits_def using mod_mult_self2 [of b2 64 "b0 * 1024 + b1 * 4"] by (simp add: algebra_simps)
qed

lemma quad_length: "length (b64_quad rest) = 4"
  by (simp add: b64_quad_def Let_def)

lemma quad_no_lf: "LF \<notin> set (b64_quad rest)"
  using b64_char(2) by (auto simp: b64_quad_def Let_def LF_def)

lemma quad_less:
  assumes "b0 < 256" "b1 < 256" "(b2::nat) < 256"
  shows "b0 div 4 < 64" "b0 mod 4 * 16 + b1 div 16 < 64" "b1 mod 16 * 4 + b2 div 64 < 64" "b2 mod 64 < 64"
proof -
  have "b0 div 4 < 64" "b1 div 16 < 16" "b2 div 64 < 4" using assms by (simp_all add: less_mult_imp_div_less)
  moreover have "b0 mod 4 < 4" "b1 mod 16 < 16" "b2 mod 64 < 64" by simp_all
  ultimately show "b0 div 4 < 64" "b0 mod 4 * 16 + b1 div 16 < 64" "b1 mod 16 * 4 + b2 div 64 < 64" "b2 mod 64 < 64" by linarith+
qed

lemma quad_join:
  assumes "b1 < 256" "(b2::nat) < 256"
  shows "b0 div 4 * 4 + (b0 mod 4 * 16 + b1 div 16) div 16 = b0"
    "(b0 mod 4 * 16 + b1 div 16) mod 16 * 16 + (b1 mod 16 * 4 + b2 div 64) div 4 = b1"
    "(b1 mod 16 * 4 + b2 div 64) mod 4 * 64 + b2 mod 64 = b2"
proof -
  have d: "b1 div 16 < 16" "b2 div 64 < 4" using assms by (simp_all add: less_mult_imp_div_less)
  have "(b0 mod 4 * 16 + b1 div 16) div 16 = b0 mod 4" "(b1 mod 16 * 4 + b2 div 64) div 4 = b1 mod 16"
    using d by (auto intro: div_nat_eqI)
  moreover have "(b0 mod 4 * 16 + b1 div 16) mod 16 = b1 div 16" "(b1 mod 16 * 4 + b2 div 64) mod 4 = b2 div 64"
    using d mod_mult_self2 [of "b1 div 16" 16 "b0 mod 4"] mod_mult_self2 [of "b2 div 64" 4 "b1 mod 16"] by (simp_all add: add.commute mult.commute)
  ultimately show "b0 div 4 * 4 + (b0 mod 4 * 16 + b1 div 16) div 16 = b0"
    "(b0 mod 4 * 16 + b1 div 16) mod 16 * 16 + (b1 mod 16 * 4 + b2 div 64) div 4 = b1"
    "(b1 mod 16 * 4 + b2 div 64) mod 4 * 64 + b2 mod 64 = b2" by simp_all
qed

lemma quad_chars:
  "length zs < 2147483645 \<Longrightarrow> b64_quad (x # y # z # zs) = [b64_chars ! (unat x div 4), b64_chars ! (unat x mod 4 * 16 + unat y div 16),
     b64_chars ! (unat y mod 16 * 4 + unat z div 64), b64_chars ! (unat z mod 64)]"
  "b64_quad [x, y] = [b64_chars ! (unat x div 4), b64_chars ! (unat x mod 4 * 16 + unat y div 16), b64_chars ! (unat y mod 16 * 4), 0x3D]"
  "b64_quad [x] = [b64_chars ! (unat x div 4), b64_chars ! (unat x mod 4 * 16), 0x3D, 0x3D]"
proof -
  let ?b = "\<lambda>b0 b1 b2 :: nat. b0 * 65536 + b1 * 256 + b2"
  have "b64_quad (x # y # z # zs) = [b64_chars ! (?b (unat x) (unat y) (unat z) div 262144 mod 64), b64_chars ! (?b (unat x) (unat y) (unat z) div 4096 mod 64),
      b64_chars ! (?b (unat x) (unat y) (unat z) div 64 mod 64), b64_chars ! (?b (unat x) (unat y) (unat z) mod 64)]" if "length zs < 2147483645"
    using sint_small [of "length (x # y # z # zs)"] that by (simp add: b64_quad_def Let_def del: of_nat_Suc)
  then show "length zs < 2147483645 \<Longrightarrow> b64_quad (x # y # z # zs) = [b64_chars ! (unat x div 4), b64_chars ! (unat x mod 4 * 16 + unat y div 16),
     b64_chars ! (unat y mod 16 * 4 + unat z div 64), b64_chars ! (unat z mod 64)]"
    unfolding bits_split [OF unat_byte_less unat_byte_less unat_byte_less] .
  have z: "(0::nat) < 256" by simp
  have "b64_quad [x, y] = [b64_chars ! (?b (unat x) (unat y) 0 div 262144 mod 64), b64_chars ! (?b (unat x) (unat y) 0 div 4096 mod 64),
      b64_chars ! (?b (unat x) (unat y) 0 div 64 mod 64), 0x3D]"
    by (simp add: b64_quad_def Let_def)
  then show "b64_quad [x, y] = [b64_chars ! (unat x div 4), b64_chars ! (unat x mod 4 * 16 + unat y div 16), b64_chars ! (unat y mod 16 * 4), 0x3D]"
    unfolding bits_split [OF unat_byte_less unat_byte_less z] by simp
  have "b64_quad [x] = [b64_chars ! (?b (unat x) 0 0 div 262144 mod 64), b64_chars ! (?b (unat x) 0 0 div 4096 mod 64), 0x3D, 0x3D]"
    by (simp add: b64_quad_def Let_def)
  then show "b64_quad [x] = [b64_chars ! (unat x div 4), b64_chars ! (unat x mod 4 * 16), 0x3D, 0x3D]"
    unfolding bits_split [OF unat_byte_less z z] by simp
qed

lemma decode_chars:
  assumes "x0 < 64" "x1 < 64" "x2 < 64"
  shows "x3 < 64 \<Longrightarrow> b64_decode (b64_chars ! x0 # b64_chars ! x1 # b64_chars ! x2 # b64_chars ! x3 # cs) =
      map_option (\<lambda>r. word_of_nat (x0 * 4 + x1 div 16) # word_of_nat (x1 mod 16 * 16 + x2 div 4) # word_of_nat (x2 mod 4 * 64 + x3) # r) (b64_decode cs)"
    "b64_decode [b64_chars ! x0, b64_chars ! x1, b64_chars ! x2, 0x3D] = Some [word_of_nat (x0 * 4 + x1 div 16), word_of_nat (x1 mod 16 * 16 + x2 div 4)]"
    "b64_decode [b64_chars ! x0, b64_chars ! x1, 0x3D, 0x3D] = Some [word_of_nat (x0 * 4 + x1 div 16)]"
  using assms by (simp_all add: b64_char)

lemma of_unat: "word_of_nat (unat b) = (b :: byte)"
  by simp

lemma decode_quad:
  assumes "length bs \<ge> 3" "length bs < 2147483648"
  shows "b64_decode (b64_quad bs @ cs) = map_option (\<lambda>r. take 3 bs @ r) (b64_decode cs)"
proof -
  obtain x y z zs where bs: "bs = x # y # z # zs"
    using assms(1) by (metis Suc_le_length_iff numeral_3_eq_3)
  then have zs: "length zs < 2147483645" using assms(2) by simp
  note l = quad_less(1) [OF unat_byte_less [of x] unat_byte_less [of y] unat_byte_less [of z]]
    quad_less(2) [OF unat_byte_less [of x] unat_byte_less [of y] unat_byte_less [of z]]
    quad_less(3) [OF unat_byte_less [of x] unat_byte_less [of y] unat_byte_less [of z]]
    quad_less(4) [OF unat_byte_less [of x] unat_byte_less [of y] unat_byte_less [of z]]
  show ?thesis
    unfolding bs quad_chars(1) [OF zs] append_Cons append_Nil decode_chars(1) [OF l] quad_join [OF unat_byte_less unat_byte_less]
    by (simp only: of_unat numeral_3_eq_3 take_Suc_Cons take_0 append_Cons append_Nil)
qed

lemma decode_last_quad:
  assumes "bs \<noteq> []" "length bs < 3"
  shows "b64_decode (b64_quad bs) = Some bs"
proof -
  have z: "(0::nat) < 256" by simp
  consider x where "bs = [x]" | x y where "bs = [x, y]"
    using assms by (cases bs rule: list.exhaust; cases "tl bs") (auto simp: length_Suc_conv)
  then show ?thesis
  proof cases
    case (1 x)
    note l = quad_less [OF unat_byte_less [of x] z z]
    show ?thesis unfolding 1 quad_chars(3) using decode_chars(3) [OF l(1), of "unat x mod 4 * 16" 0] l(2) quad_join(1) [OF z z, of "unat x"] by simp
  next
    case (2 x y)
    note l = quad_less [OF unat_byte_less [of x] unat_byte_less [of y] z]
    note j = quad_join(1,2) [OF unat_byte_less [of y] z, of "unat x", unfolded div_0 add_0_right]
    have l3: "unat y mod 16 * 4 < 64" using l(3) by simp
    show ?thesis unfolding 2 quad_chars(2) decode_chars(2) [OF l(1,2) l3] j of_unat ..
  qed
qed

lemma filter_quad: "filter (\<lambda>c. c \<noteq> LF) (b64_quad bs) = b64_quad bs"
  using quad_no_lf by (auto simp: filter_id_conv)

lemma decode_body: "length der < 2147483648 \<Longrightarrow> b64_decode (filter (\<lambda>c. c \<noteq> LF) (pem_body der i col)) = Some (drop i der)"
proof (induction der i col rule: pem_body.induct)
  case (1 der i col)
  show ?case
  proof (cases "i < length der")
    case True
    let ?rest = "if col + 4 \<ge> 64 then pem_body der (i + 3) 0 else pem_body der (i + 3) (col + 4)"
    have ih: "b64_decode (filter (\<lambda>c. c \<noteq> LF) ?rest) = Some (drop (i + 3) der)" using 1 True by simp
    have u: "filter (\<lambda>c. c \<noteq> LF) (pem_body der i col) = b64_quad (drop i der) @ filter (\<lambda>c. c \<noteq> LF) ?rest"
      using True by (subst pem_body.simps) (simp add: filter_quad)
    show ?thesis
    proof (cases "length (drop i der) \<ge> 3")
      case True
      have "drop (i + 3) der = drop 3 (drop i der)" by (simp add: add.commute)
      moreover have short: "length (drop i der) < 2147483648" using 1(3) by simp
      ultimately show ?thesis unfolding u decode_quad [OF True short] ih option.map by (simp only: append_take_drop_id)
    next
      case False
      then have "length der \<le> i + 3" by simp
      then have "filter (\<lambda>c. c \<noteq> LF) ?rest = []" by (subst (1 2) pem_body.simps) simp
      moreover have "drop i der \<noteq> []" using True by simp
      ultimately show ?thesis unfolding u using False decode_last_quad [of "drop i der"] by simp
    qed
  next
    case False
    then show ?thesis by (subst pem_body.simps) simp
  qed
qed

lemma ok_lines_quad: "LF \<notin> set q \<Longrightarrow> col + length q \<le> 64 \<Longrightarrow> ok_lines (col + length q) cs \<Longrightarrow> ok_lines col (q @ cs)"
  by (induction q arbitrary: col) auto

lemma body_lines: "col mod 4 = 0 \<Longrightarrow> col < 64 \<Longrightarrow> ok_lines col (pem_body der i col)"
proof (induction der i col rule: pem_body.induct)
  case (1 der i col)
  show ?case
  proof (cases "i < length der")
    case True
    from 1(3,4) have col: "col \<le> 60" by presburger
    have rest: "ok_lines (col + 4) (if col + 4 \<ge> 64 then LF # pem_body der (i + 3) 0 else pem_body der (i + 3) (col + 4))"
      using 1 True by (auto simp: mod_add_left_eq [symmetric])
    have u: "pem_body der i col = b64_quad (drop i der) @ (if col + 4 \<ge> 64 then LF # pem_body der (i + 3) 0 else pem_body der (i + 3) (col + 4))"
      using True by (subst pem_body.simps) simp
    show ?thesis unfolding u by (rule ok_lines_quad) (use col rest quad_no_lf quad_length in auto)
  next
    case False
    then show ?thesis by (subst pem_body.simps) auto
  qed
qed

text \<open>C27. The certificate that \<open>wp11 attest\<close> prints is PEM, for every certificate below 2 GiB (the command has a buffer of 4096 bytes): between
  the two marker lines stand lines of at most 64 characters, each
  ended by a line feed, whose characters without the line feeds are the base64 text of exactly the given DER bytes.\<close>
theorem print_pem_roundtrip:
  assumes "length der < 2147483648"
  shows "\<exists>body. print_pem_cert der = str ''-----BEGIN CERTIFICATE-----'' @ [LF] @ body @ str ''-----END CERTIFICATE-----'' @ [LF]
     \<and> ok_lines 0 body \<and> b64_decode (filter (\<lambda>c. c \<noteq> LF) body) = Some der"
  using decode_body [OF assms, of 0 0] body_lines [of 0 der 0] by (auto simp: print_pem_cert_def)

theorem print_pem_roundtrip_witness:
  "\<exists>body. print_pem_cert [0x30, 0x01, 0xFF, 0x07] = str ''-----BEGIN CERTIFICATE-----'' @ [LF] @ body @ str ''-----END CERTIFICATE-----'' @ [LF]
     \<and> ok_lines 0 body \<and> b64_decode (filter (\<lambda>c. c \<noteq> LF) body) = Some [0x30, 0x01, 0xFF, 0x07]"
  using print_pem_roundtrip [of "[0x30, 0x01, 0xFF, 0x07]"] by simp

end
