(* ===== verification/WolfHsmSlots.thy ===== *)
theory WolfHsmSlots imports KeyGen WolfHsm CliText begin

text \<open>
  The slots of the wolfHSM backend (\<open>src/wp11_pkcs11.c\<close> with \<open>WOLFP11_CFG_WOLFHSM_BACKEND\<close>): connecting to the server and listing its
  keys at login, disconnecting at logout, key pairs generated on the server, private keys imported into it, and their
  destruction.  The library is that of \<open>WolfHsm\<close>; string conversions are those of \<open>CliText\<close>.  These functions run behind the
  checks of the PKCS#11 functions that call them, which the other theories model.
\<close>

section \<open>The state\<close>

text \<open>
  \<open>hs_priv\<close> is \<open>key_priv\<close> of the entries of \<open>g_keys[]\<close> whose operations are \<open>wp11_backend_wolfhsm_ops\<close>; for these entries
  \<open>key_priv\<close> and \<open>ops\<close> of the table are \<open>None\<close>.  \<open>hs_client\<close> is \<open>hsm_client\<close> of a slot, a connection; \<open>hs_dangling\<close> has the entries
  whose \<open>secret\<close> points to freed memory.
\<close>

record 's hsm_slots =
  hs_keys :: "wp11_key_obj list"
  hs_priv :: "nat \<Rightarrow> wp11_wolfhsm_key_priv option"
  hs_client :: "nat \<Rightarrow> nat option"
  hs_next :: nat
  hs_server :: 's
  hs_dangling :: "nat set"

definition MAX_DER_EXPORT :: nat where "MAX_DER_EXPORT = 3072"

text \<open>Two bytes for the identifier of a key, which is also \<open>CKA_ID\<close>.\<close>

definition keyid_bytes :: "nat \<Rightarrow> byte list" where
  "keyid_bytes n = [byte_of (n div 256), byte_of n]"

section \<open>Disconnecting\<close>

definition clear_hsm_key :: "'s hsm_api \<Rightarrow> nat \<Rightarrow> nat \<Rightarrow> 's hsm_slots \<Rightarrow> 's hsm_slots" where
  "clear_hsm_key api slot gi st =
     (if \<not> k_in_use (hs_keys st ! gi) \<or> k_slot_id (hs_keys st ! gi) \<noteq> slot then st
      else case hs_priv st gi of
        None \<Rightarrow> st
      | Some kp \<Rightarrow>
          st\<lparr>hs_server := hsm_free_key_priv api (Some kp) (hs_server st), hs_keys := (hs_keys st)[gi := zero_key],
             hs_priv := (hs_priv st)(gi := None), hs_dangling := hs_dangling st - {gi}\<rparr>)"

definition wolfhsm_slot_clear_keys :: "'s hsm_api \<Rightarrow> nat \<Rightarrow> 's hsm_slots \<Rightarrow> 's hsm_slots" where
  "wolfhsm_slot_clear_keys api slot st = fold (clear_hsm_key api slot) [0..<MAX_KEYS] st"

definition wolfhsm_slot_disconnect :: "'s hsm_api \<Rightarrow> nat \<Rightarrow> 's hsm_slots \<Rightarrow> 's hsm_slots" where
  "wolfhsm_slot_disconnect api slot st =
     (case hs_client st slot of
        None \<Rightarrow> st
      | Some c \<Rightarrow>
          let st1 = wolfhsm_slot_clear_keys api slot st in
          st1\<lparr>hs_server := wh_Cleanup api (wh_CommClose api (hs_server st1)), hs_client := (hs_client st1)(slot := None)\<rparr>)"

section \<open>The keys on the server\<close>

text \<open>Type, size and longest signature of an exported key.\<close>

definition hsm_key_kind :: "'d crypto_env \<Rightarrow> byte list \<Rightarrow> (int \<times> nat \<times> nat) option" where
  "hsm_key_kind env der =
     (case (if ce_init_ok env then le_ec_size env der else None) of
        Some csz \<Rightarrow> Some (KEY_TYPE_EC, 0, if csz > 0 then nat (8 + 2 * csz) else 72)
      | None \<Rightarrow>
          (case (if ce_init_ok env then le_rsa_size env der else None) of
             Some sz \<Rightarrow> if sz > 0 \<and> sz \<le> 512 then Some (KEY_TYPE_RSA, nat sz, nat sz) else None
           | None \<Rightarrow> None))"

definition nvm_label :: "'s hsm_api \<Rightarrow> byte list \<Rightarrow> byte list" where
  "nvm_label api lbl = cstr (take (wh_label_max api - 1) lbl)"

definition listed_key :: "nat \<Rightarrow> nat \<Rightarrow> byte list \<Rightarrow> int \<times> nat \<times> nat \<Rightarrow> wp11_key_obj \<Rightarrow> wp11_key_obj" where
  "listed_key slot oid lbl kind k =
     k\<lparr>k_in_use := True, k_slot_id := slot, obj_class := CKO_PRIVATE_KEY,
       k_key_type := (if fst kind = KEY_TYPE_EC then CKK_EC else CKK_RSA), sig_len_max := snd (snd kind),
       key_priv := None, ops := None, is_private := True, is_token := True,
       k_label := (if lbl \<noteq> [] then take 31 lbl else hex2 False (byte_of (oid div 256)) @ hex2 False (byte_of oid)),
       k_id := keyid_bytes oid\<rparr>"

text \<open>One object of the server, its listing past: \<open>allocs\<close> has the outcomes of the two \<open>malloc\<close> calls.  The result counts the keys
  that could not be added.\<close>

definition list_object ::
  "'d crypto_env \<Rightarrow> 's hsm_api \<Rightarrow> bool \<times> bool \<Rightarrow> nat \<Rightarrow> nat \<Rightarrow> nat \<Rightarrow> 's hsm_slots \<Rightarrow> 's hsm_slots \<times> nat" where
  "list_object env api allocs slot c oid st =
     (if \<not> wh_keyid_is_crypto api oid then (st, 0)
      else case wh_NvmGetMetadata api (hs_server st) oid of
        (s1, None) \<Rightarrow> (st\<lparr>hs_server := s1\<rparr>, 0)
      | (s1, Some (len, lbl)) \<Rightarrow>
          if len = 0 \<or> len > MAX_DER_EXPORT then (st\<lparr>hs_server := s1\<rparr>, 0)
          else if \<not> fst allocs then (st\<lparr>hs_server := s1\<rparr>, 1)
          else (case wh_KeyExport api s1 oid len of
             (s2, None) \<Rightarrow> (st\<lparr>hs_server := s2\<rparr>, 0)
           | (s2, Some der) \<Rightarrow>
               let st2 = st\<lparr>hs_server := s2\<rparr> in
               (case hsm_key_kind env der of
                  None \<Rightarrow> (st2, 0)
                | Some kind \<Rightarrow>
                    (case first_index (\<lambda>k. \<not> k_in_use k) (hs_keys st) of
                       None \<Rightarrow> (st2, 1)
                     | Some gi \<Rightarrow>
                         (case wp11_wolfhsm_alloc_key_priv (snd allocs) (Some c) oid (fst kind) (fst (snd kind)) of
                            None \<Rightarrow> (st2, 1)
                          | Some kp \<Rightarrow>
                              (st2\<lparr>hs_keys := (hs_keys st)[gi := listed_key slot oid (nvm_label api lbl) kind (hs_keys st ! gi)],
                                   hs_priv := (hs_priv st)(gi := Some kp)\<rparr>, 0))))))"

text \<open>The loop need not end: the next object is whatever the server names.\<close>

partial_function (option) wolfhsm_slot_populate_keys ::
  "'d crypto_env \<Rightarrow> 's hsm_api \<Rightarrow> (nat \<Rightarrow> bool \<times> bool) \<Rightarrow> nat \<Rightarrow> nat \<Rightarrow> nat \<Rightarrow> nat \<Rightarrow> 's hsm_slots \<Rightarrow> ('s hsm_slots \<times> nat) option" where
  "wolfhsm_slot_populate_keys env api allocs slot c start dropped st =
     (case wh_NvmList api (hs_server st) start of
        (s1, None) \<Rightarrow> Some (st\<lparr>hs_server := s1\<rparr>, dropped)
      | (s1, Some (count, oid)) \<Rightarrow>
          if count = 0 \<or> oid = 0xFFFF then Some (st\<lparr>hs_server := s1\<rparr>, dropped)
          else case list_object env api (allocs oid) slot c oid (st\<lparr>hs_server := s1\<rparr>) of
            (st2, d) \<Rightarrow> wolfhsm_slot_populate_keys env api allocs slot c (oid + 1) (dropped + d) st2)"

section \<open>Connecting\<close>

text \<open>\<open>strtol(s, NULL, 10)\<close>, which saturates, and \<open>strrchr(s, ':')\<close>: the text before and behind the last colon.\<close>

definition strtol :: "byte list \<Rightarrow> int" where
  "strtol s =
     (let s1 = dropWhile is_space s;
          neg = (s1 \<noteq> [] \<and> hd s1 = 0x2D);
          s2 = (if s1 \<noteq> [] \<and> (hd s1 = 0x2D \<or> hd s1 = 0x2B) then tl s1 else s1);
          v = int (digits_value (takeWhile is_digit s2)) in
      if neg then max (- (2 ^ 63)) (- v) else min (2 ^ 63 - 1) v)"

definition split_colon :: "byte list \<Rightarrow> (byte list \<times> byte list) option" where
  "split_colon s =
     (if 0x3A \<notin> set s then None
      else Some (rev (tl (dropWhile (\<lambda>c. c \<noteq> 0x3A) (rev s))), rev (takeWhile (\<lambda>c. c \<noteq> 0x3A) (rev s))))"

text \<open>The address in \<open>WOLFP11_HSM_TCP_ADDR\<close>; the port is stored as a \<open>short\<close>.\<close>

definition tcp_transport :: "byte list \<Rightarrow> wh_transport option" where
  "tcp_transport addr =
     (case split_colon addr of
        None \<Rightarrow> None
      | Some (ip, port) \<Rightarrow>
          if strtol port \<le> 0 \<or> strtol port > 65535 then None
          else if ip = [] \<or> length ip \<ge> 64 then None
          else Some (TransportTcp ip (word_of_int (strtol port))))"

definition wolfhsm_slot_connect ::
  "'d crypto_env \<Rightarrow> 's hsm_api \<Rightarrow> (nat \<Rightarrow> bool \<times> bool) \<Rightarrow> byte list option \<Rightarrow> byte list option \<Rightarrow> bool \<Rightarrow> nat \<Rightarrow> 's hsm_slots
     \<Rightarrow> ('s hsm_slots \<times> CK_RV) option" where
  "wolfhsm_slot_connect env api allocs shm_id tcp_addr calloc_ok slot st =
     (if hs_client st slot \<noteq> None then Some (st, CKR_OK)
      else if shm_id = None \<and> tcp_addr = None then Some (st, CKR_TOKEN_NOT_PRESENT)
      else if \<not> calloc_ok then Some (st, CKR_DEVICE_MEMORY)
      else case (case shm_id of Some name \<Rightarrow> Some (TransportShm (take 255 name)) | None \<Rightarrow> tcp_transport (the tcp_addr)) of
        None \<Rightarrow> Some (st, CKR_DEVICE_ERROR)
      | Some tr \<Rightarrow>
          (case wh_Init api (hs_server st) tr of
             (s1, False) \<Rightarrow> Some (st\<lparr>hs_server := s1\<rparr>, CKR_DEVICE_ERROR)
           | (s1, True) \<Rightarrow>
               (case wh_CommInit api s1 of
                  (s2, Some err) \<Rightarrow>
                    Some (st\<lparr>hs_server := wh_Cleanup api s2\<rparr>,
                      if err = WH_ERROR_ACCESS then CKR_PIN_INCORRECT else if err = WH_ERROR_TIMEOUT then CKR_TOKEN_NOT_PRESENT
                      else CKR_DEVICE_ERROR)
                | (s2, None) \<Rightarrow>
                    let c = hs_next st in
                    (case wolfhsm_slot_populate_keys env api allocs slot c 0 0
                            (st\<lparr>hs_server := s2, hs_next := c + 1, hs_client := (hs_client st)(slot := Some c)\<rparr>) of
                       None \<Rightarrow> None
                     | Some (st3, dropped) \<Rightarrow>
                         if dropped > 0 then Some (wolfhsm_slot_disconnect api slot st3, CKR_DEVICE_MEMORY)
                         else Some (st3, CKR_OK)))))"

section \<open>Generating a key pair\<close>

text \<open>\<open>lbl\<close> is the memory at the label (\<open>None\<close>: it has no NUL and is read past its end).  The label that goes to the server has room
  for one byte less than the server's array.\<close>

definition hsm_label :: "'s hsm_api \<Rightarrow> byte list \<Rightarrow> byte list" where
  "hsm_label api lbl = take (wh_label_max api - 1) lbl"

definition make_server_pair :: "'s hsm_api \<Rightarrow> nat \<Rightarrow> nat \<Rightarrow> byte list \<Rightarrow> 's \<Rightarrow> 's \<times> (CK_RV + nat \<times> nat \<times> nat \<times> int \<times> nat)" where
  "make_server_pair api mech bits lbl s =
     (if mech = CKM_EC_KEY_PAIR_GEN then
        (case wh_EccMakeCacheKey api s (hsm_label api lbl) of
           (s1, None) \<Rightarrow> (s1, Inl CKR_DEVICE_ERROR)
         | (s1, Some kid) \<Rightarrow> (s1, Inr (kid, CKK_EC, 72, KEY_TYPE_EC, 0)))
      else if mech = CKM_RSA_PKCS_KEY_PAIR_GEN then
        (if bits < 512 \<or> bits > 4096 then (s, Inl CKR_ATTRIBUTE_VALUE_INVALID)
         else case wh_RsaMakeCacheKey api s bits (hsm_label api lbl) of
           (s1, None) \<Rightarrow> (s1, Inl CKR_DEVICE_ERROR)
         | (s1, Some kid) \<Rightarrow> (s1, Inr (kid, CKK_RSA, bits div 8, KEY_TYPE_RSA, bits div 8)))
      else (s, Inl CKR_MECHANISM_INVALID))"

definition hsm_pair_object :: "nat \<Rightarrow> nat \<Rightarrow> bool \<Rightarrow> nat \<Rightarrow> nat \<Rightarrow> byte list \<Rightarrow> nat \<Rightarrow> wp11_key_obj \<Rightarrow> wp11_key_obj" where
  "hsm_pair_object slot cls priv kt sigmax lbl kid k =
     k\<lparr>k_in_use := True, k_slot_id := slot, obj_class := cls, k_key_type := kt, sig_len_max := sigmax, key_priv := None, ops := None,
       is_private := priv, is_token := True, is_local := True, k_label := take 31 lbl, k_id := keyid_bytes kid\<rparr>"

definition free_pair :: "wp11_key_obj list \<Rightarrow> (nat \<times> nat) option" where
  "free_pair ks =
     (case filter (\<lambda>i. \<not> k_in_use (ks ! i)) [0..<MAX_KEYS] of a # b # r \<Rightarrow> Some (a, b) | _ \<Rightarrow> None)"

text \<open>The two entries for a pair that the server has made.\<close>

definition hsm_place_pair ::
  "'s hsm_api \<Rightarrow> bool \<times> bool \<Rightarrow> nat \<Rightarrow> nat \<Rightarrow> bool \<Rightarrow> byte list \<Rightarrow> nat \<times> nat \<times> nat \<times> int \<times> nat \<Rightarrow> 's hsm_slots
     \<Rightarrow> 's hsm_slots \<times> CK_RV \<times> (nat \<times> nat) option" where
  "hsm_place_pair api allocs slot c priv lbl made st =
     (case made of (kid, ckt, sigmax, ty, sz) \<Rightarrow>
        let evicted = (st\<lparr>hs_server := wh_KeyEvict api (hs_server st) kid\<rparr>, CKR_DEVICE_MEMORY, None) in
        (case free_pair (hs_keys st) of
           None \<Rightarrow> evicted
         | Some (gp, gv) \<Rightarrow>
             (case wp11_wolfhsm_alloc_key_priv (fst allocs) (Some c) kid ty sz of
                None \<Rightarrow> evicted
              | Some kp_pub \<Rightarrow>
                  (case wp11_wolfhsm_alloc_key_priv (snd allocs) (Some c) kid ty sz of
                     None \<Rightarrow> evicted
                   | Some kp_priv \<Rightarrow>
                       (st\<lparr>hs_keys := (hs_keys st)[gp := hsm_pair_object slot CKO_PUBLIC_KEY False ckt sigmax lbl kid (hs_keys st ! gp),
                                                   gv := hsm_pair_object slot CKO_PRIVATE_KEY priv ckt sigmax lbl kid (hs_keys st ! gv)],
                           hs_priv := (hs_priv st)(gp \<mapsto> kp_pub\<lparr>generated_here := False\<rparr>, gv \<mapsto> kp_priv\<lparr>generated_here := True\<rparr>)\<rparr>,
                        CKR_OK, Some (gp + 1, gv + 1))))))"

definition hsm_generate_pair ::
  "'s hsm_api \<Rightarrow> bool \<times> bool \<Rightarrow> nat \<Rightarrow> bool \<Rightarrow> nat \<Rightarrow> nat \<Rightarrow> byte list option \<Rightarrow> bool \<Rightarrow> 's hsm_slots
     \<Rightarrow> ('s hsm_slots \<times> CK_RV \<times> (nat \<times> nat) option) option" where
  "hsm_generate_pair api allocs slot logged_in mech bits label_mem priv st =
     (if \<not> logged_in then Some (st, CKR_USER_NOT_LOGGED_IN, None)
      else case hs_client st slot of
        None \<Rightarrow> Some (st, CKR_DEVICE_ERROR, None)
      | Some c \<Rightarrow>
          (case label_mem of
             None \<Rightarrow> None
           | Some lbl \<Rightarrow>
               (case make_server_pair api mech bits lbl (hs_server st) of
                  (s1, Inl rv) \<Rightarrow> Some (st\<lparr>hs_server := s1\<rparr>, rv, None)
                | (s1, Inr made) \<Rightarrow> Some (hsm_place_pair api allocs slot c priv lbl made (st\<lparr>hs_server := s1\<rparr>)))))"

section \<open>Importing a private key\<close>

text \<open>wolfCrypt's functions for the parts of a key: the curve of an object identifier, a private key from its scalar, an RSA key from
  its eight numbers.\<close>

record hsm_crypto =
  hc_curve_of_oid :: "byte list \<Rightarrow> nat option"
  hc_ecc_private :: "nat \<Rightarrow> byte list \<Rightarrow> wc_ctx option"
  hc_rsa_raw :: "byte list list \<Rightarrow> wc_ctx option"

text \<open>The last value of an attribute, with the memory that can be read behind it.\<close>

fun last_attr :: "(nat \<Rightarrow> byte list) \<Rightarrow> nat \<Rightarrow> CK_ATTRIBUTE list \<Rightarrow> nat \<Rightarrow> (byte list \<times> byte list) option \<Rightarrow> (byte list \<times> byte list) option" where
  "last_attr behind i [] t r = r"
| "last_attr behind i (a # as) t r =
     last_attr behind (Suc i) as t
       (if a_type a = t then (case a_value a of None \<Rightarrow> r | Some v \<Rightarrow> Some (v, behind i)) else r)"

definition rsa_parts :: "nat list" where
  "rsa_parts = [CKA_MODULUS, CKA_PUBLIC_EXPONENT, CKA_PRIVATE_EXPONENT, CKA_COEFFICIENT, CKA_PRIME_1, CKA_PRIME_2, CKA_EXPONENT_1, CKA_EXPONENT_2]"

text \<open>What the import of the key into the server gives: the identifier, type, size and longest signature.  The second byte of
  \<open>CKA_EC_PARAMS\<close> is taken for the length of the identifier, \<open>None\<close> when this reads past the readable memory.\<close>

definition push_ec_key ::
  "'d crypto_env \<Rightarrow> hsm_crypto \<Rightarrow> 's hsm_api \<Rightarrow> (nat \<Rightarrow> byte list) \<Rightarrow> CK_ATTRIBUTE list \<Rightarrow> byte list option \<Rightarrow> byte list \<Rightarrow> 's
     \<Rightarrow> ('s \<times> (CK_RV + nat \<times> int \<times> nat \<times> nat)) option" where
  "push_ec_key env hc api behind as val lbl s =
     (case last_attr behind 0 as CKA_EC_PARAMS None of
        None \<Rightarrow> Some (s, Inl CKR_TEMPLATE_INCOMPLETE)
      | Some (params, beh) \<Rightarrow>
          if length params < 2 \<or> params ! 0 \<noteq> 0x06 then Some (s, Inl CKR_TEMPLATE_INCOMPLETE)
          else case val of
            None \<Rightarrow> Some (s, Inl CKR_TEMPLATE_INCOMPLETE)
          | Some v \<Rightarrow>
              let n = unat (params ! 1) in
              if length (params @ beh) < n + 2 then None
              else (case hc_curve_of_oid hc (bslice (params @ beh) 2 n) of
                 None \<Rightarrow> Some (s, Inl CKR_ATTRIBUTE_VALUE_INVALID)
               | Some curve \<Rightarrow>
                   if \<not> ce_init_ok env then Some (s, Inl CKR_DEVICE_ERROR)
                   else (case hc_ecc_private hc curve (as_word32 v) of
                      None \<Rightarrow> Some (s, Inl CKR_DEVICE_ERROR)
                    | Some key \<Rightarrow>
                        (case wh_ImportKey api s key (hsm_label api lbl) of
                           (s1, None) \<Rightarrow> Some (s1, Inl CKR_DEVICE_ERROR)
                         | (s1, Some kid) \<Rightarrow> Some (s1, Inr (kid, KEY_TYPE_EC, 0, 72))))))"

definition push_rsa_key ::
  "'d crypto_env \<Rightarrow> hsm_crypto \<Rightarrow> 's hsm_api \<Rightarrow> (nat \<Rightarrow> byte list) \<Rightarrow> CK_ATTRIBUTE list \<Rightarrow> byte list \<Rightarrow> 's
     \<Rightarrow> 's \<times> (CK_RV + nat \<times> int \<times> nat \<times> nat)" where
  "push_rsa_key env hc api behind as lbl s =
     (let parts = map (\<lambda>t. last_attr behind 0 as t None) rsa_parts in
      if None \<in> set parts then (s, Inl CKR_TEMPLATE_INCOMPLETE)
      else if \<not> ce_init_ok env then (s, Inl CKR_DEVICE_ERROR)
      else case hc_rsa_raw hc (map (\<lambda>p. as_word32 (fst (the p))) parts) of
        None \<Rightarrow> (s, Inl CKR_DEVICE_ERROR)
      | Some key \<Rightarrow>
          let sz = ce_rsa_size env key in
          if sz \<le> 0 then (s, Inl CKR_DEVICE_ERROR)
          else case wh_ImportKey api s key (hsm_label api lbl) of
            (s1, None) \<Rightarrow> (s1, Inl CKR_DEVICE_ERROR)
          | (s1, Some kid) \<Rightarrow> (s1, Inr (kid, KEY_TYPE_RSA, nat sz mod 65536, nat sz)))"

definition push_key ::
  "'d crypto_env \<Rightarrow> hsm_crypto \<Rightarrow> 's hsm_api \<Rightarrow> (nat \<Rightarrow> byte list) \<Rightarrow> CK_ATTRIBUTE list \<Rightarrow> create_attrs \<Rightarrow> byte list \<Rightarrow> 's
     \<Rightarrow> ('s \<times> (CK_RV + nat \<times> int \<times> nat \<times> nat)) option" where
  "push_key env hc api behind as c lbl s =
     (if ca_key_type c = CKK_EC then push_ec_key env hc api behind as (value_of c) lbl s
      else if ca_key_type c = CKK_RSA then Some (push_rsa_key env hc api behind as lbl s)
      else Some (s, Inl CKR_KEY_TYPE_INCONSISTENT))"

text \<open>
  \<open>C_CreateObject\<close> for a private key in a slot of the backend.  The entry is filled before the key goes to the server; an error
  after that leaves it in use, and \<open>cleanup\<close> frees the copy of the value that its \<open>secret\<close> points to.
\<close>

definition hsm_create_private ::
  "'d crypto_env \<Rightarrow> hsm_crypto \<Rightarrow> 's hsm_api \<Rightarrow> (nat \<Rightarrow> byte list) \<Rightarrow> bool \<times> bool \<Rightarrow> nat \<Rightarrow> bool \<Rightarrow> CK_ATTRIBUTE list \<Rightarrow> 's hsm_slots
     \<Rightarrow> ('s hsm_slots \<times> CK_RV \<times> nat option) option" where
  "hsm_create_private env hc api behind allocs slot logged_in as st =
     (let c = scan_attrs behind 0 as default_attrs in
      if (case ca_app c of None \<Rightarrow> False | Some ap \<Rightarrow> length ap > APPLICATION_SIZE) then Some (st, CKR_ATTRIBUTE_VALUE_INVALID, None)
      else case first_index (\<lambda>k. \<not> k_in_use k) (hs_keys st) of
        None \<Rightarrow> Some (st, CKR_DEVICE_MEMORY, None)
      | Some gi \<Rightarrow>
          if value_of c \<noteq> None \<and> \<not> fst allocs then Some (st, CKR_DEVICE_MEMORY, None)
          else (case read_label (ca_label c) of
             None \<Rightarrow> None
           | Some lbl \<Rightarrow>
               let k = new_object slot CKO_PRIVATE_KEY lbl (c\<lparr>ca_app := None\<rparr>) (hs_keys st ! gi);
                   st1 = st\<lparr>hs_keys := (hs_keys st)[gi := k], hs_priv := (hs_priv st)(gi := None)\<rparr>;
                   fail = (\<lambda>s rv. Some (st1\<lparr>hs_server := s, hs_dangling := (if value_of c \<noteq> None then insert gi (hs_dangling st) else hs_dangling st)\<rparr>, rv, None)) in
               if \<not> logged_in then fail (hs_server st) CKR_USER_NOT_LOGGED_IN
               else (case hs_client st slot of
                  None \<Rightarrow> fail (hs_server st) CKR_DEVICE_ERROR
                | Some conn \<Rightarrow>
                    (case push_key env hc api behind as c lbl (hs_server st) of
                       None \<Rightarrow> None
                     | Some (s1, Inl rv) \<Rightarrow> fail s1 rv
                     | Some (s1, Inr (kid, typ, sz, sigmax)) \<Rightarrow>
                         (case wp11_wolfhsm_alloc_key_priv (snd allocs) (Some conn) kid typ sz of
                            None \<Rightarrow> fail (wh_KeyEvict api s1 kid) CKR_DEVICE_MEMORY
                          | Some kp \<Rightarrow>
                              let k1 = k\<lparr>secret := None, sig_len_max := sigmax, k_id := keyid_bytes kid\<rparr>;
                                  k2 = (case ca_app c of None \<Rightarrow> k1 | Some ap \<Rightarrow> if ap = [] then k1 else k1\<lparr>application := ap\<rparr>) in
                              Some (st1\<lparr>hs_server := s1, hs_keys := (hs_keys st)[gi := k2], hs_priv := (hs_priv st)(gi := Some kp)\<rparr>,
                                    CKR_OK, Some (gi + 1)))))))"

section \<open>Destroying an object\<close>

text \<open>\<open>C_DestroyObject\<close> behind its checks; wiping a \<open>secret\<close> that points to freed memory is undefined.\<close>

definition hsm_destroy :: "'s hsm_api \<Rightarrow> nat \<Rightarrow> 's hsm_slots \<Rightarrow> 's hsm_slots option" where
  "hsm_destroy api j st =
     (if j \<in> hs_dangling st then None
      else Some (st\<lparr>hs_server := hsm_free_key_priv api (hs_priv st j) (hs_server st), hs_priv := (hs_priv st)(j := None),
                    hs_keys := (hs_keys st)[j := (hs_keys st ! j)\<lparr>key_priv := None, secret := None, k_in_use := False\<rparr>]\<rparr>))"

section \<open>No key outlives its connection\<close>

definition hsm_ok :: "'s hsm_slots \<Rightarrow> bool" where
  "hsm_ok st \<longleftrightarrow>
     length (hs_keys st) = MAX_KEYS
     \<and> (\<forall>slot c. hs_client st slot = Some c \<longrightarrow> c < hs_next st)
     \<and> (\<forall>i kp. hs_priv st i = Some kp \<longrightarrow>
          i < MAX_KEYS \<and> k_in_use (hs_keys st ! i) \<and> hk_magic kp = WP11_WOLFHSM_KEY_MAGIC \<and> hs_client st (k_slot_id (hs_keys st ! i)) = Some (hk_ctx kp))"

lemma hsm_okI:
  assumes "length (hs_keys st) = MAX_KEYS" "\<And>slot c. hs_client st slot = Some c \<Longrightarrow> c < hs_next st"
    "\<And>i kp. hs_priv st i = Some kp \<Longrightarrow> i < MAX_KEYS \<and> k_in_use (hs_keys st ! i) \<and> hk_magic kp = WP11_WOLFHSM_KEY_MAGIC
        \<and> hs_client st (k_slot_id (hs_keys st ! i)) = Some (hk_ctx kp)"
  shows "hsm_ok st"
  using assms by (simp add: hsm_ok_def)

lemma hsm_okD:
  assumes "hsm_ok st"
  shows "length (hs_keys st) = MAX_KEYS" "hs_client st slot = Some c \<Longrightarrow> c < hs_next st"
    "hs_priv st i = Some kp \<Longrightarrow> i < MAX_KEYS" "hs_priv st i = Some kp \<Longrightarrow> k_in_use (hs_keys st ! i)"
    "hs_priv st i = Some kp \<Longrightarrow> hk_magic kp = WP11_WOLFHSM_KEY_MAGIC"
    "hs_priv st i = Some kp \<Longrightarrow> hs_client st (k_slot_id (hs_keys st ! i)) = Some (hk_ctx kp)"
  using assms by (simp_all add: hsm_ok_def)

definition clears :: "nat \<Rightarrow> nat \<Rightarrow> 's hsm_slots \<Rightarrow> bool" where
  "clears slot i st \<longleftrightarrow> k_in_use (hs_keys st ! i) \<and> k_slot_id (hs_keys st ! i) = slot \<and> hs_priv st i \<noteq> None"

lemma clear_one:
  "clear_hsm_key api slot gi st =
     (if clears slot gi st then
        st\<lparr>hs_server := hsm_free_key_priv api (hs_priv st gi) (hs_server st), hs_keys := (hs_keys st)[gi := zero_key],
           hs_priv := (hs_priv st)(gi := None), hs_dangling := hs_dangling st - {gi}\<rparr>
      else st)"
  by (auto simp: clear_hsm_key_def clears_def split: option.split)

lemma clear_all:
  "hs_client (fold (clear_hsm_key api slot) is st) = hs_client st \<and> hs_next (fold (clear_hsm_key api slot) is st) = hs_next st
     \<and> length (hs_keys (fold (clear_hsm_key api slot) is st)) = length (hs_keys st)
     \<and> (\<forall>i. hs_priv (fold (clear_hsm_key api slot) is st) i = (if i \<in> set is \<and> clears slot i st then None else hs_priv st i))
     \<and> (\<forall>i < length (hs_keys st). hs_keys (fold (clear_hsm_key api slot) is st) ! i = (if i \<in> set is \<and> clears slot i st then zero_key else hs_keys st ! i))"
proof (induction "is" arbitrary: st)
  case (Cons a "is")
  show ?case using Cons.IH [of "clear_hsm_key api slot a st"]
    by (auto simp: clear_one clears_def nth_list_update zero_key_def)
qed simp

lemma clear_keys:
  shows "hs_client (wolfhsm_slot_clear_keys api slot st) = hs_client st" "hs_next (wolfhsm_slot_clear_keys api slot st) = hs_next st"
    "length (hs_keys (wolfhsm_slot_clear_keys api slot st)) = length (hs_keys st)"
    "hs_priv (wolfhsm_slot_clear_keys api slot st) i = (if i < MAX_KEYS \<and> clears slot i st then None else hs_priv st i)"
    "i < length (hs_keys st) \<Longrightarrow> hs_keys (wolfhsm_slot_clear_keys api slot st) ! i = (if i < MAX_KEYS \<and> clears slot i st then zero_key else hs_keys st ! i)"
  using clear_all [of api slot "[0..<MAX_KEYS]" st] by (auto simp: wolfhsm_slot_clear_keys_def)

lemma disconnect_ok:
  assumes "hsm_ok st"
  shows "hsm_ok (wolfhsm_slot_disconnect api slot st)"
proof (cases "hs_client st slot")
  case None
  with assms show ?thesis by (simp add: wolfhsm_slot_disconnect_def)
next
  case (Some c)
  note ok = hsm_okD [OF assms]
  show ?thesis
  proof (rule hsm_okI, goal_cases)
    case (3 i kp)
    then have p: "hs_priv st i = Some kp" "\<not> clears slot i st"
      using Some ok(3) by (auto simp: wolfhsm_slot_disconnect_def Let_def clear_keys split: if_splits)
    then have "k_slot_id (hs_keys st ! i) \<noteq> slot" using ok(4) by (auto simp: clears_def)
    with Some p ok(1) ok(3-6) [OF p(1)] show ?case by (auto simp: wolfhsm_slot_disconnect_def Let_def clear_keys)
  qed (use Some ok(1,2) in \<open>auto simp: wolfhsm_slot_disconnect_def Let_def clear_keys split: if_splits\<close>)
qed

lemma alloc_Some:
  assumes "wp11_wolfhsm_alloc_key_priv ok (Some c) kid typ sz = Some kp"
  shows "kp = \<lparr>hk_magic = WP11_WOLFHSM_KEY_MAGIC, hk_ctx = c, hk_key_id = kid, hk_key_type = typ, hk_key_size = sz, generated_here = False\<rparr>"
  using assms by (auto simp: wp11_wolfhsm_alloc_key_priv_def split: if_splits)

lemma put_key_ok:
  assumes "hsm_ok st" "gi < MAX_KEYS" "k_in_use k" "hs_client st (k_slot_id k) = Some (hk_ctx kp)" "hk_magic kp = WP11_WOLFHSM_KEY_MAGIC"
  shows "hsm_ok (st\<lparr>hs_server := s, hs_keys := (hs_keys st)[gi := k], hs_priv := (hs_priv st)(gi := Some kp)\<rparr>)"
  using assms by (auto simp: hsm_ok_def nth_list_update)

lemma server_ok: "hsm_ok (st\<lparr>hs_server := s\<rparr>) = hsm_ok st"
  by (simp add: hsm_ok_def)

lemma free_entry:
  "hsm_ok st \<Longrightarrow> first_index (\<lambda>k. \<not> k_in_use k) (hs_keys st) = Some gi \<Longrightarrow> gi < MAX_KEYS \<and> \<not> k_in_use (hs_keys st ! gi)"
  using first_index_Some [of _ "hs_keys st" gi] by (auto simp: hsm_ok_def)

lemma list_object_ok:
  assumes "hsm_ok st" "hs_client st slot = Some c" "list_object env api allocs slot c oid st = (st', d)"
  shows "hsm_ok st' \<and> hs_client st' = hs_client st"
proof -
  have "hsm_ok (st\<lparr>hs_server := s2, hs_keys := (hs_keys st)[gi := listed_key slot oid lbl kind (hs_keys st ! gi)], hs_priv := (hs_priv st)(gi := Some kp)\<rparr>)"
    if "first_index (\<lambda>k. \<not> k_in_use k) (hs_keys st) = Some gi" "wp11_wolfhsm_alloc_key_priv ok (Some c) oid ty sz = Some kp"
    for gi kp ok ty sz s2 lbl kind
    using free_entry [OF assms(1) that(1)] alloc_Some [OF that(2)] assms(2) by (intro put_key_ok [OF assms(1)]) (auto simp: listed_key_def)
  with assms(1,3) show ?thesis
    by (auto simp: list_object_def server_ok Let_def split: if_splits prod.splits option.splits)
qed

lemma populate_ok:
  assumes "wolfhsm_slot_populate_keys env api allocs slot c start dropped st = Some r"
  shows "hsm_ok st \<longrightarrow> hs_client st slot = Some c \<longrightarrow> hsm_ok (fst r) \<and> hs_client (fst r) = hs_client st"
proof (rule wolfhsm_slot_populate_keys.raw_induct [where P = "\<lambda>env api allocs slot c start dropped st r.
    hsm_ok st \<longrightarrow> hs_client st slot = Some c \<longrightarrow> hsm_ok (fst r) \<and> hs_client (fst r) = hs_client st", OF _ assms], goal_cases)
  case (1 populate env api allocs slot c start dropped st r)
  show ?case
  proof (intro impI)
    assume ok: "hsm_ok st" and cl: "hs_client st slot = Some c"
    show "hsm_ok (fst r) \<and> hs_client (fst r) = hs_client st"
    proof (cases "\<exists>s1 count oid. wh_NvmList api (hs_server st) start = (s1, Some (count, oid)) \<and> count \<noteq> 0 \<and> oid \<noteq> 0xFFFF")
      case False
      then have "fst r = st\<lparr>hs_server := fst (wh_NvmList api (hs_server st) start)\<rparr>"
        using 1(2) by (auto split: prod.splits option.splits if_splits)
      then show ?thesis using ok by (simp add: server_ok)
    next
      case True
      then obtain s1 count oid where l: "wh_NvmList api (hs_server st) start = (s1, Some (count, oid))" "count \<noteq> 0" "oid \<noteq> 0xFFFF" by blast
      obtain st2 d where o: "list_object env api (allocs oid) slot c oid (st\<lparr>hs_server := s1\<rparr>) = (st2, d)" by fastforce
      have "hsm_ok st2 \<and> hs_client st2 = hs_client st"
        using list_object_ok [OF _ _ o] ok cl by (simp add: server_ok)
      moreover have p: "populate env api allocs slot c (oid + 1) (dropped + d) st2 = Some r" using 1(2) l o by simp
      ultimately show ?thesis using 1(1) [OF p] cl by simp
    qed
  qed
qed

lemma connect_ok:
  assumes "wolfhsm_slot_connect env api allocs shm tcp ok slot st = Some (st', rv)" "hsm_ok st"
  shows "hsm_ok st'"
proof -
  have new: "hsm_ok (st\<lparr>hs_server := s, hs_next := hs_next st + 1, hs_client := (hs_client st)(slot := Some (hs_next st))\<rparr>)"
    if "hs_client st slot = None" for s
  proof (rule hsm_okI, goal_cases)
    case (3 i kp)
    then have p: "hs_priv st i = Some kp" by simp
    have "k_slot_id (hs_keys st ! i) \<noteq> slot" using hsm_okD(6) [OF assms(2) p] that by auto
    with hsm_okD(3-6) [OF assms(2) p] show ?case by simp
  qed (use assms(2) in \<open>auto simp: hsm_ok_def less_Suc_eq split: if_splits\<close>)
  have pop: "hsm_ok st3" if "hs_client st slot = None" "wolfhsm_slot_populate_keys env api allocs slot (hs_next st) 0 0
      (st\<lparr>hs_server := s2, hs_next := Suc (hs_next st), hs_client := (hs_client st)(slot \<mapsto> hs_next st)\<rparr>) = Some (st3, d)" for s2 st3 d
    using populate_ok [OF that(2)] new [OF that(1), of s2] by simp
  show ?thesis
    using assms
    by (auto simp: wolfhsm_slot_connect_def server_ok Let_def intro: disconnect_ok dest: pop
      split: if_splits option.splits prod.splits bool.splits)
qed

lemma free_pair_Some:
  assumes "free_pair ks = Some (a, b)"
  shows "a < MAX_KEYS" "b < MAX_KEYS" "a \<noteq> b" "\<not> k_in_use (ks ! a)" "\<not> k_in_use (ks ! b)"
proof -
  obtain r where f: "filter (\<lambda>i. \<not> k_in_use (ks ! i)) [0..<MAX_KEYS] = a # b # r"
    using assms by (auto simp: free_pair_def split: list.splits)
  have d: "distinct (a # b # r)" unfolding f [symmetric] by simp
  have m: "\<forall>i \<in> set (a # b # r). i < MAX_KEYS \<and> \<not> k_in_use (ks ! i)" unfolding f [symmetric] by simp
  show "a < MAX_KEYS" "b < MAX_KEYS" "a \<noteq> b" "\<not> k_in_use (ks ! a)" "\<not> k_in_use (ks ! b)" using d m by auto
qed

lemma place_pair_cases:
  assumes "hsm_place_pair api allocs slot c priv lbl (kid, made) st = (st', rv, hs)"
  obtains (fail) "st' = st\<lparr>hs_server := wh_KeyEvict api (hs_server st) kid\<rparr>" "rv = CKR_DEVICE_MEMORY" "hs = None"
  | (ok) gp gv kp kpub kpriv where "rv = CKR_OK" "hs = Some (gp + 1, gv + 1)" "free_pair (hs_keys st) = Some (gp, gv)"
      "k_in_use kpub" "k_slot_id kpub = slot" "k_in_use kpriv" "k_slot_id kpriv = slot"
      "hk_ctx kp = c" "hk_magic kp = WP11_WOLFHSM_KEY_MAGIC" "hk_key_id kp = kid"
      "st' = st\<lparr>hs_keys := (hs_keys st)[gp := kpub, gv := kpriv],
                hs_priv := (hs_priv st)(gp \<mapsto> kp\<lparr>generated_here := False\<rparr>, gv \<mapsto> kp\<lparr>generated_here := True\<rparr>)\<rparr>"
proof -
  obtain ckt sigmax ty sz where m: "made = (ckt, sigmax, ty, sz)" by (cases made) auto
  show thesis
  proof (cases "rv = CKR_OK")
    case False
    then show thesis using assms m
      by (intro fail) (auto simp: hsm_place_pair_def Let_def split: option.splits)
  next
    case True
    then obtain gp gv k1 k2 where s: "free_pair (hs_keys st) = Some (gp, gv)"
      "wp11_wolfhsm_alloc_key_priv (fst allocs) (Some c) kid ty sz = Some k1" "wp11_wolfhsm_alloc_key_priv (snd allocs) (Some c) kid ty sz = Some k2"
      using assms m by (auto simp: hsm_place_pair_def Let_def split: option.splits)
    have k: "k2 = k1" "hk_ctx k1 = c" "hk_magic k1 = WP11_WOLFHSM_KEY_MAGIC" "hk_key_id k1 = kid"
      using alloc_Some [OF s(2)] alloc_Some [OF s(3)] by simp_all
    note p = assms [unfolded m hsm_place_pair_def prod.case s option.case k(1) Let_def, simplified prod.inject]
    show thesis
      by (rule ok [OF True, of gp gv "hsm_pair_object slot CKO_PUBLIC_KEY False ckt sigmax lbl kid (hs_keys st ! gp)"
          "hsm_pair_object slot CKO_PRIVATE_KEY priv ckt sigmax lbl kid (hs_keys st ! gv)" k1])
        (use p s(1) k in \<open>auto simp: hsm_pair_object_def\<close>)
  qed
qed

lemma generate_ok:
  assumes "hsm_generate_pair api allocs slot logged mech bits lm priv st = Some (st', rv, hs)" "hsm_ok st"
  shows "hsm_ok st'"
proof -
  have place: "hsm_ok st2" if "hsm_place_pair api allocs slot c priv lbl (kid, made) st1 = (st2, rv, hs)" "hsm_ok st1" "hs_client st1 slot = Some c"
    for c lbl kid made st1 st2 rv hs
    using that(1)
  proof (cases rule: place_pair_cases)
    case fail
    then show ?thesis using that(2) by (simp add: server_ok)
  next
    case (ok gp gv kp kpub kpriv)
    note f = free_pair_Some [OF ok(3)]
    have "hs_priv st1 gp = None" "hs_priv st1 gv = None" using f that(2) by (metis hsm_okD(4) option.exhaust)+
    show ?thesis unfolding ok(11) using that(2,3) f ok
      by (intro hsm_okI) (auto simp: hsm_ok_def nth_list_update split: if_splits)
  qed
  show ?thesis using assms
    by (auto simp: hsm_generate_pair_def server_ok split: if_splits option.splits prod.splits sum.splits dest: place)
qed

lemma new_object_slot: "k_in_use (new_object slot cls lbl c k)" "k_slot_id (new_object slot cls lbl c k) = slot"
  by (auto simp: new_object_def Let_def split: option.splits)

lemma free_has_no_key: "hsm_ok st \<Longrightarrow> \<not> k_in_use (hs_keys st ! i) \<Longrightarrow> hs_priv st i = None"
  by (metis hsm_okD(4) option.exhaust)

lemma entry_ok:
  assumes "hsm_ok st" "gi < MAX_KEYS" "\<not> k_in_use (hs_keys st ! gi)"
    "hs_keys st' = (hs_keys st)[gi := k]" "hs_priv st' = (hs_priv st)(gi := p)" "hs_client st' = hs_client st" "hs_next st' = hs_next st"
    "\<And>kp. p = Some kp \<Longrightarrow> k_in_use k \<and> hk_magic kp = WP11_WOLFHSM_KEY_MAGIC \<and> hs_client st (k_slot_id k) = Some (hk_ctx kp)"
  shows "hsm_ok st'"
proof (rule hsm_okI, goal_cases)
  case (3 i kp)
  show ?case
  proof (cases "i = gi")
    case True
    with 3 assms hsm_okD(1) [OF assms(1)] show ?thesis by simp
  next
    case False
    with 3 assms(5) have "hs_priv st i = Some kp" by simp
    with False assms hsm_okD(3-6) [OF assms(1) this] show ?thesis by simp
  qed
qed (use assms in \<open>simp_all add: hsm_ok_def\<close>)

lemma create_ok:
  assumes "hsm_create_private env hc api behind allocs slot logged as st = Some (st', rv, h)" "hsm_ok st"
  shows "hsm_ok st'"
proof -
  define c where "c = scan_attrs behind 0 as default_attrs"
  note d = assms(1) [unfolded hsm_create_private_def c_def [symmetric] Let_def]
  show ?thesis
  proof (cases "first_index (\<lambda>k. \<not> k_in_use k) (hs_keys st)")
    case None
    with d assms(2) show ?thesis by (auto split: if_splits)
  next
    case (Some gi)
    note f = free_entry [OF assms(2) Some]
    show ?thesis using d Some assms(2)
      by (auto simp: new_object_slot intro!: entry_ok [OF assms(2) conjunct1 [OF f] conjunct2 [OF f]] dest!: alloc_Some
        split: if_splits option.splits prod.splits sum.splits)
  qed
qed

lemma destroy_ok:
  assumes "hsm_destroy api j st = Some st'" "hsm_ok st"
  shows "hsm_ok st'"
  using assms by (auto simp: hsm_destroy_def hsm_ok_def nth_list_update split: if_splits)

text \<open>Logins, logouts and calls on objects, in any order and with any outcome.\<close>

inductive hsm_reach :: "'d crypto_env \<Rightarrow> hsm_crypto \<Rightarrow> 's hsm_api \<Rightarrow> 's hsm_slots \<Rightarrow> bool" for env hc api where
  init: "length (hs_keys st) = MAX_KEYS \<Longrightarrow> hs_client st = Map.empty \<Longrightarrow> hs_priv st = Map.empty \<Longrightarrow> hsm_reach env hc api st"
| login: "hsm_reach env hc api st \<Longrightarrow> wolfhsm_slot_connect env api allocs shm tcp ok slot st = Some (st', rv) \<Longrightarrow> hsm_reach env hc api st'"
| logout: "hsm_reach env hc api st \<Longrightarrow> hsm_reach env hc api (wolfhsm_slot_disconnect api slot st)"
| generate: "hsm_reach env hc api st \<Longrightarrow> hsm_generate_pair api oks slot logged mech bits lm priv st = Some (st', rv, hs) \<Longrightarrow> hsm_reach env hc api st'"
| create: "hsm_reach env hc api st \<Longrightarrow> hsm_create_private env hc api behind oks slot logged as st = Some (st', rv, h) \<Longrightarrow> hsm_reach env hc api st'"
| destroy: "hsm_reach env hc api st \<Longrightarrow> hsm_destroy api j st = Some st' \<Longrightarrow> hsm_reach env hc api st'"

lemma reach_ok: "hsm_reach env hc api st \<Longrightarrow> hsm_ok st"
proof (induction rule: hsm_reach.induct)
  case (init st)
  then show ?case by (simp add: hsm_ok_def)
qed (simp_all add: connect_ok disconnect_ok generate_ok create_ok destroy_ok)

text \<open>In every state that logins, logouts, key generation, imports and destruction reach, whatever the server answers, a key of the
  server that the table holds passes the magic check of the backend and borrows the open connection of its own slot: no call
  on such a key uses a closed connection, and a slot without a connection has no keys.\<close>
theorem hsm_keys_connected:
  assumes "hsm_reach env hc api st" "hs_priv st i = Some kp"
  shows "i < MAX_KEYS \<and> k_in_use (hs_keys st ! i) \<and> hsm_entry (Some kp) = Some kp
    \<and> hs_client st (k_slot_id (hs_keys st ! i)) = Some (hk_ctx kp) \<and> hk_ctx kp < hs_next st"
  using hsm_okD(2) [OF reach_ok [OF assms(1)]] hsm_okD(3-6) [OF reach_ok [OF assms(1)] assms(2)] by (simp add: hsm_entry_def)

section \<open>A connected slot shows the keys of the server\<close>

text \<open>
  What is documented of the server: \<open>wh_Client_NvmList\<close> gives the first object from an identifier on, and reading changes
  nothing.  \<open>ids\<close> are the identifiers of its objects in order.
\<close>

definition nvm_serves :: "'s hsm_api \<Rightarrow> 's \<Rightarrow> nat list \<Rightarrow> bool" where
  "nvm_serves api s ids \<longleftrightarrow>
     sorted_wrt (<) ids
     \<and> (\<forall>start. case dropWhile (\<lambda>i. i < start) ids of
          [] \<Rightarrow> wh_NvmList api s start = (s, None)
        | i # r \<Rightarrow> \<exists>n > 0. wh_NvmList api s start = (s, Some (n, i)))
     \<and> (\<forall>i. fst (wh_NvmGetMetadata api s i) = s) \<and> (\<forall>i n. fst (wh_KeyExport api s i n) = s)"

text \<open>What can be used of an object: label, type, size and longest signature.\<close>

definition served_key :: "'d crypto_env \<Rightarrow> 's hsm_api \<Rightarrow> 's \<Rightarrow> nat \<Rightarrow> (byte list \<times> int \<times> nat \<times> nat) option" where
  "served_key env api s oid =
     (if \<not> wh_keyid_is_crypto api oid then None
      else case snd (wh_NvmGetMetadata api s oid) of
        None \<Rightarrow> None
      | Some (len, lbl) \<Rightarrow>
          if len = 0 \<or> len > MAX_DER_EXPORT then None
          else case snd (wh_KeyExport api s oid len) of
            None \<Rightarrow> None
          | Some der \<Rightarrow> map_option (\<lambda>kind. (nvm_label api lbl, kind)) (hsm_key_kind env der))"

definition mirror_priv :: "'d crypto_env \<Rightarrow> 's hsm_api \<Rightarrow> 's \<Rightarrow> nat \<Rightarrow> nat \<Rightarrow> wp11_wolfhsm_key_priv" where
  "mirror_priv env api s c oid =
     (case the (served_key env api s oid) of (lbl, ty, sz, sig) \<Rightarrow>
        \<lparr>hk_magic = WP11_WOLFHSM_KEY_MAGIC, hk_ctx = c, hk_key_id = oid, hk_key_type = ty, hk_key_size = sz, generated_here = False\<rparr>)"

definition mirror_obj :: "'d crypto_env \<Rightarrow> 's hsm_api \<Rightarrow> 's \<Rightarrow> nat \<Rightarrow> nat \<Rightarrow> wp11_key_obj \<Rightarrow> wp11_key_obj" where
  "mirror_obj env api s slot oid k =
     (case the (served_key env api s oid) of (lbl, kind) \<Rightarrow> listed_key slot oid lbl kind k)"

definition unused_entries :: "wp11_key_obj list \<Rightarrow> nat list" where
  "unused_entries ks = filter (\<lambda>i. \<not> k_in_use (ks ! i)) [0..<length ks]"

text \<open>The table after the listing: the usable objects in the free entries.\<close>

definition mirrored :: "'d crypto_env \<Rightarrow> 's hsm_api \<Rightarrow> 's \<Rightarrow> nat \<Rightarrow> nat list \<Rightarrow> nat list \<Rightarrow> wp11_key_obj list \<Rightarrow> wp11_key_obj list" where
  "mirrored env api s slot frees oids ks = fold (\<lambda>(gi, oid) ks. ks[gi := mirror_obj env api s slot oid (ks ! gi)]) (zip frees oids) ks"

lemma served_after:
  assumes "sorted_wrt (<) (ids :: nat list)" "dropWhile (\<lambda>i. i < start) ids = i # r"
  shows "dropWhile (\<lambda>x. x < i + 1) ids = r" "i \<in> set ids" "set r \<subseteq> set ids"
proof -
  obtain p where p: "ids = p @ i # r" using assms(2) by (metis takeWhile_dropWhile_id)
  with assms(1) have "\<forall>x \<in> set p. x < i" "\<forall>x \<in> set r. i < x" by (auto simp: sorted_wrt_append)
  moreover from this(2) have "dropWhile (\<lambda>x. x < Suc i) r = r" by (cases r) auto
  ultimately show "dropWhile (\<lambda>x. x < i + 1) ids = r" unfolding p by (subst dropWhile_append2) auto
  show "i \<in> set ids" "set r \<subseteq> set ids" using p by auto
qed

lemma unused_entries_first:
  "first_index (\<lambda>k. \<not> k_in_use k) ks = (case unused_entries ks of [] \<Rightarrow> None | f # fs \<Rightarrow> Some f)"
proof (cases "first_index (\<lambda>k. \<not> k_in_use k) ks")
  case None
  then show ?thesis by (auto simp: unused_entries_def first_index_None filter_empty_conv split: list.split)
next
  case (Some i)
  note f = first_index_Some [OF Some]
  have u: "[0..<length ks] = [0..<i] @ i # [Suc i..<length ks]"
    using f by (metis le0 less_imp_le_nat upt_conv_Cons upt_add_eq_append le_add_diff_inverse)
  have "filter (\<lambda>i. \<not> k_in_use (ks ! i)) [0..<i] = []" using f by (auto simp: filter_empty_conv)
  with f show ?thesis unfolding Some unused_entries_def u by simp
qed

lemma unused_entries_used:
  assumes "unused_entries ks = f # fs" "k_in_use k"
  shows "unused_entries (ks[f := k]) = fs"
proof -
  have d: "distinct (f # fs)" unfolding assms(1) [symmetric] by (simp add: unused_entries_def)
  have "\<forall>i \<in> set (f # fs). i < length ks" unfolding assms(1) [symmetric] by (simp add: unused_entries_def)
  then have f: "f < length ks" by simp
  have "unused_entries (ks[f := k]) = filter (\<lambda>i. i \<noteq> f) (unused_entries ks)"
    using assms(2) f by (auto simp: unused_entries_def nth_list_update intro!: filter_cong)
  also have "\<dots> = fs" using d by (auto simp: assms(1) filter_id_conv)
  finally show ?thesis .
qed

lemma serves_reads:
  assumes "nvm_serves api s ids"
  obtains md ex where "wh_NvmGetMetadata api s i = (s, md)" "\<And>n. wh_KeyExport api s i n = (s, ex n)"
proof
  show "wh_NvmGetMetadata api s i = (s, snd (wh_NvmGetMetadata api s i))" "\<And>n. wh_KeyExport api s i n = (s, snd (wh_KeyExport api s i n))"
    using assms by (simp_all add: nvm_serves_def prod_eq_iff)
qed

lemma list_object_skip:
  assumes "nvm_serves api (hs_server st) ids" "served_key env api (hs_server st) oid = None"
  shows "list_object env api (True, True) slot c oid st = (st, 0)"
proof -
  obtain md ex where m: "wh_NvmGetMetadata api (hs_server st) oid = (hs_server st, md)"
    "\<And>n. wh_KeyExport api (hs_server st) oid n = (hs_server st, ex n)" using serves_reads [OF assms(1)] by blast
  show ?thesis using assms(2)
    by (auto simp: list_object_def served_key_def Let_def m split: prod.splits option.splits if_splits)
qed

definition kind_ok :: "int \<times> nat \<times> nat \<Rightarrow> bool" where
  "kind_ok kind \<longleftrightarrow> fst kind = KEY_TYPE_EC \<or> fst (snd kind) \<ge> 11"

lemma list_object_add:
  assumes "nvm_serves api (hs_server st) ids" "served_key env api (hs_server st) oid = Some (lbl, kind)" "kind_ok kind"
  shows "list_object env api (True, True) slot c oid st =
     (case unused_entries (hs_keys st) of
        [] \<Rightarrow> (st, 1)
      | f # fs \<Rightarrow> (st\<lparr>hs_keys := (hs_keys st)[f := mirror_obj env api (hs_server st) slot oid (hs_keys st ! f)],
                     hs_priv := (hs_priv st)(f \<mapsto> mirror_priv env api (hs_server st) c oid)\<rparr>, 0))"
proof -
  obtain md ex where m: "wh_NvmGetMetadata api (hs_server st) oid = (hs_server st, md)"
    "\<And>n. wh_KeyExport api (hs_server st) oid n = (hs_server st, ex n)" using serves_reads [OF assms(1)] by blast
  have a: "wp11_wolfhsm_alloc_key_priv True (Some c) oid (fst kind) (fst (snd kind)) = Some (mirror_priv env api (hs_server st) c oid)"
    using assms(2,3) by (cases kind) (auto simp: wp11_wolfhsm_alloc_key_priv_def mirror_priv_def kind_ok_def KEY_TYPE_EC_def KEY_TYPE_RSA_def)
  have o: "mirror_obj env api (hs_server st) slot oid = listed_key slot oid lbl kind" by (simp add: mirror_obj_def assms(2) fun_eq_iff)
  show ?thesis using assms(2) a o
    by (auto simp: list_object_def served_key_def Let_def unused_entries_first m split: prod.splits option.splits if_splits list.splits)
qed

text \<open>The objects that can be listed, and a server none of whose keys is refused for its size.\<close>

definition usable :: "'d crypto_env \<Rightarrow> 's hsm_api \<Rightarrow> 's \<Rightarrow> nat list \<Rightarrow> nat list" where
  "usable env api s oids = filter (\<lambda>oid. served_key env api s oid \<noteq> None) oids"

definition sizes_ok :: "'d crypto_env \<Rightarrow> 's hsm_api \<Rightarrow> 's \<Rightarrow> nat list \<Rightarrow> bool" where
  "sizes_ok env api s ids \<longleftrightarrow> (\<forall>oid \<in> set ids. \<forall>lbl kind. served_key env api s oid = Some (lbl, kind) \<longrightarrow> kind_ok kind)"

lemma list_object_served:
  assumes "nvm_serves api (hs_server st) ids" "sizes_ok env api (hs_server st) ids" "oid \<in> set ids"
  shows "list_object env api (True, True) slot c oid st =
     (if served_key env api (hs_server st) oid = None then (st, 0)
      else case unused_entries (hs_keys st) of
        [] \<Rightarrow> (st, 1)
      | f # fs \<Rightarrow> (st\<lparr>hs_keys := (hs_keys st)[f := mirror_obj env api (hs_server st) slot oid (hs_keys st ! f)],
                     hs_priv := (hs_priv st)(f \<mapsto> mirror_priv env api (hs_server st) c oid)\<rparr>, 0))"
proof (cases "served_key env api (hs_server st) oid")
  case None
  then show ?thesis using list_object_skip [OF assms(1)] by simp
next
  case (Some p)
  obtain lbl kind where p: "p = (lbl, kind)" by (cases p)
  then have "kind_ok kind" using assms(2,3) Some unfolding sizes_ok_def by blast
  then show ?thesis using list_object_add [OF assms(1)] Some p by simp
qed

lemma mirror_obj_slot: "k_in_use (mirror_obj env api s slot oid k)" "k_slot_id (mirror_obj env api s slot oid k) = slot"
  "k_id (mirror_obj env api s slot oid k) = keyid_bytes oid"
  by (simp_all add: mirror_obj_def listed_key_def split: prod.split)

lemma serves_list:
  assumes "nvm_serves api s ids"
  shows "case dropWhile (\<lambda>i. i < start) ids of [] \<Rightarrow> wh_NvmList api s start = (s, None)
    | i # r \<Rightarrow> \<exists>n > 0. wh_NvmList api s start = (s, Some (n, i))"
  using assms unfolding nvm_serves_def by blast

lemma populate_mirrors:
  assumes "nvm_serves api s ids" "sizes_ok env api s ids" "0xFFFF \<notin> set ids"
    "hs_server st = s" "dropWhile (\<lambda>i. i < start) ids = rest"
  shows "wolfhsm_slot_populate_keys env api (\<lambda>i. (True, True)) slot c start d st =
     Some (st\<lparr>hs_keys := mirrored env api s slot (unused_entries (hs_keys st)) (usable env api s rest) (hs_keys st),
              hs_priv := (hs_priv st)(unused_entries (hs_keys st) [\<mapsto>] map (mirror_priv env api s c) (usable env api s rest))\<rparr>,
           d + (length (usable env api s rest) - length (unused_entries (hs_keys st))))"
  using assms(4,5)
proof (induction rest arbitrary: start d st)
  case Nil
  have "wh_NvmList api s start = (s, None)" using serves_list [OF assms(1), of start] Nil(2) by simp
  with Nil(1) show ?case by (subst wolfhsm_slot_populate_keys.simps) (simp add: usable_def mirrored_def)
next
  case (Cons i r)
  have srt: "sorted_wrt (<) ids" using assms(1) by (simp add: nvm_serves_def)
  note after = served_after [OF srt Cons.prems(2)]
  obtain n where l: "n > 0" "wh_NvmList api s start = (s, Some (n, i))" using serves_list [OF assms(1), of start] Cons.prems(2) by auto
  have same: "st\<lparr>hs_server := s\<rparr> = st" using Cons.prems(1) by (cases st) simp
  have ne: "i \<noteq> 0xFFFF" using after(2) assms(3) by auto
  let ?u = "unused_entries (hs_keys st)"
  have o: "list_object env api (True, True) slot c i st =
     (if served_key env api s i = None then (st, 0)
      else case ?u of [] \<Rightarrow> (st, 1)
      | f # fs \<Rightarrow> (st\<lparr>hs_keys := (hs_keys st)[f := mirror_obj env api s slot i (hs_keys st ! f)],
                     hs_priv := (hs_priv st)(f \<mapsto> mirror_priv env api s c i)\<rparr>, 0))"
    by (rule list_object_served [of api st ids env i slot c, unfolded Cons.prems(1), OF assms(1,2) after(2)])
  have step: "wolfhsm_slot_populate_keys env api (\<lambda>i. (True, True)) slot c start d st =
     (case list_object env api (True, True) slot c i st of (st2, e) \<Rightarrow>
        wolfhsm_slot_populate_keys env api (\<lambda>i. (True, True)) slot c (i + 1) (d + e) st2)"
    using l ne Cons.prems(1) by (subst wolfhsm_slot_populate_keys.simps) (simp add: same)
  show ?case
  proof (cases "served_key env api s i = None")
    case True
    with o step Cons.IH [OF Cons.prems(1) after(1)] show ?thesis by (simp add: usable_def)
  next
    case False
    then have u: "usable env api s (i # r) = i # usable env api s r" by (simp add: usable_def)
    show ?thesis
    proof (cases ?u)
      case Nil
      with False o step u Cons.IH [OF Cons.prems(1) after(1)] show ?thesis by (simp add: mirrored_def)
    next
      case (Cons f fs)
      let ?st = "st\<lparr>hs_keys := (hs_keys st)[f := mirror_obj env api s slot i (hs_keys st ! f)], hs_priv := (hs_priv st)(f \<mapsto> mirror_priv env api s c i)\<rparr>"
      have fs: "unused_entries (hs_keys ?st) = fs" using unused_entries_used [OF Cons mirror_obj_slot(1)] by simp
      have srv: "hs_server ?st = s" using Cons.prems(1) by simp
      have lo: "list_object env api (True, True) slot c i st = (?st, 0)" unfolding o if_not_P [OF False] Cons by simp
      show ?thesis unfolding step lo prod.case Cons.IH [OF srv after(1)] fs u Cons by (simp add: mirrored_def)
    qed
  qed
qed

lemma mirrored_length: "length (mirrored env api s slot fs oids ks) = length ks"
  unfolding mirrored_def
proof (induction fs arbitrary: oids ks)
  case (Cons f fs)
  then show ?case by (cases oids) auto
qed simp

lemma mirrored_other: "i \<notin> set (take (length oids) fs) \<Longrightarrow> mirrored env api s slot fs oids ks ! i = ks ! i"
  unfolding mirrored_def
proof (induction fs arbitrary: oids ks)
  case (Cons f fs)
  then show ?case by (cases oids) auto
qed simp

lemma mirrored_at:
  assumes "distinct fs" "set fs \<subseteq> {..<length ks}" "n < length fs" "n < length oids"
  shows "mirrored env api s slot fs oids ks ! (fs ! n) = mirror_obj env api s slot (oids ! n) (ks ! (fs ! n))"
  using assms
proof (induction fs arbitrary: oids ks n)
  case (Cons f fs)
  obtain oid os where os: "oids = oid # os" using Cons.prems(4) by (cases oids) auto
  have m: "mirrored env api s slot (f # fs) oids ks = mirrored env api s slot fs os (ks[f := mirror_obj env api s slot oid (ks ! f)])"
    by (simp add: mirrored_def os)
  show ?case
  proof (cases n)
    case 0
    have "f \<notin> set (take (length os) fs)" using Cons.prems(1) by (meson distinct.simps(2) in_set_takeD)
    with Cons.prems 0 show ?thesis unfolding m by (simp add: mirrored_other os)
  next
    case (Suc k)
    then have "fs ! k \<noteq> f" using Cons.prems(1,3) by (auto simp: in_set_conv_nth)
    with Cons.IH [of "ks[f := mirror_obj env api s slot oid (ks ! f)]" k os] Cons.prems Suc os show ?thesis unfolding m by simp
  qed
qed simp

text \<open>The state of a slot that was connected to a server: the usable keys of the server in the free entries of the table.\<close>

definition connected_state :: "'d crypto_env \<Rightarrow> 's hsm_api \<Rightarrow> nat \<Rightarrow> 's \<Rightarrow> nat list \<Rightarrow> 's hsm_slots \<Rightarrow> 's hsm_slots" where
  "connected_state env api slot s oids st =
     (let c = hs_next st; frees = unused_entries (hs_keys st) in
      st\<lparr>hs_server := s, hs_next := c + 1, hs_client := (hs_client st)(slot := Some c),
         hs_keys := mirrored env api s slot frees oids (hs_keys st), hs_priv := (hs_priv st)(frees [\<mapsto>] map (mirror_priv env api s c) oids)\<rparr>)"

lemma connect_result:
  assumes "hs_client st slot = None" "wh_Init api (hs_server st) (TransportShm (take 255 shm)) = (s1, True)" "wh_CommInit api s1 = (s, None)"
    "nvm_serves api s ids" "sizes_ok env api s ids" "0xFFFF \<notin> set ids"
  shows "wolfhsm_slot_connect env api (\<lambda>i. (True, True)) (Some shm) tcp True slot st =
     Some (if length (usable env api s ids) \<le> length (unused_entries (hs_keys st))
           then (connected_state env api slot s (usable env api s ids) st, CKR_OK)
           else (wolfhsm_slot_disconnect api slot (connected_state env api slot s (usable env api s ids) st), CKR_DEVICE_MEMORY))"
proof -
  have d: "dropWhile (\<lambda>i. i < 0) ids = ids" by (cases ids) auto
  let ?st = "st\<lparr>hs_server := s, hs_next := hs_next st + 1, hs_client := (hs_client st)(slot := Some (hs_next st))\<rparr>"
  have "hs_server ?st = s" by simp
  from populate_mirrors [OF assms(4-6) this d, of slot "hs_next st" 0] assms(1-3)
  show ?thesis by (auto simp: wolfhsm_slot_connect_def Let_def connected_state_def)
qed

lemma disconnect_fields:
  assumes "hs_client st slot = Some c"
  shows "hs_client (wolfhsm_slot_disconnect api slot st) = (hs_client st)(slot := None)"
    "hs_priv (wolfhsm_slot_disconnect api slot st) i = (if i < MAX_KEYS \<and> clears slot i st then None else hs_priv st i)"
    "i < length (hs_keys st) \<Longrightarrow> hs_keys (wolfhsm_slot_disconnect api slot st) ! i = (if i < MAX_KEYS \<and> clears slot i st then zero_key else hs_keys st ! i)"
  using assms by (simp_all add: wolfhsm_slot_disconnect_def Let_def clear_keys)

lemma unused_set: "set (unused_entries ks) = {i. i < length ks \<and> \<not> k_in_use (ks ! i)}" "distinct (unused_entries ks)"
  by (auto simp: unused_entries_def)

lemma map_upds_None: "i \<notin> set (take (length ys) xs) \<Longrightarrow> (m(xs [\<mapsto>] ys)) i = m i"
proof (induction xs arbitrary: ys m)
  case (Cons x xs)
  then show ?case by (cases ys) auto
qed simp

lemma map_upds_at: "distinct xs \<Longrightarrow> n < length xs \<Longrightarrow> n < length ys \<Longrightarrow> (m(xs [\<mapsto>] ys)) (xs ! n) = Some (ys ! n)"
proof (induction xs arbitrary: ys n m)
  case (Cons x xs)
  obtain y ys' where ys: "ys = y # ys'" using Cons.prems(3) by (cases ys) auto
  show ?case
  proof (cases n)
    case 0
    have "x \<notin> set (take (length ys') xs)" using Cons.prems(1) by (meson distinct.simps(2) in_set_takeD)
    then show ?thesis using 0 by (simp add: ys map_upds_None)
  next
    case (Suc k)
    with Cons.prems have "xs ! k \<noteq> x" by (auto simp: in_set_conv_nth)
    with Suc Cons ys show ?thesis by simp
  qed
qed simp

lemma connected_at:
  assumes "n < length oids" "n < length (unused_entries (hs_keys st))"
  defines "gi \<equiv> unused_entries (hs_keys st) ! n"
  shows "hs_priv (connected_state env api slot s oids st) gi = Some (mirror_priv env api s (hs_next st) (oids ! n))"
    "hs_keys (connected_state env api slot s oids st) ! gi = mirror_obj env api s slot (oids ! n) (hs_keys st ! gi)"
proof -
  have "set (unused_entries (hs_keys st)) \<subseteq> {..<length (hs_keys st)}" by (auto simp: unused_set)
  note m = mirrored_at [OF unused_set(2) this assms(2,1)]
  show "hs_priv (connected_state env api slot s oids st) gi = Some (mirror_priv env api s (hs_next st) (oids ! n))"
    using assms(1,2) map_upds_at [OF unused_set(2), of n "hs_keys st" "map (mirror_priv env api s (hs_next st)) oids"]
    by (simp add: connected_state_def Let_def gi_def)
  show "hs_keys (connected_state env api slot s oids st) ! gi = mirror_obj env api s slot (oids ! n) (hs_keys st ! gi)"
    using m by (simp add: connected_state_def Let_def gi_def)
qed

lemma connected_other:
  assumes "i \<notin> set (take (length oids) (unused_entries (hs_keys st)))"
  shows "hs_priv (connected_state env api slot s oids st) i = hs_priv st i" "hs_keys (connected_state env api slot s oids st) ! i = hs_keys st ! i"
  using assms by (auto simp: connected_state_def Let_def map_upds_None mirrored_other)

lemma connected_split:
  obtains (new) n where "n < length oids" "n < length (unused_entries (hs_keys st))" "i = unused_entries (hs_keys st) ! n"
  | (old) "i \<notin> set (take (length oids) (unused_entries (hs_keys st)))"
  by (cases "i \<in> set (take (length oids) (unused_entries (hs_keys st)))") (auto simp: in_set_conv_nth)

text \<open>A login to a slot of the backend shows exactly the keys that the server offers and the table has room for: all usable keys appear
  as objects of the slot, in the order of their identifiers in the free entries of the table, each with its identifier as
  \<open>CKA_ID\<close> and borrowing the new connection, and nothing else changes; or there is no room for all of them, and the slot is as if
  nothing had happened: no connection, no key, \<open>CKR_DEVICE_MEMORY\<close>.\<close>
theorem hsm_connect_mirrors_server:
  assumes "hsm_ok st" "hs_client st slot = None"
    "wh_Init api (hs_server st) (TransportShm (take 255 shm)) = (s1, True)" "wh_CommInit api s1 = (s, None)"
    "nvm_serves api s ids" "sizes_ok env api s ids" "0xFFFF \<notin> set ids"
  defines "oids \<equiv> usable env api s ids" and "frees \<equiv> unused_entries (hs_keys st)"
  shows "\<exists>st' rv. wolfhsm_slot_connect env api (\<lambda>i. (True, True)) (Some shm) tcp True slot st = Some (st', rv)
    \<and> (if length oids \<le> length frees then
         rv = CKR_OK \<and> hs_client st' slot = Some (hs_next st)
         \<and> (\<forall>n < length oids. let gi = frees ! n in
              hs_priv st' gi = Some (mirror_priv env api s (hs_next st) (oids ! n)) \<and> k_in_use (hs_keys st' ! gi)
              \<and> k_slot_id (hs_keys st' ! gi) = slot \<and> k_id (hs_keys st' ! gi) = keyid_bytes (oids ! n))
         \<and> (\<forall>i. i \<notin> set (take (length oids) frees) \<longrightarrow> hs_priv st' i = hs_priv st i \<and> hs_keys st' ! i = hs_keys st ! i)
       else rv = CKR_DEVICE_MEMORY \<and> hs_client st' = hs_client st \<and> hs_priv st' = hs_priv st
         \<and> (\<forall>i < MAX_KEYS. k_in_use (hs_keys st' ! i) = k_in_use (hs_keys st ! i) \<and> (k_in_use (hs_keys st ! i) \<longrightarrow> hs_keys st' ! i = hs_keys st ! i)))"
proof -
  let ?c = "connected_state env api slot s oids st"
  note r = connect_result [OF assms(2-7), of tcp, folded oids_def frees_def]
  have cl: "hs_client ?c = (hs_client st)(slot \<mapsto> hs_next st)" by (simp add: connected_state_def Let_def)
  show ?thesis
  proof (cases "length oids \<le> length frees")
    case True
    have "hs_priv ?c (frees ! n) = Some (mirror_priv env api s (hs_next st) (oids ! n))
        \<and> hs_keys ?c ! (frees ! n) = mirror_obj env api s slot (oids ! n) (hs_keys st ! (frees ! n))" if "n < length oids" for n
      using connected_at [of n oids st env api slot s] that True by (simp add: frees_def)
    moreover have "hs_priv ?c i = hs_priv st i \<and> hs_keys ?c ! i = hs_keys st ! i" if "i \<notin> set (take (length oids) frees)" for i
      using connected_other [of i oids st env api slot s] that by (simp add: frees_def)
    ultimately show ?thesis using r True cl by (auto simp: Let_def mirror_obj_slot)
  next
    case False
    let ?d = "wolfhsm_slot_disconnect api slot ?c"
    have len: "length (hs_keys st) = MAX_KEYS" "length (hs_keys ?c) = MAX_KEYS"
      using hsm_okD(1) [OF assms(1)] by (simp_all add: connected_state_def Let_def mirrored_length)
    have "hs_client ?c slot = Some (hs_next st)" by (simp add: cl)
    note df = disconnect_fields [OF this, where api = api]
    have key: "hs_priv ?d i = hs_priv st i \<and> (i < MAX_KEYS \<longrightarrow> k_in_use (hs_keys ?d ! i) = k_in_use (hs_keys st ! i)
        \<and> (k_in_use (hs_keys st ! i) \<longrightarrow> hs_keys ?d ! i = hs_keys st ! i))" for i
    proof (cases rule: connected_split [of oids st i])
      case (new n)
      note at = connected_at [OF new(1,2), of env api slot s, folded new(3)]
      have i: "i < MAX_KEYS" "\<not> k_in_use (hs_keys st ! i)" 
        using nth_mem [OF new(2), folded new(3)] len(1) by (simp_all add: unused_set)
      have "clears slot i ?c" using at by (simp add: clears_def mirror_obj_slot)
      then have "hs_priv ?d i = None" "hs_keys ?d ! i = zero_key" using i(1) len(2) by (simp_all add: df)
      then show ?thesis using i free_has_no_key [OF assms(1) i(2)] by (simp add: zero_key_def)
    next
      case old
      note o = connected_other [OF old, of env api slot s]
      have "\<not> clears slot i ?c"
        using o hsm_okD(6) [OF assms(1), of i] assms(2) by (cases "hs_priv st i") (auto simp: clears_def)
      then show ?thesis using o len(2) by (simp add: df)
    qed
    have "hs_client ?d = hs_client st" using cl assms(2) by (simp add: df fun_eq_iff)
    moreover have "hs_priv ?d = hs_priv st" using key by (simp add: fun_eq_iff)
    moreover have "\<forall>i < MAX_KEYS. k_in_use (hs_keys ?d ! i) = k_in_use (hs_keys st ! i) \<and> (k_in_use (hs_keys st ! i) \<longrightarrow> hs_keys ?d ! i = hs_keys st ! i)"
      using key by blast
    ultimately show ?thesis using False unfolding r by (intro exI [of _ ?d] exI [of _ CKR_DEVICE_MEMORY]) simp
  qed
qed

section \<open>A pair on the server is evicted once\<close>

text \<open>A key pair that was generated on the server fills two entries with the same server key.  When both objects are destroyed, in
  either order, the server is asked exactly once to evict the key.\<close>
theorem hsm_pair_evicted_once:
  assumes "hsm_generate_pair api allocs slot logged mech bits lm priv st = Some (st1, CKR_OK, Some (hp, hv))" "hs_dangling st = {}"
  shows "\<exists>s1 kid lbl made. lm = Some lbl \<and> make_server_pair api mech bits lbl (hs_server st) = (s1, Inr (kid, made))
    \<and> hp \<noteq> hv \<and> hs_server st1 = s1
    \<and> map_option hk_key_id (hs_priv st1 (hp - 1)) = Some kid \<and> map_option hk_key_id (hs_priv st1 (hv - 1)) = Some kid
    \<and> map_option hs_server (Option.bind (hsm_destroy api (hp - 1) st1) (hsm_destroy api (hv - 1))) = Some (wh_KeyEvict api s1 kid)
    \<and> map_option hs_server (Option.bind (hsm_destroy api (hv - 1) st1) (hsm_destroy api (hp - 1))) = Some (wh_KeyEvict api s1 kid)"
proof -
  obtain c lbl s1 kid made where m: "lm = Some lbl" "make_server_pair api mech bits lbl (hs_server st) = (s1, Inr (kid, made))"
    and p: "hsm_place_pair api allocs slot c priv lbl (kid, made) (st\<lparr>hs_server := s1\<rparr>) = (st1, CKR_OK, Some (hp, hv))"
    using assms(1) by (auto simp: hsm_generate_pair_def split: if_splits option.splits prod.splits sum.splits)
  from p show ?thesis
  proof (cases rule: place_pair_cases)
    case (ok gp gv kp kpub kpriv)
    have ne: "gp \<noteq> gv" using free_pair_Some(3) [OF ok(3)] .
    have h: "hp - 1 = gp" "hv - 1 = gv" "hp \<noteq> hv" using ok(2) ne by auto
    show ?thesis using m h ne ok(10) assms(2) unfolding ok(11)
      by (cases made) (simp add: hsm_destroy_def hsm_free_key_priv_def)
  qed simp
qed

section \<open>A failed import\<close>

text \<open>When \<open>C_CreateObject\<close> fails to import a private key with a value into the server, for example because the user is not logged
  in, the entry of the table stays in use, although no handle is returned, and its \<open>secret\<close> points to the memory that \<open>cleanup\<close>
  has freed: destroying the object, whose handle \<open>C_FindObjects\<close> gives, is undefined (it wipes and frees the memory again).\<close>
theorem hsm_failed_import_dangles:
  assumes "hsm_create_private env hc api behind allocs slot logged as st = Some (st', rv, h)" "rv \<noteq> CKR_OK"
    "hs_dangling st = {}" "value_of (scan_attrs behind 0 as default_attrs) = Some v"
    "first_index (\<lambda>k. \<not> k_in_use k) (hs_keys st) = Some gi" "fst allocs" "ca_app (scan_attrs behind 0 as default_attrs) = None"
  shows "h = None \<and> k_in_use (hs_keys st' ! gi) \<and> k_slot_id (hs_keys st' ! gi) = slot \<and> obj_class (hs_keys st' ! gi) = CKO_PRIVATE_KEY
    \<and> gi \<in> hs_dangling st' \<and> hsm_destroy api gi st' = None"
proof -
  define c where "c = scan_attrs behind 0 as default_attrs"
  note d = assms(1) [unfolded hsm_create_private_def c_def [symmetric] Let_def]
  have v: "value_of c = Some v" "ca_app c = None" using assms(4,7) by (simp_all add: c_def)
  have lt: "gi < length (hs_keys st)" using first_index_Some [OF assms(5)] by blast
  have cls: "obj_class (new_object sl cls l ca k) = cls" for sl cls l ca k by (auto simp: new_object_def Let_def split: option.splits)
  show ?thesis using d assms(2,6) v lt
    by (auto simp: assms(5) new_object_slot cls hsm_destroy_def split: if_splits option.splits prod.splits sum.splits)
qed

section \<open>A server with one key\<close>

text \<open>Its state is the list of the evicted keys.\<close>

definition one_key_hsm :: "nat list hsm_api" where
  "one_key_hsm = \<lparr>wh_set_key_id = True, wh_EccSign = (\<lambda>s k h cap. (s, Inr h)), wh_EccVerify = (\<lambda>s k sig h. (s, Inr (if sig = h then 1 else 0))),
     wh_RsaFunction = (\<lambda>s k f x cap. (s, Inr (rev x))), wh_EccSharedSecret = (\<lambda>s k p cap. (s, Inr p)), wh_KeyEvict = (\<lambda>s k. s @ [k]),
     wh_NvmList = (\<lambda>s i. (s, if i \<le> 0x1001 then Some (1, 0x1001) else None)), wh_NvmGetMetadata = (\<lambda>s i. (s, Some (2, [0x6B]))),
     wh_KeyExport = (\<lambda>s i cap. (s, Some [0x30, 0])), wh_keyid_is_crypto = (\<lambda>i. True), wh_label_max = 24, wh_Init = (\<lambda>s tr. (s, True)),
     wh_CommInit = (\<lambda>s. (s, None)), wh_CommClose = (\<lambda>s. s), wh_Cleanup = (\<lambda>s. s), wh_EccMakeCacheKey = (\<lambda>s l. (s, Some 0x1002)),
     wh_RsaMakeCacheKey = (\<lambda>s b l. (s, Some 0x1002)), wh_ImportKey = (\<lambda>s x l. (s, Some 0x1003))\<rparr>"

definition no_hsm_crypto :: hsm_crypto where
  "no_hsm_crypto = \<lparr>hc_curve_of_oid = (\<lambda>d. None), hc_ecc_private = (\<lambda>c d. None), hc_rsa_raw = (\<lambda>ps. None)\<rparr>"

definition fresh_slots :: "nat list hsm_slots" where
  "fresh_slots = \<lparr>hs_keys = replicate MAX_KEYS zero_key, hs_priv = Map.empty, hs_client = Map.empty, hs_next = 0, hs_server = [], hs_dangling = {}\<rparr>"

lemma one_key_serves: "nvm_serves one_key_hsm [] [0x1001]"
  by (simp add: nvm_serves_def one_key_hsm_def)

lemma one_key_usable: "served_key toy_crypto one_key_hsm [] 0x1001 = Some ([0x6B], KEY_TYPE_EC, 0, 72)"
  by (simp add: served_key_def one_key_hsm_def MAX_DER_EXPORT_def hsm_key_kind_def toy_simps nvm_label_def cstr_def)

lemma fresh_ok: "hsm_ok fresh_slots" "hs_client fresh_slots = Map.empty"
  by (simp_all add: hsm_ok_def fresh_slots_def)

lemma fresh_next: "hs_next fresh_slots = 0"
  by (simp add: fresh_slots_def)

lemma fresh_unused: "unused_entries (hs_keys fresh_slots) = [0..<MAX_KEYS]"
  by (auto simp: unused_entries_def fresh_slots_def zero_key_def filter_id_conv)

theorem hsm_connect_mirrors_server_witness:
  "\<exists>st'. wolfhsm_slot_connect toy_crypto one_key_hsm (\<lambda>i. (True, True)) (Some [0x2F]) None True 1 fresh_slots = Some (st', CKR_OK)
     \<and> hs_client st' 1 = Some 0 \<and> hs_priv st' 0 = Some (mirror_priv toy_crypto one_key_hsm [] 0 0x1001)"
proof -
  have sizes: "sizes_ok toy_crypto one_key_hsm [] [0x1001]" by (simp add: sizes_ok_def one_key_usable kind_ok_def)
  have u: "usable toy_crypto one_key_hsm [] [0x1001] = [0x1001]" by (simp add: usable_def one_key_usable)
  have i: "wh_Init one_key_hsm (hs_server fresh_slots) (TransportShm (take 255 [0x2F])) = ([], True)" "wh_CommInit one_key_hsm [] = ([], None)"
    by (simp_all add: one_key_hsm_def fresh_slots_def)
  have c: "hs_client fresh_slots 1 = None" by (simp add: fresh_ok)
  from hsm_connect_mirrors_server [OF fresh_ok(1) c i one_key_serves sizes, of None] show ?thesis
    by (auto simp: u fresh_unused Let_def MAX_KEYS_def fresh_next)
qed

lemma demo_connected:
  obtains st' where "hsm_reach toy_crypto no_hsm_crypto one_key_hsm st'" "hs_client st' 1 = Some 0" "hs_priv st' 0 = Some (mirror_priv toy_crypto one_key_hsm [] 0 0x1001)"
    "hs_dangling st' = {}" "first_index (\<lambda>k. \<not> k_in_use k) (hs_keys st') = Some 1"
proof -
  have sizes: "sizes_ok toy_crypto one_key_hsm [] [0x1001]" by (simp add: sizes_ok_def one_key_usable kind_ok_def)
  have u: "usable toy_crypto one_key_hsm [] [0x1001] = [0x1001]" by (simp add: usable_def one_key_usable)
  let ?c = "connected_state toy_crypto one_key_hsm 1 [] [0x1001] fresh_slots"
  have r: "wolfhsm_slot_connect toy_crypto one_key_hsm (\<lambda>i. (True, True)) (Some [0x2F]) None True 1 fresh_slots = Some (?c, CKR_OK)"
    using connect_result [of fresh_slots 1 one_key_hsm "[0x2F]" "[]" "[]" "[0x1001]" toy_crypto None] one_key_serves sizes
    by (simp add: u fresh_unused MAX_KEYS_def fresh_ok) (simp add: one_key_hsm_def fresh_slots_def)
  have reach: "hsm_reach toy_crypto no_hsm_crypto one_key_hsm fresh_slots" by (rule hsm_reach.init) (simp_all add: fresh_slots_def)
  have up: "[0..<MAX_KEYS] = 0 # 1 # [2..<MAX_KEYS]" by (simp add: MAX_KEYS_def upt_conv_Cons)
  have f: "connected_state toy_crypto one_key_hsm 1 [] [0x1001] fresh_slots = ?c" ..
  have un: "unused_entries (hs_keys ?c) = 1 # [2..<MAX_KEYS]"
    using unused_entries_used [of "hs_keys fresh_slots" 0 "1 # [2..<MAX_KEYS]" "mirror_obj toy_crypto one_key_hsm [] 1 0x1001 (hs_keys fresh_slots ! 0)"]
      fresh_unused up by (simp add: mirror_obj_slot connected_state_def Let_def mirrored_def)
  show thesis
  proof (rule that [OF hsm_reach.login [OF reach r]])
    show "hs_client ?c 1 = Some 0" "hs_dangling ?c = {}" by (simp_all add: connected_state_def Let_def fresh_slots_def)
    show "hs_priv ?c 0 = Some (mirror_priv toy_crypto one_key_hsm [] 0 0x1001)"
      by (simp add: connected_state_def Let_def fresh_unused up) (simp add: fresh_slots_def)
    show "first_index (\<lambda>k. \<not> k_in_use k) (hs_keys ?c) = Some 1" unfolding unused_entries_first un by simp
  qed
qed

theorem hsm_keys_connected_witness:
  "\<exists>st kp. hsm_reach toy_crypto no_hsm_crypto one_key_hsm st \<and> hs_priv st 0 = Some kp \<and> hsm_entry (Some kp) = Some kp
     \<and> hs_client st (k_slot_id (hs_keys st ! 0)) = Some (hk_ctx kp)"
proof -
  obtain st where "hsm_reach toy_crypto no_hsm_crypto one_key_hsm st" "hs_priv st 0 = Some (mirror_priv toy_crypto one_key_hsm [] 0 0x1001)"
    by (rule demo_connected)
  with hsm_keys_connected [OF this] show ?thesis by blast
qed

theorem hsm_pair_evicted_once_witness:
  "\<exists>st st1 hp hv. hsm_generate_pair one_key_hsm (True, True) 1 True CKM_EC_KEY_PAIR_GEN 0 (Some [0x6B]) True st = Some (st1, CKR_OK, Some (hp, hv))
     \<and> map_option hs_server (Option.bind (hsm_destroy one_key_hsm (hp - 1) st1) (hsm_destroy one_key_hsm (hv - 1))) = Some [0x1002]"
proof -
  let ?st = "fresh_slots\<lparr>hs_client := (\<lambda>i. Some 0)\<rparr>"
  have up: "[0..<MAX_KEYS] = 0 # 1 # [2..<MAX_KEYS]" by (simp add: MAX_KEYS_def upt_conv_Cons)
  have f: "free_pair (hs_keys ?st) = Some (0, 1)" unfolding free_pair_def up by (simp add: fresh_slots_def MAX_KEYS_def zero_key_def)
  obtain st1 where g: "hsm_generate_pair one_key_hsm (True, True) 1 True CKM_EC_KEY_PAIR_GEN 0 (Some [0x6B]) True ?st = Some (st1, CKR_OK, Some (1, 2))"
    using f by (simp add: hsm_generate_pair_def hsm_place_pair_def make_server_pair_def one_key_hsm_def wp11_wolfhsm_alloc_key_priv_def
      KEY_TYPE_EC_def KEY_TYPE_RSA_def Let_def)
  have "hs_dangling ?st = {}" "hs_server ?st = []" by (simp_all add: fresh_slots_def)
  moreover have "make_server_pair one_key_hsm CKM_EC_KEY_PAIR_GEN 0 [0x6B] [] = ([], Inr (0x1002, CKK_EC, 72, KEY_TYPE_EC, 0))"
    "wh_KeyEvict one_key_hsm [] 0x1002 = [0x1002]" by (simp_all add: make_server_pair_def one_key_hsm_def)
  ultimately have "map_option hs_server (Option.bind (hsm_destroy one_key_hsm (1 - 1) st1) (hsm_destroy one_key_hsm (2 - 1))) = Some [0x1002]"
    using hsm_pair_evicted_once [OF g] by auto
  with g show ?thesis by blast
qed

theorem hsm_failed_import_dangles_witness:
  "\<exists>st'. hsm_create_private toy_crypto no_hsm_crypto one_key_hsm (\<lambda>i. []) (True, True) 1 False
        [\<lparr>a_type = CKA_VALUE, a_value = Some [1, 2]\<rparr>] fresh_slots = Some (st', CKR_USER_NOT_LOGGED_IN, None)
     \<and> k_in_use (hs_keys st' ! 0) \<and> hsm_destroy one_key_hsm 0 st' = None"
proof -
  let ?as = "[\<lparr>a_type = CKA_VALUE, a_value = Some [1, 2]\<rparr>]"
  have sc: "scan_attrs (\<lambda>i. []) 0 ?as default_attrs = default_attrs\<lparr>ca_val := Some [1, 2]\<rparr>"
    by (simp add: create_attr_def cka_defs cka_more)
  have fi: "first_index (\<lambda>k. \<not> k_in_use k) (hs_keys fresh_slots) = Some 0" by (simp add: unused_entries_first fresh_unused MAX_KEYS_def upt_conv_Cons)
  obtain st' where c: "hsm_create_private toy_crypto no_hsm_crypto one_key_hsm (\<lambda>i. []) (True, True) 1 False ?as fresh_slots = Some (st', CKR_USER_NOT_LOGGED_IN, None)"
    unfolding hsm_create_private_def sc by (simp add: fi value_of_def read_label_def default_attrs_def Let_def)
  have "value_of (scan_attrs (\<lambda>i. []) 0 ?as default_attrs) = Some [1, 2]" "ca_app (scan_attrs (\<lambda>i. []) 0 ?as default_attrs) = None"
    unfolding sc by (simp_all add: value_of_def default_attrs_def)
  with hsm_failed_import_dangles [OF c _ _ _ fi] c show ?thesis by (auto simp: fresh_slots_def)
qed

end
