(* ===== verification/CliKeystore.thy ===== *)
theory CliKeystore imports CliText begin

text \<open>
  The keystore subcommands of the command line tool (\<open>src/cli/wp11_cli.c\<close>, built with \<open>WOLFP11_CFG_USB_FLASH_BACKEND\<close>): \<open>create\<close>,
  \<open>import-key\<close>, \<open>remove-key\<close>, \<open>pin-change\<close>, \<open>cert-add\<close>, \<open>info\<close> and \<open>list\<close>, over the models of \<open>wp11_keystore_load\<close> and
  \<open>wp11_keystore_create\<close>.  A command gives the memory, the file system after each of its file operations, its standard output
  and its exit status; \<open>None\<close> is a command that never returns.  The PIN buffers on the stack are values.
\<close>

section \<open>The environment\<close>

text \<open>wolfCrypt's PEM and DER functions beside those of the keystore.\<close>

record cli_env =
  cl_mem :: mem_env
  cl_m :: nat
  cl_crypto :: crypto
  cl_key_pem :: "byte list \<Rightarrow> nat \<Rightarrow> byte list option"
  cl_cert_pem :: "byte list \<Rightarrow> nat \<Rightarrow> byte list option"
  cl_is_ec :: "byte list \<Rightarrow> bool"
  cl_is_rsa :: "byte list \<Rightarrow> bool"

text \<open>What \<open>/dev/tty\<close> and standard input give at one prompt (\<open>None\<close> is an error or the end of the input), and what the \<open>stdio\<close>
  functions give for one file; \<open>fi_read\<close> is what \<open>fread\<close> delivers.\<close>

record pin_io =
  tty_open :: bool
  tty_setup_ok :: bool
  tty_read :: "byte list option"
  stdin_read :: "byte list option"

record file_io =
  fi_open :: bool
  fi_seek_ok :: bool
  fi_tell_ok :: bool
  fi_size :: nat
  fi_read :: "byte list"

record cli_io =
  pin_ios :: "nat \<Rightarrow> pin_io"
  key_files :: "nat \<Rightarrow> file_io"
  cert_file :: file_io
  gen_ids :: "nat \<Rightarrow> bool \<times> byte list option"
  cli_load :: load_io
  cli_create :: create_io
  cli_rename_ok :: bool
  cli_remove_ok :: bool

type_synonym cli_result = "(ks_mem \<times> files list \<times> byte list \<times> nat) option"

definition KS_MIN_PIN_LEN :: nat where "KS_MIN_PIN_LEN = 6"
definition PIN_BUF :: nat where "PIN_BUF = 128"

section \<open>Input\<close>

text \<open>The first line of the input with its line end, cut to the buffer.\<close>

definition fgets :: "nat \<Rightarrow> byte list \<Rightarrow> byte list" where
  "fgets bufmax inp =
     (let l = takeWhile (\<lambda>c. c \<noteq> LF) inp in take (bufmax - 1) (l @ take 1 (drop (length l) inp)))"

definition chomp :: "byte list \<Rightarrow> byte list" where
  "chomp s = (if s \<noteq> [] \<and> last s = LF then butlast s else s)"

text \<open>The bytes read, \<open>None\<close> for -1.\<close>

definition read_pin :: "pin_io \<Rightarrow> nat \<Rightarrow> byte list option" where
  "read_pin io bufmax =
     (if \<not> tty_open io then
        (case stdin_read io of None \<Rightarrow> None | Some inp \<Rightarrow> if inp = [] then None else Some (chomp (cstr (fgets bufmax inp))))
      else if \<not> tty_setup_ok io then None
      else case tty_read io of
        None \<Rightarrow> None
      | Some d \<Rightarrow> (let b = take (bufmax - 1) d in if b = [] then None else Some (chomp b)))"

definition read_file :: "cli_env \<Rightarrow> file_io \<Rightarrow> ks_mem \<Rightarrow> ks_mem \<times> (nat \<times> byte list) option" where
  "read_file e io mem =
     (if \<not> fi_open io \<or> \<not> fi_seek_ok io \<or> \<not> fi_tell_ok io then (mem, None)
      else case mem_malloc (cl_mem e) mem (fi_size io + 1) of
        (mem1, None) \<Rightarrow> (mem1, None)
      | (mem1, Some b) \<Rightarrow>
          if length (fi_read io) \<noteq> fi_size io then (mem_free mem1 b, None)
          else (mem1, Some (b, fi_read io)))"

definition wipe_free :: "ks_mem \<Rightarrow> nat \<Rightarrow> ks_mem" where
  "wipe_free mem b = mem_free (wp11_zero_blk mem b) b"

definition load_key_file :: "cli_env \<Rightarrow> file_io \<Rightarrow> ks_mem \<Rightarrow> ks_mem \<times> (nat \<times> byte list \<times> int) option" where
  "load_key_file e io mem =
     (case read_file e io mem of
        (mm, None) \<Rightarrow> (mm, None)
      | (mm, Some (b, raw)) \<Rightarrow>
          let mem1 = mem_write mm b in
          (case (if is_pem raw
                 then (case wp11_keystore_pem_to_der (cl_mem e) (cl_key_pem e) True raw mem1 of
                         (mem2, Inl err) \<Rightarrow> (wipe_free mem2 b, None)
                       | (mem2, Inr (b2, der)) \<Rightarrow> (wipe_free mem2 b, Some (b2, der)))
                 else (mem1, Some (b, raw))) of
             (mem3, None) \<Rightarrow> (mem3, None)
           | (mem3, Some (b2, der)) \<Rightarrow>
               (case wp11_keystore_detect_key_type (cl_is_ec e) (cl_is_rsa e) (Some der) of
                  Inl err \<Rightarrow> (wipe_free mem3 b2, None)
                | Inr kt \<Rightarrow> (mem3, Some (b2, der, kt)))))"

definition load_cert_file :: "cli_env \<Rightarrow> file_io \<Rightarrow> ks_mem \<Rightarrow> ks_mem \<times> (nat \<times> byte list) option" where
  "load_cert_file e io mem =
     (case read_file e io mem of
        (mem1, None) \<Rightarrow> (mem1, None)
      | (mem1, Some (b, raw)) \<Rightarrow>
          if is_pem raw then
            (case wp11_keystore_cert_pem_to_der (cl_mem e) (cl_cert_pem e) True raw mem1 of
               (mem2, Inl err) \<Rightarrow> (mem_free mem2 b, None)
             | (mem2, Inr (b2, der)) \<Rightarrow> (mem_free mem2 b, Some (b2, der)))
          else (mem1, Some (b, raw)))"

section \<open>Saving\<close>

text \<open>The file system after each file operation, and success.  \<open>remove\<close> may fail, which the code ignores.\<close>

definition keystore_atomic_save ::
  "cli_env \<Rightarrow> cli_io \<Rightarrow> byte list \<Rightarrow> byte list \<Rightarrow> wp11_key_entry list \<Rightarrow> ks_mem \<Rightarrow> files \<Rightarrow> (ks_mem \<times> files list \<times> bool) option" where
  "keystore_atomic_save e io dst pin es mem fs =
     (let tmp = tmppath dst in
      if length tmp \<ge> C_PATH_MAX then Some (mem, [], False)
      else case wp11_keystore_create (cl_mem e) (cl_m e) (cl_crypto e) (cli_create io) True tmp pin (Some es) (length es) mem fs of
        None \<Rightarrow> None
      | Some (mem1, trace, r) \<Rightarrow>
          let fs1 = last (fs # trace); removed = (if cli_remove_ok io then [fs1(tmp := None)] else []) in
          (case r of
             Inl err \<Rightarrow> Some (mem1, trace @ removed, False)
           | Inr u \<Rightarrow>
               if \<not> cli_rename_ok io then Some (mem1, trace @ removed, False)
               else Some (mem1, trace @ [fs1(tmp := None, dst := fs1 tmp)], True)))"

section \<open>wp11 keystore create\<close>

text \<open>The options: key files with their labels and the output path; \<open>None\<close> is an error.\<close>

fun create_args ::
  "byte list list \<Rightarrow> (byte list \<times> byte list option) list \<Rightarrow> byte list option \<Rightarrow> ((byte list \<times> byte list option) list \<times> byte list option) option" where
  "create_args [] ks out = Some (ks, out)"
| "create_args (a # as) ks out =
     (case as of
        [] \<Rightarrow> None
      | v # rest \<Rightarrow>
          if a = str ''--key'' then (if length ks \<ge> 64 then None else create_args rest (ks @ [(v, None)]) out)
          else if a = str ''--label'' then
            (if ks = [] then None
             else if \<not> is_valid_label v then None
             else create_args rest (butlast ks @ [(fst (last ks), Some v)]) out)
          else if a = str ''--output'' then create_args rest ks (Some v)
          else None)"

definition cli_entry :: "byte list \<Rightarrow> byte list \<Rightarrow> int \<Rightarrow> nat \<times> byte list \<Rightarrow> wp11_key_entry" where
  "cli_entry kid lbl kt der = \<lparr>key_id = kid, label = take KS_LABEL_MAX lbl, key_type = kt, der_bytes = Some der, cert_bytes = None\<rparr>"

text \<open>The loop over the key files, \<open>i\<close> counting them.\<close>

fun load_keys :: "cli_env \<Rightarrow> cli_io \<Rightarrow> nat \<Rightarrow> byte list list \<Rightarrow> wp11_key_entry list \<Rightarrow> ks_mem \<Rightarrow> ks_mem \<times> wp11_key_entry list \<times> bool" where
  "load_keys e io i [] built mem = (mem, built, True)"
| "load_keys e io i (lbl # lbls) built mem =
     (case load_key_file e (key_files io i) mem of
        (mem1, None) \<Rightarrow> (mem1, built, False)
      | (mem1, Some (b, der, kt)) \<Rightarrow>
          (case wp11_keystore_gen_id (fst (gen_ids io i)) (snd (gen_ids io i)) of
             Inl err \<Rightarrow> (wipe_free mem1 b, built, False)
           | Inr kid \<Rightarrow> load_keys e io (Suc i) lbls (built @ [cli_entry kid lbl kt (b, der)]) mem1))"

definition free_built :: "wp11_key_entry list \<Rightarrow> ks_mem \<Rightarrow> ks_mem" where
  "free_built es mem = fold (\<lambda>k mem. case der_bytes k of None \<Rightarrow> mem | Some (b, d) \<Rightarrow> wipe_free mem b) es mem"

definition cmd_keystore_create :: "cli_env \<Rightarrow> cli_io \<Rightarrow> byte list list \<Rightarrow> ks_mem \<Rightarrow> files \<Rightarrow> cli_result" where
  "cmd_keystore_create e io args mem fs =
     (let fail = Some (mem, [], [], 1) in
      case create_args args [] None of
        None \<Rightarrow> fail
      | Some (ks, out) \<Rightarrow>
          if ks = [] then fail
          else case out of None \<Rightarrow> fail
          | Some outpath \<Rightarrow>
              if \<exists>k \<in> set ks. snd k = None then fail
              else (case read_pin (pin_ios io 0) PIN_BUF of
                 None \<Rightarrow> fail
               | Some pin1 \<Rightarrow>
                   if length pin1 < KS_MIN_PIN_LEN then fail
                   else (case read_pin (pin_ios io 1) PIN_BUF of
                      None \<Rightarrow> fail
                    | Some pin2 \<Rightarrow>
                        if cstr pin1 \<noteq> cstr pin2 then fail
                        else (case load_keys e io 0 (map (\<lambda>k. the (snd k)) ks) [] mem of
                           (mem1, built, False) \<Rightarrow> Some (free_built built mem1, [], [], 1)
                         | (mem1, built, True) \<Rightarrow>
                             (case keystore_atomic_save e io outpath pin1 built mem1 fs of
                                None \<Rightarrow> None
                              | Some (mem2, trace, False) \<Rightarrow> Some (free_built built mem2, trace, [], 1)
                              | Some (mem2, trace, True) \<Rightarrow>
                                  Some (free_built built mem2, trace,
                                    str ''wrote '' @ outpath @ str '' ('' @ dec (length built) @ str '' key'' @ (if length built = 1 then [] else str ''s'') @ str '')'' @ [LF], 0))))))"

section \<open>Commands on an existing keystore\<close>

text \<open>Loading with the PIN of a prompt; \<open>Inl\<close> is the failure of the command, with the memory.\<close>

definition load_with_pin :: "cli_env \<Rightarrow> cli_io \<Rightarrow> ks_mem \<Rightarrow> (ks_mem + byte list \<times> ks_mem \<times> wp11_keystore) option" where
  "load_with_pin e io mem =
     (case read_pin (pin_ios io 0) PIN_BUF of
        None \<Rightarrow> Some (Inl mem)
      | Some pin \<Rightarrow>
          (case wp11_keystore_load (cl_mem e) (cl_m e) (cl_crypto e) (cli_load io) True pin mem of
             None \<Rightarrow> None
           | Some (mem1, Inl err) \<Rightarrow> Some (Inl mem1)
           | Some (mem1, Inr ks) \<Rightarrow> Some (Inr (pin, mem1, ks))))"

text \<open>\<open>for (i = 0; i < nentries; i++) entries[i] = *wp11_keystore_get(ks, i)\<close>.\<close>

definition copy_entries :: "wp11_keystore \<Rightarrow> wp11_key_entry list" where
  "copy_entries ks = map (\<lambda>i. the (wp11_keystore_get (Some ks) i)) [0..<wp11_keystore_count (Some ks)]"

text \<open>The last step of these commands: save, give the keystore and \<open>extra\<close> memory back, print.\<close>

definition save_and_free ::
  "cli_env \<Rightarrow> cli_io \<Rightarrow> byte list \<Rightarrow> byte list \<Rightarrow> wp11_key_entry list \<Rightarrow> wp11_keystore \<Rightarrow> (ks_mem \<Rightarrow> ks_mem) \<Rightarrow> byte list \<Rightarrow> ks_mem \<Rightarrow> files \<Rightarrow> cli_result" where
  "save_and_free e io path pin es ks extra msg mem fs =
     (case keystore_atomic_save e io path pin es mem fs of
        None \<Rightarrow> None
      | Some (mem1, trace, saved) \<Rightarrow> Some (wp11_keystore_free (Some ks) (extra mem1), trace, if saved then msg else [], if saved then 0 else 1))"

fun import_args :: "byte list list \<Rightarrow> byte list option \<Rightarrow> byte list option \<Rightarrow> (byte list option \<times> byte list option) option" where
  "import_args [] keyfile lbl = Some (keyfile, lbl)"
| "import_args (a # as) keyfile lbl =
     (case as of
        [] \<Rightarrow> None
      | v # rest \<Rightarrow>
          if a = str ''--key'' then import_args rest (Some v) lbl
          else if a = str ''--label'' then (if \<not> is_valid_label v then None else import_args rest keyfile (Some v))
          else None)"

definition cmd_keystore_import_key :: "cli_env \<Rightarrow> cli_io \<Rightarrow> byte list list \<Rightarrow> ks_mem \<Rightarrow> files \<Rightarrow> cli_result" where
  "cmd_keystore_import_key e io args mem fs =
     (let fail = Some (mem, [], [], 1) in
      case args of
        [] \<Rightarrow> fail
      | kspath # opts \<Rightarrow>
          (case import_args opts None None of
             Some (Some keyfile, Some lbl) \<Rightarrow>
               (case load_with_pin e io mem of
                  None \<Rightarrow> None
                | Some (Inl mem1) \<Rightarrow> Some (mem1, [], [], 1)
                | Some (Inr (pin, mem1, ks)) \<Rightarrow>
                    if wp11_keystore_count (Some ks) \<ge> 64 then Some (wp11_keystore_free (Some ks) mem1, [], [], 1)
                    else (case load_key_file e (key_files io 0) mem1 of
                       (mem2, None) \<Rightarrow> Some (wp11_keystore_free (Some ks) mem2, [], [], 1)
                     | (mem2, Some (b, der, kt)) \<Rightarrow>
                         (case wp11_keystore_gen_id (fst (gen_ids io 0)) (snd (gen_ids io 0)) of
                            Inl err \<Rightarrow> Some (wp11_keystore_free (Some ks) (wipe_free mem2 b), [], [], 1)
                          | Inr kid \<Rightarrow>
                              save_and_free e io kspath pin (copy_entries ks @ [cli_entry kid lbl kt (b, der)]) ks (\<lambda>mm. wipe_free mm b)
                                (str ''added '' @ [0x27] @ lbl @ [0x27] @ str '' to '' @ kspath @ [LF]) mem2 fs)))
           | _ \<Rightarrow> fail))"

fun remove_args :: "byte list list \<Rightarrow> byte list option \<Rightarrow> byte list option \<Rightarrow> (byte list option \<times> byte list option) option" where
  "remove_args [] by_label by_id = Some (by_label, by_id)"
| "remove_args (a # as) by_label by_id =
     (case as of
        [] \<Rightarrow> None
      | v # rest \<Rightarrow>
          if a = str ''--label'' then remove_args rest (Some v) by_id
          else if a = str ''--id'' then remove_args rest by_label (Some v)
          else None)"

text \<open>\<open>sscanf(s, "%1x%1x", &hi, &lo)\<close>: white space may precede each digit.\<close>

definition hex_value :: "byte \<Rightarrow> nat option" where
  "hex_value c =
     (if 0x30 \<le> c \<and> c \<le> 0x39 then Some (unat c - 0x30)
      else if 0x41 \<le> c \<and> c \<le> 0x46 then Some (unat c - 0x37)
      else if 0x61 \<le> c \<and> c \<le> 0x66 then Some (unat c - 0x57)
      else None)"

definition scan_hex1 :: "byte list \<Rightarrow> (nat \<times> byte list) option" where
  "scan_hex1 s = (case dropWhile is_space s of [] \<Rightarrow> None | c # r \<Rightarrow> map_option (\<lambda>v. (v, r)) (hex_value c))"

definition scan_hex_pair :: "byte list \<Rightarrow> byte option" where
  "scan_hex_pair s =
     (case scan_hex1 s of
        None \<Rightarrow> None
      | Some (hi, r) \<Rightarrow> map_option (\<lambda>(lo, _). word_of_nat (hi * 16 + lo)) (scan_hex1 r))"

definition parse_id_hex :: "byte list \<Rightarrow> byte list option" where
  "parse_id_hex s =
     (if length s \<noteq> 32 then None
      else let ps = map (\<lambda>j. scan_hex_pair (drop (j * 2) s)) [0..<16] in
        if None \<in> set ps then None else Some (map the ps))"

definition entry_removed :: "byte list option \<Rightarrow> byte list option \<Rightarrow> wp11_key_entry \<Rightarrow> bool" where
  "entry_removed by_label by_id k =
     (if (case by_label of None \<Rightarrow> False | Some l \<Rightarrow> cstr (label k) = l) then True
      else case by_id of None \<Rightarrow> False | Some s \<Rightarrow> parse_id_hex s = Some (key_id k))"

definition cmd_keystore_remove_key :: "cli_env \<Rightarrow> cli_io \<Rightarrow> byte list list \<Rightarrow> ks_mem \<Rightarrow> files \<Rightarrow> cli_result" where
  "cmd_keystore_remove_key e io args mem fs =
     (let fail = Some (mem, [], [], 1) in
      case args of
        [] \<Rightarrow> fail
      | kspath # opts \<Rightarrow>
          (case remove_args opts None None of
             None \<Rightarrow> fail
           | Some (by_label, by_id) \<Rightarrow>
               if by_label = None \<and> by_id = None then fail
               else (case load_with_pin e io mem of
                  None \<Rightarrow> None
                | Some (Inl mem1) \<Rightarrow> Some (mem1, [], [], 1)
                | Some (Inr (pin, mem1, ks)) \<Rightarrow>
                    let kept = filter (\<lambda>k. \<not> entry_removed by_label by_id k) (copy_entries ks) in
                    if length kept = length (copy_entries ks) then Some (wp11_keystore_free (Some ks) mem1, [], [], 1)
                    else save_and_free e io kspath pin kept ks id
                      (str ''removed key from '' @ kspath @ str '' ('' @ dec (length kept) @ str '' remaining)'' @ [LF]) mem1 fs)))"

definition cmd_keystore_pin_change :: "cli_env \<Rightarrow> cli_io \<Rightarrow> byte list list \<Rightarrow> ks_mem \<Rightarrow> files \<Rightarrow> cli_result" where
  "cmd_keystore_pin_change e io args mem fs =
     (case args of
        [] \<Rightarrow> Some (mem, [], [], 1)
      | kspath # _ \<Rightarrow>
          (case load_with_pin e io mem of
             None \<Rightarrow> None
           | Some (Inl mem1) \<Rightarrow> Some (mem1, [], [], 1)
           | Some (Inr (oldpin, mem1, ks)) \<Rightarrow>
               let fail = Some (wp11_keystore_free (Some ks) mem1, [], [], 1) in
               (case read_pin (pin_ios io 1) PIN_BUF of
                  None \<Rightarrow> fail
                | Some pin1 \<Rightarrow>
                    if length pin1 < KS_MIN_PIN_LEN then fail
                    else (case read_pin (pin_ios io 2) PIN_BUF of
                       None \<Rightarrow> fail
                     | Some pin2 \<Rightarrow>
                         if cstr pin1 \<noteq> cstr pin2 then fail
                         else save_and_free e io kspath pin1 (copy_entries ks) ks id (str ''PIN changed for '' @ kspath @ [LF]) mem1 fs))))"

fun cert_args :: "byte list list \<Rightarrow> byte list option \<Rightarrow> byte list option \<Rightarrow> (byte list option \<times> byte list option) option" where
  "cert_args [] by_label certfile = Some (by_label, certfile)"
| "cert_args (a # as) by_label certfile =
     (case as of
        [] \<Rightarrow> None
      | v # rest \<Rightarrow>
          if a = str ''--label'' then cert_args rest (Some v) certfile
          else if a = str ''--cert'' then cert_args rest by_label (Some v)
          else None)"

definition cmd_keystore_cert_add :: "cli_env \<Rightarrow> cli_io \<Rightarrow> byte list list \<Rightarrow> ks_mem \<Rightarrow> files \<Rightarrow> cli_result" where
  "cmd_keystore_cert_add e io args mem fs =
     (let fail = Some (mem, [], [], 1) in
      case args of
        [] \<Rightarrow> fail
      | kspath # opts \<Rightarrow>
          (case cert_args opts None None of
             Some (Some by_label, Some certfile) \<Rightarrow>
               (case load_with_pin e io mem of
                  None \<Rightarrow> None
                | Some (Inl mem1) \<Rightarrow> Some (mem1, [], [], 1)
                | Some (Inr (pin, mem1, ks)) \<Rightarrow>
                    (case load_cert_file e (cert_file io) mem1 of
                       (mem2, None) \<Rightarrow> Some (wp11_keystore_free (Some ks) mem2, [], [], 1)
                     | (mem2, Some (b, der)) \<Rightarrow>
                         let es = map (\<lambda>k. if cstr (label k) = by_label then k\<lparr>cert_bytes := Some (b, der)\<rparr> else k) (copy_entries ks) in
                         if \<not> (\<exists>k \<in> set (copy_entries ks). cstr (label k) = by_label)
                         then Some (wp11_keystore_free (Some ks) (mem_free mem2 b), [], [], 1)
                         else save_and_free e io kspath pin es ks (\<lambda>mm. mem_free mm b)
                           (str ''certificate attached to '' @ [0x27] @ by_label @ [0x27] @ str '' in '' @ kspath @ [LF]) mem2 fs))
           | _ \<Rightarrow> fail))"

section \<open>info and list\<close>

definition cmd_keystore_info :: "file_io \<Rightarrow> byte list list \<Rightarrow> ks_mem \<Rightarrow> cli_result" where
  "cmd_keystore_info f args mem =
     (let fail = Some (mem, [], [], 1) in
      case args of
        [] \<Rightarrow> fail
      | path # _ \<Rightarrow>
          if \<not> fi_open f then fail
          else let hdr = take P11K_HDR_LEN (fi_read f) in
            if length hdr \<noteq> P11K_HDR_LEN then fail
            else if take 4 hdr \<noteq> P11K_MAGIC then fail
            else Some (mem, [],
              str ''File:    '' @ path @ [LF] @ str ''Magic:   P11K'' @ [LF]
              @ str ''Version: '' @ dec (unat (hdr ! 4)) @ [LF]
              @ str ''KDF:     PBKDF2-HMAC-SHA256, '' @ dec (read_u32be hdr 37) @ str '' iterations'' @ [LF]
              @ str ''Salt:    '' @ concat (map (hex2 False) (bslice hdr 5 32)) @ [LF], 0))"

definition list_line :: "nat \<Rightarrow> wp11_key_entry \<Rightarrow> byte list" where
  "list_line i k =
     str ''  '' @ pad_right 4 (dec i) @ str ''  '' @ pad_right 32 (cstr (label k)) @ str ''  ''
     @ pad_right 7 (if key_type k = KEY_TYPE_EC then str ''EC'' else str ''RSA'') @ str ''  '' @ concat (map (hex2 False) (key_id k))
     @ str ''  '' @ (if cert_bytes k \<noteq> None then str ''yes'' else str ''no'') @ [LF]"

definition list_header :: "byte list" where
  "list_header =
     str ''  '' @ pad_right 4 (str ''#'') @ str ''  '' @ pad_right 32 (str ''Label'') @ str ''  '' @ pad_right 7 (str ''Type'') @ str ''  ''
     @ pad_right 34 (str ''ID (hex)'') @ str ''  Cert'' @ [LF]
     @ str ''  '' @ str ''----'' @ str ''  '' @ replicate 32 0x2D @ str ''  '' @ replicate 7 0x2D @ str ''  '' @ replicate 34 0x2D @ str ''  ----'' @ [LF]"

definition cmd_keystore_list :: "cli_env \<Rightarrow> cli_io \<Rightarrow> byte list list \<Rightarrow> ks_mem \<Rightarrow> cli_result" where
  "cmd_keystore_list e io args mem =
     (case args of
        [] \<Rightarrow> Some (mem, [], [], 1)
      | kspath # _ \<Rightarrow>
          (case load_with_pin e io mem of
             None \<Rightarrow> None
           | Some (Inl mem1) \<Rightarrow> Some (mem1, [], [], 1)
           | Some (Inr (pin, mem1, ks)) \<Rightarrow>
               Some (wp11_keystore_free (Some ks) mem1, [],
                 str ''Keys: '' @ dec (wp11_keystore_count (Some ks)) @ [LF] @ list_header
                 @ concat (map (\<lambda>i. list_line i (the (wp11_keystore_get (Some ks) i))) [0..<wp11_keystore_count (Some ks)]), 0)))"

text \<open>The dispatcher; \<open>args\<close> are the arguments behind \<open>keystore\<close>.  \<open>info\<close> reads its file as \<open>key_files io 0\<close>.\<close>

definition cmd_keystore :: "cli_env \<Rightarrow> cli_io \<Rightarrow> byte list list \<Rightarrow> ks_mem \<Rightarrow> files \<Rightarrow> cli_result" where
  "cmd_keystore e io args mem fs =
     (case args of
        [] \<Rightarrow> Some (mem, [], [], 1)
      | sub # rest \<Rightarrow>
          if sub = str ''create'' then cmd_keystore_create e io rest mem fs
          else if sub = str ''import-key'' then cmd_keystore_import_key e io rest mem fs
          else if sub = str ''remove-key'' then cmd_keystore_remove_key e io rest mem fs
          else if sub = str ''pin-change'' then cmd_keystore_pin_change e io rest mem fs
          else if sub = str ''cert-add'' then cmd_keystore_cert_add e io rest mem fs
          else if sub = str ''info'' then cmd_keystore_info (key_files io 0) rest mem
          else if sub = str ''list'' then cmd_keystore_list e io rest mem
          else Some (mem, [], [], 1))"

section \<open>Saving is atomic\<close>

lemma create_other:
  assumes "wp11_keystore_create env m cr io ok path pin keys n mem fs = Some (mem', trace, r)" "q \<noteq> path" "q \<noteq> tmppath path"
  shows "\<forall>f \<in> set trace. f q = fs q"
  using assms write_file_other [OF _ assms(2,3)]
  by (auto simp: wp11_keystore_create_def Let_def split: if_splits option.splits prod.splits sum.splits)

lemma tmp_names: "tmppath p \<noteq> p" "p \<noteq> tmppath p" "tmppath (tmppath p) \<noteq> p" "p \<noteq> tmppath (tmppath p)"
  by (auto simp: tmppath_def str_def dest: arg_cong [where f = length])

lemma create_ok_trace:
  assumes "wp11_keystore_create env m cr io ok path pin keys n mem fs = Some (mem', trace, Inr u)"
  shows "trace \<noteq> []" "\<exists>img. last trace path = Some img"
proof -
  obtain parts where w: "write_file io path parts fs = Some (trace, Inr u)"
    using assms by (auto simp: wp11_keystore_create_def Let_def split: if_splits option.splits prod.splits sum.splits)
  from write_file_final [OF w] show "\<exists>img. last trace path = Some img" by blast
  from w show "trace \<noteq> []" by (auto simp: write_file_def Let_def split: if_splits option.splits prod.splits sum.splits)
qed

text \<open>The content is the complete sealed image of these entries under this PIN.\<close>

definition saved_as :: "cli_env \<Rightarrow> cli_io \<Rightarrow> byte list \<Rightarrow> wp11_key_entry list \<Rightarrow> byte list option \<Rightarrow> bool" where
  "saved_as e io pin es content \<longleftrightarrow>
     (\<exists>plain parts. encode_cbor_payload (5 + length es * (4300 + KS_CERT_MAX + 16)) es = Inr plain
        \<and> seal (cl_crypto e) (cli_create io) pin plain = Inr parts \<and> content = Some (concat parts))"

lemma create_saved_as:
  assumes "wp11_keystore_create (cl_mem e) (cl_m e) (cl_crypto e) (cli_create io) True path pin (Some es) (length es) mem fs = Some (mem', trace, Inr u)"
  shows "saved_as e io pin es (last trace path)"
proof -
  obtain plain parts where "encode_cbor_payload (5 + length es * (4300 + KS_CERT_MAX + 16)) es = Inr plain"
    "seal (cl_crypto e) (cli_create io) pin plain = Inr parts" and w: "write_file (cli_create io) path parts fs = Some (trace, Inr u)"
    using assms by (auto simp: wp11_keystore_create_def Let_def split: if_splits option.splits prod.splits sum.splits)
  with write_file_final [OF w] show ?thesis by (auto simp: saved_as_def)
qed

text \<open>Nothing but the path and the two temporary files beside it changes; the path itself only in the last operation, by success.\<close>

definition safe_update :: "cli_io \<Rightarrow> byte list \<Rightarrow> files \<Rightarrow> files list \<Rightarrow> bool \<Rightarrow> bool" where
  "safe_update io path fs trace saved \<longleftrightarrow>
     (\<forall>f \<in> set trace. \<forall>q. q \<notin> {path, tmppath path, tmppath (tmppath path)} \<longrightarrow> f q = fs q)
     \<and> (\<forall>f \<in> set (if saved then butlast trace else trace). f path = fs path)
     \<and> (trace = [] \<or> last trace (tmppath path) = None \<or> (\<not> saved \<and> \<not> cli_remove_ok io))"

lemma save_safe:
  assumes "keystore_atomic_save e io dst pin es mem fs = Some (mem', trace, saved)"
  shows "safe_update io dst fs trace saved" "saved \<longrightarrow> trace \<noteq> [] \<and> saved_as e io pin es (last trace dst)"
proof -
  have "safe_update io dst fs trace saved \<and> (saved \<longrightarrow> trace \<noteq> [] \<and> saved_as e io pin es (last trace dst))"
  proof (cases "length (tmppath dst) \<ge> C_PATH_MAX")
    case True
    with assms show ?thesis by (auto simp: keystore_atomic_save_def Let_def safe_update_def)
  next
    case False
    then obtain tr r where c: "wp11_keystore_create (cl_mem e) (cl_m e) (cl_crypto e) (cli_create io) True (tmppath dst) pin (Some es) (length es) mem fs = Some (mem', tr, r)"
      using assms by (auto simp: keystore_atomic_save_def Let_def split: option.splits sum.splits if_splits)
    have o: "\<forall>f \<in> set tr. f q = fs q" if "q \<noteq> tmppath dst" "q \<noteq> tmppath (tmppath dst)" for q
      using create_other [OF c] that by blast
    have l: "last (fs # tr) q = fs q" if "q \<noteq> tmppath dst" "q \<noteq> tmppath (tmppath dst)" for q
      using o [OF that] last_in_set [of tr] by (auto simp: last_ConsR)
    note n = tmp_names [of dst]
    have dst: "\<forall>f \<in> set tr. f dst = fs dst" "last (fs # tr) dst = fs dst" using o [of dst] l [of dst] n by auto
    show ?thesis
    proof (cases "is_ok r \<and> cli_rename_ok io")
      case True
      then have r: "r = Inr ()" by (cases r) auto
      let ?x = "(last (fs # tr))(tmppath dst := None, dst := last (fs # tr) (tmppath dst))"
      have t: "trace = tr @ [?x]" "saved" using assms c True False r by (simp_all add: keystore_atomic_save_def Let_def)
      have "last (fs # tr) (tmppath dst) = last tr (tmppath dst)" using create_ok_trace(1) [OF c [unfolded r]] by (simp add: last_ConsR)
      with create_saved_as [OF c [unfolded r]] have "saved_as e io pin es (?x dst)" by simp
      with t o dst n l show ?thesis by (auto simp: safe_update_def simp del: last.simps)
    next
      case nok: False
      have t: "trace = tr @ (if cli_remove_ok io then [(last (fs # tr))(tmppath dst := None)] else [])" "\<not> saved"
        using assms c nok False by (auto simp: keystore_atomic_save_def Let_def split: sum.splits if_splits)
      with o dst n l show ?thesis by (auto simp: safe_update_def simp del: last.simps)
    qed
  qed
  then show "safe_update io dst fs trace saved" "saved \<longrightarrow> trace \<noteq> [] \<and> saved_as e io pin es (last trace dst)" by auto
qed

lemma safe_none: "safe_update io path fs [] saved"
  by (simp add: safe_update_def)

lemma copy_entries_eq: "length (entries ks) = ks_count ks \<Longrightarrow> copy_entries ks = entries ks"
  by (intro nth_equalityI) (auto simp: copy_entries_def wp11_keystore_count_def wp11_keystore_get_def)

lemma load_with_pin_Inr:
  assumes "load_with_pin e io mem = Some (Inr (pin, mem1, ks))"
  shows "read_pin (pin_ios io 0) PIN_BUF = Some pin" "wp11_keystore_load (cl_mem e) (cl_m e) (cl_crypto e) (cli_load io) True pin mem = Some (mem1, Inr ks)"
  using assms by (auto simp: load_with_pin_def split: option.splits prod.splits sum.splits)

lemma copy_entries_loaded: "load_with_pin e io mem = Some (Inr (pin, mem1, ks)) \<Longrightarrow> copy_entries ks = entries ks"
  using loaded_entries_ok(1) load_with_pin_Inr(2) copy_entries_eq by blast

text \<open>What a command has to save, the PIN and the entries: the keys of the files with new identifiers; the entries loaded under the PIN of the
  prompt with one more, without those the options name, all of them under a new PIN, or with the certificate at the named ones.\<close>

definition create_writes :: "cli_env \<Rightarrow> cli_io \<Rightarrow> byte list list \<Rightarrow> ks_mem \<Rightarrow> byte list \<Rightarrow> wp11_key_entry list \<Rightarrow> bool" where
  "create_writes e io args mem pin es \<longleftrightarrow>
     (\<exists>ks out mem1. create_args args [] None = Some (ks, Some out) \<and> read_pin (pin_ios io 0) PIN_BUF = Some pin
        \<and> load_keys e io 0 (map (\<lambda>k. the (snd k)) ks) [] mem = (mem1, es, True))"

definition import_writes :: "cli_env \<Rightarrow> cli_io \<Rightarrow> byte list list \<Rightarrow> ks_mem \<Rightarrow> byte list \<Rightarrow> wp11_key_entry list \<Rightarrow> bool" where
  "import_writes e io args mem pin es \<longleftrightarrow>
     (\<exists>keyfile lbl mem1 ks mem2 b der kt kid. import_args (tl args) None None = Some (Some keyfile, Some lbl)
        \<and> load_with_pin e io mem = Some (Inr (pin, mem1, ks)) \<and> load_key_file e (key_files io 0) mem1 = (mem2, Some (b, der, kt))
        \<and> wp11_keystore_gen_id (fst (gen_ids io 0)) (snd (gen_ids io 0)) = Inr kid \<and> es = entries ks @ [cli_entry kid lbl kt (b, der)])"

definition remove_writes :: "cli_env \<Rightarrow> cli_io \<Rightarrow> byte list list \<Rightarrow> ks_mem \<Rightarrow> byte list \<Rightarrow> wp11_key_entry list \<Rightarrow> bool" where
  "remove_writes e io args mem pin es \<longleftrightarrow>
     (\<exists>by_label by_id mem1 ks. remove_args (tl args) None None = Some (by_label, by_id)
        \<and> load_with_pin e io mem = Some (Inr (pin, mem1, ks)) \<and> es = filter (\<lambda>k. \<not> entry_removed by_label by_id k) (entries ks))"

definition pin_change_writes :: "cli_env \<Rightarrow> cli_io \<Rightarrow> ks_mem \<Rightarrow> byte list \<Rightarrow> wp11_key_entry list \<Rightarrow> bool" where
  "pin_change_writes e io mem pin es \<longleftrightarrow>
     (\<exists>oldpin mem1 ks. load_with_pin e io mem = Some (Inr (oldpin, mem1, ks)) \<and> read_pin (pin_ios io 1) PIN_BUF = Some pin \<and> es = entries ks)"

definition cert_add_writes :: "cli_env \<Rightarrow> cli_io \<Rightarrow> byte list list \<Rightarrow> ks_mem \<Rightarrow> byte list \<Rightarrow> wp11_key_entry list \<Rightarrow> bool" where
  "cert_add_writes e io args mem pin es \<longleftrightarrow>
     (\<exists>lbl certfile mem1 ks mem2 cert. cert_args (tl args) None None = Some (Some lbl, Some certfile)
        \<and> load_with_pin e io mem = Some (Inr (pin, mem1, ks)) \<and> load_cert_file e (cert_file io) mem1 = (mem2, Some cert)
        \<and> es = map (\<lambda>k. if cstr (label k) = lbl then k\<lparr>cert_bytes := Some cert\<rparr> else k) (entries ks))"

definition command_writes :: "cli_env \<Rightarrow> cli_io \<Rightarrow> byte list list \<Rightarrow> ks_mem \<Rightarrow> byte list \<Rightarrow> wp11_key_entry list \<Rightarrow> bool" where
  "command_writes e io args mem pin es \<longleftrightarrow>
     (let sub = hd args; rest = tl args in
      if sub = str ''create'' then create_writes e io rest mem pin es
      else if sub = str ''import-key'' then import_writes e io rest mem pin es
      else if sub = str ''remove-key'' then remove_writes e io rest mem pin es
      else if sub = str ''pin-change'' then pin_change_writes e io mem pin es
      else sub = str ''cert-add'' \<and> cert_add_writes e io rest mem pin es)"

text \<open>\<open>W\<close> is what the command saves when it succeeds, \<open>None\<close> for a command that only reads.\<close>

definition command_safe ::
  "cli_env \<Rightarrow> cli_io \<Rightarrow> (byte list \<Rightarrow> wp11_key_entry list \<Rightarrow> bool) option \<Rightarrow> byte list \<Rightarrow> files \<Rightarrow> cli_result \<Rightarrow> bool" where
  "command_safe e io W path fs r \<longleftrightarrow>
     (\<forall>mem' trace out code. r = Some (mem', trace, out, code) \<longrightarrow>
        (code = 0 \<or> code = 1) \<and> safe_update io path fs trace (code = 0) \<and> (code \<noteq> 0 \<longrightarrow> out = [])
        \<and> (code = 0 \<longrightarrow> (case W of None \<Rightarrow> trace = []
             | Some w \<Rightarrow> trace \<noteq> [] \<and> (\<exists>pin es. w pin es \<and> saved_as e io pin es (last trace path)))))"

lemma command_safe_simps [simp]: "command_safe e io W path fs (Some (mem, [], [], 1))" "command_safe e io W path fs (Some (mem, [], [], Suc 0))"
   "command_safe e io None path fs (Some (mem, [], out, 0))" "command_safe e io W path fs None"
  by (simp_all add: command_safe_def safe_none)

lemma save_and_free_safe:
  assumes "w pin es"
  shows "command_safe e io (Some w) path fs (save_and_free e io path pin es ks extra msg mem fs)"
  using save_safe [of e io path pin es mem fs] assms by (fastforce simp: save_and_free_def command_safe_def split: option.splits)

lemmas safe_splits = option.split prod.split sum.split list.split bool.split

text \<open>The keystore file a command is about: the last \<open>--output\<close> of \<open>create\<close>, and the first argument of the others.\<close>

definition keystore_target :: "byte list list \<Rightarrow> byte list" where
  "keystore_target args =
     (case args of
        [] \<Rightarrow> []
      | sub # rest \<Rightarrow>
          if sub = str ''create'' then (case create_args rest [] None of Some (ks, Some path) \<Rightarrow> path | _ \<Rightarrow> [])
          else if rest = [] then [] else hd rest)"

lemma create_safe:
  "command_safe e io (Some (create_writes e io args mem)) (keystore_target (str ''create'' # args)) fs (cmd_keystore_create e io args mem fs)"
  by (auto simp: cmd_keystore_create_def Let_def split: safe_splits)
    (auto simp: command_safe_def keystore_target_def create_writes_def dest: save_safe)

lemma import_safe:
  "command_safe e io (Some (import_writes e io args mem)) (if args = [] then [] else hd args) fs (cmd_keystore_import_key e io args mem fs)"
  by (auto simp: cmd_keystore_import_key_def Let_def import_writes_def copy_entries_loaded intro!: save_and_free_safe split: safe_splits)

lemma remove_safe:
  "command_safe e io (Some (remove_writes e io args mem)) (if args = [] then [] else hd args) fs (cmd_keystore_remove_key e io args mem fs)"
  by (auto simp: cmd_keystore_remove_key_def Let_def remove_writes_def copy_entries_loaded intro!: save_and_free_safe split: safe_splits)

lemma pin_change_safe:
  "command_safe e io (Some (pin_change_writes e io mem)) (if args = [] then [] else hd args) fs (cmd_keystore_pin_change e io args mem fs)"
  by (auto simp: cmd_keystore_pin_change_def Let_def pin_change_writes_def copy_entries_loaded intro!: save_and_free_safe split: safe_splits)

lemma cert_add_safe:
  "command_safe e io (Some (cert_add_writes e io args mem)) (if args = [] then [] else hd args) fs (cmd_keystore_cert_add e io args mem fs)"
  by (auto simp: cmd_keystore_cert_add_def Let_def cert_add_writes_def copy_entries_loaded intro!: save_and_free_safe split: safe_splits)

lemma info_safe: "command_safe e io None path fs (cmd_keystore_info f args mem)"
  by (auto simp: cmd_keystore_info_def Let_def split: safe_splits)

lemma list_safe: "command_safe e io None path fs (cmd_keystore_list e io args mem)"
  by (auto simp: cmd_keystore_list_def split: safe_splits)

definition read_only_command :: "byte list list \<Rightarrow> bool" where
  "read_only_command args \<longleftrightarrow> hd args = str ''info'' \<or> hd args = str ''list''"

lemma command_is_safe:
  "command_safe e io (if read_only_command args then None else Some (command_writes e io args mem)) (keystore_target args) fs (cmd_keystore e io args mem fs)"
proof (cases args)
  case Nil
  then show ?thesis by (simp add: cmd_keystore_def)
next
  case (Cons sub rest)
  have d: "str ''info'' \<noteq> str ''create''" "str ''list'' \<noteq> str ''create''" by (simp_all add: str_def)
  show ?thesis
  proof (cases "sub = str ''create''")
    case True
    then show ?thesis using create_safe [of e io rest mem fs] d
      by (simp add: Cons cmd_keystore_def command_writes_def [abs_def] read_only_command_def)
  next
    case False
    then have "keystore_target args = (if rest = [] then [] else hd rest)" by (simp add: Cons keystore_target_def)
    then show ?thesis
      using False import_safe [of e io rest mem fs] remove_safe [of e io rest mem fs] pin_change_safe [of e io mem rest fs]
        cert_add_safe [of e io rest mem fs] d
      by (auto simp: info_safe list_safe Cons cmd_keystore_def command_writes_def [abs_def] read_only_command_def str_def)
  qed
qed

text \<open>C4. A keystore command is atomic and saves what it should: it exits with 0 or 1 and prints nothing on standard output when it fails;
  no file changes but the keystore named by its arguments and the temporary files \<open>.tmp\<close> and \<open>.tmp.tmp\<close> beside it; the keystore
  itself changes only in the very last file operation, and only when the command succeeds: then its content is the complete sealed
  image, under the command's PIN, of exactly the entries the command is to save, and the temporary file is gone; \<open>info\<close> and \<open>list\<close> change nothing.  After
  a failure the temporary file is gone too, unless \<open>remove\<close>, whose result the code ignores, fails.\<close>
theorem keystore_commands_atomic:
  assumes "cmd_keystore e io args mem fs = Some (mem', trace, out, code)"
  defines "path \<equiv> keystore_target args"
  shows "(code = 0 \<or> code = 1) \<and> (code \<noteq> 0 \<longrightarrow> out = [])
    \<and> (\<forall>f \<in> set trace. \<forall>q. q \<notin> {path, tmppath path, tmppath (tmppath path)} \<longrightarrow> f q = fs q)
    \<and> (\<forall>f \<in> set (if code = 0 then butlast trace else trace). f path = fs path)
    \<and> (code = 0 \<longrightarrow> (if read_only_command args then trace = [] else trace \<noteq> []
         \<and> (\<exists>pin es. command_writes e io args mem pin es \<and> saved_as e io pin es (last trace path))))
    \<and> (trace = [] \<or> last trace (tmppath path) = None \<or> (code \<noteq> 0 \<and> \<not> cli_remove_ok io))"
proof -
  have "command_safe e io (if read_only_command args then None else Some (command_writes e io args mem)) path fs (cmd_keystore e io args mem fs)"
    unfolding path_def by (rule command_is_safe)
  then show ?thesis unfolding command_safe_def safe_update_def using assms(1) by auto
qed

section \<open>What a command leaves in the file\<close>

text \<open>A load that reads this content, however the reads are cut, and a content from which every such load gets these keys.\<close>

definition reads_as :: "load_io \<Rightarrow> byte list \<Rightarrow> bool" where
  "reads_as lio content \<longleftrightarrow> open_ok lio \<and> fstat_ok lio \<and> rd_data (reads lio) = content \<and> st_size lio = length content \<and> rd_benign (reads lio)"

definition keystore_holds ::
  "nat \<Rightarrow> crypto \<Rightarrow> byte list option \<Rightarrow> byte list \<Rightarrow> (byte list \<times> byte list \<times> int \<times> byte list option \<times> byte list option) list \<Rightarrow> bool" where
  "keystore_holds m cr file_content pin views \<longleftrightarrow>
     (\<exists>content. file_content = Some content \<and>
       (\<forall>env lio mem. mem_plenty env \<longrightarrow> reads_as lio content \<longrightarrow>
          (\<exists>mem' ks. wp11_keystore_load env m cr lio True pin mem = Some (mem', Inr ks) \<and> map entry_view (entries ks) = views)))"

definition good_rng :: "create_io \<Rightarrow> bool" where
  "good_rng cio \<longleftrightarrow> (\<forall>s. rng_salt cio = Some s \<longrightarrow> length s = 32) \<and> (\<forall>n. rng_nonce cio = Some n \<longrightarrow> length n = 12)"

lemma save_holds:
  assumes "keystore_atomic_save e io dst pin es mem fs = Some (mem', trace, True)" "gcm_sound (cl_crypto e)" "good_rng (cli_create io)"
    "\<forall>k \<in> set es. entry_ok k" "length (payload_bytes es) \<le> 524288"
  shows "keystore_holds (cl_m e) (cl_crypto e) (last trace dst) pin (map entry_view es)"
proof -
  obtain tr where c: "wp11_keystore_create (cl_mem e) (cl_m e) (cl_crypto e) (cli_create io) True (tmppath dst) pin (Some es) (length es) mem fs = Some (mem', tr, Inr ())"
    and t: "last trace dst = last (fs # tr) (tmppath dst)"
    using assms(1) by (auto simp: keystore_atomic_save_def Let_def split: option.splits sum.splits if_splits)
  obtain img where i: "last tr (tmppath dst) = Some img" using create_ok_trace(2) [OF c] by blast
  have "last trace dst = Some img" using t i create_ok_trace(1) [OF c] by (simp add: last_ConsR)
  moreover have "\<exists>mem2 ks. wp11_keystore_load env (cl_m e) (cl_crypto e) lio True pin mm = Some (mem2, Inr ks) \<and> map entry_view (entries ks) = map entry_view es"
    if "mem_plenty env" "reads_as lio img" for env lio mm
    using created_loads [OF c assms(4,5,2), of env lio mm] that assms(3) i by (auto simp: reads_as_def good_rng_def)
  ultimately show ?thesis by (simp add: keystore_holds_def)
qed

lemma save_and_free_holds:
  assumes "save_and_free e io path pin es ks extra msg mem fs = Some (mem', trace, out, 0)" "gcm_sound (cl_crypto e)" "good_rng (cli_create io)"
    "\<forall>k \<in> set es. entry_ok k" "length (payload_bytes es) \<le> 524288"
  shows "keystore_holds (cl_m e) (cl_crypto e) (last trace path) pin (map entry_view es)"
  using assms(1) save_holds [OF _ assms(2-5)] by (auto simp: save_and_free_def split: option.splits if_splits)

text \<open>C5. \<open>wp11 keystore pin-change\<close>: when it succeeds, the new PIN has at least 6 bytes, and the file then opens with the new PIN, on every machine
  with memory, to exactly the keys and certificates that opened with the old one, in their order.  (The payload must not exceed what the
  loader accepts; of up to 64 entries only those that nearly all carry a key and a certificate of maximal size do.)\<close>
theorem pin_change_keeps_keys:
  assumes "cmd_keystore_pin_change e io args mem fs = Some (mem', trace, out, 0)" "gcm_sound (cl_crypto e)" "good_rng (cli_create io)"
  shows "\<exists>path opts oldpin newpin ks mem1. args = path # opts
    \<and> read_pin (pin_ios io 0) PIN_BUF = Some oldpin \<and> read_pin (pin_ios io 1) PIN_BUF = Some newpin \<and> 6 \<le> length newpin
    \<and> wp11_keystore_load (cl_mem e) (cl_m e) (cl_crypto e) (cli_load io) True oldpin mem = Some (mem1, Inr ks)
    \<and> (length (payload_bytes (entries ks)) \<le> 524288 \<longrightarrow>
         keystore_holds (cl_m e) (cl_crypto e) (last trace path) newpin (map entry_view (entries ks)))"
proof -
  obtain path opts oldpin mem1 ks newpin msg where a: "args = path # opts" "load_with_pin e io mem = Some (Inr (oldpin, mem1, ks))"
    "read_pin (pin_ios io 1) PIN_BUF = Some newpin" "\<not> length newpin < KS_MIN_PIN_LEN"
    "save_and_free e io path newpin (copy_entries ks) ks id msg mem1 fs = Some (mem', trace, out, 0)"
    using assms(1) by (auto simp: cmd_keystore_pin_change_def Let_def split: list.splits option.splits sum.splits if_splits)
  note l = load_with_pin_Inr [OF a(2)]
  note ok = loaded_entries_ok [OF l(2)]
  have "keystore_holds (cl_m e) (cl_crypto e) (last trace path) newpin (map entry_view (entries ks))" if "length (payload_bytes (entries ks)) \<le> 524288"
    using save_and_free_holds [OF a(5) assms(2,3)] ok that by (simp add: copy_entries_eq)
  with a(1,3,4) l show ?thesis by (auto simp: KS_MIN_PIN_LEN_def)
qed

text \<open>C6. \<open>wp11 keystore remove-key\<close>: when it succeeds, the file opens with the same PIN to exactly the entries that match neither the
  label nor the identifier, in their order, and at least one entry is gone.\<close>
theorem remove_key_keeps_others:
  assumes "cmd_keystore_remove_key e io args mem fs = Some (mem', trace, out, 0)" "gcm_sound (cl_crypto e)" "good_rng (cli_create io)"
  shows "\<exists>path opts by_label by_id pin ks mem1. args = path # opts \<and> remove_args opts None None = Some (by_label, by_id)
    \<and> read_pin (pin_ios io 0) PIN_BUF = Some pin
    \<and> wp11_keystore_load (cl_mem e) (cl_m e) (cl_crypto e) (cli_load io) True pin mem = Some (mem1, Inr ks)
    \<and> (\<exists>k \<in> set (entries ks). entry_removed by_label by_id k)
    \<and> (length (payload_bytes (filter (\<lambda>k. \<not> entry_removed by_label by_id k) (entries ks))) \<le> 524288 \<longrightarrow>
         keystore_holds (cl_m e) (cl_crypto e) (last trace path) pin (map entry_view (filter (\<lambda>k. \<not> entry_removed by_label by_id k) (entries ks))))"
proof -
  obtain path opts by_label by_id pin mem1 ks msg where a: "args = path # opts" "remove_args opts None None = Some (by_label, by_id)"
    "load_with_pin e io mem = Some (Inr (pin, mem1, ks))"
    "length (filter (\<lambda>k. \<not> entry_removed by_label by_id k) (copy_entries ks)) \<noteq> length (copy_entries ks)"
    "save_and_free e io path pin (filter (\<lambda>k. \<not> entry_removed by_label by_id k) (copy_entries ks)) ks id msg mem1 fs = Some (mem', trace, out, 0)"
    using assms(1) by (auto simp: cmd_keystore_remove_key_def Let_def split: list.splits option.splits sum.splits if_splits)
  note l = load_with_pin_Inr [OF a(3)]
  note ok = loaded_entries_ok [OF l(2)]
  have c: "copy_entries ks = entries ks" using ok(1) by (rule copy_entries_eq)
  have "\<exists>k \<in> set (entries ks). entry_removed by_label by_id k"
    using a(4) unfolding c by (metis filter_True)
  moreover have "keystore_holds (cl_m e) (cl_crypto e) (last trace path) pin (map entry_view (filter (\<lambda>k. \<not> entry_removed by_label by_id k) (entries ks)))"
    if "length (payload_bytes (filter (\<lambda>k. \<not> entry_removed by_label by_id k) (entries ks))) \<le> 524288"
    using save_and_free_holds [OF a(5) assms(2,3)] ok that by (simp add: c)
  ultimately show ?thesis using a(1,2) l by auto
qed

section \<open>Concrete runs\<close>

text \<open>A keystore with one key under the PIN \<open>1\<close>, the answers at the prompts, and an environment with the plain cipher.\<close>

lemma create_runs:
  assumes "length keys \<le> 1" "\<forall>k \<in> set keys. entry_ok k" "pin \<noteq> []" "length pin \<le> 100" "length path \<le> 100"
  shows "\<exists>mem1 trace. wp11_keystore_create sample_env (2 ^ 64) plain_crypto sample_io True path pin (Some keys) (length keys) mem fs
     = Some (mem1, trace, Inr ())"
proof -
  have l: "length (payload_bytes keys) \<le> 5 + length keys * 8412" using length_payload_bytes [OF assms(2)] .
  have enc: "encode_cbor_payload (5 + length keys * (4300 + KS_CERT_MAX + 16)) keys = Inr (payload_bytes keys)"
    using encode_payload_eq [OF assms(2)] l assms(1) by (simp add: KS_MAX_ENTRIES_def KS_CERT_MAX_def)
  have len: "length (payload_bytes keys) \<le> 8417" using l assms(1) by simp
  have ne: "payload_bytes keys \<noteq> []" using payload_bytes_ne by blast
  have hd: "length (build_header s n l) \<le> 1000" if "length s = 32" "length n = 12" for s n l
    using that by (simp add: build_header_def P11K_MAGIC_def str_def write_u32be_def)
  have hn: "build_header s n l \<noteq> []" "drop 1 (build_header s n l) \<noteq> []" for s n l by (simp_all add: build_header_def P11K_MAGIC_def str_def)
  have k: "length keys = 0 \<or> length keys = 1" using assms(1) by linarith
  show ?thesis
    using enc len ne hd [of "replicate 32 1" "replicate 12 2" "length (payload_bytes keys)"] hn assms(3-5) k
    by (auto simp: wp11_keystore_create_def sample_env_def mem_malloc_def Let_def KS_CERT_MAX_def KS_MAX_ENTRIES_def C_INT_MAX_def
        seal_def sample_io_def plain_crypto_def C_PATH_MAX_def write_file_def write_all.simps)
qed

definition demo_env :: cli_env where
  "demo_env = \<lparr>cl_mem = sample_env, cl_m = 2 ^ 64, cl_crypto = plain_crypto, cl_key_pem = (\<lambda>p n. None), cl_cert_pem = (\<lambda>p n. None),
     cl_is_ec = (\<lambda>d. True), cl_is_rsa = (\<lambda>d. False)\<rparr>"

definition demo_pin :: "byte list \<Rightarrow> pin_io" where
  "demo_pin p = \<lparr>tty_open = True, tty_setup_ok = True, tty_read = Some (p @ [LF]), stdin_read = None\<rparr>"

definition demo_io :: "byte list \<Rightarrow> cli_io" where
  "demo_io img = \<lparr>pin_ios = (\<lambda>i. demo_pin (if i = 0 then [0x31] else [0x31, 0x32, 0x33, 0x34, 0x35, 0x36])),
     key_files = (\<lambda>i. \<lparr>fi_open = False, fi_seek_ok = True, fi_tell_ok = True, fi_size = 0, fi_read = []\<rparr>),
     cert_file = \<lparr>fi_open = False, fi_seek_ok = True, fi_tell_ok = True, fi_size = 0, fi_read = []\<rparr>,
     gen_ids = (\<lambda>i. (True, None)), cli_load = sample_load_io img, cli_create = sample_io, cli_rename_ok = True, cli_remove_ok = True\<rparr>"

lemma demo_pins: "read_pin (pin_ios (demo_io img) 0) PIN_BUF = Some [0x31]"
  "read_pin (pin_ios (demo_io img) (Suc i)) PIN_BUF = Some [0x31, 0x32, 0x33, 0x34, 0x35, 0x36]"
  by (simp_all add: demo_io_def demo_pin_def read_pin_def PIN_BUF_def chomp_def LF_def)

lemma demo_load:
  obtains img mem1 ks where "load_with_pin demo_env (demo_io img) mem0 = Some (Inr ([0x31], mem1, ks))" "copy_entries ks = entries ks"
    "map entry_view (entries ks) = [entry_view sample_entry]" "\<forall>k \<in> set (entries ks). entry_ok k"
proof -
  obtain mem1 trace where c: "wp11_keystore_create sample_env (2 ^ 64) plain_crypto sample_io True [0x6B] [0x31]
      (Some [sample_entry]) (length [sample_entry]) mem0 (\<lambda>p. None) = Some (mem1, trace, Inr ())"
    using create_runs [of "[sample_entry]" "[0x31]" "[0x6B]" mem0 "\<lambda>p. None"] sample_entry_ok by auto
  have snd: "gcm_sound plain_crypto" by (simp add: gcm_sound_def plain_crypto_def)
  obtain img where img: "last trace [0x6B] = Some img" "length img > 60"
    using create_image [OF c _ snd] sample_entry_ok
    by (auto simp: build_header_def P11K_MAGIC_def str_def write_u32be_def plain_crypto_def sample_io_def)
  have r: "rd_data (reads (sample_load_io img)) = img" "rd_benign (reads (sample_load_io img))"
    using img(2) by (auto simp: rd_data_def rd_benign_def sample_load_io_def)
  have "length (payload_bytes [sample_entry]) \<le> 524288"
    using length_payload_bytes [of "[sample_entry]"] sample_entry_ok by simp
  from created_loads [OF c _ this snd, of sample_env "sample_load_io img" mem0] r img(1) sample_entry_ok
  obtain mem2 ks where w: "wp11_keystore_load sample_env (2 ^ 64) plain_crypto (sample_load_io img) True [0x31] mem0 = Some (mem2, Inr ks)"
    "map entry_view (entries ks) = map entry_view [sample_entry]"
    by (auto simp: sample_io_def mem_plenty_def sample_env_def sample_load_io_def)
  have "load_with_pin demo_env (demo_io img) mem0 = Some (Inr ([0x31], mem2, ks))"
    using w(1) by (simp add: load_with_pin_def demo_pins demo_env_def) (simp add: demo_io_def)
  then show thesis
    using that w(2) loaded_entries_ok [OF w(1)] copy_entries_eq by auto
qed

lemma demo_sound: "gcm_sound (cl_crypto demo_env)" "good_rng (cli_create (demo_io img))"
  by (simp_all add: gcm_sound_def plain_crypto_def demo_env_def good_rng_def demo_io_def sample_io_def)

lemma demo_save:
  assumes "length es \<le> 1" "\<forall>k \<in> set es. entry_ok k" "pin \<noteq> []" "length pin \<le> 100"
  shows "\<exists>mem1 trace. save_and_free demo_env (demo_io img) [0x6B] pin es ks id msg mem fs = Some (mem1, trace, msg, 0)"
  using create_runs [OF assms, of "tmppath [0x6B]" mem fs]
  by (auto simp: save_and_free_def keystore_atomic_save_def Let_def demo_env_def demo_io_def tmppath_def str_def C_PATH_MAX_def)

lemma demo_pin_change:
  obtains img mem1 ks mem2 trace out where "load_with_pin demo_env (demo_io img) mem0 = Some (Inr ([0x31], mem1, ks))"
    "map entry_view (entries ks) = [entry_view sample_entry]" "\<forall>k \<in> set (entries ks). entry_ok k"
    "cmd_keystore_pin_change demo_env (demo_io img) [[0x6B]] mem0 (\<lambda>p. None) = Some (mem2, trace, out, 0)"
proof -
  obtain img mem1 ks where l: "load_with_pin demo_env (demo_io img) mem0 = Some (Inr ([0x31], mem1, ks))" "copy_entries ks = entries ks"
    "map entry_view (entries ks) = [entry_view sample_entry]" "\<forall>k \<in> set (entries ks). entry_ok k" by (rule demo_load)
  have "length (entries ks) = 1" using arg_cong [OF l(3), of length] by simp
  then obtain mem2 trace out where "cmd_keystore_pin_change demo_env (demo_io img) [[0x6B]] mem0 (\<lambda>p. None) = Some (mem2, trace, out, 0)"
    using demo_save [of "entries ks" "[0x31, 0x32, 0x33, 0x34, 0x35, 0x36]" img ks "str ''PIN changed for '' @ [0x6B] @ [LF]" mem1 "\<lambda>p. None"] l
      demo_pins(2) [of img 0] demo_pins(2) [of img 1]
    by (auto simp: cmd_keystore_pin_change_def Let_def KS_MIN_PIN_LEN_def numeral_2_eq_2)
  then show thesis by (rule that [OF l(1,3,4)])
qed

theorem pin_change_keeps_keys_witness:
  "\<exists>io mem' trace out. cmd_keystore_pin_change demo_env io [[0x6B]] mem0 (\<lambda>p. None) = Some (mem', trace, out, 0)
     \<and> keystore_holds (2 ^ 64) plain_crypto (last trace [0x6B]) [0x31, 0x32, 0x33, 0x34, 0x35, 0x36] [entry_view sample_entry]"
proof -
  obtain img mem1 ks mem2 trace out where l: "load_with_pin demo_env (demo_io img) mem0 = Some (Inr ([0x31], mem1, ks))"
    "map entry_view (entries ks) = [entry_view sample_entry]" "\<forall>k \<in> set (entries ks). entry_ok k"
    and c: "cmd_keystore_pin_change demo_env (demo_io img) [[0x6B]] mem0 (\<lambda>p. None) = Some (mem2, trace, out, 0)" by (rule demo_pin_change)
  have "length (entries ks) = 1" using arg_cong [OF l(2), of length] by simp
  then have "length (payload_bytes (entries ks)) \<le> 524288" using length_payload_bytes [OF l(3)] by simp
  with pin_change_keeps_keys [OF c demo_sound] load_with_pin_Inr(2) [OF l(1)] l(2) demo_pins(1) [of img] demo_pins(2) [of img 0]
  show ?thesis using c by (auto simp: demo_env_def)
qed

theorem remove_key_keeps_others_witness:
  "\<exists>io mem' trace out. cmd_keystore_remove_key demo_env io [[0x6B], str ''--label'', [0x6B, 0x31]] mem0 (\<lambda>p. None) = Some (mem', trace, out, 0)
     \<and> keystore_holds (2 ^ 64) plain_crypto (last trace [0x6B]) [0x31] []"
proof -
  obtain img mem1 ks where l: "load_with_pin demo_env (demo_io img) mem0 = Some (Inr ([0x31], mem1, ks))" "copy_entries ks = entries ks"
    "map entry_view (entries ks) = [entry_view sample_entry]" "\<forall>k \<in> set (entries ks). entry_ok k" by (rule demo_load)
  obtain k where k: "entries ks = [k]" "entry_view k = entry_view sample_entry" using l(3) by auto
  have a: "remove_args [str ''--label'', [0x6B, 0x31]] None None = Some (Some [0x6B, 0x31], None)" by (simp add: str_def)
  have r: "entry_removed (Some [0x6B, 0x31]) None k" using k(2) by (simp add: entry_removed_def entry_view_def sample_entry_def cstr_def)
  obtain mem2 trace out where c: "cmd_keystore_remove_key demo_env (demo_io img) [[0x6B], str ''--label'', [0x6B, 0x31]] mem0 (\<lambda>p. None) = Some (mem2, trace, out, 0)"
    using demo_save [of "[]" "[0x31]" img ks "str ''removed key from '' @ [0x6B] @ str '' ('' @ dec 0 @ str '' remaining)'' @ [LF]" mem1 "\<lambda>p. None"]
      l(1,2) k(1) r a
    by (auto simp: cmd_keystore_remove_key_def Let_def)
  have p: "length (payload_bytes []) \<le> 524288" using length_payload_bytes [of "[]"] by simp
  from remove_key_keeps_others [OF c demo_sound] load_with_pin_Inr(2) [OF l(1)] demo_pins(1) [of img] a r k(1) p
  show ?thesis using c by (auto simp: demo_env_def)
qed

theorem keystore_commands_atomic_witness:
  "\<exists>io mem' trace out pin es. cmd_keystore demo_env io [str ''pin-change'', [0x6B]] mem0 (\<lambda>p. None) = Some (mem', trace, out, 0)
     \<and> command_writes demo_env io [str ''pin-change'', [0x6B]] mem0 pin es \<and> saved_as demo_env io pin es (last trace [0x6B])"
proof -
  obtain img mem2 trace out where c: "cmd_keystore_pin_change demo_env (demo_io img) [[0x6B]] mem0 (\<lambda>p. None) = Some (mem2, trace, out, 0)"
    by (rule demo_pin_change)
  then have k: "cmd_keystore demo_env (demo_io img) [str ''pin-change'', [0x6B]] mem0 (\<lambda>p. None) = Some (mem2, trace, out, 0)"
    by (simp add: cmd_keystore_def str_def)
  have r: "\<not> read_only_command [str ''pin-change'', [0x6B]]" "keystore_target [str ''pin-change'', [0x6B]] = [0x6B]"
    by (simp_all add: read_only_command_def keystore_target_def str_def)
  have "\<exists>pin es. command_writes demo_env (demo_io img) [str ''pin-change'', [0x6B]] mem0 pin es \<and> saved_as demo_env (demo_io img) pin es (last trace [0x6B])"
    using keystore_commands_atomic [OF k, THEN conjunct2, THEN conjunct2, THEN conjunct2, THEN conjunct2, THEN conjunct1] r by simp
  with k show ?thesis by blast
qed

end
