(* ===== verification/Spec2Isabelle.thy ===== *)
theory Spec2Isabelle imports Secrecy TokenInfo KeyUse ObjectSearch WolfHsmSlots CliKeystore begin

text \<open>
  A verification development for wolfP11, a PKCS#11 module over wolfCrypt whose tokens are a software token, PIV and OpenPGP cards
  behind CCID readers, encrypted keystore files (on USB flash drives and in a directory) and a wolfHSM server.

  \<^bold>\<open>The program.\<close>  An application calls the functions \<open>C_...\<close> of \<open>src/wp11_pkcs11.c\<close>.  They work on three static tables: slots (one
  token each), sessions (opened by the application on a slot) and key objects, all under one lock.  A libusb callback adds and
  removes the slots of USB tokens that the token database knows, two watcher threads those of keystore files; both report to
  \<open>C_WaitForSlotEvent\<close> through a ring buffer with a mutex of its own.  \<open>C_Login\<close> opens a card (CCID, then PIV SELECT and VERIFY) or
  decrypts a keystore file and makes key objects from what it finds; \<open>C_Sign\<close>, \<open>C_Verify\<close>, \<open>C_Decrypt\<close> and \<open>C_DeriveKey\<close> dispatch on the
  backend of the key object; everything else is done with wolfCrypt in the layer itself.

  \<^bold>\<open>Theories\<close>, in the order of their imports.
  \<^item> \<open>WP_Prelude\<close>: machine types, byte slices, big-endian readings, shared lemmas.
  \<^item> \<open>BerTlv\<close>, \<open>ApduChannel\<close>, \<open>Ccid\<close>, \<open>Piv\<close>, \<open>PivCorrect\<close>, \<open>OpenPgp\<close>: the card side (\<open>src/wp11_ccid.c\<close>, \<open>src/wp11_proto_piv.c\<close>,
    \<open>src/wp11_proto_openpgp.c\<close>).  The state of the transport is \<open>wp11_ccid_ctx\<close>, with the sequence counter, the sticky desynchronisation
    flag and the state of the device.  The locale \<open>apdu_channel\<close> says what the protocols need of a transport, and CCID interprets it.
  \<^item> \<open>Cbor\<close>, \<open>KeystorePayload\<close>, \<open>Keystore\<close>, \<open>KeystoreCorrect\<close>: the keystore file (\<open>src/wp11_keystore.c\<close>): CBOR codec, payload with an
    explicit memory of numbered blocks on pages (locked by page, wiped, freed), header, loading, crash-safe creation.
  \<^item> \<open>TokenDb\<close>: the token table (\<open>src/wp11_token_db.c\<close>).
  \<^item> \<open>Pkcs11State\<close>: the state record \<open>wp11_state\<close> (tables, hotplug queue, heaps of CCID contexts, keystores and soft keys) and the handle checks;
    \<open>Hotplug\<close>: the ring buffer, with the locale \<open>bounded_fifo\<close> and its interpretation; \<open>Slots\<close>: arrival and departure of tokens;
    \<open>Sessions\<close>: sessions, \<open>C_Login\<close>, \<open>C_Logout\<close>, \<open>C_InitPIN\<close>; \<open>Lifecycle\<close>: \<open>C_Initialize\<close>, \<open>C_Finalize\<close>; \<open>Objects\<close>: search, destruction, latching
    attributes, \<open>C_SignInit\<close>; \<open>ObjectSearch\<close>: whole searches.
  \<^item> \<open>Backend\<close>: the operation tables of the software, keystore and USB backends (\<open>src/wp11_backend_*.c\<close>); \<open>WolfHsm\<close>: that of the wolfHSM
    backend, and \<open>WolfHsmSlots\<close>: its slots (connecting and listing the keys of the server, disconnecting, pairs made on the server, imported keys); \<open>SignVerify\<close>, \<open>Cipher\<close>, \<open>Digest\<close>, \<open>Attributes\<close>, \<open>KeyGen\<close>, \<open>TokenInfo\<close>: the crypto, object and information functions of
    \<open>src/wp11_pkcs11.c\<close>; \<open>KeyUse\<close>: generated keys in use.
  \<^item> \<open>CliText\<close>, \<open>CliKeystore\<close>: the command line tool (\<open>src/cli/wp11_cli.c\<close>): argument and text functions, PEM output, PIN input, the seven
    keystore commands over the keystore model.
  \<^item> \<open>LoginView\<close>, \<open>LoginInv\<close>, \<open>KeyFrame\<close>, \<open>Pkcs11Steps\<close>, \<open>Secrecy\<close>: the library as a transition system.  \<open>pkcs11_step\<close> is one call, one
    libusb event or one file event with any arguments and environment, \<open>pkcs11_reachable\<close> the states of all interleavings.

  \<^bold>\<open>Conventions.\<close>  Definitions have the names of the functions they translate.  A call returns the new state and a return code, or
  \<open>None\<close> where the code never returns or its behaviour is undefined (a read through a pointer of another type, behind a
  buffer or of a freed object).  A pointer the code compares with \<open>NULL\<close> is an option or a boolean; an output buffer is its
  capacity, and the bytes of the result are what is written.  Table indexes stand for pointers into the tables.  Lengths of
  buffers are natural numbers; casts to 32 and 16 bits and sums of lengths that a peer controls are written out modulo their width.

  \<^bold>\<open>Parameters.\<close>  libusb, wolfCrypt, the wolfHSM client library and the system calls are not code of the repository.  They are
  the fields of environment records (\<open>usb_env\<close>, \<open>crypto\<close>, \<open>login_env\<close>, \<open>crypto_env\<close>, \<open>hsm_api\<close>, \<open>create_io\<close>, \<open>init_env\<close>), arguments of every
  definition that uses them and arbitrary in every theorem.  Where a theorem needs a law (decryption inverts encryption,
  a signature made with a key verifies with it, Diffie-Hellman agrees, RSA is a bijection on its blocks), the law is a named
  hypothesis such as \<open>rsa_law\<close> or \<open>dh_law\<close>, and the witness of the theorem is a toy environment that satisfies it.

  \<^bold>\<open>What the theorems show.\<close>
  \<^item> Cards: what the PIV and OpenPGP operations send and return for an honest card (certificates in any number of chunks);
    for every card, bounds on what is written and on the number of exchanges (at most 2, at most 4098 for chained reads, where
    \<open>get_response_loop\<close> ends because a chunk that announces more is not empty and the object is capped at 4096 bytes); the transport accepts only the answer to the last request and stays shut after a lost answer.
  \<^item> Keystore files: created files load to the same entries; what loads was authenticated; key material is written to
    locked memory and wiped, and only \<open>munlock\<close> calls on pages that blocks share unlock it before that; after every file operation of a creation the path has the old or the new content.
  \<^item> Keystore commands: what each command leaves in the file, that it loads again to exactly the intended keys, and that a failure at any point costs none of them.
  \<^item> wolfHSM slots: a login shows exactly the keys the server offers, every key object borrows the open connection of its slot, a
    generated pair is evicted once, and a failed import leaves a dangling pointer.
  \<^item> Crypto functions: round trips of encryption and signatures, equality of one-part and multi-part operation, agreement of two
    derivations, generated pairs that work together, values that come back as they were stored.
  \<^item> The module: in all reachable states the reported session states agree with the logins; sensitive generated
    keys never leave the module; searches are complete; the ring buffer is a bounded queue with a count of what it drops.
  \<^item> Errors: theorems of kind \<open>error\<close> state what the code does where it does not do what its comments or PKCS#11 say.

  \<^bold>\<open>Bounds and fuel.\<close>  No definition takes fuel.  The loops that repeat a system call consume a list of the outcomes of these calls, and
  \<open>None\<close>, the call that never returns, is their value only when the list ends before the loop does; all other loops have a measure.  Tables have the sizes of
  \<open>wolfp11/wp11_settings.h\<close> and \<open>MAX_KEYS\<close> in \<open>src/wp11_pkcs11.c\<close>.

  \<^bold>\<open>Not modelled.\<close>
  \<^item> The wiring of the wolfHSM slots into the PKCS#11 functions (the calls from \<open>C_Login\<close>, \<open>C_Logout\<close>, \<open>C_Finalize\<close>, the mechanism list of these
    slots, the slot that \<open>C_Initialize\<close> adds): the transition system is the build without them, \<open>WolfHsmSlots\<close> stands beside it.
  \<^item> The loops of the watcher threads around \<open>poll\<close> and \<open>inotify\<close>, the test hooks that inject events, and the stubs that answer
    \<open>CKR_FUNCTION_NOT_SUPPORTED\<close> (one of them, \<open>unsupported\<close>, is there).
  \<^item> The commands of \<open>src/cli/wp11_cli.c\<close> that only print what the library answers (tokens, mechanisms, keys) and its \<open>main\<close>.
  \<^item> Memory outside the heap blocks of the keystore: the derived key and the PIN buffers on the stack.  A pointer with a length is as much memory as
    the caller's buffer has; what a call with a length beyond its buffer reads is outside of the model, unless a definition says otherwise.
  \<^item> Timing: the constant-time comparisons are modelled by their results.
\<close>

end
